(* ===== verification/GD_Prelude.thy ===== *)
theory GD_Prelude
  imports Complex_Main "HOL-Library.Word" "HOL-Library.Multiset"
begin

section \<open>Prelude: results, C++ arithmetic and shared lemmas\<close>

text \<open>
  What every component theory of the development shares:
  \<^item> the result type of code that may abort: \<open>Inl\<close> carries the fault (a failed
    \<open>assert\<close>, or an access outside an array), \<open>Inr\<close> the value, with its bind
    \<open>bindE\<close> and its guard \<open>assertE\<close>;
  \<^item> the C++ conversions the sources rely on: truncation of a \<open>double\<close> to an integer,
    narrowing of a \<open>long\<close> to a 32-bit \<open>int\<close>, division of \<open>int\<close>s;
  \<^item> substring search (\<open>std::string::find\<close>), first-match search in a table, and generic
    lemmas on lists, filters and counts.
  A \<open>double\<close> is a real number here: rounding of IEEE arithmetic is not modelled. An
  \<open>int\<close> or \<open>long\<close> counter is an unbounded integer, except where the source narrows a
  value (\<open>to_int32\<close>); addresses are 64-bit words.
\<close>

named_theorems result_simps \<open>evaluation of results\<close>
named_theorems inv_intros \<open>preservation of component invariants\<close>
named_theorems frame_simps \<open>what an operation leaves unchanged\<close>

subsection \<open>Results\<close>

datatype fault = AssertFail string | OutOfBounds string

type_synonym 'a result = "fault + 'a"
type_synonym addr = "64 word"

definition bindE :: "'a result \<Rightarrow> ('a \<Rightarrow> 'b result) \<Rightarrow> 'b result" where
  "bindE m f = (case m of Inl e \<Rightarrow> Inl e | Inr x \<Rightarrow> f x)"

definition assertE :: "string \<Rightarrow> bool \<Rightarrow> unit result" where
  "assertE what b = (if b then Inr () else Inl (AssertFail what))"

definition boundsE :: "string \<Rightarrow> bool \<Rightarrow> unit result" where
  "boundsE what b = (if b then Inr () else Inl (OutOfBounds what))"

text \<open>A loop over a list.\<close>

fun foldE :: "('a \<Rightarrow> 's \<Rightarrow> 's result) \<Rightarrow> 'a list \<Rightarrow> 's \<Rightarrow> 's result" where
  "foldE f [] s = Inr s"
| "foldE f (x # xs) s = bindE (f x s) (foldE f xs)"

subsection \<open>C++ conversions\<close>

definition trunc :: "real \<Rightarrow> int" where
  "trunc x = (if 0 \<le> x then \<lfloor>x\<rfloor> else \<lceil>x\<rceil>)"

definition to_int32 :: "int \<Rightarrow> int" where
  "to_int32 x = (x + 2 ^ 31) mod 2 ^ 32 - 2 ^ 31"

definition cdiv :: "int \<Rightarrow> int \<Rightarrow> int" where
  "cdiv a b = sgn a * sgn b * (\<bar>a\<bar> div \<bar>b\<bar>)"

definition crem :: "int \<Rightarrow> int \<Rightarrow> int" where
  "crem a b = a - b * cdiv a b"

subsection \<open>Strings and tables\<close>

fun is_prefix :: "string \<Rightarrow> string \<Rightarrow> bool" where
  "is_prefix [] ys = True"
| "is_prefix (x # xs) [] = False"
| "is_prefix (x # xs) (y # ys) = (x = y \<and> is_prefix xs ys)"

fun contains :: "string \<Rightarrow> string \<Rightarrow> bool" where
  "contains pat [] = (pat = [])"
| "contains pat (c # s) = (is_prefix pat (c # s) \<or> contains pat s)"

fun first_index :: "('a \<Rightarrow> bool) \<Rightarrow> 'a list \<Rightarrow> nat option" where
  "first_index P [] = None"
| "first_index P (x # xs) = (if P x then Some 0 else map_option Suc (first_index P xs))"

subsection \<open>Lemmas on results\<close>

lemma bindE_simps [simp, result_simps]:
  "bindE (Inl e) f = Inl e"
  "bindE (Inr x) f = f x"
  by (simp_all add: bindE_def)

lemma bindE_assoc [simp]: "bindE (bindE m f) g = bindE m (\<lambda>x. bindE (f x) g)"
  by (simp add: bindE_def split: sum.split)

lemma bindE_Inr_iff: "bindE m f = Inr y \<longleftrightarrow> (\<exists>x. m = Inr x \<and> f x = Inr y)"
  by (cases m) simp_all

lemma bindE_Inl_iff:
  "bindE m f = Inl e \<longleftrightarrow> m = Inl e \<or> (\<exists>x. m = Inr x \<and> f x = Inl e)"
  by (cases m) simp_all

lemma bindE_InrE [elim!]:
  assumes "bindE m f = Inr y"
  obtains x where "m = Inr x" and "f x = Inr y"
  using assms by (auto simp: bindE_Inr_iff)

lemma bindE_cong [fundef_cong]:
  "m = m' \<Longrightarrow> (\<And>x. m' = Inr x \<Longrightarrow> f x = f' x) \<Longrightarrow> bindE m f = bindE m' f'"
  by (cases m') simp_all

lemma assertE_simps [simp, result_simps]:
  "assertE w True = Inr ()"
  "assertE w False = Inl (AssertFail w)"
  by (simp_all add: assertE_def)

lemma assertE_Inr_iff [simp]: "assertE w b = Inr u \<longleftrightarrow> b"
  by (simp add: assertE_def)

lemma assertE_true [simp]: "b \<Longrightarrow> assertE w b = Inr ()"
  by simp

lemma boundsE_simps [simp, result_simps]:
  "boundsE w True = Inr ()"
  "boundsE w False = Inl (OutOfBounds w)"
  by (simp_all add: boundsE_def)

lemma boundsE_Inr_iff [simp]: "boundsE w b = Inr u \<longleftrightarrow> b"
  by (simp add: boundsE_def)

lemma boundsE_true [simp]: "b \<Longrightarrow> boundsE w b = Inr ()"
  by simp

subsection \<open>Lemmas on conversions\<close>

lemma trunc_int [simp]: "trunc (real_of_int n) = n"
  by (simp add: trunc_def)

lemma trunc_nonneg: "0 \<le> x \<Longrightarrow> trunc x = \<lfloor>x\<rfloor>"
  by (simp add: trunc_def)

lemma trunc_nonpos_iff: "trunc x \<le> 0 \<longleftrightarrow> x < 1"
  by (auto simp: trunc_def floor_le_iff ceiling_le_iff)

lemma trunc_le_iff_pos: "0 \<le> x \<Longrightarrow> real_of_int (trunc x) \<le> x"
  by (simp add: trunc_def)

lemma to_int32_id: "- (2 ^ 31) \<le> x \<Longrightarrow> x < 2 ^ 31 \<Longrightarrow> to_int32 x = x"
  by (simp add: to_int32_def)

lemma to_int32_wrap: "2 ^ 31 \<le> x \<Longrightarrow> x < 2 ^ 32 + 2 ^ 31 \<Longrightarrow> to_int32 x = x - 2 ^ 32"
proof -
  assume "2 ^ 31 \<le> x" and "x < 2 ^ 32 + 2 ^ 31"
  then have "(x + 2 ^ 31 - 2 ^ 32) mod 2 ^ 32 = x + 2 ^ 31 - 2 ^ 32"
    by (intro mod_pos_pos_trivial) simp_all
  then have "(x + 2 ^ 31) mod 2 ^ 32 = x + 2 ^ 31 - 2 ^ 32"
    by (simp only: minus_mod_self2)
  then show ?thesis
    by (simp add: to_int32_def)
qed

lemma cdiv_nonneg: "0 \<le> a \<Longrightarrow> 0 < b \<Longrightarrow> cdiv a b = a div b"
  by (cases "a = 0") (simp_all add: cdiv_def sgn_if)

lemma crem_nonneg: "0 \<le> a \<Longrightarrow> 0 < b \<Longrightarrow> crem a b = a mod b"
  by (simp add: crem_def cdiv_nonneg minus_mult_div_eq_mod)

lemma ceiling_quotient: "\<lceil>real_of_int a / real_of_int b\<rceil> = - ((- a) div b)"
proof -
  have "- (real_of_int a / real_of_int b) = real_of_int (- a) / real_of_int b"
    by simp
  then have "\<lfloor>- (real_of_int a / real_of_int b)\<rfloor> = (- a) div b"
    by (simp only: floor_divide_of_int_eq)
  then show ?thesis by (simp add: ceiling_def)
qed

subsection \<open>Lemmas on tables\<close>

lemma first_index_Some_iff:
  "first_index P xs = Some i \<longleftrightarrow> i < length xs \<and> P (xs ! i) \<and> (\<forall>j<i. \<not> P (xs ! j))"
proof (induction xs arbitrary: i)
  case Nil
  then show ?case by simp
next
  case (Cons x xs)
  then show ?case
    by (cases i) (auto simp: nth_Cons split: nat.splits)
qed

lemma first_index_None_iff: "first_index P xs = None \<longleftrightarrow> (\<forall>x\<in>set xs. \<not> P x)"
  by (induction xs) auto

lemma first_index_distinct:
  "distinct xs \<Longrightarrow> i < length xs \<Longrightarrow> first_index (\<lambda>x. x = xs ! i) xs = Some i"
  by (auto simp: first_index_Some_iff nth_eq_iff_index_eq)

subsection \<open>Lemmas on loops\<close>

lemma foldE_append: "foldE f (xs @ ys) s = bindE (foldE f xs s) (foldE f ys)"
  by (induction xs arbitrary: s) (auto intro!: bindE_cong)

lemma foldE_map: "foldE f (map h xs) s = foldE (\<lambda>x. f (h x)) xs s"
  by (induction xs arbitrary: s) (auto intro!: bindE_cong)

text \<open>An invariant of the loop, of which every step only has to be shown for the elements of the list.\<close>

lemma foldE_inv:
  assumes "\<And>x s s'. x \<in> set xs \<Longrightarrow> f x s = Inr s' \<Longrightarrow> P s \<Longrightarrow> P s'"
  shows "foldE f xs s = Inr s' \<Longrightarrow> P s \<Longrightarrow> P s'"
  using assms
proof (induction xs arbitrary: s)
  case (Cons x xs)
  then obtain t where t: "f x s = Inr t" "foldE f xs t = Inr s'" by auto
  with Cons.IH [OF t(2)] Cons.prems show ?case by (metis list.set_intros)
qed simp

lemma foldE_returns:
  assumes "\<And>x s. x \<in> set xs \<Longrightarrow> P s \<Longrightarrow> \<exists>s'. f x s = Inr s' \<and> P s'" "P s"
  shows "\<exists>s'. foldE f xs s = Inr s' \<and> P s'"
  using assms by (induction xs arbitrary: s) fastforce+

end
