(* ===== verification/GD_Defines.thy ===== *)
theory GD_Defines
  imports GD_Prelude
begin

section \<open>Constants and enumerations\<close>

text \<open>
  The macros and enumerations of \<open>gemdroid_defines.hh\<close>, \<open>gemdroid_ip.hh\<close>,
  \<open>gemdroid_core.hh\<close> and \<open>gemdroid.hh\<close>, and the functions of \<open>gemdroid.cc\<close> that
  name, classify and number them. An enumeration is a datatype with the source's
  constructors; \<open>ip_code\<close> and \<open>app_code\<close> are the integer values C++ gives them, and the
  order of the IP types is the order of these values, as in \<open>ip_type > IP_TYPE_VD\<close>.
\<close>

abbreviation (input) CACHE_LINE_SIZE :: int where "CACHE_LINE_SIZE \<equiv> 64"
abbreviation (input) MAX_IPS :: nat where "MAX_IPS \<equiv> 4"
abbreviation (input) MAX_CPUS :: nat where "MAX_CPUS \<equiv> 4"
abbreviation (input) FPS_DEADLINE_SAFETYNET :: int where "FPS_DEADLINE_SAFETYNET \<equiv> 1"
abbreviation (input) FPS_DEADLINE :: int where "FPS_DEADLINE \<equiv> 15"
abbreviation (input) GEMDROID_FREQ :: real where "GEMDROID_FREQ \<equiv> 10"
abbreviation (input) MILLISEC :: int where "MILLISEC \<equiv> 10000000"
abbreviation (input) MICROSEC :: int where "MICROSEC \<equiv> 10000"
abbreviation (input) MAX_MEM_REQS :: nat where "MAX_MEM_REQS \<equiv> 256"
abbreviation (input) MAX_IP_MEM_REQS :: real where "MAX_IP_MEM_REQS \<equiv> 256 * (9 / 10)"
abbreviation (input) MAX_MEM_RESPS :: nat where "MAX_MEM_RESPS \<equiv> 256"
abbreviation (input) MAX_IP_OUTSTANDING_REQS :: nat where "MAX_IP_OUTSTANDING_REQS \<equiv> 10"
abbreviation (input) MEM_RESP_TRANSMIT_CYCLES :: int where "MEM_RESP_TRANSMIT_CYCLES \<equiv> 2"
abbreviation (input) PEFECT_MEM_LATENCY :: int where "PEFECT_MEM_LATENCY \<equiv> 1"
abbreviation (input) MAX_MEM_FREQ :: real where "MAX_MEM_FREQ \<equiv> 1"
abbreviation (input) MIN_MEM_FREQ :: real where "MIN_MEM_FREQ \<equiv> 3 / 10"
abbreviation (input) EPSILON :: real where "EPSILON \<equiv> 5 / 1000000"
abbreviation (input) INTERACTIVE_GOVERNOR_LAT :: int where "INTERACTIVE_GOVERNOR_LAT \<equiv> 5"
abbreviation (input) FRAME_SIZE :: int where "FRAME_SIZE \<equiv> 26542080"
abbreviation (input) AUD_FRAME_SIZE :: int where "AUD_FRAME_SIZE \<equiv> 16384"
abbreviation (input) VID_CODING_RATIO :: int where "VID_CODING_RATIO \<equiv> 16"
abbreviation (input) AUD_CODING_RATIO :: int where "AUD_CODING_RATIO \<equiv> 8"
abbreviation (input) CORE_DVFS_STATES :: int where "CORE_DVFS_STATES \<equiv> 13"
abbreviation (input) IP_DVFS_STATES :: int where "IP_DVFS_STATES \<equiv> 7"
abbreviation (input) MAX_FLOWS_IN_APP :: nat where "MAX_FLOWS_IN_APP \<equiv> 5"
abbreviation (input) MAX_IPS_IN_FLOW :: nat where "MAX_IPS_IN_FLOW \<equiv> 5"
abbreviation (input) FPS_TICKS :: real where "FPS_TICKS \<equiv> 10000000000 / 60"

text \<open>Base addresses of the IP buffers (\<open>gemdroid_ip.hh\<close>).\<close>

abbreviation (input) DC0_ADDR_START :: addr where "DC0_ADDR_START \<equiv> 2160000000"
abbreviation (input) CAM_ADDR_START :: addr where "CAM_ADDR_START \<equiv> 2180000000"
abbreviation (input) VD_ADDR_START :: addr where "VD_ADDR_START \<equiv> 2200000000"
abbreviation (input) VE_ADDR_START :: addr where "VE_ADDR_START \<equiv> 2220000000"
abbreviation (input) IMG_ADDR_START :: addr where "IMG_ADDR_START \<equiv> 2240000000"
abbreviation (input) AE_ADDR_START :: addr where "AE_ADDR_START \<equiv> 2260000000"
abbreviation (input) NW_ADDR_START :: addr where "NW_ADDR_START \<equiv> 2280000000"
abbreviation (input) AD_ADDR_START :: addr where "AD_ADDR_START \<equiv> 2320000000"
abbreviation (input) MMC_IN_ADDR_START :: addr where "MMC_IN_ADDR_START \<equiv> 2340000000"
abbreviation (input) MIC_ADDR_START :: addr where "MIC_ADDR_START \<equiv> 2360000000"
abbreviation (input) DC1_ADDR_START :: addr where "DC1_ADDR_START \<equiv> 2400000000"
abbreviation (input) GPU_ADDR_START :: addr where "GPU_ADDR_START \<equiv> 2420000000"

subsection \<open>Enumerations\<close>

datatype IP_TYPE =
    IP_TYPE_CPU | IP_TYPE_DC | IP_TYPE_NW | IP_TYPE_SND | IP_TYPE_MIC | IP_TYPE_CAM
  | IP_TYPE_MMC_IN | IP_TYPE_MMC_OUT | IP_TYPE_VD | IP_TYPE_VE | IP_TYPE_AD | IP_TYPE_AE
  | IP_TYPE_IMG | IP_TYPE_GPU | IP_TYPE_DMA | IP_TYPE_CACHE | IP_TYPE_END

datatype GOVERNOR_TYPE =
    GOVERNOR_TYPE_DISABLED | GOVERNOR_TYPE_ONDEMAND | GOVERNOR_TYPE_PERFORMANCE
  | GOVERNOR_TYPE_POWERSAVE | GOVERNOR_TYPE_BUILDING | GOVERNOR_TYPE_INTERACTIVE
  | GOVERNOR_TYPE_POWERCAP | GOVERNOR_TYPE_SLACK | GOVERNOR_TYPE_SLACK_FAR_ENERGY
  | GOVERNOR_TYPE_SLACK_KNAPSACK | GOVERNOR_TYPE_SLACK_MAXENERGY_CONSUMER
  | GOVERNOR_TYPE_SLACK_MAXPOWER_CONSUMER | GOVERNOR_TYPE_SLACK_MAXENERGYPERTIME_CONSUMER
  | GOVERNOR_TYPE_COSCALE | GOVERNOR_TYPE_MEMSCALE | GOVERNOR_TYPE_OPTIMAL
  | GOVERNOR_TYPE_DYNAMICPROG | GOVERNOR_TYPE_CORE_ORACLE | END_OF_GOVERNOR

datatype APP_ID =
    APP_ID_YOUTUBE | APP_ID_VIDRECORD | APP_ID_PHOTOCAPTURE | APP_ID_AUDIOPLAY
  | APP_ID_ARGAME | APP_ID_GALLERY | APP_ID_AUDIORECORD | APP_ID_VIDPLAYER
  | APP_ID_ANGRYBIRDS | APP_ID_SKYPE | APP_ID_FACEBOOK | APP_ID_MPGAME | APP_ID_OTHER

abbreviation (input) APP_ID_END :: nat where "APP_ID_END \<equiv> 13"

datatype ip_pstate = ip_idle | ip_lowpower | ip_active

datatype FrameType = I_Frame | P_Frame | B_Frame

fun ip_code :: "IP_TYPE \<Rightarrow> nat" where
  "ip_code IP_TYPE_CPU = 0" | "ip_code IP_TYPE_DC = 1" | "ip_code IP_TYPE_NW = 2"
| "ip_code IP_TYPE_SND = 3" | "ip_code IP_TYPE_MIC = 4" | "ip_code IP_TYPE_CAM = 5"
| "ip_code IP_TYPE_MMC_IN = 6" | "ip_code IP_TYPE_MMC_OUT = 7" | "ip_code IP_TYPE_VD = 8"
| "ip_code IP_TYPE_VE = 9" | "ip_code IP_TYPE_AD = 10" | "ip_code IP_TYPE_AE = 11"
| "ip_code IP_TYPE_IMG = 12" | "ip_code IP_TYPE_GPU = 13" | "ip_code IP_TYPE_DMA = 14"
| "ip_code IP_TYPE_CACHE = 15" | "ip_code IP_TYPE_END = 16"

definition IP_TYPES :: "IP_TYPE list" where
  "IP_TYPES =
     [IP_TYPE_CPU, IP_TYPE_DC, IP_TYPE_NW, IP_TYPE_SND, IP_TYPE_MIC, IP_TYPE_CAM,
      IP_TYPE_MMC_IN, IP_TYPE_MMC_OUT, IP_TYPE_VD, IP_TYPE_VE, IP_TYPE_AD, IP_TYPE_AE,
      IP_TYPE_IMG, IP_TYPE_GPU, IP_TYPE_DMA, IP_TYPE_CACHE, IP_TYPE_END]"

fun app_code :: "APP_ID \<Rightarrow> nat" where
  "app_code APP_ID_YOUTUBE = 0" | "app_code APP_ID_VIDRECORD = 1"
| "app_code APP_ID_PHOTOCAPTURE = 2" | "app_code APP_ID_AUDIOPLAY = 3"
| "app_code APP_ID_ARGAME = 4" | "app_code APP_ID_GALLERY = 5"
| "app_code APP_ID_AUDIORECORD = 6" | "app_code APP_ID_VIDPLAYER = 7"
| "app_code APP_ID_ANGRYBIRDS = 8" | "app_code APP_ID_SKYPE = 9"
| "app_code APP_ID_FACEBOOK = 10" | "app_code APP_ID_MPGAME = 11" | "app_code APP_ID_OTHER = 12"

lemma IP_TYPES_nth_code [simp]: "IP_TYPES ! ip_code t = t"
  by (cases t) (simp_all add: IP_TYPES_def)

lemma ip_code_inj [simp]: "ip_code s = ip_code t \<longleftrightarrow> s = t"
  by (metis IP_TYPES_nth_code)

instantiation IP_TYPE :: linorder
begin

definition less_eq_IP_TYPE :: "IP_TYPE \<Rightarrow> IP_TYPE \<Rightarrow> bool" where
  "less_eq_IP_TYPE s t = (ip_code s \<le> ip_code t)"

definition less_IP_TYPE :: "IP_TYPE \<Rightarrow> IP_TYPE \<Rightarrow> bool" where
  "less_IP_TYPE s t = (ip_code s < ip_code t)"

instance
proof
  fix s t u :: IP_TYPE
  show "s < t \<longleftrightarrow> s \<le> t \<and> \<not> t \<le> s"
    by (auto simp: less_eq_IP_TYPE_def less_IP_TYPE_def)
  show "s \<le> s" by (simp add: less_eq_IP_TYPE_def)
  show "s \<le> t \<or> t \<le> s" by (auto simp: less_eq_IP_TYPE_def)
  show "s \<le> u" if "s \<le> t" "t \<le> u" using that by (simp add: less_eq_IP_TYPE_def)
  show "s = t" if "s \<le> t" "t \<le> s"
    using that by (simp add: less_eq_IP_TYPE_def flip: ip_code_inj)
qed

end

subsection \<open>Names and classes\<close>

fun ipTypeToString :: "IP_TYPE \<Rightarrow> string" where
  "ipTypeToString IP_TYPE_CPU = ''CPU''" | "ipTypeToString IP_TYPE_DC = ''DC''"
| "ipTypeToString IP_TYPE_NW = ''NW''" | "ipTypeToString IP_TYPE_SND = ''SND''"
| "ipTypeToString IP_TYPE_MIC = ''MIC''" | "ipTypeToString IP_TYPE_CAM = ''CAM''"
| "ipTypeToString IP_TYPE_MMC_IN = ''MMC_IN''" | "ipTypeToString IP_TYPE_MMC_OUT = ''MMC_OUT''"
| "ipTypeToString IP_TYPE_VD = ''VD''" | "ipTypeToString IP_TYPE_VE = ''VE''"
| "ipTypeToString IP_TYPE_AD = ''AD''" | "ipTypeToString IP_TYPE_AE = ''AE''"
| "ipTypeToString IP_TYPE_IMG = ''IMG''" | "ipTypeToString IP_TYPE_GPU = ''GPU''"
| "ipTypeToString IP_TYPE_DMA = ''DMA''" | "ipTypeToString IP_TYPE_CACHE = ''CACHE''"
| "ipTypeToString IP_TYPE_END = ''UNKNOWN''"

fun pStateToString :: "ip_pstate \<Rightarrow> string" where
  "pStateToString ip_idle = ''IDLE''"
| "pStateToString ip_lowpower = ''LOWPOWER''"
| "pStateToString ip_active = ''ACTIVE''"

definition isDevice :: "int \<Rightarrow> bool" where
  "isDevice ip_type = (if ip_type = int (ip_code IP_TYPE_CPU) then False
     else if ip_type < int (ip_code IP_TYPE_VD) then True else False)"

definition has2ndFlow :: "APP_ID \<Rightarrow> bool" where
  "has2ndFlow appID =
     (if appID = APP_ID_YOUTUBE \<or> appID = APP_ID_PHOTOCAPTURE \<or> appID = APP_ID_AUDIOPLAY \<or>
         appID = APP_ID_GALLERY \<or> appID = APP_ID_AUDIORECORD \<or> appID = APP_ID_VIDPLAYER \<or>
         appID = APP_ID_OTHER then False else True)"

definition getAppIdWithName :: "string \<Rightarrow> APP_ID" where
  "getAppIdWithName appName =
     (if contains ''youtube'' appName then APP_ID_YOUTUBE
      else if contains ''video-record'' appName then APP_ID_VIDRECORD
      else if contains ''photo-capture'' appName then APP_ID_PHOTOCAPTURE
      else if contains ''audio-play'' appName then APP_ID_AUDIOPLAY
      else if contains ''argame'' appName then APP_ID_ARGAME
      else if contains ''gallery'' appName then APP_ID_GALLERY
      else if contains ''audio-record'' appName then APP_ID_AUDIORECORD
      else if contains ''video-play'' appName then APP_ID_VIDPLAYER
      else if contains ''angrybirds'' appName then APP_ID_ANGRYBIRDS
      else if contains ''skype'' appName then APP_ID_SKYPE
      else if contains ''facebook'' appName then APP_ID_FACEBOOK
      else if contains ''mpgame'' appName then APP_ID_MPGAME
      else APP_ID_OTHER)"

subsection \<open>Lemmas\<close>

lemma ip_code_le_16: "ip_code t \<le> 16"
  by (cases t) simp_all

lemma app_code_less_END [simp]: "app_code a < APP_ID_END"
  by (cases a) simp_all

lemmas IP_TYPE_order = less_eq_IP_TYPE_def less_IP_TYPE_def

end
