(* ===== verification/GD_Request.thy ===== *)
theory GD_Request
  imports GD_Defines
begin

section \<open>Messages\<close>

text \<open>
  The three message classes of \<open>gemdroid_request.hh\<close>: a memory request or response
  (\<open>GemDroidMemMsg\<close>), a call to an IP (\<open>GemDroidIPRequest\<close>) and the response of an IP to a
  core (\<open>GemDroidIPResponse\<close>). Each class is a record with the class's fields; its getters
  are the record's selectors and its constructor the record itself.
\<close>

record GemDroidMemMsg =
  mm_ip_type :: IP_TYPE
  mm_id :: int
  mm_addr :: addr
  mm_isRead :: bool
  mm_isResponse :: bool
  mm_core_id :: int

record GemDroidIPRequest =
  rq_sendertype :: IP_TYPE
  rq_iptype :: IP_TYPE
  rq_sender_id :: int
  rq_core_id :: int
  rq_addr :: addr
  rq_size :: int
  rq_isRead :: bool
  rq_frameNum :: int
  rq_flowType :: IP_TYPE
  rq_flowId :: int

record GemDroidIPResponse =
  rs_sender_type :: IP_TYPE
  rs_sender_id :: int
  rs_core_id :: int
  rs_frame_num :: int

definition mem_msg :: "IP_TYPE \<Rightarrow> int \<Rightarrow> int \<Rightarrow> addr \<Rightarrow> bool \<Rightarrow> bool \<Rightarrow> GemDroidMemMsg" where
  "mem_msg type sid core_id addr isRead isResponse =
     \<lparr>mm_ip_type = type, mm_id = sid, mm_addr = addr, mm_isRead = isRead,
      mm_isResponse = isResponse, mm_core_id = core_id\<rparr>"

definition ip_request ::
  "IP_TYPE \<Rightarrow> int \<Rightarrow> int \<Rightarrow> IP_TYPE \<Rightarrow> addr \<Rightarrow> int \<Rightarrow> bool \<Rightarrow> int \<Rightarrow> IP_TYPE \<Rightarrow> int \<Rightarrow> GemDroidIPRequest"
  where
  "ip_request sendertype sender_id core_id iptype addr sz isRead frameNum flowType flowId =
     \<lparr>rq_sendertype = sendertype, rq_iptype = iptype, rq_sender_id = sender_id,
      rq_core_id = core_id, rq_addr = addr, rq_size = sz, rq_isRead = isRead,
      rq_frameNum = frameNum, rq_flowType = flowType, rq_flowId = flowId\<rparr>"

lemma mem_msg_sel [simp]:
  "mm_ip_type (mem_msg t i c a r p) = t"
  "mm_id (mem_msg t i c a r p) = i"
  "mm_core_id (mem_msg t i c a r p) = c"
  "mm_addr (mem_msg t i c a r p) = a"
  "mm_isRead (mem_msg t i c a r p) = r"
  "mm_isResponse (mem_msg t i c a r p) = p"
  by (simp_all add: mem_msg_def)

lemma ip_request_sel [simp]:
  "rq_sendertype (ip_request st si ci it a sz r fn ft fi) = st"
  "rq_sender_id (ip_request st si ci it a sz r fn ft fi) = si"
  "rq_core_id (ip_request st si ci it a sz r fn ft fi) = ci"
  "rq_iptype (ip_request st si ci it a sz r fn ft fi) = it"
  "rq_addr (ip_request st si ci it a sz r fn ft fi) = a"
  "rq_size (ip_request st si ci it a sz r fn ft fi) = sz"
  "rq_isRead (ip_request st si ci it a sz r fn ft fi) = r"
  "rq_frameNum (ip_request st si ci it a sz r fn ft fi) = fn"
  "rq_flowType (ip_request st si ci it a sz r fn ft fi) = ft"
  "rq_flowId (ip_request st si ci it a sz r fn ft fi) = fi"
  by (simp_all add: ip_request_def)

end
