(* ===== verification/GD_Flows.thy ===== *)
theory GD_Flows
  imports GD_Request
begin

section \<open>Application flows\<close>

text \<open>
  The flow table of \<open>gemdroid.cc\<close>: for each application up to five flows, each the list of
  the IPs a frame passes through, ended by \<open>-1\<close>. \<open>loadFlows\<close> reads it from the lines of
  \<open>flows.txt\<close> (a line is the list of the integers on it, the empty line the empty list), the
  other functions search it. C++ does not check array indices; the model reports an index
  outside the table, or outside the five-element result arrays, as \<open>OutOfBounds\<close>.
\<close>

type_synonym flow = "int list"
type_synonym flow_table = "flow list list"

subsection \<open>Loading the table\<close>

definition empty_flowTable :: flow_table where
  "empty_flowTable =
     replicate APP_ID_END (replicate MAX_FLOWS_IN_APP (replicate MAX_IPS_IN_FLOW (-1)))"

text \<open>The inner \<open>do\<close> loop: at the end of the line \<open>iss >> ip_id\<close> leaves \<open>ip_id\<close> as it was.\<close>

function load_ips :: "flow \<Rightarrow> nat \<Rightarrow> int \<Rightarrow> int list \<Rightarrow> (flow \<times> int) result" where
  "load_ips row pos ip_id toks =
     (let ip = (case toks of [] \<Rightarrow> ip_id | t # _ \<Rightarrow> t) in
      if pos < MAX_IPS_IN_FLOW then
        (let row' = row[pos := ip] in
         if ip \<noteq> -1 then load_ips row' (Suc pos) ip (tl toks) else Inr (row', ip))
      else Inl (OutOfBounds ''flowTable''))"
  by pat_completeness auto
termination
  by (relation "measure (\<lambda>(row, pos, ip_id, toks). MAX_IPS_IN_FLOW - pos)") auto

declare load_ips.simps [simp del]

fun loadFlows_loop :: "flow_table \<Rightarrow> nat \<Rightarrow> int \<Rightarrow> int \<Rightarrow> int list list \<Rightarrow> flow_table result" where
  "loadFlows_loop tbl flowId last_app_id ip_id [] = Inr tbl"
| "loadFlows_loop tbl flowId last_app_id ip_id ([] # lines) = Inr tbl"
| "loadFlows_loop tbl flowId last_app_id ip_id ((app_id # toks) # lines) =
     (let flowId = (if app_id \<noteq> last_app_id then 0 else flowId) in
      bindE (boundsE ''flowTable''
               (0 \<le> app_id \<and> app_id < int APP_ID_END \<and> flowId < MAX_FLOWS_IN_APP)) (\<lambda>_.
      bindE (load_ips (tbl ! nat app_id ! flowId) 0 ip_id toks) (\<lambda>(row, ip_id).
      loadFlows_loop (tbl[nat app_id := (tbl ! nat app_id)[flowId := row]])
        (Suc flowId) app_id ip_id lines)))"

definition loadFlows :: "int list list \<Rightarrow> flow_table result" where
  "loadFlows lines = loadFlows_loop empty_flowTable 0 (-1) 0 lines"

subsection \<open>Searching the table\<close>

definition flow_length :: "flow \<Rightarrow> nat" where
  "flow_length array =
     (case first_index (\<lambda>x. x = -1) (take MAX_IPS_IN_FLOW array) of
        Some j \<Rightarrow> j | None \<Rightarrow> MAX_IPS_IN_FLOW)"

definition flowType :: "flow \<Rightarrow> int result" where
  "flowType array =
     (let j = flow_length array in
      bindE (boundsE ''array'' (0 < j)) (\<lambda>_. Inr (array ! (j - 1))))"

definition getIPAccsInFlow :: "flow_table \<Rightarrow> APP_ID \<Rightarrow> nat \<Rightarrow> nat \<times> int list" where
  "getIPAccsInFlow tbl appid flow_id =
     (let accs = filter (\<lambda>ip. ip \<noteq> -1 \<and> \<not> isDevice ip)
                   (take MAX_IPS_IN_FLOW (tbl ! app_code appid ! flow_id))
      in (length accs, accs @ replicate (MAX_IPS_IN_FLOW - length accs) (-1)))"

definition getIPDevsInFlow :: "flow_table \<Rightarrow> APP_ID \<Rightarrow> nat \<Rightarrow> nat \<times> int list" where
  "getIPDevsInFlow tbl appid flow_id =
     (let devs = filter (\<lambda>ip. ip \<noteq> -1 \<and> isDevice ip)
                   (take MAX_IPS_IN_FLOW (tbl ! app_code appid ! flow_id))
      in (length devs, devs @ replicate (MAX_IPS_IN_FLOW - length devs) (-1)))"

definition getIPsInFlow :: "flow_table \<Rightarrow> APP_ID \<Rightarrow> nat \<Rightarrow> nat \<times> int list" where
  "getIPsInFlow tbl appid flow_id =
     (let row = take MAX_IPS_IN_FLOW (tbl ! app_code appid ! flow_id);
          ips = takeWhile (\<lambda>ip. ip \<noteq> -1) row
      in (length ips, ips @ replicate (MAX_IPS_IN_FLOW - length ips) (-1)))"

text \<open>The source compares \<open>flowTable[appid][i][i]\<close>, whatever the inner index \<open>j\<close>.\<close>

definition getFlowId :: "flow_table \<Rightarrow> APP_ID \<Rightarrow> int \<Rightarrow> int" where
  "getFlowId tbl appid ip_id =
     (case first_index (\<lambda>i. tbl ! app_code appid ! i ! i = ip_id) [0..<MAX_FLOWS_IN_APP] of
        Some i \<Rightarrow> int i | None \<Rightarrow> -1)"

fun next_in_row ::
  "flow \<Rightarrow> int \<Rightarrow> int \<Rightarrow> nat list \<Rightarrow> int list \<Rightarrow> nat \<Rightarrow> (int list \<times> nat) result" where
  "next_in_row row cur flow_type [] ips cnt = Inr (ips, cnt)"
| "next_in_row row cur flow_type (j # js) ips cnt =
     (if row ! j = cur then
        bindE (flowType row) (\<lambda>ft.
          if flow_type = ft then
            bindE (boundsE ''ips'' (cnt < MAX_IPS_IN_FLOW)) (\<lambda>_.
              next_in_row row cur flow_type js (ips[cnt := row ! (j + 1)]) (cnt + 1))
          else next_in_row row cur flow_type js ips cnt)
      else next_in_row row cur flow_type js ips cnt)"

fun next_in_flows ::
  "flow list \<Rightarrow> int \<Rightarrow> int \<Rightarrow> int list \<Rightarrow> nat \<Rightarrow> (int list \<times> nat) result" where
  "next_in_flows [] cur flow_type ips cnt = Inr (ips, cnt)"
| "next_in_flows (row # rows) cur flow_type ips cnt =
     (if row ! 0 = -1 then Inr (ips, cnt)
      else bindE (next_in_row row cur flow_type [0..<MAX_IPS_IN_FLOW - 1] ips cnt)
             (\<lambda>(ips, cnt). next_in_flows rows cur flow_type ips cnt))"

definition nextIPtoCall :: "flow_table \<Rightarrow> APP_ID \<Rightarrow> IP_TYPE \<Rightarrow> IP_TYPE \<Rightarrow> int list result" where
  "nextIPtoCall tbl appid curr_ip_active flow_type =
     bindE (next_in_flows (tbl ! app_code appid) (int (ip_code curr_ip_active))
              (int (ip_code flow_type)) (replicate MAX_IPS_IN_FLOW (-1)) 0)
       (\<lambda>(ips, cnt). Inr ips)"

fun ident_in_row :: "flow \<Rightarrow> int \<Rightarrow> int \<Rightarrow> nat list \<Rightarrow> int list \<Rightarrow> nat \<Rightarrow> (int list \<times> nat) result" where
  "ident_in_row row ip_type i [] flows cnt = Inr (flows, cnt)"
| "ident_in_row row ip_type i (j # js) flows cnt =
     (if row ! j = ip_type then
        bindE (boundsE ''flows'' (cnt < MAX_FLOWS_IN_APP)) (\<lambda>_.
          ident_in_row row ip_type i js (flows[cnt := i]) (cnt + 1))
      else ident_in_row row ip_type i js flows cnt)"

fun ident_in_flows :: "flow list \<Rightarrow> int \<Rightarrow> int \<Rightarrow> int list \<Rightarrow> nat \<Rightarrow> (int list \<times> nat) result" where
  "ident_in_flows [] ip_type i flows cnt = Inr (flows, cnt)"
| "ident_in_flows (row # rows) ip_type i flows cnt =
     (if row ! 0 = -1 then Inr (flows, cnt)
      else bindE (ident_in_row row ip_type i [0..<MAX_IPS_IN_FLOW] flows cnt)
             (\<lambda>(flows, cnt). ident_in_flows rows ip_type (i + 1) flows cnt))"

definition flow_identification :: "flow_table \<Rightarrow> APP_ID \<Rightarrow> IP_TYPE \<Rightarrow> int list result" where
  "flow_identification tbl appid ip_type =
     bindE (ident_in_flows (tbl ! app_code appid) (int (ip_code ip_type)) 0
              (replicate MAX_FLOWS_IN_APP (-1)) 0) (\<lambda>(flows, cnt). Inr flows)"

subsection \<open>Time of a flow\<close>

fun flow_time :: "(int \<Rightarrow> real) \<Rightarrow> int list \<Rightarrow> real \<Rightarrow> real result" where
  "flow_time lastTime [] time = Inl (OutOfBounds ''flowTable'')"
| "flow_time lastTime (ip # ips) time =
     (if ip \<noteq> -1 then flow_time lastTime ips (time + lastTime ip) else Inr time)"

definition getLastTimeForFlow :: "flow_table \<Rightarrow> (int \<Rightarrow> real) \<Rightarrow> APP_ID \<Rightarrow> nat \<Rightarrow> real result" where
  "getLastTimeForFlow tbl lastTimeTook appid flow_id =
     flow_time lastTimeTook (tbl ! app_code appid ! flow_id) 0"

definition getLastSlack :: "flow_table \<Rightarrow> (int \<Rightarrow> real) \<Rightarrow> APP_ID \<Rightarrow> nat \<Rightarrow> real result" where
  "getLastSlack tbl lastTimeTook appid flow_id =
     bindE (getLastTimeForFlow tbl lastTimeTook appid flow_id)
       (\<lambda>time. Inr (real_of_int FPS_DEADLINE - time))"

subsection \<open>The table shipped with the repository\<close>

definition shipped_flows :: "int list list" where
  "shipped_flows =
    [[0, 0, 8, 1, -1], [0, 10, 3, -1], [1, 0, 5, 12, 1, -1], [1, 0, 5, 9, 7, -1],
     [1, 0, 4, 11, -1], [2, 0, 5, 12, 1, -1], [2, 0, 5, 12, 7, -1], [3, 0, 6, 10, 3, -1],
     [4, 5, 12, 1, -1], [4, 13, 1, -1], [4, 0, 10, 3, -1], [5, 0, 6, 12, 1, -1],
     [6, 4, 11, 7, -1], [7, 0, 6, 8, 1, -1], [7, 0, 6, 10, 3, -1], [8, 0, 1, -1],
     [8, 13, 1, -1], [8, 10, 3, -1], [9, 0, 8, 1, -1], [9, 0, 5, 9, 2, -1],
     [9, 0, 4, 11, -1], [9, 0, 10, 3, -1], [10, 0, 12, 1, -1], [11, 13, 1, -1],
     [11, 0, 9, 7, -1], [12, 0, 1, 9, 2, -1], [13, 0, 5, 9, 2, -1], [14, 0, 2, 13, 8, -1],
     [15, 0, 1, -1], [16, 0, 1, -1], [17, 0, 1, -1], []]"

definition shipped_table :: flow_table where
  "shipped_table = (case loadFlows (take 26 shipped_flows) of Inr tbl \<Rightarrow> tbl | Inl _ \<Rightarrow> [])"

subsection \<open>Specifications\<close>

definition wf_flowTable :: "flow_table \<Rightarrow> bool" where
  "wf_flowTable tbl \<longleftrightarrow> length tbl = APP_ID_END \<and>
     (\<forall>rows\<in>set tbl. length rows = MAX_FLOWS_IN_APP \<and>
        (\<forall>row\<in>set rows. length row = MAX_IPS_IN_FLOW))"

definition pad :: "nat \<Rightarrow> int list \<Rightarrow> int list" where
  "pad n xs = xs @ replicate (n - length xs) (-1)"

definition active_flows :: "flow list \<Rightarrow> flow list" where
  "active_flows rows = takeWhile (\<lambda>row. row ! 0 \<noteq> -1) rows"

definition flow_last :: "flow \<Rightarrow> int" where
  "flow_last row = row ! (flow_length row - 1)"

definition succs_in :: "int \<Rightarrow> int \<Rightarrow> flow \<Rightarrow> int list" where
  "succs_in cur ftype row =
     map (\<lambda>j. row ! (j + 1))
       (filter (\<lambda>j. row ! j = cur \<and> ftype = flow_last row) [0..<MAX_IPS_IN_FLOW - 1])"

subsection \<open>Lemmas\<close>

lemma length_pad: "length xs \<le> n \<Longrightarrow> length (pad n xs) = n"
  by (simp add: pad_def)

text \<open>Writing element \<open>length xs\<close> of a padded array appends to what is stored.\<close>

lemma pad_update: "length xs < n \<Longrightarrow> (pad n xs)[length xs := v] = pad n (xs @ [v])"
  by (cases "n - length xs") (auto simp: pad_def list_update_append Suc_diff_Suc)

lemma pad_terminator: "length xs < n \<Longrightarrow> pad n (xs @ [-1]) = pad n xs"
  by (simp add: pad_def Suc_diff_Suc flip: replicate_Suc)

lemma pad_Nil [simp]: "pad n [] = replicate n (-1)"
  by (simp add: pad_def)

lemma flow_length_pos: "row ! 0 \<noteq> -1 \<Longrightarrow> row \<noteq> [] \<Longrightarrow> 0 < flow_length row"
  by (cases row) (auto simp: flow_length_def split: option.splits)

lemma flowType_active: "row ! 0 \<noteq> -1 \<Longrightarrow> row \<noteq> [] \<Longrightarrow> flowType row = Inr (flow_last row)"
  by (simp add: flowType_def flow_last_def flow_length_pos Let_def)

lemma next_in_row_spec:
  assumes "row ! 0 \<noteq> -1" "row \<noteq> []" "length xs \<le> 5"
  shows "next_in_row row cur ftype js (pad 5 xs) (length xs) =
    (let ys = xs @ map (\<lambda>j. row ! (j + 1)) (filter (\<lambda>j. row ! j = cur \<and> ftype = flow_last row) js)
     in if length ys \<le> 5 then Inr (pad 5 ys, length ys) else Inl (OutOfBounds ''ips''))"
  using assms(3)
proof (induction js arbitrary: xs)
  case Nil
  then show ?case by simp
next
  case (Cons j js)
  show ?case
  proof (cases "row ! j = cur \<and> ftype = flow_last row")
    case hit: True
    show ?thesis
    proof (cases "length xs < 5")
      case True
      with hit Cons.IH [of "xs @ [row ! (j + 1)]"] show ?thesis
        by (simp add: flowType_active [OF assms(1,2)] pad_update)
    next
      case False
      with hit Cons.prems show ?thesis
        by (simp add: flowType_active [OF assms(1,2)])
    qed
  next
    case False
    with Cons show ?thesis by (auto simp: flowType_active [OF assms(1,2)])
  qed
qed

lemma next_in_flows_spec:
  assumes "\<forall>row\<in>set rows. row \<noteq> []" "length xs \<le> 5"
  shows "next_in_flows rows cur ftype (pad 5 xs) (length xs) =
    (let ys = xs @ concat (map (succs_in cur ftype) (active_flows rows))
     in if length ys \<le> 5 then Inr (pad 5 ys, length ys) else Inl (OutOfBounds ''ips''))"
  using assms
proof (induction rows arbitrary: xs)
  case Nil
  then show ?case by (simp add: active_flows_def)
next
  case (Cons row rows)
  show ?case
  proof (cases "row ! 0 = -1")
    case True
    with Cons.prems show ?thesis by (simp add: active_flows_def)
  next
    case False
    let ?ys = "xs @ succs_in cur ftype row"
    have row: "next_in_row row cur ftype [0..<4] (pad 5 xs) (length xs) =
      (if length ?ys \<le> 5 then Inr (pad 5 ?ys, length ?ys) else Inl (OutOfBounds ''ips''))"
      using next_in_row_spec [of row xs cur ftype "[0..<4]"] False Cons.prems
      by (simp add: succs_in_def Let_def)
    show ?thesis
    proof (cases "length ?ys \<le> 5")
      case True
      with Cons.IH [of ?ys] Cons.prems row False show ?thesis
        by (simp add: active_flows_def)
    next
      case no: False
      with row False show ?thesis by (simp add: active_flows_def)
    qed
  qed
qed

definition idents_in :: "int \<Rightarrow> int \<times> flow \<Rightarrow> int list" where
  "idents_in ip_type = (\<lambda>(i, row). map (\<lambda>_. i) (filter (\<lambda>j. row ! j = ip_type) [0..<MAX_IPS_IN_FLOW]))"

fun numbered :: "int \<Rightarrow> flow list \<Rightarrow> (int \<times> flow) list" where
  "numbered i [] = []"
| "numbered i (row # rows) = (i, row) # numbered (i + 1) rows"

lemma ident_in_row_spec:
  assumes "length xs \<le> 5"
  shows "ident_in_row row ip_type i js (pad 5 xs) (length xs) =
    (let ys = xs @ map (\<lambda>_. i) (filter (\<lambda>j. row ! j = ip_type) js)
     in if length ys \<le> 5 then Inr (pad 5 ys, length ys) else Inl (OutOfBounds ''flows''))"
  using assms
proof (induction js arbitrary: xs)
  case Nil
  then show ?case by simp
next
  case (Cons j js)
  show ?case
  proof (cases "row ! j = ip_type \<and> length xs < 5")
    case True
    with Cons.IH [of "xs @ [i]"] show ?thesis by (simp add: pad_update)
  next
    case False
    with Cons show ?thesis by auto
  qed
qed

lemma ident_in_flows_spec:
  assumes "length xs \<le> 5"
  shows "ident_in_flows rows ip_type i (pad 5 xs) (length xs) =
    (let ys = xs @ concat (map (idents_in ip_type) (numbered i (active_flows rows)))
     in if length ys \<le> 5 then Inr (pad 5 ys, length ys) else Inl (OutOfBounds ''flows''))"
  using assms
proof (induction rows arbitrary: xs i)
  case Nil
  then show ?case by (simp add: active_flows_def)
next
  case (Cons row rows)
  let ?ys = "xs @ idents_in ip_type (i, row)"
  have row: "ident_in_row row ip_type i [0..<5] (pad 5 xs) (length xs) =
    (if length ?ys \<le> 5 then Inr (pad 5 ?ys, length ?ys) else Inl (OutOfBounds ''flows''))"
    using ident_in_row_spec [of xs row ip_type i "[0..<5]"] Cons.prems
    by (simp add: idents_in_def Let_def)
  show ?case
  proof (cases "row ! 0 = -1 \<or> length ?ys \<le> 5")
    case True
    with Cons.IH [of ?ys "i + 1"] Cons.prems row show ?thesis
      by (auto simp: active_flows_def)
  next
    case False
    with row show ?thesis by (simp add: active_flows_def)
  qed
qed

text \<open>A well-formed flow file: groups of lines, one group per application.\<close>

definition wf_groups :: "(nat \<times> flow list) list \<Rightarrow> bool" where
  "wf_groups groups \<longleftrightarrow> distinct (map fst groups) \<and>
     (\<forall>(a, fs)\<in>set groups. a < APP_ID_END \<and> fs \<noteq> [] \<and> length fs \<le> MAX_FLOWS_IN_APP \<and>
        (\<forall>f\<in>set fs. length f < MAX_IPS_IN_FLOW \<and> -1 \<notin> set f))"

definition flow_lines :: "(nat \<times> flow list) list \<Rightarrow> int list list" where
  "flow_lines groups = concat (map (\<lambda>(a, fs). map (\<lambda>f. int a # f @ [-1]) fs) groups)"

definition pad_rows :: "flow list \<Rightarrow> flow list" where
  "pad_rows fs = map (pad MAX_IPS_IN_FLOW) fs @
     replicate (MAX_FLOWS_IN_APP - length fs) (replicate MAX_IPS_IN_FLOW (-1))"

lemma load_ips_line:
  "\<lbrakk>-1 \<notin> set f; length xs + length f < 5\<rbrakk> \<Longrightarrow>
   load_ips (pad 5 xs) (length xs) ip (f @ [-1]) = Inr (pad 5 (xs @ f), -1)"
proof (induction f arbitrary: xs ip)
  case Nil
  then show ?case
    by (subst load_ips.simps) (simp add: pad_update pad_terminator Let_def)
next
  case (Cons x f)
  then show ?case
    using Cons.IH [of "xs @ [x]" x] by (subst load_ips.simps) (simp add: pad_update)
qed

lemma pad_rows_update:
  "length gs < 5 \<Longrightarrow> (pad_rows gs)[length gs := pad 5 f] = pad_rows (gs @ [f])"
  by (cases "5 - length gs") (auto simp: pad_rows_def list_update_append Suc_diff_Suc)

lemma pad_rows_nth: "length gs < 5 \<Longrightarrow> pad_rows gs ! length gs = replicate 5 (-1)"
  by (simp add: pad_rows_def nth_append)

lemma loadFlows_group:
  "\<lbrakk>a < 13; length tbl = 13; \<forall>f\<in>set fs. length f < 5 \<and> -1 \<notin> set f;
    length gs + length fs \<le> 5; tbl ! a = pad_rows gs;
    (if int a \<noteq> lst then 0 else flowId) = length gs; fs \<noteq> []\<rbrakk> \<Longrightarrow>
   loadFlows_loop tbl flowId lst ip (map (\<lambda>f. int a # f @ [-1]) fs @ lines) =
   loadFlows_loop (tbl[a := pad_rows (gs @ fs)]) (length gs + length fs) (int a) (-1) lines"
proof (induction fs arbitrary: tbl flowId lst ip gs)
  case Nil
  then show ?case by simp
next
  case (Cons f fs)
  have row: "load_ips (replicate 5 (-1)) 0 ip (f @ [-1]) = Inr (pad 5 f, -1)"
    using load_ips_line [of f "[]" ip] Cons.prems by simp
  have step: "loadFlows_loop tbl flowId lst ip (map (\<lambda>f. int a # f @ [-1]) (f # fs) @ lines) =
    loadFlows_loop (tbl[a := pad_rows (gs @ [f])]) (Suc (length gs)) (int a) (-1)
      (map (\<lambda>f. int a # f @ [-1]) fs @ lines)"
    using Cons.prems row by (simp add: pad_rows_nth pad_rows_update Let_def)
  show ?case
  proof (cases "fs = []")
    case True
    with step show ?thesis by simp
  next
    case False
    with Cons.IH [of "tbl[a := pad_rows (gs @ [f])]" "gs @ [f]" "int a" "Suc (length gs)" "-1"]
      Cons.prems step show ?thesis by simp
  qed
qed

lemma loadFlows_groups:
  "\<lbrakk>wf_groups groups; length tbl = 13; \<forall>(a, fs)\<in>set groups. tbl ! a = pad_rows [];
    \<forall>(a, fs)\<in>set groups. int a \<noteq> lst\<rbrakk> \<Longrightarrow>
   \<exists>tbl'. loadFlows_loop tbl flowId lst ip (flow_lines groups) = Inr tbl' \<and> length tbl' = 13 \<and>
     (\<forall>(a, fs)\<in>set groups. tbl' ! a = pad_rows fs) \<and>
     (\<forall>a. a \<notin> fst ` set groups \<longrightarrow> tbl' ! a = tbl ! a)"
proof (induction groups arbitrary: tbl flowId lst ip)
  case Nil
  then show ?case by (simp add: flow_lines_def)
next
  case (Cons g groups)
  obtain a fs where g: "g = (a, fs)" by (cases g)
  let ?tbl = "tbl[a := pad_rows fs]"
  have wf: "wf_groups groups" "a \<notin> fst ` set groups" "a < 13" "fs \<noteq> []" "length fs \<le> 5"
    "\<forall>f\<in>set fs. length f < 5 \<and> -1 \<notin> set f"
    using Cons.prems(1) g by (auto simp: wf_groups_def)
  have "loadFlows_loop tbl flowId lst ip (flow_lines (g # groups)) =
    loadFlows_loop ?tbl (length fs) (int a) (-1) (flow_lines groups)"
    using loadFlows_group [of a tbl fs "[]" lst flowId ip "flow_lines groups"] wf Cons.prems g
    by (auto simp: flow_lines_def)
  moreover have other: "\<forall>(b, gs)\<in>set groups. b \<noteq> a"
    using wf(2) by force
  moreover have "\<forall>(b, gs)\<in>set groups. ?tbl ! b = pad_rows []"
    using Cons.prems(3) other by fastforce
  ultimately obtain tbl' where
    "loadFlows_loop tbl flowId lst ip (flow_lines (g # groups)) = Inr tbl'" "length tbl' = 13"
    "\<forall>(b, gs)\<in>set groups. tbl' ! b = pad_rows gs"
    "\<forall>b. b \<notin> fst ` set groups \<longrightarrow> tbl' ! b = ?tbl ! b"
    using Cons.IH [of ?tbl "int a" "length fs" "-1"] wf(1) Cons.prems(2) by auto
  then show ?case
    using g wf(2,3) Cons.prems(2) by (intro exI [of _ tbl']) auto
qed

subsection \<open>Properties\<close>

text \<open>C29: \<open>nextIPtoCall\<close> returns, padded with \<open>-1\<close>, the successors of the given IP in the
  flows of the application that end in the given IP, in table order; it writes outside the
  five-element array exactly when there are more than five of them.\<close>

theorem nextIPtoCall_spec:
  assumes "wf_flowTable tbl"
  shows "nextIPtoCall tbl appid cur_ip flow_type =
    (let ys = concat (map (succs_in (int (ip_code cur_ip)) (int (ip_code flow_type)))
                (active_flows (tbl ! app_code appid)))
     in if length ys \<le> 5 then Inr (pad 5 ys) else Inl (OutOfBounds ''ips''))"
proof -
  have "tbl ! app_code appid \<in> set tbl"
    using assms by (simp add: wf_flowTable_def)
  then have "\<forall>row\<in>set (tbl ! app_code appid). row \<noteq> []"
    using assms by (fastforce simp: wf_flowTable_def)
  from next_in_flows_spec [OF this, of "[]" "int (ip_code cur_ip)" "int (ip_code flow_type)"]
  show ?thesis by (simp add: nextIPtoCall_def Let_def)
qed

theorem nextIPtoCall_spec_witness:
  "wf_flowTable shipped_table \<and>
   nextIPtoCall shipped_table APP_ID_SKYPE IP_TYPE_CAM IP_TYPE_NW = Inr [9, -1, -1, -1, -1]"
proof -
  have wf: "wf_flowTable shipped_table"
    by code_simp
  have "concat (map (succs_in (int (ip_code IP_TYPE_CAM)) (int (ip_code IP_TYPE_NW)))
          (active_flows (shipped_table ! app_code APP_ID_SKYPE))) = [9]"
    by code_simp
  with nextIPtoCall_spec [OF wf, of APP_ID_SKYPE IP_TYPE_CAM IP_TYPE_NW] wf show ?thesis
    by (simp add: pad_def numeral_eq_Suc)
qed

text \<open>C30: \<open>flow_identification\<close> returns, padded with \<open>-1\<close>, the indices of the active flows the
  IP occurs in, in table order, one per occurrence.\<close>

theorem flow_identification_spec:
  "flow_identification tbl appid ip =
    (let ys = concat (map (idents_in (int (ip_code ip))) (numbered 0 (active_flows (tbl ! app_code appid))))
     in if length ys \<le> 5 then Inr (pad 5 ys) else Inl (OutOfBounds ''flows''))"
  using ident_in_flows_spec [of "[]" "tbl ! app_code appid" "int (ip_code ip)" 0]
  by (simp add: flow_identification_def Let_def)

text \<open>C31: loading a well-formed flow file gives every application exactly its flows, in file
  order, and leaves the applications the file does not name empty.\<close>

theorem loadFlows_roundtrip:
  assumes "wf_groups groups"
  shows "\<exists>tbl. loadFlows (flow_lines groups) = Inr tbl \<and> length tbl = APP_ID_END \<and>
    (\<forall>(a, fs)\<in>set groups. tbl ! a = pad_rows fs) \<and>
    (\<forall>a<APP_ID_END. a \<notin> fst ` set groups \<longrightarrow> tbl ! a = pad_rows [])"
proof -
  have blank: "a < 13 \<Longrightarrow> empty_flowTable ! a = pad_rows []" for a
    by (simp add: empty_flowTable_def pad_rows_def)
  have "\<forall>(a, fs)\<in>set groups. empty_flowTable ! a = pad_rows []" "\<forall>(a, fs)\<in>set groups. int a \<noteq> -1"
    using assms blank by (auto simp: wf_groups_def)
  from loadFlows_groups [OF assms _ this, of 0 0] blank show ?thesis
    unfolding loadFlows_def by (auto simp: empty_flowTable_def)
qed

theorem loadFlows_roundtrip_witness:
  "wf_groups [(9, [[0, 8, 1], [0, 5, 9, 2]])] \<and>
   (\<exists>tbl. loadFlows (flow_lines [(9, [[0, 8, 1], [0, 5, 9, 2]])]) = Inr tbl \<and>
      tbl ! 9 = pad_rows [[0, 8, 1], [0, 5, 9, 2]])"
proof -
  have wf: "wf_groups [(9, [[0, 8, 1], [0, 5, 9, 2]])]"
    by (simp add: wf_groups_def)
  from loadFlows_roundtrip [OF wf] wf show ?thesis by auto
qed

text \<open>The flow file shipped with the repository numbers its applications up to 17, but the
  table has only \<open>APP_ID_END = 13\<close> rows: loading it writes outside the table. Up to its
  first line for application 13 it loads.\<close>

theorem loadFlows_shipped_out_of_bounds:
  "loadFlows shipped_flows = Inl (OutOfBounds ''flowTable'') \<and>
   loadFlows (take 26 shipped_flows) = Inr shipped_table"
proof
  show "loadFlows shipped_flows = Inl (OutOfBounds ''flowTable'')"
    by code_simp
  show "loadFlows (take 26 shipped_flows) = Inr shipped_table"
    by code_simp
qed

text \<open>The accelerators and the devices of a flow partition its IPs: together the two lists
  hold every entry of the flow other than \<open>-1\<close>, with its multiplicity, none twice.\<close>

theorem flow_accs_devs_partition:
  "mset (take (fst (getIPAccsInFlow tbl appid k)) (snd (getIPAccsInFlow tbl appid k))) +
   mset (take (fst (getIPDevsInFlow tbl appid k)) (snd (getIPDevsInFlow tbl appid k))) =
   filter_mset (\<lambda>ip. ip \<noteq> -1) (mset (take MAX_IPS_IN_FLOW (tbl ! app_code appid ! k)))"
proof -
  let ?row = "take MAX_IPS_IN_FLOW (tbl ! app_code appid ! k)"
  have "filter_mset (\<lambda>ip. ip \<noteq> -1) (mset ?row) =
    filter_mset isDevice (filter_mset (\<lambda>ip. ip \<noteq> -1) (mset ?row)) +
    filter_mset (\<lambda>ip. \<not> isDevice ip) (filter_mset (\<lambda>ip. ip \<noteq> -1) (mset ?row))"
    by (rule multiset_partition)
  then show ?thesis
    by (simp add: getIPAccsInFlow_def getIPDevsInFlow_def Let_def mset_filter
        filter_filter_mset conj_commute add.commute)
qed

text \<open>\<open>getFlowId\<close> looks at the diagonal of the table only (\<open>flowTable[appid][i][i]\<close>): in the
  shipped table the display controller is in flow 0 of the video player, as
  \<open>flow_identification\<close> finds, and \<open>getFlowId\<close> reports that it is in none.\<close>

theorem getFlowId_misses:
  "flow_identification shipped_table APP_ID_VIDPLAYER IP_TYPE_DC = Inr [0, -1, -1, -1, -1] \<and>
   getFlowId shipped_table APP_ID_VIDPLAYER (int (ip_code IP_TYPE_DC)) = -1"
  by code_simp

end
