(* ===== verification/GD_Platform.thy ===== *)
theory GD_Platform
  imports GD_Flows
begin

section \<open>Platform state and frame bookkeeping\<close>

text \<open>
  The data members of class \<open>GemDroid\<close> (\<open>gemdroid.hh\<close>) that the components read and write
  through their back pointer, other than the components themselves: the clock, the
  configuration, the flow table, the per-IP frame bookkeeping and the request counters; and the
  two bookkeeping operations of \<open>gemdroid.cc\<close>. An array indexed by an IP type and an instance
  is a curried function. \<open>markIPRequestCompleted\<close> reads the memory's frequency and the frequency
  of the component that completed; both are arguments here. An average over no sample is 0
  here and not a NaN.
\<close>

record GemDroid =
  gd_ticks :: int
  governor :: GOVERNOR_TYPE
  gd_perfectMemory :: bool
  num_cpus :: nat
  num_ip_inst :: nat
  app_id :: "nat \<Rightarrow> APP_ID"
  flowTable :: flow_table
  frameStarted :: "IP_TYPE \<Rightarrow> int \<Rightarrow> bool"
  ipProcessStartCycle :: "IP_TYPE \<Rightarrow> int \<Rightarrow> int"
  m_cyclesPerFrame :: "IP_TYPE \<Rightarrow> int \<Rightarrow> int"
  m_avgPowerInFrameSum :: "IP_TYPE \<Rightarrow> int \<Rightarrow> real"
  m_avgPowerInFrameCount :: "IP_TYPE \<Rightarrow> int \<Rightarrow> int"
  lastTimeTook :: "IP_TYPE \<Rightarrow> real"
  lastPowerTook :: "IP_TYPE \<Rightarrow> real"
  lastEnergyTook :: "IP_TYPE \<Rightarrow> real"
  lastFrequency :: "IP_TYPE \<Rightarrow> real"
  lastMemFreq :: real
  appMemReqs :: "int \<Rightarrow> int"
  ipMemReqs :: "IP_TYPE \<Rightarrow> int"
  m_totalCommittedInsns :: int
  gd_powerInLastEpoch :: real

definition upd2 :: "('a \<Rightarrow> 'b \<Rightarrow> 'c) \<Rightarrow> 'a \<Rightarrow> 'b \<Rightarrow> 'c \<Rightarrow> 'a \<Rightarrow> 'b \<Rightarrow> 'c" where
  "upd2 f a b c = f(a := (f a)(b := c))"

definition markIPRequestStarted :: "int \<Rightarrow> IP_TYPE \<Rightarrow> int \<Rightarrow> int \<Rightarrow> GemDroid \<Rightarrow> GemDroid" where
  "markIPRequestStarted core_id ip_type ip_id frameNum g =
     g\<lparr>ipProcessStartCycle := upd2 (ipProcessStartCycle g) ip_type ip_id (gd_ticks g),
       frameStarted := upd2 (frameStarted g) ip_type ip_id True\<rparr>"

definition markIPRequestCompleted ::
  "real \<Rightarrow> real \<Rightarrow> int \<Rightarrow> IP_TYPE \<Rightarrow> int \<Rightarrow> int \<Rightarrow> int \<Rightarrow> GemDroid \<Rightarrow> int \<times> GemDroid" where
  "markIPRequestCompleted memFreq compFreq coreId ip_type ip_id frameNum flowId g =
     (if frameStarted g ip_type ip_id = False then (-1, g)
      else
        let timeTook = gd_ticks g - ipProcessStartCycle g ip_type ip_id;
            slot = (if ip_type = IP_TYPE_CPU then coreId else ip_id);
            time = real_of_int timeTook / real_of_int MILLISEC;
            pwrAvg = m_avgPowerInFrameSum g ip_type slot /
                     real_of_int (m_avgPowerInFrameCount g ip_type slot)
        in (timeTook,
            g\<lparr>frameStarted := upd2 (frameStarted g) ip_type ip_id False,
              m_cyclesPerFrame := upd2 (m_cyclesPerFrame g) ip_type ip_id timeTook,
              lastTimeTook := (lastTimeTook g)(ip_type := time),
              lastMemFreq := memFreq,
              lastPowerTook := (lastPowerTook g)(ip_type := pwrAvg),
              lastEnergyTook := (lastEnergyTook g)(ip_type := pwrAvg * time),
              lastFrequency := (lastFrequency g)(ip_type := compFreq),
              m_avgPowerInFrameSum := upd2 (m_avgPowerInFrameSum g) ip_type slot 0,
              m_avgPowerInFrameCount := upd2 (m_avgPowerInFrameCount g) ip_type slot 0\<rparr>))"

definition getCoordinatedPower :: "GemDroid \<Rightarrow> real" where
  "getCoordinatedPower g = 7 - gd_powerInLastEpoch g"

text \<open>A platform with the shipped flows, in which nothing has happened, for the witnesses.\<close>

definition gd_demo :: GemDroid where
  "gd_demo =
     \<lparr>gd_ticks = 0, governor = GOVERNOR_TYPE_DISABLED, gd_perfectMemory = False, num_cpus = 1,
      num_ip_inst = 1, app_id = (\<lambda>_. APP_ID_SKYPE), flowTable = shipped_table,
      frameStarted = (\<lambda>_ _. False), ipProcessStartCycle = (\<lambda>_ _. 0), m_cyclesPerFrame = (\<lambda>_ _. 0),
      m_avgPowerInFrameSum = (\<lambda>_ _. 0), m_avgPowerInFrameCount = (\<lambda>_ _. 0),
      lastTimeTook = (\<lambda>_. 0), lastPowerTook = (\<lambda>_. 0), lastEnergyTook = (\<lambda>_. 0),
      lastFrequency = (\<lambda>_. 0), lastMemFreq = 0, appMemReqs = (\<lambda>_. 0), ipMemReqs = (\<lambda>_. 0),
      m_totalCommittedInsns = 0, gd_powerInLastEpoch = 0\<rparr>"

subsection \<open>Lemmas\<close>

lemma upd2_apply [simp]: "upd2 f a b c a' b' = (if a' = a \<and> b' = b then c else f a' b')"
  by (simp add: upd2_def)

lemma markIPRequestStarted_frame [simp, frame_simps]:
  "gd_ticks (markIPRequestStarted c t i n g) = gd_ticks g"
  "governor (markIPRequestStarted c t i n g) = governor g"
  "gd_perfectMemory (markIPRequestStarted c t i n g) = gd_perfectMemory g"
  "app_id (markIPRequestStarted c t i n g) = app_id g"
  "flowTable (markIPRequestStarted c t i n g) = flowTable g"
  "appMemReqs (markIPRequestStarted c t i n g) = appMemReqs g"
  "ipMemReqs (markIPRequestStarted c t i n g) = ipMemReqs g"
  by (simp_all add: markIPRequestStarted_def)

lemma markIPRequestCompleted_frame [simp, frame_simps]:
  "gd_ticks (snd (markIPRequestCompleted mf cf c t i n k g)) = gd_ticks g"
  "governor (snd (markIPRequestCompleted mf cf c t i n k g)) = governor g"
  "gd_perfectMemory (snd (markIPRequestCompleted mf cf c t i n k g)) = gd_perfectMemory g"
  "app_id (snd (markIPRequestCompleted mf cf c t i n k g)) = app_id g"
  "flowTable (snd (markIPRequestCompleted mf cf c t i n k g)) = flowTable g"
  "appMemReqs (snd (markIPRequestCompleted mf cf c t i n k g)) = appMemReqs g"
  "ipMemReqs (snd (markIPRequestCompleted mf cf c t i n k g)) = ipMemReqs g"
  by (simp_all add: markIPRequestCompleted_def Let_def)

subsection \<open>Properties\<close>

text \<open>A frame that was started and completes later is charged exactly the ticks between,
  and closes: until the IP starts again, a second completion changes nothing and returns
  \<open>-1\<close>.\<close>

theorem frame_time_exact:
  fixes g g' g'' :: GemDroid
  assumes "g' = markIPRequestStarted c t i n g"
    and "g'' = g'\<lparr>gd_ticks := gd_ticks g' + d\<rparr>"
    and "(r, h) = markIPRequestCompleted mf cf c' t i n' k g''"
  shows "r = d \<and> m_cyclesPerFrame h t i = d \<and> lastTimeTook h t = real_of_int d / 10000000 \<and>
    markIPRequestCompleted mf' cf' c'' t i n'' k' h = (-1, h)"
  using assms by (simp add: markIPRequestStarted_def markIPRequestCompleted_def Let_def)

theorem frame_time_exact_witness:
  "let g = (markIPRequestStarted 0 IP_TYPE_VD 0 1 gd_demo)\<lparr>gd_ticks := 500\<rparr>;
       (r, h) = markIPRequestCompleted 1 1 0 IP_TYPE_VD 0 1 0 g
   in r = 500 \<and> m_cyclesPerFrame h IP_TYPE_VD 0 = 500 \<and>
      fst (markIPRequestCompleted 1 1 0 IP_TYPE_VD 0 1 0 h) = -1"
  using frame_time_exact [OF refl refl surjective_pairing [symmetric],
      where d = 500 and g = gd_demo and c = 0 and t = IP_TYPE_VD and i = 0 and n = 1 and mf = 1
        and cf = 1 and c' = 0 and n' = 1 and k = 0 and mf' = 1 and cf' = 1 and c'' = 0
        and n'' = 1 and k' = 0]
  by (simp add: Let_def split_beta gd_demo_def)

end
