(* ===== verification/GD_SA.thy ===== *)
theory GD_SA
  imports GD_Platform
begin

section \<open>The system agent\<close>

text \<open>
  Class \<open>GemDroidSA\<close> (\<open>gemdroid_sa.hh\<close>, \<open>gemdroid_sa.cc\<close>): the queues between the cores, the
  IPs and the memory, and the operations that fill them. What drains the queues
  (\<open>sendMemoryRequests\<close> and its siblings, \<open>process\<close>, \<open>tick\<close>) calls the memory, the cores and
  the IPs and is in the theories of the memory and of the whole system. \<open>enqueueIPResponse\<close>
  closes the frame in the platform and calls the next IP of the flow; the frequencies its
  bookkeeping reads are arguments. The constructor leaves \<open>totalQueueSize\<close> and
  \<open>m_cyclesToSkip\<close> unset: it is an update of whatever the memory held. The snapshot fields
  \<open>stats_*\<close> and the printing of statistics are left out.
\<close>

record GemDroidSA =
  coreMemReq :: "GemDroidMemMsg list"
  ipMemReq :: "GemDroidMemMsg list"
  memCoreResp :: "GemDroidMemMsg list"
  memIpResp :: "GemDroidMemMsg list"
  ipCoreResp :: "GemDroidIPResponse list"
  ipReq :: "IP_TYPE \<Rightarrow> GemDroidIPRequest list"
  totalQueueSize :: int
  sa_cyclesToSkip :: int
  dynamicActivity :: int
  sa_ticks :: int
  numCoreMemReqs :: int
  numIPReqs :: int
  numIPMemReqs :: int
  numMemCoreResponse :: int
  numIPCoreResponse :: int
  numMemIPResponse :: int
  numRejected :: int

definition sa_resetStats :: "GemDroidSA \<Rightarrow> GemDroidSA" where
  "sa_resetStats s = s\<lparr>sa_ticks := 0, numRejected := 0, numIPReqs := 0, numIPMemReqs := 0,
     numMemCoreResponse := 0, numIPCoreResponse := 0, numMemIPResponse := 0, numCoreMemReqs := 0\<rparr>"

definition new_GemDroidSA :: "GemDroidSA \<Rightarrow> GemDroidSA" where
  "new_GemDroidSA s = (sa_resetStats s)
     \<lparr>dynamicActivity := 0, coreMemReq := [], ipMemReq := [], memCoreResp := [], memIpResp := [],
      ipCoreResp := [], ipReq := (\<lambda>_. [])\<rparr>"

definition updateActivityCountIn1Ms :: "int \<Rightarrow> GemDroidSA \<Rightarrow> GemDroidSA" where
  "updateActivityCountIn1Ms activity_count s =
     s\<lparr>dynamicActivity := dynamicActivity s + activity_count\<rparr>"

subsection \<open>Filling the queues\<close>

definition enqueueCoreMemRequest :: "int \<Rightarrow> addr \<Rightarrow> bool \<Rightarrow> GemDroidSA \<Rightarrow> bool \<times> GemDroidSA" where
  "enqueueCoreMemRequest cid addr isRead s =
     (if length (coreMemReq s) + length (ipMemReq s) > MAX_MEM_REQS then
        (False, s\<lparr>numRejected := numRejected s + 1\<rparr>)
      else if length (memCoreResp s) + length (memIpResp s) > MAX_MEM_RESPS then
        (False, s\<lparr>numRejected := numRejected s + 1\<rparr>)
      else
        (True, s\<lparr>numCoreMemReqs := numCoreMemReqs s + 1,
                 coreMemReq := coreMemReq s @ [mem_msg IP_TYPE_CPU cid cid addr isRead False]\<rparr>))"

definition isIPReqLimitReached :: "IP_TYPE \<Rightarrow> GemDroidSA \<Rightarrow> bool" where
  "isIPReqLimitReached ip_type s = (length (ipReq s ip_type) \<ge> MAX_IP_OUTSTANDING_REQS)"

definition enqueueCoreIPRequest ::
  "int \<Rightarrow> IP_TYPE \<Rightarrow> addr \<Rightarrow> int \<Rightarrow> bool \<Rightarrow> int \<Rightarrow> IP_TYPE \<Rightarrow> int \<Rightarrow> GemDroidSA \<Rightarrow> (bool \<times> GemDroidSA) result"
  where
  "enqueueCoreIPRequest receiverCoreId iptype addr sz isRead frameNum ftype flowId s =
     bindE (assertE ''iptype != 0'' (iptype \<noteq> IP_TYPE_CPU)) (\<lambda>_.
     bindE (assertE ''iptype != IP_TYPE_END'' (iptype \<noteq> IP_TYPE_END)) (\<lambda>_.
     bindE (assertE ''ipReq limit'' (length (ipReq s iptype) < MAX_IP_OUTSTANDING_REQS)) (\<lambda>_.
     Inr (True, s\<lparr>numIPReqs := numIPReqs s + 1,
       ipReq := (ipReq s)(iptype := ipReq s iptype @
         [ip_request IP_TYPE_CPU receiverCoreId receiverCoreId iptype addr sz isRead
            frameNum ftype flowId])\<rparr>))))"

definition enqueueIPIPRequest ::
  "IP_TYPE \<Rightarrow> int \<Rightarrow> int \<Rightarrow> IP_TYPE \<Rightarrow> addr \<Rightarrow> int \<Rightarrow> bool \<Rightarrow> int \<Rightarrow> IP_TYPE \<Rightarrow> int \<Rightarrow> GemDroidSA \<Rightarrow>
   (bool \<times> GemDroidSA) result" where
  "enqueueIPIPRequest sendertype senderid receiverCoreId iptype addr sz isRead frameNum
     ftype flowId s =
     bindE (assertE ''iptype != 0'' (iptype \<noteq> IP_TYPE_CPU)) (\<lambda>_.
     bindE (assertE ''iptype != IP_TYPE_END'' (iptype \<noteq> IP_TYPE_END)) (\<lambda>_.
     if isIPReqLimitReached iptype s then Inr (False, s)
     else Inr (True, s\<lparr>numIPReqs := numIPReqs s + 1,
       ipReq := (ipReq s)(iptype := ipReq s iptype @
         [ip_request sendertype senderid receiverCoreId iptype addr sz isRead
            frameNum ftype flowId])\<rparr>)))"

definition enqueueIPMemRequest ::
  "IP_TYPE \<Rightarrow> int \<Rightarrow> int \<Rightarrow> addr \<Rightarrow> bool \<Rightarrow> GemDroidSA \<Rightarrow> bool \<times> GemDroidSA" where
  "enqueueIPMemRequest ip_type ip_id core_id addr isRead s =
     (if real (length (ipMemReq s)) > MAX_IP_MEM_REQS then
        (False, s\<lparr>numRejected := numRejected s + 1\<rparr>)
      else if length (memCoreResp s) + length (memIpResp s) > MAX_MEM_RESPS then
        (False, s\<lparr>numRejected := numRejected s + 1\<rparr>)
      else
        (True, s\<lparr>numIPMemReqs := numIPMemReqs s + 1,
                 ipMemReq := ipMemReq s @ [mem_msg ip_type ip_id core_id addr isRead False]\<rparr>))"

definition sa_memResponse :: "addr \<Rightarrow> bool \<Rightarrow> IP_TYPE \<Rightarrow> int \<Rightarrow> GemDroidSA \<Rightarrow> GemDroidSA result" where
  "sa_memResponse addr isRead sender_type sender_id s =
     (let response = mem_msg sender_type sender_id 0 addr isRead True in
      if sender_type = IP_TYPE_CPU then
        bindE (assertE ''addr < 2GB'' (addr < 2 * 1024 * 1024 * 1024)) (\<lambda>_.
        Inr (s\<lparr>memCoreResp := memCoreResp s @ [response],
               numMemCoreResponse := numMemCoreResponse s + 1\<rparr>))
      else
        bindE (assertE ''addr > 2GB'' (addr > 2 * 1024 * 1024 * 1024)) (\<lambda>_.
        Inr (s\<lparr>memIpResp := memIpResp s @ [response],
               numMemIPResponse := numMemIPResponse s + 1\<rparr>)))"

subsection \<open>The response of an IP and the next call of its flow\<close>

text \<open>\<open>callIP\<close> is a call of \<open>enqueueIPIPRequest\<close> whose failure is only printed.\<close>

definition callIP ::
  "IP_TYPE \<Rightarrow> int \<Rightarrow> int \<Rightarrow> IP_TYPE \<Rightarrow> addr \<Rightarrow> int \<Rightarrow> bool \<Rightarrow> int \<Rightarrow> IP_TYPE \<Rightarrow> int \<Rightarrow> GemDroidSA \<Rightarrow>
   GemDroidSA result" where
  "callIP sendertype senderid core_id iptype addr sz isRead frameNum ftype flowId s =
     bindE (enqueueIPIPRequest sendertype senderid core_id iptype addr sz isRead frameNum
              ftype flowId s) (\<lambda>(ok, s). Inr s)"

definition callNextIP ::
  "GemDroid \<Rightarrow> IP_TYPE \<Rightarrow> int \<Rightarrow> int \<Rightarrow> int \<Rightarrow> IP_TYPE \<Rightarrow> int \<Rightarrow> int \<Rightarrow> GemDroidSA \<Rightarrow> GemDroidSA result"
  where
  "callNextIP g type sid core frameNum ftype flowid1 flowid2 s =
     (let next = (\<lambda>ft. nextIPtoCall (flowTable g) (app_id g (nat core)) type ft);
          call = callIP type sid core in
      if type = IP_TYPE_CAM then
        bindE (next IP_TYPE_DC) (\<lambda>ips.
        bindE (if ips ! 0 = int (ip_code IP_TYPE_IMG) then
                 call IP_TYPE_IMG CAM_ADDR_START (4 * FRAME_SIZE div 2) True frameNum ftype flowid1 s
               else Inr s) (\<lambda>s.
        bindE (next IP_TYPE_MMC_OUT) (\<lambda>ips.
        bindE (if ips ! 0 = int (ip_code IP_TYPE_VE) then
                 call IP_TYPE_VE CAM_ADDR_START (4 * FRAME_SIZE div 1) True frameNum ftype flowid2 s
               else Inr s) (\<lambda>s.
        bindE (next IP_TYPE_NW) (\<lambda>ips.
        if ips ! 0 = int (ip_code IP_TYPE_VE) then
          call IP_TYPE_VE CAM_ADDR_START (4 * FRAME_SIZE div 1) True frameNum ftype flowid2 s
        else Inr s)))))
      else if type = IP_TYPE_MIC then
        call IP_TYPE_AE MIC_ADDR_START (4 * AUD_FRAME_SIZE) True frameNum ftype flowid1 s
      else if type = IP_TYPE_VD then
        call IP_TYPE_DC (VD_ADDR_START + of_int FRAME_SIZE) (4 * FRAME_SIZE) True frameNum ftype flowid1 s
      else if type = IP_TYPE_AD then
        call IP_TYPE_SND (AD_ADDR_START + of_int AUD_FRAME_SIZE) (4 * AUD_FRAME_SIZE) True
          frameNum ftype flowid1 s
      else if type = IP_TYPE_IMG then
        bindE (call IP_TYPE_DC (IMG_ADDR_START + of_int FRAME_SIZE) (4 * FRAME_SIZE) True
                 frameNum ftype flowid1 s) (\<lambda>s.
        bindE (next IP_TYPE_MMC_OUT) (\<lambda>ips.
        if ips ! 0 \<noteq> -1 then
          call IP_TYPE_MMC_OUT (IMG_ADDR_START + of_int FRAME_SIZE) FRAME_SIZE False
            frameNum ftype flowid2 s
        else Inr s))
      else if type = IP_TYPE_VE then
        bindE (next IP_TYPE_VE) (\<lambda>ips.
        if ips ! 0 = int (ip_code IP_TYPE_NW) then Inr s
        else call IP_TYPE_MMC_OUT (VE_ADDR_START + of_int FRAME_SIZE)
               (FRAME_SIZE div VID_CODING_RATIO) False frameNum ftype flowid1 s)
      else if type = IP_TYPE_AE then
        bindE (next IP_TYPE_AE) (\<lambda>ips.
        if ips ! 0 = int (ip_code IP_TYPE_NW) then Inr s
        else call IP_TYPE_MMC_OUT (AE_ADDR_START + of_int AUD_FRAME_SIZE)
               (AUD_FRAME_SIZE div AUD_CODING_RATIO) False frameNum ftype flowid1 s)
      else if type = IP_TYPE_MMC_IN then
        bindE (next ftype) (\<lambda>ips.
        if ips ! 0 = int (ip_code IP_TYPE_AD) then
          call IP_TYPE_AD MMC_IN_ADDR_START (4 * AUD_FRAME_SIZE div AUD_CODING_RATIO) True
            frameNum ftype flowid1 s
        else if ips ! 0 = int (ip_code IP_TYPE_IMG) then
          call IP_TYPE_IMG MMC_IN_ADDR_START (4 * FRAME_SIZE div 2) True frameNum ftype flowid1 s
        else if ips ! 0 = int (ip_code IP_TYPE_VD) then
          call IP_TYPE_VD MMC_IN_ADDR_START (4 * FRAME_SIZE div VID_CODING_RATIO) True
            frameNum ftype flowid1 s
        else Inr s)
      else if type = IP_TYPE_GPU then
        call IP_TYPE_DC (DC1_ADDR_START + of_int FRAME_SIZE) (4 * FRAME_SIZE) True
          frameNum ftype flowid1 s
      else Inr s)"

definition enqueueIPResponse ::
  "real \<Rightarrow> real \<Rightarrow> IP_TYPE \<Rightarrow> int \<Rightarrow> int \<Rightarrow> int \<Rightarrow> IP_TYPE \<Rightarrow> int \<Rightarrow> GemDroid \<Rightarrow> GemDroidSA \<Rightarrow>
   (bool \<times> GemDroid \<times> GemDroidSA) result" where
  "enqueueIPResponse memFreq ipFreq senderIPType senderIPId receiverCoreId frameNum ftype flowId g s =
     (let g = snd (markIPRequestCompleted memFreq ipFreq receiverCoreId senderIPType senderIPId
                     frameNum flowId g);
          s = s\<lparr>numIPCoreResponse := numIPCoreResponse s + 1\<rparr> in
      bindE (flow_identification (flowTable g) (app_id g (nat receiverCoreId)) senderIPType) (\<lambda>flows.
      bindE (callNextIP g senderIPType senderIPId receiverCoreId frameNum ftype
               (flows ! 0) (flows ! 1) s) (\<lambda>s.
      Inr (True, g, s))))"

subsection \<open>Draining the core response queue and power\<close>

definition sendIPResponses :: "GemDroidSA \<Rightarrow> GemDroidSA" where
  "sendIPResponses s =
     (if ipCoreResp s \<noteq> [] then updateActivityCountIn1Ms 1 (s\<lparr>ipCoreResp := tl (ipCoreResp s)\<rparr>)
      else s)"

definition sa_powerIn1ms :: "GemDroidSA \<Rightarrow> real \<times> GemDroidSA" where
  "sa_powerIn1ms s =
     (let dynamicPowerin1ms =
            (((5 / 10) / (605 / 1000)) * (real_of_int (dynamicActivity s) / 750000))
              * (11 / 10) * (11 / 10) * (5 / 10);
          staticPowerin1ms = 25 / 1000
      in (staticPowerin1ms + dynamicPowerin1ms, s\<lparr>dynamicActivity := 0\<rparr>))"

definition getActivity :: "GemDroidSA \<Rightarrow> real" where
  "getActivity s = real_of_int (dynamicActivity s) / 750000"

text \<open>
  The queue half of \<open>sendMemoryResponses\<close>: the response it delivers, core responses first, and
  the agent after it. The delivery itself is a call into a core or an IP, which touches no
  queue of the agent.
\<close>

definition popMemResponse :: "bool \<Rightarrow> GemDroidSA \<Rightarrow> GemDroidMemMsg option \<times> GemDroidSA" where
  "popMemResponse perfectMemory s =
     (let account = (\<lambda>m s. if perfectMemory
                     then updateActivityCountIn1Ms 1 (s\<lparr>sa_cyclesToSkip := 0\<rparr>)
                     else updateActivityCountIn1Ms MEM_RESP_TRANSMIT_CYCLES
                       (s\<lparr>sa_cyclesToSkip := (if mm_isRead m then MEM_RESP_TRANSMIT_CYCLES else 1)\<rparr>)) in
      if memCoreResp s \<noteq> [] then
        (Some (hd (memCoreResp s)),
         account (hd (memCoreResp s)) (s\<lparr>memCoreResp := tl (memCoreResp s)\<rparr>))
      else if memIpResp s \<noteq> [] then
        (Some (hd (memIpResp s)),
         account (hd (memIpResp s)) (s\<lparr>memIpResp := tl (memIpResp s)\<rparr>))
      else (None, s))"

subsection \<open>Invariant\<close>

text \<open>
  What the guards keep of the queue lengths. The comparisons are \<open>>\<close>, so that the core queue
  can hold \<open>MAX_MEM_REQS + 1\<close> requests and the IP queue 231, the first length above
  \<open>MAX_MEM_REQS * 0.9\<close>; a request to an IP is only queued below the limit.
\<close>

definition ip_target :: "IP_TYPE \<Rightarrow> GemDroidIPRequest \<Rightarrow> bool" where
  "ip_target t r \<longleftrightarrow> rq_iptype r = t \<and> t \<noteq> IP_TYPE_CPU \<and> t \<noteq> IP_TYPE_END"

definition sa_inv :: "GemDroidSA \<Rightarrow> bool" where
  "sa_inv s \<longleftrightarrow> length (coreMemReq s) \<le> 257 \<and> length (ipMemReq s) \<le> 231 \<and>
     (\<forall>t. length (ipReq s t) \<le> 10) \<and>
     (\<forall>m\<in>set (coreMemReq s). mm_ip_type m = IP_TYPE_CPU \<and> mm_core_id m = mm_id m) \<and>
     (\<forall>t. \<forall>r\<in>set (ipReq s t). ip_target t r)"

text \<open>
  What a response of an IP adds to the queues: requests on behalf of the same core, frame and
  sender, each at the end of the queue of the IP it calls.
\<close>

definition calls_of :: "IP_TYPE \<Rightarrow> int \<Rightarrow> int \<Rightarrow> int \<Rightarrow> GemDroidSA \<Rightarrow> GemDroidSA \<Rightarrow> bool" where
  "calls_of type sid core frameNum s s' \<longleftrightarrow>
     (\<forall>t. \<exists>rs. ipReq s' t = ipReq s t @ rs \<and>
        (\<forall>r\<in>set rs. ip_target t r \<and> rq_sendertype r = type \<and> rq_sender_id r = sid \<and>
           rq_core_id r = core \<and> rq_frameNum r = frameNum)) \<and>
     coreMemReq s' = coreMemReq s \<and> ipMemReq s' = ipMemReq s \<and>
     memCoreResp s' = memCoreResp s \<and> memIpResp s' = memIpResp s \<and> sa_ticks s' = sa_ticks s"

text \<open>An idle system agent, for the witnesses.\<close>

definition sa_demo :: GemDroidSA where
  "sa_demo =
     \<lparr>coreMemReq = [], ipMemReq = [], memCoreResp = [], memIpResp = [], ipCoreResp = [],
      ipReq = (\<lambda>_. []), totalQueueSize = 0, sa_cyclesToSkip = 0, dynamicActivity = 0, sa_ticks = 0,
      numCoreMemReqs = 0, numIPReqs = 0, numIPMemReqs = 0, numMemCoreResponse = 0,
      numIPCoreResponse = 0, numMemIPResponse = 0, numRejected = 0\<rparr>"

subsection \<open>Lemmas\<close>

lemma ip_mem_limit: "real n > MAX_IP_MEM_REQS \<longleftrightarrow> 231 \<le> n"
  by (simp add: field_simps) linarith

lemmas sa_defs = enqueueCoreMemRequest_def enqueueIPMemRequest_def enqueueCoreIPRequest_def
  enqueueIPIPRequest_def callIP_def sa_memResponse_def isIPReqLimitReached_def

lemma sa_inv_new [inv_intros]: "sa_inv (new_GemDroidSA s)"
  by (simp add: sa_inv_def new_GemDroidSA_def sa_resetStats_def)

lemma sa_inv_enqueueCoreMemRequest [inv_intros]:
  "sa_inv s \<Longrightarrow> sa_inv (snd (enqueueCoreMemRequest i a r s))"
  by (auto simp: sa_inv_def enqueueCoreMemRequest_def)

lemma sa_inv_enqueueIPMemRequest [inv_intros]:
  "sa_inv s \<Longrightarrow> sa_inv (snd (enqueueIPMemRequest t i c a r s))"
  unfolding enqueueIPMemRequest_def ip_mem_limit by (auto simp: sa_inv_def)

lemma sa_inv_push_ipReq:
  "sa_inv s \<Longrightarrow> length (ipReq s t) < 10 \<Longrightarrow> ip_target t r \<Longrightarrow>
   sa_inv (s\<lparr>numIPReqs := n, ipReq := (ipReq s)(t := ipReq s t @ [r])\<rparr>)"
  by (auto simp: sa_inv_def split: if_splits)

lemma ip_target_request:
  "t \<noteq> IP_TYPE_CPU \<Longrightarrow> t \<noteq> IP_TYPE_END \<Longrightarrow> ip_target t (ip_request st si c t a z r n ft k)"
  by (simp add: ip_target_def)

lemma sa_inv_enqueueCoreIPRequest [inv_intros]:
  "enqueueCoreIPRequest c t a z r n ft k s = Inr (b, s') \<Longrightarrow> sa_inv s \<Longrightarrow> sa_inv s'"
  by (auto simp: enqueueCoreIPRequest_def intro!: sa_inv_push_ipReq ip_target_request)

lemma sa_inv_enqueueIPIPRequest [inv_intros]:
  "enqueueIPIPRequest st si c t a z r n ft k s = Inr (b, s') \<Longrightarrow> sa_inv s \<Longrightarrow> sa_inv s'"
  by (cases "isIPReqLimitReached t s")
    (auto simp: enqueueIPIPRequest_def isIPReqLimitReached_def
      intro!: sa_inv_push_ipReq ip_target_request)

lemma sa_inv_callIP [inv_intros]:
  "callIP st si c t a z r n ft k s = Inr s' \<Longrightarrow> sa_inv s \<Longrightarrow> sa_inv s'"
  by (auto simp: callIP_def intro: sa_inv_enqueueIPIPRequest)

lemma sa_inv_fields:
  "sa_inv s \<Longrightarrow> coreMemReq s' = coreMemReq s \<Longrightarrow> ipMemReq s' = ipMemReq s \<Longrightarrow> ipReq s' = ipReq s \<Longrightarrow>
   sa_inv s'"
  by (simp add: sa_inv_def)

lemma sa_inv_sa_memResponse [inv_intros]:
  "sa_memResponse a r t i s = Inr s' \<Longrightarrow> sa_inv s \<Longrightarrow> sa_inv s'"
  by (rule sa_inv_fields [of s]) (auto simp: sa_memResponse_def Let_def split: if_splits)

lemma sa_inv_callNextIP [inv_intros]:
  "callNextIP g t i c n ft k1 k2 s = Inr s' \<Longrightarrow> sa_inv s \<Longrightarrow> sa_inv s'"
  unfolding callNextIP_def Let_def
  by (auto split: if_splits) (blast intro: sa_inv_callIP)+

lemma sa_inv_enqueueIPResponse [inv_intros]:
  assumes "enqueueIPResponse mf cf t i c n ft k g s = Inr (b, g', s')" "sa_inv s"
  shows "sa_inv s'"
proof -
  have "sa_inv (s\<lparr>numIPCoreResponse := numIPCoreResponse s + 1\<rparr>)"
    using assms(2) by (rule sa_inv_fields) simp_all
  with assms(1) show ?thesis
    by (auto simp: enqueueIPResponse_def Let_def intro: sa_inv_callNextIP)
qed

lemma calls_of_refl: "calls_of type sid core frameNum s s"
  by (simp add: calls_of_def)

lemma calls_of_trans:
  assumes "calls_of type sid core frameNum s s1" "calls_of type sid core frameNum s1 s2"
  shows "calls_of type sid core frameNum s s2"
proof -
  let ?ok = "\<lambda>t r. ip_target t r \<and> rq_sendertype r = type \<and> rq_sender_id r = sid \<and>
    rq_core_id r = core \<and> rq_frameNum r = frameNum"
  have "\<exists>rs. ipReq s2 t = ipReq s t @ rs \<and> (\<forall>r\<in>set rs. ?ok t r)" for t
  proof -
    from assms obtain rs rs' where "ipReq s1 t = ipReq s t @ rs" "\<forall>r\<in>set rs. ?ok t r"
      "ipReq s2 t = ipReq s1 t @ rs'" "\<forall>r\<in>set rs'. ?ok t r"
      by (meson calls_of_def)
    then show ?thesis by (intro exI [of _ "rs @ rs'"]) auto
  qed
  with assms show ?thesis by (simp add: calls_of_def)
qed

lemma calls_of_callIP:
  "callIP type sid core t a z r frameNum ft k s = Inr s' \<Longrightarrow> calls_of type sid core frameNum s s'"
  by (auto simp: callIP_def enqueueIPIPRequest_def calls_of_def ip_target_def split: if_splits)

lemma calls_of_callNextIP:
  "callNextIP g type sid core frameNum ft k1 k2 s = Inr s' \<Longrightarrow> calls_of type sid core frameNum s s'"
  unfolding callNextIP_def Let_def
  by (auto split: if_splits)
    (blast intro: calls_of_callIP calls_of_refl calls_of_trans)+

subsection \<open>Properties\<close>



text \<open>The guards of the system agent compare with \<open>>\<close>: the core queue is refused only above
  \<open>MAX_MEM_REQS\<close> requests, so that it can reach one more than the limit, and the IP queue,
  which is not counted against the core queue's, only at 231.\<close>

theorem mem_queue_limits:
  assumes "length (memCoreResp s) + length (memIpResp s) \<le> 256"
  shows "(fst (enqueueCoreMemRequest i a r s) \<longleftrightarrow> length (coreMemReq s) + length (ipMemReq s) \<le> 256) \<and>
    (fst (enqueueIPMemRequest t j c a r s) \<longleftrightarrow> length (ipMemReq s) \<le> 230)"
  using assms unfolding enqueueIPMemRequest_def ip_mem_limit
  by (auto simp: enqueueCoreMemRequest_def)

theorem mem_queue_limits_witness:
  "let s = sa_demo\<lparr>coreMemReq := replicate 256 (mem_msg IP_TYPE_CPU 0 0 1 True False)\<rparr>;
       s' = snd (enqueueCoreMemRequest 0 1 True s)
   in length (coreMemReq s') = 257 \<and> \<not> fst (enqueueCoreMemRequest 0 1 True s') \<and>
      fst (enqueueIPMemRequest IP_TYPE_VD 0 0 1 True s')"
proof -
  let ?s = "sa_demo\<lparr>coreMemReq := replicate 256 (mem_msg IP_TYPE_CPU 0 0 1 True False)\<rparr>"
  let ?s' = "snd (enqueueCoreMemRequest 0 1 True ?s)"
  have s': "length (coreMemReq ?s') = 257" "memCoreResp ?s' = []" "memIpResp ?s' = []"
    "ipMemReq ?s' = []"
    by (simp_all add: enqueueCoreMemRequest_def sa_demo_def)
  then show ?thesis
    using mem_queue_limits [of ?s' 0 1 True IP_TYPE_VD 0 0] by (simp add: Let_def)
qed

end
