(* ===== verification/GD_Mem.thy ===== *)
theory GD_Mem
  imports GD_SA
begin

section \<open>The memory\<close>

text \<open>
  Class \<open>GemDroidMemory\<close> (\<open>gemdroid_mem.hh\<close>, \<open>gemdroid_mem.cc\<close>) and the functions of the
  system agent that pass requests to it. The DRAM simulator behind \<open>DRAMSim2Wrapper\<close> is a
  parameter: a state of any type \<open>'d\<close> and the operations the code calls, in a record of type
  \<open>'d DRAMSim2Wrapper\<close>. A tick of the simulator returns the completions it reports through its
  two callbacks, in order, as \<open>(isRead, addr, sender_type, sender_id)\<close>; \<open>getPower\<close> gives \<open>None\<close>
  where the simulator's result is not a number, and starts a new average. \<open>uncore\<close> joins the platform, the system agent
  and the memory, the part of the state that every other component calls into.
\<close>

type_synonym completion = "bool \<times> addr \<times> IP_TYPE \<times> int"

record 'd DRAMSim2Wrapper =
  canAccept :: "'d \<Rightarrow> bool"
  dram_enqueue :: "bool \<Rightarrow> addr \<Rightarrow> IP_TYPE \<Rightarrow> int \<Rightarrow> 'd \<Rightarrow> 'd"
  dram_tick :: "'d \<Rightarrow> completion list \<times> 'd"
  updateFreq :: "real \<Rightarrow> 'd \<Rightarrow> 'd"
  getPower :: "'d \<Rightarrow> real option \<times> 'd"
  dram_printStats :: "'d \<Rightarrow> 'd"
  dram_bandwidth :: "'d \<Rightarrow> real"
  dram_latency :: "'d \<Rightarrow> real option"
  getNumChannels :: nat

record 'd GemDroidMemory =
  dramWrapper :: 'd
  mem_ticks :: int
  mem_perfectMemory :: bool
  perfectMemLatency :: int
  mem_cyclesToStall :: int
  m_freq :: real
  m_optMemFreq :: real
  m_power :: real
  m_memCPUReqs :: int
  m_memIPReqs :: int
  mem_rejected :: int

record 'd uncore =
  gd :: GemDroid
  sa :: GemDroidSA
  mem :: "'d GemDroidMemory"

subsection \<open>Construction and frequency\<close>

definition mem_resetStats :: "'d GemDroidMemory \<Rightarrow> 'd GemDroidMemory" where
  "mem_resetStats m = m\<lparr>m_memCPUReqs := 0, m_memIPReqs := 0, mem_rejected := 0\<rparr>"

definition new_GemDroidMemory :: "'d \<Rightarrow> bool \<Rightarrow> 'd GemDroidMemory \<Rightarrow> 'd GemDroidMemory" where
  "new_GemDroidMemory d perfectMemory m = (mem_resetStats m)
     \<lparr>dramWrapper := d, mem_ticks := 0, mem_perfectMemory := perfectMemory,
      perfectMemLatency := PEFECT_MEM_LATENCY, mem_cyclesToStall := 0, m_optMemFreq := 8 / 10\<rparr>"

definition applyMemFreq :: "'d DRAMSim2Wrapper \<Rightarrow> real \<Rightarrow> 'd GemDroidMemory \<Rightarrow> 'd GemDroidMemory" where
  "applyMemFreq D freq m = m\<lparr>m_freq := freq, dramWrapper := updateFreq D freq (dramWrapper m)\<rparr>"

definition setMemFreq :: "'d DRAMSim2Wrapper \<Rightarrow> real \<Rightarrow> 'd GemDroidMemory \<Rightarrow> 'd GemDroidMemory result" where
  "setMemFreq D freq m =
     bindE (assertE ''freq'' (freq \<ge> MIN_MEM_FREQ - EPSILON \<and> freq \<le> MAX_MEM_FREQ + EPSILON))
       (\<lambda>_. Inr (applyMemFreq D freq m))"

definition setMinMemFreq :: "'d DRAMSim2Wrapper \<Rightarrow> 'd GemDroidMemory \<Rightarrow> 'd GemDroidMemory" where
  "setMinMemFreq D m = applyMemFreq D MIN_MEM_FREQ m"

definition setMaxMemFreq :: "'d DRAMSim2Wrapper \<Rightarrow> 'd GemDroidMemory \<Rightarrow> 'd GemDroidMemory" where
  "setMaxMemFreq D m = applyMemFreq D MAX_MEM_FREQ m"

definition setOptMemFreq :: "'d DRAMSim2Wrapper \<Rightarrow> 'd GemDroidMemory \<Rightarrow> 'd GemDroidMemory" where
  "setOptMemFreq D m = applyMemFreq D (m_optMemFreq m) m"

definition incMemFreq :: "'d DRAMSim2Wrapper \<Rightarrow> int \<Rightarrow> 'd GemDroidMemory \<Rightarrow> 'd GemDroidMemory" where
  "incMemFreq D steps m =
     applyMemFreq D (if m_freq m + 1 / 10 * real_of_int steps \<le> MAX_MEM_FREQ
                     then m_freq m + 1 / 10 * real_of_int steps else MAX_MEM_FREQ) m"

definition decMemFreq :: "'d DRAMSim2Wrapper \<Rightarrow> int \<Rightarrow> 'd GemDroidMemory \<Rightarrow> 'd GemDroidMemory" where
  "decMemFreq D steps m =
     applyMemFreq D (if m_freq m - 1 / 10 * real_of_int steps \<ge> MIN_MEM_FREQ
                     then m_freq m - 1 / 10 * real_of_int steps else MIN_MEM_FREQ) m"

definition mem_powerIn1ms :: "'d DRAMSim2Wrapper \<Rightarrow> 'd GemDroidMemory \<Rightarrow> real \<times> 'd GemDroidMemory" where
  "mem_powerIn1ms D m =
     (let (power, d) = getPower D (dramWrapper m); m = m\<lparr>dramWrapper := d\<rparr> in
      case power of
        None \<Rightarrow> (m_power m, m)
      | Some pw \<Rightarrow> (pw, m\<lparr>m_power := pw\<rparr>))"

text \<open>What printing the statistics leaves behind: the simulator closes its epoch.\<close>

definition mem_printPeriodicStats :: "'d DRAMSim2Wrapper \<Rightarrow> 'd GemDroidMemory \<Rightarrow> 'd GemDroidMemory" where
  "mem_printPeriodicStats D m = m\<lparr>dramWrapper := dram_printStats D (dramWrapper m)\<rparr>"

definition getMaxBandwidth_at :: "real \<Rightarrow> real" where
  "getMaxBandwidth_at freq = 64 * 2 * freq / 8"

definition getMaxBandwidth :: "'d GemDroidMemory \<Rightarrow> real" where
  "getMaxBandwidth m = 64 * 2 * m_freq m / 8"

definition getFreqForBandwidth :: "real \<Rightarrow> real" where
  "getFreqForBandwidth bw = bw / 16"

definition mem_getEnergyEst :: "real \<Rightarrow> real \<Rightarrow> real \<Rightarrow> real" where
  "mem_getEnergyEst currFreq currEnergy newFreq = currEnergy * (newFreq / currFreq)"

subsection \<open>Requests and completions\<close>

definition mem_countReq :: "IP_TYPE \<Rightarrow> 'd GemDroidMemory \<Rightarrow> 'd GemDroidMemory" where
  "mem_countReq type m =
     (if type = IP_TYPE_CPU then m\<lparr>m_memCPUReqs := m_memCPUReqs m + 1\<rparr>
      else m\<lparr>m_memIPReqs := m_memIPReqs m + 1\<rparr>)"

definition enqueueMemReq ::
  "'d DRAMSim2Wrapper \<Rightarrow> IP_TYPE \<Rightarrow> int \<Rightarrow> int \<Rightarrow> addr \<Rightarrow> bool \<Rightarrow> 'd uncore \<Rightarrow> (bool \<times> 'd uncore) result"
  where
  "enqueueMemReq D type sid core_id addr isRead u =
     bindE (assertE ''addr 0'' (addr \<noteq> 0)) (\<lambda>_.
     if \<not> mem_perfectMemory (mem u) then
       (if canAccept D (dramWrapper (mem u)) then
          bindE (boundsE ''appMemReqs'' (0 \<le> core_id \<and> core_id < int MAX_CPUS)) (\<lambda>_.
          let g = gd u;
              g' = g\<lparr>appMemReqs := (appMemReqs g)(core_id := appMemReqs g core_id + 1),
                     ipMemReqs := (ipMemReqs g)(type := ipMemReqs g type + 1)\<rparr>;
              m = mem_countReq type (mem u);
              m' = m\<lparr>dramWrapper := dram_enqueue D (\<not> isRead) addr type sid (dramWrapper m)\<rparr>
          in Inr (True, u\<lparr>gd := g', mem := m'\<rparr>))
        else Inr (False, u\<lparr>mem := (mem u)\<lparr>mem_rejected := mem_rejected (mem u) + 1\<rparr>\<rparr>))
     else
       bindE (sa_memResponse addr isRead type sid (sa u)) (\<lambda>s.
       Inr (True, u\<lparr>sa := s, mem := mem_countReq type (mem u)\<rparr>)))"

definition readComplete :: "addr \<Rightarrow> IP_TYPE \<Rightarrow> int \<Rightarrow> GemDroidSA \<Rightarrow> GemDroidSA result" where
  "readComplete addr sender_type sender_id s = sa_memResponse addr True sender_type sender_id s"

definition writeComplete :: "addr \<Rightarrow> IP_TYPE \<Rightarrow> int \<Rightarrow> GemDroidSA \<Rightarrow> GemDroidSA result" where
  "writeComplete addr sender_type sender_id s = sa_memResponse addr False sender_type sender_id s"

fun complete_all :: "completion list \<Rightarrow> GemDroidSA \<Rightarrow> GemDroidSA result" where
  "complete_all [] s = Inr s"
| "complete_all ((isRead, addr, sender_type, sender_id) # cs) s =
     bindE ((if isRead then readComplete else writeComplete) addr sender_type sender_id s)
       (complete_all cs)"

definition mem_tick :: "'d DRAMSim2Wrapper \<Rightarrow> 'd uncore \<Rightarrow> 'd uncore result" where
  "mem_tick D u =
     (let m = mem u; (cs, d) = dram_tick D (dramWrapper m) in
      bindE (complete_all cs (sa u)) (\<lambda>s.
      Inr (u\<lparr>sa := s, mem := m\<lparr>mem_ticks := mem_ticks m + 1, dramWrapper := d\<rparr>\<rparr>)))"

subsection \<open>The system agent's memory side\<close>

definition sendMemoryRequests :: "'d DRAMSim2Wrapper \<Rightarrow> 'd uncore \<Rightarrow> 'd uncore result" where
  "sendMemoryRequests D u =
     (if coreMemReq (sa u) \<noteq> [] then
        let request = hd (coreMemReq (sa u)) in
        bindE (enqueueMemReq D IP_TYPE_CPU (mm_id request) (mm_core_id request)
                 (mm_addr request) (mm_isRead request) u) (\<lambda>(ok, u).
        if ok then
          Inr (u\<lparr>sa := updateActivityCountIn1Ms 1
                   ((sa u)\<lparr>coreMemReq := tl (coreMemReq (sa u))\<rparr>)\<rparr>)
        else Inr u)
      else if ipMemReq (sa u) \<noteq> [] then
        let request = hd (ipMemReq (sa u)) in
        bindE (enqueueMemReq D (mm_ip_type request) (mm_id request) (mm_core_id request)
                 (mm_addr request) (mm_isRead request) u) (\<lambda>(ok, u).
        if ok then
          Inr (u\<lparr>sa := updateActivityCountIn1Ms 1
                   ((sa u)\<lparr>ipMemReq := tl (ipMemReq (sa u))\<rparr>)\<rparr>)
        else Inr u)
      else Inr u)"

subsection \<open>What is in flight\<close>

text \<open>
  A request is identified by its kind, address, sender type and sender. The requests in flight
  are the queued ones, the ones the simulator holds, and the ones answered but not yet
  delivered. \<open>dram_conserves\<close> is what the code relies on of the simulator: it reports every
  request it accepted exactly once, and no other.
\<close>

definition msg_key :: "GemDroidMemMsg \<Rightarrow> completion" where
  "msg_key m = (mm_isRead m, mm_addr m, mm_ip_type m, mm_id m)"

definition sa_requests :: "GemDroidSA \<Rightarrow> completion multiset" where
  "sa_requests s = mset (map msg_key (coreMemReq s)) + mset (map msg_key (ipMemReq s))"

definition sa_responses :: "GemDroidSA \<Rightarrow> completion multiset" where
  "sa_responses s = mset (map msg_key (memCoreResp s)) + mset (map msg_key (memIpResp s))"

definition in_flight :: "('d \<Rightarrow> completion multiset) \<Rightarrow> 'd uncore \<Rightarrow> completion multiset" where
  "in_flight pending u = sa_requests (sa u) + pending (dramWrapper (mem u)) + sa_responses (sa u)"

definition dram_conserves :: "'d DRAMSim2Wrapper \<Rightarrow> ('d \<Rightarrow> completion multiset) \<Rightarrow> bool" where
  "dram_conserves D pending \<longleftrightarrow>
     (\<forall>w a t i d. canAccept D d \<longrightarrow>
        pending (dram_enqueue D w a t i d) = add_mset (\<not> w, a, t, i) (pending d)) \<and>
     (\<forall>d cs d'. dram_tick D d = (cs, d') \<longrightarrow> pending d = mset cs + pending d') \<and>
     (\<forall>f d. pending (updateFreq D f d) = pending d) \<and>
     (\<forall>d. pending (snd (getPower D d)) = pending d) \<and> (\<forall>d. pending (dram_printStats D d) = pending d)"

text \<open>The memory map: the cores own the addresses below 2 GB, the IPs those above.\<close>

definition mem_half :: "IP_TYPE \<Rightarrow> addr \<Rightarrow> bool" where
  "mem_half t a = (if t = IP_TYPE_CPU then a < 2147483648 else a > 2147483648)"

text \<open>
  A run of the uncore: whatever the cores and the IPs issue, in any order, interleaved with the
  steps of the agent and of the memory. \<open>issued\<close> are the memory requests accepted so far,
  \<open>delivered\<close> the responses taken out of the response queues.
\<close>

inductive uncore_run ::
  "'d DRAMSim2Wrapper \<Rightarrow> ('d \<Rightarrow> completion multiset) \<Rightarrow> 'd uncore \<Rightarrow>
   completion multiset \<Rightarrow> completion multiset \<Rightarrow> bool" for D pending where
  start: "sa u = new_GemDroidSA s \<Longrightarrow> pending (dramWrapper (mem u)) = {#} \<Longrightarrow>
    uncore_run D pending u {#} {#}"
| core_request: "uncore_run D pending u issued delivered \<Longrightarrow>
    enqueueCoreMemRequest c a r (sa u) = (ok, s) \<Longrightarrow>
    uncore_run D pending (u\<lparr>sa := s\<rparr>)
      (if ok then add_mset (r, a, IP_TYPE_CPU, c) issued else issued) delivered"
| ip_mem_request: "uncore_run D pending u issued delivered \<Longrightarrow>
    enqueueIPMemRequest t i c a r (sa u) = (ok, s) \<Longrightarrow>
    uncore_run D pending (u\<lparr>sa := s\<rparr>) (if ok then add_mset (r, a, t, i) issued else issued) delivered"
| core_ip_request: "uncore_run D pending u issued delivered \<Longrightarrow>
    enqueueCoreIPRequest c t a z r n ft k (sa u) = Inr (ok, s) \<Longrightarrow>
    uncore_run D pending (u\<lparr>sa := s\<rparr>) issued delivered"
| ip_response: "uncore_run D pending u issued delivered \<Longrightarrow>
    enqueueIPResponse mf cf t i c n ft k (gd u) (sa u) = Inr (ok, g, s) \<Longrightarrow>
    uncore_run D pending (u\<lparr>gd := g, sa := s\<rparr>) issued delivered"
| ip_called: "uncore_run D pending u issued delivered \<Longrightarrow> ipReq (sa u) t = q # qs \<Longrightarrow>
    uncore_run D pending (u\<lparr>sa := (sa u)\<lparr>ipReq := (ipReq (sa u))(t := qs)\<rparr>\<rparr>) issued delivered"
| send_requests: "uncore_run D pending u issued delivered \<Longrightarrow> sendMemoryRequests D u = Inr u' \<Longrightarrow>
    uncore_run D pending u' issued delivered"
| memory_tick: "uncore_run D pending u issued delivered \<Longrightarrow> mem_tick D u = Inr u' \<Longrightarrow>
    uncore_run D pending u' issued delivered"
| deliver: "uncore_run D pending u issued delivered \<Longrightarrow>
    popMemResponse (gd_perfectMemory (gd u)) (sa u) = (Some m, s) \<Longrightarrow>
    uncore_run D pending (u\<lparr>sa := s\<rparr>) issued (add_mset (msg_key m) delivered)"
| set_freq: "uncore_run D pending u issued delivered \<Longrightarrow>
    uncore_run D pending (u\<lparr>mem := applyMemFreq D f (mem u)\<rparr>) issued delivered"

text \<open>A simulator that answers the oldest request each tick, and an uncore around it in which a
  core and the video decoder each wait for a line, for the witnesses.\<close>

definition fifo_dram :: "completion list DRAMSim2Wrapper" where
  "fifo_dram =
     \<lparr>canAccept = (\<lambda>d. length d < 4),
      dram_enqueue = (\<lambda>w a t i d. d @ [(\<not> w, a, t, i)]),
      dram_tick = (\<lambda>d. case d of [] \<Rightarrow> ([], []) | c # d' \<Rightarrow> ([c], d')),
      updateFreq = (\<lambda>f d. d), getPower = (\<lambda>d. (None, d)), dram_printStats = (\<lambda>d. d), dram_bandwidth = (\<lambda>d. 0),
      dram_latency = (\<lambda>d. Some 0), getNumChannels = 1\<rparr>"

definition mem_demo :: "completion list GemDroidMemory" where
  "mem_demo =
     \<lparr>dramWrapper = [], mem_ticks = 0, mem_perfectMemory = False, perfectMemLatency = 1,
      mem_cyclesToStall = 0, m_freq = 8 / 10, m_optMemFreq = 8 / 10, m_power = 0,
      m_memCPUReqs = 0, m_memIPReqs = 0, mem_rejected = 0\<rparr>"

definition u_demo :: "completion list uncore" where
  "u_demo =
     \<lparr>gd = gd_demo,
      sa = sa_demo\<lparr>coreMemReq := [mem_msg IP_TYPE_CPU 0 0 4096 True False],
                   ipMemReq := [mem_msg IP_TYPE_VD 0 0 VD_ADDR_START True False]\<rparr>,
      mem = mem_demo\<rparr>"

subsection \<open>Lemmas\<close>

lemma applyMemFreq_sel [simp]:
  "m_freq (applyMemFreq D f m) = f"
  "m_optMemFreq (applyMemFreq D f m) = m_optMemFreq m"
  "mem_perfectMemory (applyMemFreq D f m) = mem_perfectMemory m"
  "dramWrapper (applyMemFreq D f m) = updateFreq D f (dramWrapper m)"
  by (simp_all add: applyMemFreq_def)

lemma mem_countReq_sel [simp]:
  "dramWrapper (mem_countReq t m) = dramWrapper m"
  "mem_perfectMemory (mem_countReq t m) = mem_perfectMemory m"
  "m_freq (mem_countReq t m) = m_freq m"
  "mem_rejected (mem_countReq t m) = mem_rejected m"
  "m_memCPUReqs (mem_countReq t m) + m_memIPReqs (mem_countReq t m) =
     m_memCPUReqs m + m_memIPReqs m + 1"
  by (simp_all add: mem_countReq_def)

lemma updateActivity_sel [simp]:
  "coreMemReq (updateActivityCountIn1Ms n s) = coreMemReq s"
  "ipMemReq (updateActivityCountIn1Ms n s) = ipMemReq s"
  "memCoreResp (updateActivityCountIn1Ms n s) = memCoreResp s"
  "memIpResp (updateActivityCountIn1Ms n s) = memIpResp s"
  "ipReq (updateActivityCountIn1Ms n s) = ipReq s"
  by (simp_all add: updateActivityCountIn1Ms_def)

lemma sa_memResponse_responses:
  "sa_memResponse a r t i s = Inr s' \<Longrightarrow>
   sa_responses s' = add_mset (r, a, t, i) (sa_responses s) \<and>
   coreMemReq s' = coreMemReq s \<and> ipMemReq s' = ipMemReq s \<and> ipReq s' = ipReq s"
  by (auto simp: sa_memResponse_def Let_def sa_responses_def msg_key_def split: if_splits)

lemma complete_all_responses:
  "complete_all cs s = Inr s' \<Longrightarrow>
   sa_responses s' = mset cs + sa_responses s \<and>
   coreMemReq s' = coreMemReq s \<and> ipMemReq s' = ipMemReq s \<and> ipReq s' = ipReq s"
proof (induction cs s rule: complete_all.induct)
  case (2 r a t i cs s)
  from "2.prems" obtain s1 where s1: "sa_memResponse a r t i s = Inr s1"
    and cs: "complete_all cs s1 = Inr s'"
    by (cases r) (auto simp: readComplete_def writeComplete_def)
  then have "(if r then readComplete else writeComplete) a t i s = Inr s1"
    by (cases r) (simp_all add: readComplete_def writeComplete_def)
  from "2.IH" [OF this cs] sa_memResponse_responses [OF s1] show ?case
    by simp
qed simp

text \<open>What \<open>enqueueMemReq\<close> does, by the branch it takes.\<close>

lemma enqueueMemReq_InrE:
  assumes "enqueueMemReq D t i c a r u = Inr (b, u')"
  obtains (accepted) g where "\<not> mem_perfectMemory (mem u)" "canAccept D (dramWrapper (mem u))" "b"
      "u' = u\<lparr>gd := g, mem := (mem_countReq t (mem u))
        \<lparr>dramWrapper := dram_enqueue D (\<not> r) a t i (dramWrapper (mem u))\<rparr>\<rparr>"
      "0 \<le> c" "c < 4"
  | (rejected) "\<not> mem_perfectMemory (mem u)" "\<not> canAccept D (dramWrapper (mem u))" "\<not> b"
      "u' = u\<lparr>mem := (mem u)\<lparr>mem_rejected := mem_rejected (mem u) + 1\<rparr>\<rparr>"
  | (perfect) s where "mem_perfectMemory (mem u)" "b" "sa_memResponse a r t i (sa u) = Inr s"
      "u' = u\<lparr>sa := s, mem := mem_countReq t (mem u)\<rparr>"
proof (cases "mem_perfectMemory (mem u)")
  case True
  with assms show thesis
    by (auto simp: enqueueMemReq_def intro: perfect)
next
  case False
  with assms show thesis
    by (cases "canAccept D (dramWrapper (mem u))")
      (auto simp: enqueueMemReq_def Let_def intro: accepted rejected)
qed

lemma enqueueMemReq_queues:
  "enqueueMemReq D t i c a r u = Inr (b, u') \<Longrightarrow>
   coreMemReq (sa u') = coreMemReq (sa u) \<and> ipMemReq (sa u') = ipMemReq (sa u) \<and>
   ipReq (sa u') = ipReq (sa u)"
  by (erule enqueueMemReq_InrE) (auto dest: sa_memResponse_responses)

lemma enqueueMemReq_in_flight:
  assumes "dram_conserves D pending" and "enqueueMemReq D t i c a r u = Inr (b, u')"
  shows "in_flight pending u' = (if b then add_mset (r, a, t, i) (in_flight pending u) else in_flight pending u)"
  using assms(2)
proof (cases rule: enqueueMemReq_InrE)
  case (accepted g)
  with assms(1) show ?thesis by (simp add: in_flight_def dram_conserves_def)
next
  case rejected
  then show ?thesis by (simp add: in_flight_def)
next
  case (perfect s)
  then show ?thesis
    using sa_memResponse_responses [OF perfect(3)]
    by (simp add: in_flight_def sa_requests_def)
qed

lemma sa_inv_enqueueMemReq [inv_intros]:
  "enqueueMemReq D t i c a r u = Inr (b, u') \<Longrightarrow> sa_inv (sa u) \<Longrightarrow> sa_inv (sa u')"
  by (auto dest: enqueueMemReq_queues intro: sa_inv_fields)

lemma sa_inv_complete_all [inv_intros]:
  "complete_all cs s = Inr s' \<Longrightarrow> sa_inv s \<Longrightarrow> sa_inv s'"
  by (auto dest: complete_all_responses intro: sa_inv_fields)

lemma mem_tick_InrE:
  assumes "mem_tick D u = Inr u'"
  obtains cs d s where "dram_tick D (dramWrapper (mem u)) = (cs, d)"
    "complete_all cs (sa u) = Inr s"
    "u' = u\<lparr>sa := s, mem := (mem u)\<lparr>mem_ticks := mem_ticks (mem u) + 1, dramWrapper := d\<rparr>\<rparr>"
  using assms by (auto simp: mem_tick_def Let_def split: prod.splits)

lemma sa_inv_mem_tick [inv_intros]: "mem_tick D u = Inr u' \<Longrightarrow> sa_inv (sa u) \<Longrightarrow> sa_inv (sa u')"
  by (erule mem_tick_InrE) (auto intro: sa_inv_complete_all)

text \<open>What \<open>sendMemoryRequests\<close> does: nothing, or the head of one queue is offered to the memory.\<close>

lemma sendMemoryRequests_InrE:
  assumes "sendMemoryRequests D u = Inr u'"
  obtains (idle) "coreMemReq (sa u) = []" "ipMemReq (sa u) = []" "u' = u"
  | (core) q qs b u1 where "coreMemReq (sa u) = q # qs"
      "enqueueMemReq D IP_TYPE_CPU (mm_id q) (mm_core_id q) (mm_addr q) (mm_isRead q) u = Inr (b, u1)"
      "u' = (if b then u1\<lparr>sa := updateActivityCountIn1Ms 1 ((sa u1)\<lparr>coreMemReq := qs\<rparr>)\<rparr> else u1)"
  | (ip) q qs b u1 where "coreMemReq (sa u) = []" "ipMemReq (sa u) = q # qs"
      "enqueueMemReq D (mm_ip_type q) (mm_id q) (mm_core_id q) (mm_addr q) (mm_isRead q) u = Inr (b, u1)"
      "u' = (if b then u1\<lparr>sa := updateActivityCountIn1Ms 1 ((sa u1)\<lparr>ipMemReq := qs\<rparr>)\<rparr> else u1)"
proof (cases "coreMemReq (sa u)")
  case (Cons q qs)
  with assms show thesis
    by (auto simp: sendMemoryRequests_def dest: enqueueMemReq_queues split: if_splits intro!: core)
next
  case Nil
  show thesis
  proof (cases "ipMemReq (sa u)")
    case Nil
    with assms \<open>coreMemReq (sa u) = []\<close> show thesis
      by (simp add: sendMemoryRequests_def idle)
  next
    case (Cons q qs)
    with assms Nil show thesis
      by (auto simp: sendMemoryRequests_def dest: enqueueMemReq_queues split: if_splits intro!: ip)
  qed
qed

lemma sa_inv_sendMemoryRequests [inv_intros]:
  assumes "sendMemoryRequests D u = Inr u'" "sa_inv (sa u)"
  shows "sa_inv (sa u')"
  using assms(1)
proof (cases rule: sendMemoryRequests_InrE)
  case idle
  with assms(2) show ?thesis by simp
next
  case (core q qs b u1)
  from core assms(2) show ?thesis
    using enqueueMemReq_queues [OF core(2)] by (simp add: sa_inv_def)
next
  case (ip q qs b u1)
  from ip assms(2) show ?thesis
    using enqueueMemReq_queues [OF ip(3)] by (simp add: sa_inv_def)
qed

lemma dram_conserves_fifo: "dram_conserves fifo_dram mset"
  by (auto simp: dram_conserves_def fifo_dram_def split: list.splits)

lemma in_flight_sendMemoryRequests:
  assumes "dram_conserves D pending" and "sa_inv (sa u)" and "sendMemoryRequests D u = Inr u'"
  shows "in_flight pending u' = in_flight pending u"
  using assms(3)
proof (cases rule: sendMemoryRequests_InrE)
  case idle
  then show ?thesis by simp
next
  case (core q qs b u1)
  have "mm_ip_type q = IP_TYPE_CPU" using core(1) assms(2) by (simp add: sa_inv_def)
  then show ?thesis
    using core enqueueMemReq_queues [OF core(2)] enqueueMemReq_in_flight [OF assms(1) core(2)]
    by (auto simp: in_flight_def sa_requests_def sa_responses_def msg_key_def)
next
  case (ip q qs b u1)
  then show ?thesis
    using enqueueMemReq_queues [OF ip(3)] enqueueMemReq_in_flight [OF assms(1) ip(3)]
    by (auto simp: in_flight_def sa_requests_def sa_responses_def msg_key_def)
qed

lemma in_flight_mem_tick:
  assumes "dram_conserves D pending" and "mem_tick D u = Inr u'"
  shows "in_flight pending u' = in_flight pending u \<and> sa_requests (sa u') = sa_requests (sa u)"
  using assms(2)
proof (cases rule: mem_tick_InrE)
  case (1 cs d s)
  then have "pending (dramWrapper (mem u)) = mset cs + pending d"
    using assms(1) by (simp add: dram_conserves_def)
  with 1 complete_all_responses [OF 1(2)] show ?thesis
    by (simp add: in_flight_def sa_requests_def)
qed

lemma in_flight_popMemResponse:
  "popMemResponse p s = (Some m, s') \<Longrightarrow>
   sa_responses s = add_mset (msg_key m) (sa_responses s') \<and>
   coreMemReq s' = coreMemReq s \<and> ipMemReq s' = ipMemReq s \<and> ipReq s' = ipReq s"
  by (auto simp: popMemResponse_def sa_responses_def Let_def neq_Nil_conv split: if_splits)

lemma sa_requests_enqueueCoreMemRequest:
  "enqueueCoreMemRequest c a r s = (ok, s') \<Longrightarrow>
   sa_requests s' = (if ok then add_mset (r, a, IP_TYPE_CPU, c) (sa_requests s) else sa_requests s) \<and>
   sa_responses s' = sa_responses s"
  by (auto simp: enqueueCoreMemRequest_def sa_requests_def sa_responses_def msg_key_def split: if_splits)

lemma sa_requests_enqueueIPMemRequest:
  "enqueueIPMemRequest t i c a r s = (ok, s') \<Longrightarrow>
   sa_requests s' = (if ok then add_mset (r, a, t, i) (sa_requests s) else sa_requests s) \<and>
   sa_responses s' = sa_responses s"
  by (auto simp: enqueueIPMemRequest_def sa_requests_def sa_responses_def msg_key_def split: if_splits)

lemma sa_requests_ip_calls:
  "enqueueCoreIPRequest c t a z r n ft k s = Inr (ok, s') \<Longrightarrow>
   sa_requests s' = sa_requests s \<and> sa_responses s' = sa_responses s"
  by (auto simp: enqueueCoreIPRequest_def sa_requests_def sa_responses_def)

lemma sa_requests_enqueueIPResponse:
  assumes "enqueueIPResponse mf cf t i c n ft k g s = Inr (ok, g', s')"
  shows "sa_requests s' = sa_requests s \<and> sa_responses s' = sa_responses s"
proof -
  have "calls_of t i c n (s\<lparr>numIPCoreResponse := numIPCoreResponse s + 1\<rparr>) s'"
    using assms by (auto simp: enqueueIPResponse_def Let_def dest: calls_of_callNextIP)
  then show ?thesis by (simp add: calls_of_def sa_requests_def sa_responses_def)
qed

lemma uncore_run_inv:
  assumes "uncore_run D pending u issued delivered" and "dram_conserves D pending"
  shows "sa_inv (sa u) \<and> issued = delivered + in_flight pending u"
  using assms(1)
proof induction
  case (start u s)
  then show ?case
    using sa_inv_new by (simp add: in_flight_def sa_requests_def sa_responses_def new_GemDroidSA_def)
next
  case (core_request u issued delivered c a r ok s)
  from core_request show ?case
    using sa_requests_enqueueCoreMemRequest [OF core_request(2)]
      sa_inv_enqueueCoreMemRequest [of "sa u" c a r]
    by (auto simp: in_flight_def)
next
  case (ip_mem_request u issued delivered t i c a r ok s)
  from ip_mem_request show ?case
    using sa_requests_enqueueIPMemRequest [OF ip_mem_request(2)]
      sa_inv_enqueueIPMemRequest [of "sa u" t i c a r]
    by (auto simp: in_flight_def)
next
  case (core_ip_request u issued delivered c t a z r n ft k ok s)
  then show ?case
    using sa_requests_ip_calls [OF core_ip_request(2)] sa_inv_enqueueCoreIPRequest [OF core_ip_request(2)]
    by (simp add: in_flight_def)
next
  case (ip_response u issued delivered mf cf t i c n ft k ok g s)
  then show ?case
    using sa_requests_enqueueIPResponse [OF ip_response(2)] sa_inv_enqueueIPResponse [OF ip_response(2)]
    by (simp add: in_flight_def)
next
  case (ip_called u issued delivered t q qs)
  have "sa_inv ((sa u)\<lparr>ipReq := (ipReq (sa u))(t := qs)\<rparr>)"
    using ip_called by (auto simp: sa_inv_def dest: spec [of _ t])
  with ip_called show ?case
    by (simp add: in_flight_def sa_requests_def sa_responses_def)
next
  case (send_requests u issued delivered u')
  then show ?case
    using in_flight_sendMemoryRequests [OF assms(2) _ send_requests(2)]
      sa_inv_sendMemoryRequests [OF send_requests(2)] by simp
next
  case (memory_tick u issued delivered u')
  then show ?case
    using in_flight_mem_tick [OF assms(2) memory_tick(2)] sa_inv_mem_tick [OF memory_tick(2)] by simp
next
  case (deliver u issued delivered m s)
  then show ?case
    using in_flight_popMemResponse [OF deliver(2)] sa_inv_fields [of "sa u" s]
    by (simp add: in_flight_def sa_requests_def)
next
  case (set_freq u issued delivered f)
  with assms(2) show ?case by (simp add: in_flight_def dram_conserves_def)
qed

subsection \<open>Properties\<close>

text \<open>C11: in every run of the uncore, every memory request that was accepted has been delivered
  exactly once or is still in flight, exactly once; nothing else is delivered; and the queues
  stay within the bounds their guards give.\<close>

theorem uncore_conserves_requests:
  assumes "dram_conserves D pending" and "uncore_run D pending u issued delivered"
  shows "issued = delivered + in_flight pending u \<and> delivered \<subseteq># issued \<and>
    length (coreMemReq (sa u)) \<le> 257 \<and> length (ipMemReq (sa u)) \<le> 231 \<and>
    (\<forall>t. length (ipReq (sa u) t) \<le> 10)"
  using uncore_run_inv [OF assms(2,1)] by (simp add: sa_inv_def)

theorem uncore_conserves_requests_witness:
  "\<exists>u. uncore_run fifo_dram mset u {#(True, 4096, IP_TYPE_CPU, 0)#} {#} \<and>
     in_flight mset u = {#(True, 4096, IP_TYPE_CPU, 0)#}"
proof -
  let ?u = "u_demo\<lparr>sa := new_GemDroidSA sa_demo\<rparr>"
  have "uncore_run fifo_dram mset ?u {#} {#}"
    by (rule uncore_run.start [of _ sa_demo]) (simp_all add: u_demo_def mem_demo_def)
  moreover obtain s where s: "enqueueCoreMemRequest 0 4096 True (sa ?u) = (True, s)"
    by (simp add: enqueueCoreMemRequest_def new_GemDroidSA_def)
  ultimately have "uncore_run fifo_dram mset (?u\<lparr>sa := s\<rparr>) {#(True, 4096, IP_TYPE_CPU, 0)#} {#}"
    using uncore_run.core_request [OF _ s] by (simp only: if_True)
  from this uncore_conserves_requests [OF dram_conserves_fifo this] show ?thesis
    by (intro exI [of _ "?u\<lparr>sa := s\<rparr>"]) simp
qed

text \<open>C33: the cores come first and each queue is first-in first-out: one call takes at most the
  head of the core queue, and takes the head of the IP queue only when no core waits.\<close>

theorem sendMemoryRequests_priority:
  assumes "sendMemoryRequests D u = Inr u'"
  shows "if coreMemReq (sa u) \<noteq> []
         then ipMemReq (sa u') = ipMemReq (sa u) \<and>
              (coreMemReq (sa u') = coreMemReq (sa u) \<or> coreMemReq (sa u') = tl (coreMemReq (sa u)))
         else coreMemReq (sa u') = [] \<and>
              (ipMemReq (sa u') = ipMemReq (sa u) \<or> ipMemReq (sa u') = tl (ipMemReq (sa u)))"
  using assms
  by (cases rule: sendMemoryRequests_InrE) (auto dest: enqueueMemReq_queues)

theorem sendMemoryRequests_priority_witness:
  "\<exists>u'. sendMemoryRequests fifo_dram u_demo = Inr u' \<and> coreMemReq (sa u') = [] \<and>
     ipMemReq (sa u') = ipMemReq (sa u_demo)"
proof -
  let ?r = "sendMemoryRequests fifo_dram u_demo"
  have "\<not> isl ?r" "coreMemReq (sa (projr ?r)) = []" "coreMemReq (sa u_demo) \<noteq> []"
    by code_simp+
  then obtain u' where u': "?r = Inr u'" "coreMemReq (sa u') = []" "coreMemReq (sa u_demo) \<noteq> []"
    by (cases ?r) auto
  from sendMemoryRequests_priority [OF u'(1)] u' show ?thesis by auto
qed

text \<open>C34: a memory request at address 0 aborts; every other one in perfect-memory mode from a
  sender in its half of the address space is answered at once, with the queue it belongs to
  extended by exactly that answer.\<close>

theorem enqueueMemReq_perfect:
  "enqueueMemReq D t i c 0 r u = Inl (AssertFail ''addr 0'') \<and>
   (a \<noteq> 0 \<longrightarrow> mem_perfectMemory (mem u) \<longrightarrow>
     (case enqueueMemReq D t i c a r u of
        Inl e \<Rightarrow> \<not> mem_half t a
      | Inr (ok, u') \<Rightarrow> mem_half t a \<and> ok \<and> gd u' = gd u \<and>
          sa_responses (sa u') = add_mset (r, a, t, i) (sa_responses (sa u)) \<and>
          sa_requests (sa u') = sa_requests (sa u)))"
  by (auto simp: enqueueMemReq_def sa_memResponse_def mem_half_def Let_def assertE_def
      sa_responses_def sa_requests_def msg_key_def split: if_splits)

theorem enqueueMemReq_perfect_witness:
  "let u = u_demo\<lparr>mem := mem_demo\<lparr>mem_perfectMemory := True\<rparr>\<rparr> in
   case enqueueMemReq fifo_dram IP_TYPE_VD 0 0 VD_ADDR_START True u of
     Inl e \<Rightarrow> False
   | Inr (ok, u') \<Rightarrow> ok \<and> sa_responses (sa u') = {#(True, VD_ADDR_START, IP_TYPE_VD, 0)#}"
proof -
  let ?u = "u_demo\<lparr>mem := mem_demo\<lparr>mem_perfectMemory := True\<rparr>\<rparr>"
  have "sa_responses (sa ?u) = {#}" "mem_half IP_TYPE_VD VD_ADDR_START"
    by (simp_all add: u_demo_def sa_demo_def sa_responses_def mem_half_def)
  with enqueueMemReq_perfect [of fifo_dram IP_TYPE_VD 0 0 True ?u VD_ADDR_START] show ?thesis
    by (auto simp: Let_def split: sum.splits)
qed

text \<open>Whatever the governors ask of it, the memory's frequency stays within its range: the
  setters clamp, and \<open>setMemFreq\<close> aborts outside the range (widened by \<open>EPSILON\<close>); every change
  reaches the simulator.\<close>

theorem mem_freq_range:
  assumes "MIN_MEM_FREQ - EPSILON \<le> m_freq m" and "m_freq m \<le> MAX_MEM_FREQ + EPSILON" and "0 \<le> steps"
    and "MIN_MEM_FREQ \<le> m_optMemFreq m" and "m_optMemFreq m \<le> MAX_MEM_FREQ"
    and "m' \<in> {incMemFreq D steps m, decMemFreq D steps m, setMinMemFreq D m, setMaxMemFreq D m,
               setOptMemFreq D m} \<or> setMemFreq D f m = Inr m'"
  shows "MIN_MEM_FREQ - EPSILON \<le> m_freq m' \<and> m_freq m' \<le> MAX_MEM_FREQ + EPSILON \<and>
    dramWrapper m' = updateFreq D (m_freq m') (dramWrapper m)"
  using assms
  by (auto simp: incMemFreq_def decMemFreq_def setMinMemFreq_def setMaxMemFreq_def
      setOptMemFreq_def setMemFreq_def)

theorem mem_freq_range_witness:
  "m_freq (decMemFreq fifo_dram 7 mem_demo) = MIN_MEM_FREQ \<and>
   dramWrapper (decMemFreq fifo_dram 7 mem_demo) = []"
proof -
  have "m_freq (decMemFreq fifo_dram 7 mem_demo) = MIN_MEM_FREQ"
    by (simp add: decMemFreq_def mem_demo_def)
  moreover have "dramWrapper (decMemFreq fifo_dram 7 mem_demo) = []"
    using mem_freq_range [of mem_demo 7 "decMemFreq fifo_dram 7 mem_demo" fifo_dram 0]
    by (simp add: mem_demo_def fifo_dram_def)
  ultimately show ?thesis by simp
qed

end
