(* ===== verification/GD_Scale.thy ===== *)
theory GD_Scale
  imports GD_Mem
begin

section \<open>Voltage and frequency tables\<close>

text \<open>
  What \<open>GemDroidIP\<close> and \<open>GemDroidCore\<close> share of voltage and frequency scaling: the table
  \<open>voltage_freq_table\<close>, a row per state with its voltage, its frequency in GHz and its largest
  static and dynamic power (the IPs' table has no static column; it is 0 here), the searches both
  classes make in it, and the interface \<open>dvfs_table\<close> under which the searches are shown correct.
  The component theories interpret it on the tables the constructors write.
\<close>

record vf_row =
  vf_volt :: real
  vf_freq :: real
  vf_stat :: real
  vf_dyn :: real

definition vf_fill :: "real \<Rightarrow> real \<Rightarrow> (real \<times> real) list \<Rightarrow> vf_row list" where
  "vf_fill stat cap rows =
     map (\<lambda>(v, f). \<lparr>vf_volt = v, vf_freq = f, vf_stat = stat, vf_dyn = cap * v * v * f\<rparr>) rows"

definition table_index :: "vf_row list \<Rightarrow> real \<Rightarrow> int" where
  "table_index tbl freq =
     (case first_index (\<lambda>r. freq = vf_freq r) tbl of None \<Rightarrow> -1 | Some i \<Rightarrow> int i)"

definition table_freq_for_power :: "vf_row list \<Rightarrow> real \<Rightarrow> real" where
  "table_freq_for_power tbl pw =
     (case first_index (\<lambda>r. vf_stat r + vf_dyn r < pw) tbl of
        None \<Rightarrow> vf_freq (last tbl) | Some i \<Rightarrow> vf_freq (tbl ! i))"

text \<open>The \<open>get...Freq(ind)\<close> accessors clamp the index into the table.\<close>

definition clamp_index :: "int \<Rightarrow> int \<Rightarrow> int" where
  "clamp_index states ind = (if ind \<ge> states then states - 1 else if ind < 0 then 0 else ind)"

text \<open>
  The loop of \<open>getFreqForSlackOptimal\<close>: from state \<open>k\<close> down to \<open>lo\<close>, the first state whose
  estimated time misses the deadline, or the state below \<open>lo\<close>; \<open>fuel\<close> counts the states of the
  table, more than the loop can visit.
\<close>

fun slack_scan :: "nat \<Rightarrow> (int \<Rightarrow> bool) \<Rightarrow> int \<Rightarrow> int \<Rightarrow> int" where
  "slack_scan 0 late lo k = k"
| "slack_scan (Suc fuel) late lo k =
     (if k \<ge> lo then if late k then k else slack_scan fuel late lo (k - 1) else k)"

lemma clamp_index_range: "0 < states \<Longrightarrow> 0 \<le> clamp_index states i \<and> clamp_index states i < states"
  by (simp add: clamp_index_def)

lemma clamp_index_id: "0 \<le> i \<Longrightarrow> i < states \<Longrightarrow> clamp_index states i = i"
  by (simp add: clamp_index_def)

lemma table_index_range: "-1 \<le> table_index tbl f \<and> table_index tbl f < int (length tbl)"
  by (auto simp: table_index_def first_index_Some_iff split: option.split)

lemma table_index_found:
  "0 \<le> table_index tbl f \<Longrightarrow> vf_freq (tbl ! nat (table_index tbl f)) = f"
proof (cases "first_index (\<lambda>r. f = vf_freq r) tbl")
  case (Some i)
  then have "table_index tbl f = int i" "f = vf_freq (tbl ! i)"
    by (simp add: table_index_def) (use Some in \<open>simp add: first_index_Some_iff\<close>)
  then show ?thesis by simp
qed (simp add: table_index_def)

lemma slack_scan_spec:
  "k - lo < int fuel \<Longrightarrow>
   let k' = slack_scan fuel late lo k in
     k' \<le> k \<and> min k (lo - 1) \<le> k' \<and> (\<forall>j. k' < j \<and> j \<le> k \<longrightarrow> \<not> late j) \<and> (lo \<le> k' \<longrightarrow> late k')"
proof (induction fuel late lo k rule: slack_scan.induct)
  case (2 fuel late lo k)
  show ?case
  proof (cases "lo \<le> k \<and> \<not> late k")
    case True
    with "2.prems" "2.IH" have "let k' = slack_scan fuel late lo (k - 1) in
      k' \<le> k - 1 \<and> min (k - 1) (lo - 1) \<le> k' \<and>
      (\<forall>j. k' < j \<and> j \<le> k - 1 \<longrightarrow> \<not> late j) \<and> (lo \<le> k' \<longrightarrow> late k')"
      by simp
    with True show ?thesis
      by (auto simp: Let_def order.order_iff_strict)
  next
    case False
    then show ?thesis by (auto simp: Let_def)
  qed
qed (auto simp: Let_def)

subsection \<open>The interface of a table\<close>

text \<open>
  A table is not empty, its frequencies rise strictly and are positive, and its powers do not fall.
\<close>

locale dvfs_table =
  fixes tbl :: "vf_row list"
  assumes nonempty: "tbl \<noteq> []"
    and freq_pos: "i < length tbl \<Longrightarrow> 0 < vf_freq (tbl ! i)"
    and freq_less: "i < j \<Longrightarrow> j < length tbl \<Longrightarrow> vf_freq (tbl ! i) < vf_freq (tbl ! j)"
    and power_le: "i \<le> j \<Longrightarrow> j < length tbl \<Longrightarrow>
      vf_stat (tbl ! i) + vf_dyn (tbl ! i) \<le> vf_stat (tbl ! j) + vf_dyn (tbl ! j)"
begin

lemma freq_eq_iff:
  assumes "i < length tbl" "j < length tbl"
  shows "vf_freq (tbl ! i) = vf_freq (tbl ! j) \<longleftrightarrow> i = j"
  using freq_less [of i j] freq_less [of j i] assms by (metis linorder_neqE_nat order_less_irrefl)

lemma table_index_freq: "i < length tbl \<Longrightarrow> table_index tbl (vf_freq (tbl ! i)) = int i"
proof -
  assume "i < length tbl"
  then have "first_index (\<lambda>r. vf_freq (tbl ! i) = vf_freq r) tbl = Some i"
    by (auto simp: first_index_Some_iff freq_eq_iff)
  then show ?thesis by (simp add: table_index_def)
qed

lemma table_index_iff:
  "i < length tbl \<Longrightarrow> table_index tbl f = int i \<longleftrightarrow> f = vf_freq (tbl ! i)"
  using table_index_found [of tbl f] table_index_freq by auto

lemma freq_for_power_lowest:
  assumes "vf_stat (tbl ! 0) + vf_dyn (tbl ! 0) < pw"
  shows "table_freq_for_power tbl pw = vf_freq (tbl ! 0)"
proof -
  have "first_index (\<lambda>r. vf_stat r + vf_dyn r < pw) tbl = Some 0"
    using assms nonempty by (simp add: first_index_Some_iff)
  then show ?thesis by (simp add: table_freq_for_power_def)
qed

lemma freq_for_power_highest:
  assumes "pw \<le> vf_stat (tbl ! 0) + vf_dyn (tbl ! 0)"
  shows "table_freq_for_power tbl pw = vf_freq (tbl ! (length tbl - 1))"
proof -
  have "first_index (\<lambda>r. vf_stat r + vf_dyn r < pw) tbl = None"
    using assms power_le [of 0] by (fastforce simp: first_index_None_iff in_set_conv_nth)
  then show ?thesis using nonempty by (simp add: table_freq_for_power_def last_conv_nth)
qed

text \<open>The two outcomes of the power search: there is no third.\<close>

lemma freq_for_power_cases:
  "table_freq_for_power tbl pw =
     (if vf_stat (tbl ! 0) + vf_dyn (tbl ! 0) < pw then vf_freq (tbl ! 0)
      else vf_freq (tbl ! (length tbl - 1)))"
  using freq_for_power_lowest freq_for_power_highest by (simp add: not_less)

lemma time_scales:
  assumes "i < j" "j < length tbl" "0 < t"
  shows "t * vf_freq (tbl ! i) / vf_freq (tbl ! j) < t"
  using freq_less [OF assms(1,2)] freq_pos [OF assms(2)] assms(3) by (simp add: field_simps)

end

text \<open>Tables filled from voltages and frequencies that rise are such tables.\<close>

lemma length_vf_fill [simp]: "length (vf_fill stat cap rows) = length rows"
  by (simp add: vf_fill_def)

lemma vf_fill_nth:
  "i < length rows \<Longrightarrow> vf_freq (vf_fill stat cap rows ! i) = snd (rows ! i) \<and>
   vf_stat (vf_fill stat cap rows ! i) = stat \<and>
   vf_dyn (vf_fill stat cap rows ! i) = cap * (fst (rows ! i) * fst (rows ! i) * snd (rows ! i))"
  by (simp add: vf_fill_def split_beta)

lemma dvfs_table_vf_fill:
  assumes "rows \<noteq> []" and "\<forall>(v, f)\<in>set rows. 0 < f" and "0 \<le> cap"
    and "sorted_wrt (<) (map snd rows)" and "sorted (map (\<lambda>(v, f). v * v * f) rows)"
  shows "dvfs_table (vf_fill stat cap rows)"
proof
  show "vf_fill stat cap rows \<noteq> []"
    using assms(1) by (simp add: vf_fill_def)
next
  fix i assume "i < length (vf_fill stat cap rows)"
  then show "0 < vf_freq (vf_fill stat cap rows ! i)"
    using assms(2) nth_mem [of i rows] by (auto simp: vf_fill_nth split_beta)
next
  fix i j assume "i < j" "j < length (vf_fill stat cap rows)"
  then show "vf_freq (vf_fill stat cap rows ! i) < vf_freq (vf_fill stat cap rows ! j)"
    using sorted_wrt_nth_less [OF assms(4), of i j] by (simp add: vf_fill_nth)
next
  fix i j assume ij: "i \<le> j" "j < length (vf_fill stat cap rows)"
  then have "fst (rows ! i) * fst (rows ! i) * snd (rows ! i) \<le> fst (rows ! j) * fst (rows ! j) * snd (rows ! j)"
    using sorted_nth_mono [OF assms(5), of i j] by (simp add: split_beta)
  from mult_left_mono [OF this assms(3)] ij
  show "vf_stat (vf_fill stat cap rows ! i) + vf_dyn (vf_fill stat cap rows ! i)
    \<le> vf_stat (vf_fill stat cap rows ! j) + vf_dyn (vf_fill stat cap rows ! j)"
    by (simp add: vf_fill_nth)
qed

end
