(* ===== verification/GD_IP.thy ===== *)
theory GD_IP
  imports GD_Scale
begin

section \<open>IP devices\<close>

text \<open>
  Class \<open>GemDroidIP\<close> (\<open>gemdroid_ip.hh\<close>, \<open>gemdroid_ip.cc\<close>): the state every IP has, its power
  states, its voltage and frequency scaling and power estimates, and the operations of a device
  (display, network, sound, camera, storage). The accelerators extend the record in the theories
  that follow and share what they inherit, so that every inherited operation is defined on the
  extensible record \<open>'a GemDroidIP_scheme\<close>. An operation that calls the system agent or the
  platform takes and returns the \<open>uncore\<close> as well. \<open>init\<close> updates whatever the object held, since
  it leaves \<open>is_busy\<close>, \<open>core_id\<close> and the request fields unset. The statistics' snapshots, the
  unused fields \<open>optimal_freq\<close>, \<open>buffer_size\<close> and \<open>m_IPMemStallsFrame\<close> and the printing are left
  out.
\<close>

abbreviation (input) IPDEV_PSTATE_ENTER_TIME :: int where "IPDEV_PSTATE_ENTER_TIME \<equiv> 97800"
abbreviation (input) IPACC_PSTATE_ENTER_TIME :: int where "IPACC_PSTATE_ENTER_TIME \<equiv> 97800"
abbreviation (input) IPDEV_PSTATE_LOWPOWER_EXIT_TIME :: int where "IPDEV_PSTATE_LOWPOWER_EXIT_TIME \<equiv> 109200"
abbreviation (input) IPACC_PSTATE_LOWPOWER_EXIT_TIME :: int where "IPACC_PSTATE_LOWPOWER_EXIT_TIME \<equiv> 109200"
abbreviation (input) IPDEV_PSTATE_IDLE_EXIT_TIME :: int where "IPDEV_PSTATE_IDLE_EXIT_TIME \<equiv> 109200"
abbreviation (input) IPACC_PSTATE_IDLE_EXIT_TIME :: int where "IPACC_PSTATE_IDLE_EXIT_TIME \<equiv> 109200"
abbreviation (input) PROCESSING_CHUNK :: int where "PROCESSING_CHUNK \<equiv> 16"

record GemDroidIP =
  ip_type :: IP_TYPE
  ip_id :: int
  isDev :: bool
  core_id :: int
  m_flowType :: IP_TYPE
  m_flowId :: int
  m_reqCount :: int
  m_respCount :: int
  m_dataSize :: int
  is_busy :: bool
  m_reqAddr :: addr
  m_isRead :: bool
  m_frameNum :: int
  m_cyclesToSkip :: int
  ioLatency :: int
  m_reqOutAddr :: addr
  reqSent :: int
  inputProcessedInCL :: int
  inputToBeProcessedInCL :: int
  targetOutputChunkSizeInCL :: int
  idleCycles :: int
  cyclesToWake :: int
  startCycle :: int
  power_state :: ip_pstate
  ip_static_power :: real
  m_IPActiveInLast1ms :: int
  m_IPLowInLast1ms :: int
  m_IPActivityIn1ms :: int
  m_IPActiveInLast1us :: int
  m_IPLowInLast1us :: int
  m_IPActivityIn1us :: int
  m_IPActivityInDVFSEpoch :: int
  voltage_freq_table :: "vf_row list"
  dvfsState :: int
  dvfsCounter :: int
  m_optDVFSState :: int
  capacitance :: real
  powerInLastEpoch :: real
  ip_ticks :: int
  m_CPUReqs :: int
  m_MemReqs :: int
  m_IPActiveCycles :: int
  m_IPIdleCycles :: int
  m_IPBusyStalls :: int
  m_IPLowPowerCycles :: int
  m_memRejected :: int
  m_IPMemStalls :: int
  m_IPWorkingCycles :: int
  idleStreak :: int

subsection \<open>Characteristics of the IP types\<close>

definition V2F :: real where
  "V2F = (1057 / 1000) * (1057 / 1000) * (8 / 10)"

fun static_power_of :: "IP_TYPE \<Rightarrow> real option" where
  "static_power_of IP_TYPE_DC = Some (1 / 10)"
| "static_power_of IP_TYPE_SND = Some (5 / 100)"
| "static_power_of IP_TYPE_MIC = Some (5 / 100)"
| "static_power_of IP_TYPE_NW = Some (5 / 100)"
| "static_power_of IP_TYPE_CAM = Some (1 / 10)"
| "static_power_of IP_TYPE_MMC_IN = Some (5 / 100)"
| "static_power_of IP_TYPE_MMC_OUT = Some (5 / 100)"
| "static_power_of IP_TYPE_VD = Some (1 / 10)"
| "static_power_of IP_TYPE_VE = Some (1 / 10)"
| "static_power_of IP_TYPE_AD = Some (5 / 100)"
| "static_power_of IP_TYPE_AE = Some (5 / 100)"
| "static_power_of IP_TYPE_IMG = Some (1 / 10)"
| "static_power_of IP_TYPE_GPU = Some (35 / 100)"
| "static_power_of _ = None"

fun capacitance_of :: "IP_TYPE \<Rightarrow> real option" where
  "capacitance_of IP_TYPE_DC = Some ((5 / 10) / V2F)"
| "capacitance_of IP_TYPE_SND = Some (0 / V2F)"
| "capacitance_of IP_TYPE_MIC = Some (0 / V2F)"
| "capacitance_of IP_TYPE_NW = Some ((2 / 10) / V2F)"
| "capacitance_of IP_TYPE_CAM = Some (1 / V2F)"
| "capacitance_of IP_TYPE_MMC_IN = Some ((3 / 10) / V2F)"
| "capacitance_of IP_TYPE_MMC_OUT = Some ((3 / 10) / V2F)"
| "capacitance_of IP_TYPE_VD = Some (1 / V2F)"
| "capacitance_of IP_TYPE_VE = Some ((15 / 10) / V2F)"
| "capacitance_of IP_TYPE_AD = Some ((75 / 100) / V2F)"
| "capacitance_of IP_TYPE_AE = Some ((75 / 100) / V2F)"
| "capacitance_of IP_TYPE_IMG = Some ((15 / 10) / V2F)"
| "capacitance_of IP_TYPE_GPU = Some (4 / V2F)"
| "capacitance_of _ = None"

definition ip_table :: "real \<Rightarrow> vf_row list" where
  "ip_table cap = vf_fill 0 cap
     [(835 / 1000, 200 / 1000), (872 / 1000, 300 / 1000), (909 / 1000, 400 / 1000),
      (946 / 1000, 500 / 1000), (983 / 1000, 600 / 1000), (102 / 100, 700 / 1000),
      (1057 / 1000, 800 / 1000)]"

subsection \<open>Voltage and frequency scaling\<close>

definition vft :: "'a GemDroidIP_scheme \<Rightarrow> int \<Rightarrow> vf_row" where
  "vft p i = voltage_freq_table p ! nat i"

definition getIPFreq :: "'a GemDroidIP_scheme \<Rightarrow> real" where
  "getIPFreq p = vf_freq (vft p (dvfsState p))"

definition getIPFreq_at :: "'a GemDroidIP_scheme \<Rightarrow> int \<Rightarrow> real" where
  "getIPFreq_at p ind = vf_freq (vft p (clamp_index IP_DVFS_STATES ind))"

definition ip_getIndexInTable :: "'a GemDroidIP_scheme \<Rightarrow> real \<Rightarrow> int" where
  "ip_getIndexInTable p freq = table_index (voltage_freq_table p) freq"

definition setMaxIPFreq :: "'a GemDroidIP_scheme \<Rightarrow> 'a GemDroidIP_scheme result" where
  "setMaxIPFreq p = bindE (assertE ''!isDevice'' (\<not> isDev p)) (\<lambda>_.
     Inr (p\<lparr>dvfsState := IP_DVFS_STATES - 1, dvfsCounter := INTERACTIVE_GOVERNOR_LAT\<rparr>))"

definition setMinIPFreq :: "'a GemDroidIP_scheme \<Rightarrow> 'a GemDroidIP_scheme result" where
  "setMinIPFreq p = bindE (assertE ''!isDevice'' (\<not> isDev p)) (\<lambda>_. Inr (p\<lparr>dvfsState := 0\<rparr>))"

definition setOptIPFreq :: "'a GemDroidIP_scheme \<Rightarrow> 'a GemDroidIP_scheme result" where
  "setOptIPFreq p = bindE (assertE ''!isDevice'' (\<not> isDev p)) (\<lambda>_.
     Inr (p\<lparr>dvfsState := m_optDVFSState p\<rparr>))"

definition setIPFreqInd :: "int \<Rightarrow> 'a GemDroidIP_scheme \<Rightarrow> 'a GemDroidIP_scheme result" where
  "setIPFreqInd ind p = bindE (assertE ''ind'' (ind > -1 \<and> ind < IP_DVFS_STATES)) (\<lambda>_.
     Inr (p\<lparr>dvfsState := ind\<rparr>))"

definition setIPFreq :: "real \<Rightarrow> 'a GemDroidIP_scheme \<Rightarrow> 'a GemDroidIP_scheme result" where
  "setIPFreq freq p =
     (let ind = ip_getIndexInTable p freq in
      bindE (assertE ''ind'' (ind > -1 \<and> ind < IP_DVFS_STATES)) (\<lambda>_.
      Inr (p\<lparr>dvfsState := ind\<rparr>)))"

definition ip_incFreq :: "int \<Rightarrow> 'a GemDroidIP_scheme \<Rightarrow> (bool \<times> 'a GemDroidIP_scheme) result" where
  "ip_incFreq steps p = bindE (assertE ''!isDevice'' (\<not> isDev p)) (\<lambda>_.
     if dvfsState p < IP_DVFS_STATES - steps - 1 then
       Inr (True, p\<lparr>dvfsState := dvfsState p + steps\<rparr>)
     else bindE (setMaxIPFreq p) (\<lambda>p. Inr (False, p)))"

definition ip_decFreq ::
  "GOVERNOR_TYPE \<Rightarrow> int \<Rightarrow> 'a GemDroidIP_scheme \<Rightarrow> (bool \<times> 'a GemDroidIP_scheme) result" where
  "ip_decFreq gov steps p = bindE (assertE ''!isDevice'' (\<not> isDev p)) (\<lambda>_.
     if gov = GOVERNOR_TYPE_INTERACTIVE \<and> dvfsCounter p > 0 then Inr (False, p)
     else if dvfsState p > steps - 1 then Inr (True, p\<lparr>dvfsState := dvfsState p - steps\<rparr>)
     else Inr (False, p))"

definition ip_updateDVFS :: "'a GemDroidIP_scheme \<Rightarrow> 'a GemDroidIP_scheme" where
  "ip_updateDVFS p = p\<lparr>dvfsCounter := dvfsCounter p - 1\<rparr>"

definition ip_getFreqForPower :: "real \<Rightarrow> 'a GemDroidIP_scheme \<Rightarrow> real" where
  "ip_getFreqForPower pw p = table_freq_for_power (voltage_freq_table p) pw"

definition ip_setMaxAllowedFreq :: "GemDroid \<Rightarrow> 'a GemDroidIP_scheme \<Rightarrow> 'a GemDroidIP_scheme result" where
  "ip_setMaxAllowedFreq g p =
     (let powerAllowed = getCoordinatedPower g - powerInLastEpoch p
      in setIPFreq (ip_getFreqForPower powerAllowed p) p)"

subsection \<open>Power and estimates\<close>

definition getDynamicPower :: "real \<Rightarrow> 'a GemDroidIP_scheme \<Rightarrow> real" where
  "getDynamicPower activity p = activity * vf_dyn (vft p (dvfsState p))"

definition getStaticPower :: "real \<Rightarrow> real \<Rightarrow> 'a GemDroidIP_scheme \<Rightarrow> real" where
  "getStaticPower activePortion lowPortion p =
     activePortion * ip_static_power p + lowPortion * ip_static_power p / 3"

definition IPCLOCKS_IN_1MS :: "'a GemDroidIP_scheme \<Rightarrow> real" where
  "IPCLOCKS_IN_1MS p = getIPFreq p * 1000000"

definition ip_max :: "'a GemDroidIP_scheme \<Rightarrow> real option" where
  "ip_max p = (let c = IPCLOCKS_IN_1MS p in
     case ip_type p of
       IP_TYPE_VD \<Rightarrow> Some (c / 12) | IP_TYPE_VE \<Rightarrow> Some (c * real_of_int VID_CODING_RATIO / 18)
     | IP_TYPE_AD \<Rightarrow> Some (c / (44 * 12)) | IP_TYPE_AE \<Rightarrow> Some (c * real_of_int AUD_CODING_RATIO / (44 * 8))
     | IP_TYPE_IMG \<Rightarrow> Some (c / 16) | IP_TYPE_CAM \<Rightarrow> Some (c / 1) | IP_TYPE_SND \<Rightarrow> Some (c / 1)
     | IP_TYPE_DC \<Rightarrow> Some (c / (1 * 5)) | IP_TYPE_NW \<Rightarrow> Some (c / 1) | IP_TYPE_MIC \<Rightarrow> Some (c / 1)
     | IP_TYPE_MMC_IN \<Rightarrow> Some (c / 10) | IP_TYPE_MMC_OUT \<Rightarrow> Some (c / 10)
     | IP_TYPE_GPU \<Rightarrow> Some (c / 4) | _ \<Rightarrow> None)"

definition getMaxProcessible :: "'a GemDroidIP_scheme \<Rightarrow> int" where
  "getMaxProcessible p = (case ip_max p of Some x \<Rightarrow> trunc x | None \<Rightarrow> 1)"

definition ip_powerIn1us :: "'a GemDroidIP_scheme \<Rightarrow> real \<times> 'a GemDroidIP_scheme" where
  "ip_powerIn1us p =
     (let one_microsec = real_of_int (trunc (getIPFreq p * 1000));
          staticPower = getStaticPower (real_of_int (m_IPActiveInLast1us p) / one_microsec)
                          (real_of_int (m_IPLowInLast1us p) / one_microsec) p;
          dynamicPower = getDynamicPower
                          (real_of_int (m_IPActivityIn1us p) * 1000 / real_of_int (getMaxProcessible p)) p
      in (staticPower + dynamicPower,
          p\<lparr>m_IPActiveInLast1us := 0, m_IPLowInLast1us := 0, m_IPActivityIn1us := 0\<rparr>))"

definition ip_powerIn1ms :: "'a GemDroidIP_scheme \<Rightarrow> real \<times> 'a GemDroidIP_scheme" where
  "ip_powerIn1ms p =
     (let one_millisec = real_of_int (trunc (getIPFreq p * 1000000));
          staticPower = getStaticPower (real_of_int (m_IPActiveInLast1ms p) / one_millisec)
                          (real_of_int (m_IPLowInLast1ms p) / one_millisec) p;
          dynamicPower = getDynamicPower
                          (real_of_int (m_IPActivityIn1ms p) / real_of_int (getMaxProcessible p)) p
      in (staticPower + dynamicPower,
          p\<lparr>m_IPActiveInLast1ms := 0, m_IPLowInLast1ms := 0, m_IPActivityIn1ms := 0,
            powerInLastEpoch := staticPower + dynamicPower\<rparr>))"

definition IPActivityUpdate :: "'a GemDroidIP_scheme \<Rightarrow> 'a GemDroidIP_scheme" where
  "IPActivityUpdate p =
     p\<lparr>m_IPActivityIn1ms := m_IPActivityIn1ms p + 1, m_IPActivityIn1us := m_IPActivityIn1us p + 1,
       m_IPActivityInDVFSEpoch := m_IPActivityInDVFSEpoch p + 1\<rparr>"

definition ip_getLoadInLastDVFSEpoch ::
  "(IP_TYPE \<Rightarrow> real) \<Rightarrow> 'a GemDroidIP_scheme \<Rightarrow> real \<times> 'a GemDroidIP_scheme" where
  "ip_getLoadInLastDVFSEpoch lastTime p =
     (let ip_util =
        (if ip_type p \<in> {IP_TYPE_VD, IP_TYPE_VE, IP_TYPE_AD, IP_TYPE_AE, IP_TYPE_IMG} then
           real_of_int (m_IPActivityInDVFSEpoch p) / (the (ip_max p) * lastTime (ip_type p))
         else 0)
      in (if ip_util > 1 then 99 / 100 else ip_util, p\<lparr>m_IPActivityInDVFSEpoch := 0\<rparr>))"

definition ip_getPowerEst :: "'a GemDroidIP_scheme \<Rightarrow> real" where
  "ip_getPowerEst p =
     (if power_state p = ip_active then getDynamicPower (5 / 10) p + getStaticPower (5 / 10) (5 / 10) p
      else 0)"

definition ip_getTimeEst :: "real \<Rightarrow> real \<Rightarrow> real \<Rightarrow> real" where
  "ip_getTimeEst oldTime oldFreq newFreq = oldTime * oldFreq / newFreq"

definition ip_getEnergyEst :: "real \<Rightarrow> real \<Rightarrow> real \<Rightarrow> 'a GemDroidIP_scheme \<Rightarrow> real result" where
  "ip_getEnergyEst time pw newFreq p =
     (let dynPower = pw - ip_static_power p;
          activity = dynPower / vf_dyn (vft p (dvfsState p));
          ind = ip_getIndexInTable p newFreq;
          newTime = ip_getTimeEst time (getIPFreq p) newFreq in
      bindE (boundsE ''voltage_freq_table'' (0 \<le> ind)) (\<lambda>_.
      let newDynPower = activity * vf_dyn (vft p ind)
      in Inr (newTime * ip_static_power p + newTime * newDynPower)))"

text \<open>\<open>getFreqForSlackOptimal\<close> returns the frequency and the slack it leaves; \<open>scaledTime\<close> is the
  platform's \<open>memScaledTime\<close> at the current state.\<close>

definition ip_getFreqForSlackOptimal ::
  "real \<Rightarrow> real \<Rightarrow> real \<Rightarrow> 'a GemDroidIP_scheme \<Rightarrow> (real \<times> real) result" where
  "ip_getFreqForSlackOptimal scaledTime prevTime slack p =
     (let est = (\<lambda>k. ip_getTimeEst scaledTime (getIPFreq p) (getIPFreq_at p k));
          st = dvfsState p;
          optFreqInd = m_optDVFSState p;
          minFreq = (if ip_type p = IP_TYPE_IMG then st - 2 else optFreqInd);
          k = (if slack < 0 then st + 1
               else if st > optFreqInd then
                 slack_scan (nat IP_DVFS_STATES + 2) (\<lambda>k. est k > prevTime + slack) minFreq (st - 1)
               else st - 1);
          newFreq = (if slack < 0 then getIPFreq_at p (st + 2)
                     else if st > optFreqInd then getIPFreq_at p (k + 1)
                     else getIPFreq p);
          ratio = (if ip_type p = IP_TYPE_AD \<or> ip_type p = IP_TYPE_AE then 12 else 1)
      in bindE (assertE ''newFreq > 0'' (slack < 0 \<or> \<not> st > optFreqInd \<or> newFreq > 0)) (\<lambda>_.
         Inr (newFreq, slack - ratio * (est (k + 1) - prevTime))))"

subsection \<open>Power states\<close>

definition setPStateIdle :: "'a GemDroidIP_scheme \<Rightarrow> 'a GemDroidIP_scheme result" where
  "setPStateIdle p = bindE (assertE ''isPStateLowPower'' (power_state p = ip_lowpower)) (\<lambda>_.
     Inr (p\<lparr>power_state := ip_idle\<rparr>))"

definition setPStateLowPower :: "'a GemDroidIP_scheme \<Rightarrow> 'a GemDroidIP_scheme result" where
  "setPStateLowPower p = bindE (assertE ''isPStateActive'' (power_state p = ip_active)) (\<lambda>_.
     Inr (p\<lparr>power_state := ip_lowpower\<rparr>))"

definition ip_setPStateActive ::
  "'a GemDroidIP_scheme \<Rightarrow> GemDroid \<Rightarrow> ('a GemDroidIP_scheme \<times> GemDroid) result" where
  "ip_setPStateActive p g =
     bindE (if governor g = GOVERNOR_TYPE_INTERACTIVE \<and> ip_type p > IP_TYPE_VD then setMaxIPFreq p
            else if governor g = GOVERNOR_TYPE_POWERCAP \<and> ip_type p > IP_TYPE_VD then setOptIPFreq p
            else Inr p) (\<lambda>p.
     Inr (p\<lparr>power_state := ip_active\<rparr>, markIPRequestStarted 0 (ip_type p) (ip_id p) 0 g))"

definition ip_resetStats :: "'a GemDroidIP_scheme \<Rightarrow> 'a GemDroidIP_scheme" where
  "ip_resetStats p =
     p\<lparr>ip_ticks := 0, m_CPUReqs := 0, m_MemReqs := 0, m_IPActiveCycles := 0, m_IPIdleCycles := 0,
       m_IPWorkingCycles := 0, m_IPLowPowerCycles := 0, m_IPBusyStalls := 0, idleStreak := 0,
       m_IPMemStalls := 0\<rparr>"

definition ip_init ::
  "IP_TYPE \<Rightarrow> int \<Rightarrow> bool \<Rightarrow> int \<Rightarrow> int \<Rightarrow> int \<Rightarrow> 'a GemDroidIP_scheme \<Rightarrow> GemDroid \<Rightarrow>
   ('a GemDroidIP_scheme \<times> GemDroid) result" where
  "ip_init type iid dev latency ip_freq opt_freq p g =
     bindE (ip_setPStateActive
              (p\<lparr>ip_type := type, isDev := dev, ip_id := iid, ioLatency := latency\<rparr>) g) (\<lambda>(p, g).
     let p = p\<lparr>m_reqCount := -1, ip_ticks := 0, idleCycles := 0, cyclesToWake := 0,
               power_state := ip_idle, idleStreak := 0, m_cyclesToSkip := 0, m_CPUReqs := 0,
               m_MemReqs := 0, m_IPActiveCycles := 0, m_IPIdleCycles := 0, m_IPLowPowerCycles := 0,
               m_IPBusyStalls := 0, m_memRejected := 0, m_IPMemStalls := 0, m_IPWorkingCycles := 0,
               ip_static_power := (case static_power_of type of Some x \<Rightarrow> x | None \<Rightarrow> ip_static_power p),
               capacitance := (case capacitance_of type of Some x \<Rightarrow> x | None \<Rightarrow> capacitance p)\<rparr>;
         p = p\<lparr>voltage_freq_table := ip_table (capacitance p)\<rparr> in
     bindE (setIPFreq (real_of_int ip_freq / 1000) p) (\<lambda>p.
     Inr (p\<lparr>m_optDVFSState := opt_freq, m_IPActiveInLast1ms := 0, m_IPLowInLast1ms := 0,
            m_IPActivityIn1ms := 0, m_IPActivityInDVFSEpoch := 0, m_IPActiveInLast1us := 0,
            m_IPLowInLast1us := 0, m_IPActivityIn1us := 0\<rparr>, g)))"

definition ip_exit_time :: "'a GemDroidIP_scheme \<Rightarrow> int" where
  "ip_exit_time p =
     (case power_state p of
        ip_lowpower \<Rightarrow> (if isDev p then IPDEV_PSTATE_LOWPOWER_EXIT_TIME else IPACC_PSTATE_LOWPOWER_EXIT_TIME)
      | ip_idle \<Rightarrow> (if isDev p then IPDEV_PSTATE_IDLE_EXIT_TIME else IPACC_PSTATE_IDLE_EXIT_TIME)
      | ip_active \<Rightarrow> cyclesToWake p)"

definition wakeUp :: "'a GemDroidIP_scheme \<Rightarrow> 'a GemDroidIP_scheme" where
  "wakeUp p = p\<lparr>cyclesToWake := ip_exit_time p\<rparr>"

definition countPState :: "'a GemDroidIP_scheme \<Rightarrow> 'a GemDroidIP_scheme" where
  "countPState p =
     (case power_state p of
        ip_active \<Rightarrow> p\<lparr>m_IPActiveCycles := m_IPActiveCycles p + 1,
                      m_IPActiveInLast1ms := m_IPActiveInLast1ms p + 1,
                      m_IPActiveInLast1us := m_IPActiveInLast1us p + 1\<rparr>
      | ip_lowpower \<Rightarrow> p\<lparr>m_IPLowPowerCycles := m_IPLowPowerCycles p + 1,
                        m_IPLowInLast1ms := m_IPLowInLast1ms p + 1,
                        m_IPLowInLast1us := m_IPLowInLast1us p + 1, idleCycles := idleCycles p + 1\<rparr>
      | ip_idle \<Rightarrow> p\<lparr>m_IPIdleCycles := m_IPIdleCycles p + 1\<rparr>)"

definition ip_updatePower ::
  "'a GemDroidIP_scheme \<Rightarrow> GemDroid \<Rightarrow> (bool \<times> 'a GemDroidIP_scheme \<times> GemDroid) result" where
  "ip_updatePower p g =
     (let p = countPState p;
          enterTime = (if isDev p then IPDEV_PSTATE_ENTER_TIME else IPACC_PSTATE_ENTER_TIME) in
      if cyclesToWake p > 0 then
        (let p = p\<lparr>cyclesToWake := cyclesToWake p - 1\<rparr> in
         if cyclesToWake p \<le> 0 then
           bindE (assertE ''!isPStateActive'' (power_state p \<noteq> ip_active)) (\<lambda>_.
           bindE (ip_setPStateActive p g) (\<lambda>(p, g).
           Inr (False, p\<lparr>idleCycles := 0\<rparr>,
                markIPRequestStarted (core_id p) (ip_type p) (ip_id p) (m_frameNum p) g)))
         else Inr (False, p, g))
      else if idleCycles p \<ge> enterTime then
        bindE (if power_state p = ip_active then setPStateLowPower p
               else if power_state p = ip_lowpower then setPStateIdle p else Inr p) (\<lambda>p.
        Inr (False, p\<lparr>idleCycles := 0\<rparr>, g))
      else Inr (power_state p = ip_active, p, g))"

subsection \<open>The operations of a device\<close>

definition ip_sendMemoryReq ::
  "'a GemDroidIP_scheme \<Rightarrow> 'd uncore \<Rightarrow> bool \<times> 'a GemDroidIP_scheme \<times> 'd uncore" where
  "ip_sendMemoryReq p u =
     (let (ok, s) = enqueueIPMemRequest (ip_type p) (ip_id p) (core_id p) (m_reqAddr p) (m_isRead p) (sa u) in
      if \<not> ok then (False, p\<lparr>m_memRejected := m_memRejected p + 1\<rparr>, u\<lparr>sa := s\<rparr>)
      else (True, IPActivityUpdate (p\<lparr>m_reqCount := m_reqCount p - 1,
              m_reqAddr := m_reqAddr p + of_int CACHE_LINE_SIZE, m_MemReqs := m_MemReqs p + 1\<rparr>),
            u\<lparr>sa := s\<rparr>))"

definition ip_memResponse :: "addr \<Rightarrow> bool \<Rightarrow> 'a GemDroidIP_scheme \<Rightarrow> 'a GemDroidIP_scheme" where
  "ip_memResponse addr isRead p = p\<lparr>m_respCount := m_respCount p + 1\<rparr>"

text \<open>The end of every \<open>enqueueIPReq\<close>: an active IP starts the frame, a sleeping one wakes up.\<close>

definition ip_start_or_wake ::
  "'a GemDroidIP_scheme \<Rightarrow> GemDroid \<Rightarrow> 'a GemDroidIP_scheme \<times> GemDroid" where
  "ip_start_or_wake p g =
     (if power_state p = ip_active then
        (p, markIPRequestStarted (core_id p) (ip_type p) (ip_id p) (m_frameNum p) g)
      else (p\<lparr>cyclesToWake := ip_exit_time p\<rparr>, g))"

definition ip_accept ::
  "int \<Rightarrow> addr \<Rightarrow> int \<Rightarrow> bool \<Rightarrow> int \<Rightarrow> IP_TYPE \<Rightarrow> int \<Rightarrow> 'a GemDroidIP_scheme \<Rightarrow> 'a GemDroidIP_scheme" where
  "ip_accept core addr sz isRead frameNum ftype flowId p =
     (let reqCount = \<lceil>real_of_int sz / real_of_int CACHE_LINE_SIZE\<rceil> in
      p\<lparr>is_busy := True, m_reqCount := reqCount, m_reqAddr := addr, m_isRead := isRead,
        m_frameNum := frameNum, m_CPUReqs := m_CPUReqs p + 1, m_respCount := 0,
        m_dataSize := sz, idleCycles := 0, startCycle := ip_ticks p, core_id := core,
        m_cyclesToSkip := ioLatency p * reqCount, m_flowType := ftype, m_flowId := flowId\<rparr>)"

definition ip_enqueueIPReq ::
  "int \<Rightarrow> addr \<Rightarrow> int \<Rightarrow> bool \<Rightarrow> int \<Rightarrow> IP_TYPE \<Rightarrow> int \<Rightarrow> 'a GemDroidIP_scheme \<Rightarrow> GemDroid \<Rightarrow>
   bool \<times> 'a GemDroidIP_scheme \<times> GemDroid" where
  "ip_enqueueIPReq core addr sz isRead frameNum ftype flowId p g =
     (if \<not> is_busy p then
        (True, ip_start_or_wake (ip_accept core addr sz isRead frameNum ftype flowId p) g)
      else (False, p\<lparr>m_IPBusyStalls := m_IPBusyStalls p + 1\<rparr>, g))"

definition ip_process :: "'a GemDroidIP_scheme \<Rightarrow> bool \<times> 'a GemDroidIP_scheme" where
  "ip_process p =
     (let p = (if m_cyclesToSkip p > 0 then p\<lparr>m_cyclesToSkip := m_cyclesToSkip p - 1\<rparr> else p)
      in (m_cyclesToSkip p \<noteq> 0, p))"

text \<open>The call every IP makes to the system agent when it has completed a request.\<close>

definition ip_respond :: "'a GemDroidIP_scheme \<Rightarrow> 'd uncore \<Rightarrow> 'd uncore result" where
  "ip_respond p u =
     bindE (enqueueIPResponse (m_freq (mem u)) (getIPFreq p) (ip_type p) (ip_id p) (core_id p)
              (m_frameNum p) (m_flowType p) (m_flowId p) (gd u) (sa u)) (\<lambda>(ok, g, s).
     Inr (u\<lparr>gd := g, sa := s\<rparr>))"

definition ip_complete ::
  "'a GemDroidIP_scheme \<Rightarrow> 'd uncore \<Rightarrow> ('a GemDroidIP_scheme \<times> 'd uncore) result" where
  "ip_complete p u =
     (if m_respCount p = cdiv (m_dataSize p) CACHE_LINE_SIZE then
        let p = p\<lparr>is_busy := False, m_respCount := 0, m_reqCount := 0\<rparr> in
        bindE (ip_respond p u) (\<lambda>u. Inr (p, u))
      else Inr (p, u))"

definition ip_issue :: "'a GemDroidIP_scheme \<Rightarrow> 'd uncore \<Rightarrow> 'a GemDroidIP_scheme \<times> 'd uncore" where
  "ip_issue p u =
     (if m_reqCount p \<le> 0 \<and> \<not> is_busy p then (p\<lparr>idleCycles := idleCycles p + 1\<rparr>, u)
      else
        let p = (if is_busy p then p\<lparr>m_IPWorkingCycles := m_IPWorkingCycles p + 1\<rparr> else p) in
        if m_reqCount p > 0 then
          let (ok, p, u) = ip_sendMemoryReq p u;
              p = (if ok then p else p\<lparr>idleStreak := idleStreak p + 1, m_IPMemStalls := m_IPMemStalls p + 1\<rparr>);
              p = (if m_reqCount p = 0 then p\<lparr>m_reqCount := m_reqCount p - 1\<rparr> else p)
          in (p, u)
        else (p, u))"

definition ip_tick :: "'a GemDroidIP_scheme \<Rightarrow> 'd uncore \<Rightarrow> ('a GemDroidIP_scheme \<times> 'd uncore) result" where
  "ip_tick p u =
     bindE (ip_updatePower (p\<lparr>ip_ticks := ip_ticks p + 1\<rparr>) (gd u)) (\<lambda>(ok, p, g).
     let u = u\<lparr>gd := g\<rparr> in
     if \<not> ok then Inr (p, u)
     else
       bindE (assertE ''isPStateActive'' (power_state p = ip_active)) (\<lambda>_.
       let (busy, p) = ip_process p in
       if busy then Inr (p, u)
       else bindE (ip_complete p u) (\<lambda>(p, u). Inr (ip_issue p u))))"

subsection \<open>Invariants\<close>

text \<open>
  \<open>ip_power_inv\<close>: only a sleeping IP is waking up, and the state is a row of the table. A
  device never leaves the state \<open>init\<close> gave it, since the setters refuse devices.
\<close>

definition ip_power_inv :: "'a GemDroidIP_scheme \<Rightarrow> bool" where
  "ip_power_inv p \<longleftrightarrow> 0 \<le> cyclesToWake p \<and> (cyclesToWake p > 0 \<longrightarrow> power_state p \<noteq> ip_active) \<and>
     0 \<le> idleCycles p \<and> cyclesToWake p \<le> 109200"

definition ip_cap :: "IP_TYPE \<Rightarrow> real" where
  "ip_cap t = (case capacitance_of t of Some x \<Rightarrow> x | None \<Rightarrow> 0)"

definition ip_dvfs_inv :: "'a GemDroidIP_scheme \<Rightarrow> bool" where
  "ip_dvfs_inv p \<longleftrightarrow> voltage_freq_table p = ip_table (ip_cap (ip_type p)) \<and>
     0 \<le> dvfsState p \<and> dvfsState p < IP_DVFS_STATES \<and>
     0 \<le> m_optDVFSState p \<and> m_optDVFSState p < IP_DVFS_STATES"

text \<open>The IPs the platform creates: an IP that comes after the video decoder is not a device.\<close>

definition ip_class_ok :: "'a GemDroidIP_scheme \<Rightarrow> bool" where
  "ip_class_ok p \<longleftrightarrow> (isDev p \<longrightarrow> \<not> ip_type p > IP_TYPE_VD)"

definition ip_inv :: "'a GemDroidIP_scheme \<Rightarrow> bool" where
  "ip_inv p \<longleftrightarrow> ip_power_inv p \<and> ip_dvfs_inv p \<and> ip_class_ok p"

text \<open>
  Two IPs that differ at most in what the power states and the governors change.
\<close>

definition erase_power :: "'a GemDroidIP_scheme \<Rightarrow> 'a GemDroidIP_scheme" where
  "erase_power p =
     p\<lparr>power_state := ip_idle, cyclesToWake := 0, idleCycles := 0, dvfsState := 0, dvfsCounter := 0,
       m_IPActiveCycles := 0, m_IPActiveInLast1ms := 0, m_IPActiveInLast1us := 0,
       m_IPLowPowerCycles := 0, m_IPLowInLast1ms := 0, m_IPLowInLast1us := 0, m_IPIdleCycles := 0\<rparr>"

definition ip_same :: "'a GemDroidIP_scheme \<Rightarrow> 'a GemDroidIP_scheme \<Rightarrow> bool" where
  "ip_same p p' \<longleftrightarrow> erase_power p' = erase_power p"

text \<open>What the governor makes of the frequency when an IP wakes up.\<close>

definition dvfs_on_wake :: "GOVERNOR_TYPE \<Rightarrow> 'a GemDroidIP_scheme \<Rightarrow> 'a GemDroidIP_scheme" where
  "dvfs_on_wake gov p =
     (if gov = GOVERNOR_TYPE_INTERACTIVE \<and> ip_type p > IP_TYPE_VD
        then p\<lparr>dvfsState := IP_DVFS_STATES - 1, dvfsCounter := INTERACTIVE_GOVERNOR_LAT\<rparr>
      else if gov = GOVERNOR_TYPE_POWERCAP \<and> ip_type p > IP_TYPE_VD
        then p\<lparr>dvfsState := m_optDVFSState p\<rparr> else p)"

text \<open>The power state machine, as a relation between an IP before and after a cycle.\<close>

definition pstate_step :: "'a GemDroidIP_scheme \<Rightarrow> 'a GemDroidIP_scheme \<Rightarrow> bool" where
  "pstate_step p p' \<longleftrightarrow>
     power_state p' = power_state p \<or>
     (power_state p = ip_active \<and> power_state p' = ip_lowpower) \<or>
     (power_state p = ip_lowpower \<and> power_state p' = ip_idle) \<or>
     (cyclesToWake p = 1 \<and> power_state p' = ip_active)"

text \<open>A device that is ticked \<open>n\<close> times.\<close>

fun ip_run :: "nat \<Rightarrow> 'a GemDroidIP_scheme \<Rightarrow> 'd uncore \<Rightarrow> ('a GemDroidIP_scheme \<times> 'd uncore) result" where
  "ip_run 0 p u = Inr (p, u)"
| "ip_run (Suc n) p u = bindE (ip_tick p u) (\<lambda>(p, u). ip_run n p u)"

text \<open>\<open>n\<close> requests a device sends in a row, none refused.\<close>

fun ip_sends :: "nat \<Rightarrow> 'a GemDroidIP_scheme \<Rightarrow> 'd uncore \<Rightarrow> ('a GemDroidIP_scheme \<times> 'd uncore) option" where
  "ip_sends 0 p u = Some (p, u)"
| "ip_sends (Suc n) p u =
     (case ip_sendMemoryReq p u of (ok, p', u') \<Rightarrow> if ok then ip_sends n p' u' else None)"

text \<open>An IP as \<open>init\<close> leaves it, for the witnesses.\<close>

definition ip_blank :: GemDroidIP where
  "ip_blank =
     \<lparr>ip_type = IP_TYPE_DC, ip_id = 0, isDev = True, core_id = 0, m_flowType = IP_TYPE_DC, m_flowId = 0,
      m_reqCount = 0, m_respCount = 0, m_dataSize = 0, is_busy = False, m_reqAddr = 0, m_isRead = False,
      m_frameNum = 0, m_cyclesToSkip = 0, ioLatency = 1, m_reqOutAddr = 0, reqSent = 0,
      inputProcessedInCL = 0, inputToBeProcessedInCL = 0, targetOutputChunkSizeInCL = 0,
      idleCycles = 0, cyclesToWake = 0, startCycle = 0, power_state = ip_idle, ip_static_power = 0,
      m_IPActiveInLast1ms = 0, m_IPLowInLast1ms = 0, m_IPActivityIn1ms = 0, m_IPActiveInLast1us = 0,
      m_IPLowInLast1us = 0, m_IPActivityIn1us = 0, m_IPActivityInDVFSEpoch = 0,
      voltage_freq_table = [], dvfsState = 0, dvfsCounter = 0, m_optDVFSState = 0, capacitance = 0,
      powerInLastEpoch = 0, ip_ticks = 0, m_CPUReqs = 0, m_MemReqs = 0, m_IPActiveCycles = 0,
      m_IPIdleCycles = 0, m_IPBusyStalls = 0, m_IPLowPowerCycles = 0, m_memRejected = 0,
      m_IPMemStalls = 0, m_IPWorkingCycles = 0, idleStreak = 0\<rparr>"

definition dev_demo :: "IP_TYPE \<Rightarrow> bool \<Rightarrow> GemDroidIP" where
  "dev_demo t dev = ip_blank\<lparr>ip_type := t, isDev := dev, voltage_freq_table := ip_table (ip_cap t),
     capacitance := ip_cap t, dvfsState := 2, m_optDVFSState := 1, m_reqCount := -1,
     ip_static_power := (case static_power_of t of Some x \<Rightarrow> x | None \<Rightarrow> 0)\<rparr>"

subsection \<open>Lemmas: the table\<close>

lemma V2F_pos: "0 < V2F"
  by (simp add: V2F_def)

lemma ip_cap_nonneg: "0 \<le> ip_cap t"
  using V2F_pos by (cases t) (simp_all add: ip_cap_def)

interpretation ip_vf: dvfs_table "ip_table (ip_cap t)" for t
  unfolding ip_table_def using ip_cap_nonneg
  by (intro dvfs_table_vf_fill) simp_all

lemma length_ip_table [simp]: "length (ip_table c) = 7"
  by (simp add: ip_table_def)

lemma ip_freq_range:
  assumes "ip_dvfs_inv p" "0 \<le> i" "i < IP_DVFS_STATES"
  shows "2 / 10 \<le> vf_freq (vft p i) \<and> vf_freq (vft p i) \<le> 8 / 10"
proof -
  have "nat i = 0 \<or> nat i = 1 \<or> nat i = 2 \<or> nat i = 3 \<or> nat i = 4 \<or> nat i = 5 \<or> nat i = 6"
    using assms(2,3) by linarith
  then show ?thesis
    using assms(1) by (auto simp: ip_dvfs_inv_def vft_def ip_table_def vf_fill_def)
qed

lemma getIPFreq_range: "ip_dvfs_inv p \<Longrightarrow> 2 / 10 \<le> getIPFreq p \<and> getIPFreq p \<le> 8 / 10"
  using ip_freq_range [of p "dvfsState p"] by (simp add: getIPFreq_def ip_dvfs_inv_def)

lemma ip_index_freq:
  assumes "ip_dvfs_inv p" "0 \<le> i" "i < IP_DVFS_STATES"
  shows "ip_getIndexInTable p (vf_freq (vft p i)) = i"
  using assms ip_vf.table_index_freq [of "nat i" "ip_type p"]
  by (simp add: ip_getIndexInTable_def vft_def ip_dvfs_inv_def)

lemma ip_index_missing:
  assumes "ip_dvfs_inv p" and "\<forall>i. 0 \<le> i \<and> i < IP_DVFS_STATES \<longrightarrow> f \<noteq> vf_freq (vft p i)"
  shows "\<not> 0 \<le> ip_getIndexInTable p f"
proof
  assume a: "0 \<le> ip_getIndexInTable p f"
  have "ip_getIndexInTable p f < 7"
    using table_index_range [of "voltage_freq_table p" f] assms(1)
    by (simp add: ip_getIndexInTable_def ip_dvfs_inv_def)
  moreover have "f = vf_freq (vft p (ip_getIndexInTable p f))"
    using table_index_found [of "voltage_freq_table p" f] a by (simp add: ip_getIndexInTable_def vft_def)
  ultimately show False using assms(2) a by blast
qed

lemma ip_dyn_pos:
  assumes "ip_dvfs_inv p" "0 < ip_cap (ip_type p)" "0 \<le> i" "i < IP_DVFS_STATES"
  shows "0 < vf_dyn (vft p i)"
proof -
  have "nat i = 0 \<or> nat i = 1 \<or> nat i = 2 \<or> nat i = 3 \<or> nat i = 4 \<or> nat i = 5 \<or> nat i = 6"
    using assms(3,4) by linarith
  then show ?thesis
    using assms(1,2) by (auto simp: ip_dvfs_inv_def vft_def ip_table_def vf_fill_def)
qed

lemma getIPFreq_at_current: "ip_dvfs_inv p \<Longrightarrow> getIPFreq_at p (dvfsState p) = getIPFreq p"
  by (simp add: getIPFreq_at_def getIPFreq_def clamp_index_id ip_dvfs_inv_def)

lemma getIPFreq_at_mono:
  assumes "ip_dvfs_inv p" "i \<le> j"
  shows "getIPFreq_at p i \<le> getIPFreq_at p j"
proof -
  let ?i = "clamp_index 7 i" and ?j = "clamp_index 7 j"
  have "?i \<le> ?j" "0 \<le> ?i" "nat ?j < 7" using assms(2) by (auto simp: clamp_index_def)
  then show ?thesis
    using ip_vf.freq_less [of "nat ?i" "nat ?j" "ip_type p"] assms(1)
    by (cases "?i = ?j") (auto simp: getIPFreq_at_def vft_def ip_dvfs_inv_def less_imp_le)
qed

lemma ip_table_freqs:
  assumes "f \<in> {200, 300, 400, 500, 600, 700, 800 :: int}"
  shows "\<exists>k<7. real_of_int f / 1000 = vf_freq (ip_table c ! k)"
proof
  let ?k = "nat (f div 100 - 2)"
  show "?k < 7 \<and> real_of_int f / 1000 = vf_freq (ip_table c ! ?k)"
    using assms by (auto simp: ip_table_def vf_fill_def)
qed

lemmas ip_setters = setMaxIPFreq_def setMinIPFreq_def setOptIPFreq_def setIPFreqInd_def setIPFreq_def
  ip_incFreq_def ip_decFreq_def ip_updateDVFS_def ip_setMaxAllowedFreq_def

subsection \<open>Lemmas: preservation\<close>

lemma ip_inv_dvfsState:
  "ip_inv p \<Longrightarrow> 0 \<le> k \<Longrightarrow> k < IP_DVFS_STATES \<Longrightarrow> ip_inv (p\<lparr>dvfsState := k\<rparr>)"
  by (simp add: ip_inv_def ip_power_inv_def ip_dvfs_inv_def ip_class_ok_def)

lemma ip_inv_dvfsCounter [simp]: "ip_inv (p\<lparr>dvfsCounter := k\<rparr>) \<longleftrightarrow> ip_inv p"
  by (simp add: ip_inv_def ip_power_inv_def ip_dvfs_inv_def ip_class_ok_def)

lemma ip_inv_setMaxIPFreq [inv_intros]: "setMaxIPFreq p = Inr p' \<Longrightarrow> ip_inv p \<Longrightarrow> ip_inv p'"
  by (auto simp: setMaxIPFreq_def intro!: ip_inv_dvfsState)

lemma ip_inv_setOptIPFreq [inv_intros]: "setOptIPFreq p = Inr p' \<Longrightarrow> ip_inv p \<Longrightarrow> ip_inv p'"
  by (auto simp: setOptIPFreq_def ip_inv_def [of p] ip_dvfs_inv_def [of p] intro!: ip_inv_dvfsState)

lemma ip_inv_setIPFreq [inv_intros]: "setIPFreq f p = Inr p' \<Longrightarrow> ip_inv p \<Longrightarrow> ip_inv p'"
  by (auto simp: setIPFreq_def Let_def intro!: ip_inv_dvfsState)

lemma ip_inv_ip_incFreq [inv_intros]:
  "ip_incFreq steps p = Inr (b, p') \<Longrightarrow> 0 \<le> steps \<Longrightarrow> ip_inv p \<Longrightarrow> ip_inv p'"
  by (auto simp: ip_incFreq_def ip_inv_def [of p] ip_dvfs_inv_def [of p] split: if_splits
      intro!: ip_inv_dvfsState dest: ip_inv_setMaxIPFreq)

lemma ip_inv_ip_decFreq [inv_intros]:
  "ip_decFreq gov steps p = Inr (b, p') \<Longrightarrow> 0 \<le> steps \<Longrightarrow> ip_inv p \<Longrightarrow> ip_inv p'"
  by (auto simp: ip_decFreq_def split: if_splits intro!: ip_inv_dvfsState)
    (simp_all add: ip_inv_def ip_dvfs_inv_def)

lemma ip_inv_ticks [simp]: "ip_inv (p\<lparr>ip_ticks := n\<rparr>) \<longleftrightarrow> ip_inv p"
  by (simp add: ip_inv_def ip_power_inv_def ip_dvfs_inv_def ip_class_ok_def)

lemma ip_inv_countPState [simp, inv_intros]: "ip_inv p \<Longrightarrow> ip_inv (countPState p)"
  by (cases "power_state p")
    (auto simp: countPState_def ip_inv_def ip_power_inv_def ip_dvfs_inv_def ip_class_ok_def)

lemma countPState_sel [simp]:
  "cyclesToWake (countPState p) = cyclesToWake p" "power_state (countPState p) = power_state p"
  "ip_type (countPState p) = ip_type p" "ip_id (countPState p) = ip_id p"
  "core_id (countPState p) = core_id p" "m_frameNum (countPState p) = m_frameNum p"
  "isDev (countPState p) = isDev p" "dvfsState (countPState p) = dvfsState p"
  "m_optDVFSState (countPState p) = m_optDVFSState p"
  "is_busy (countPState p) = is_busy p"
  by (cases "power_state p"; simp add: countPState_def)+

text \<open>What waking up, sleeping and the governors leave alone.\<close>

lemma ip_sameD:
  assumes "ip_same p p'"
  shows "ip_type p' = ip_type p" "ip_id p' = ip_id p" "core_id p' = core_id p" "isDev p' = isDev p"
    "m_flowType p' = m_flowType p" "m_flowId p' = m_flowId p" "m_reqCount p' = m_reqCount p"
    "m_respCount p' = m_respCount p" "m_dataSize p' = m_dataSize p" "is_busy p' = is_busy p"
    "m_reqAddr p' = m_reqAddr p" "m_isRead p' = m_isRead p" "m_frameNum p' = m_frameNum p"
    "m_cyclesToSkip p' = m_cyclesToSkip p" "m_reqOutAddr p' = m_reqOutAddr p" "reqSent p' = reqSent p"
    "inputProcessedInCL p' = inputProcessedInCL p"
    "inputToBeProcessedInCL p' = inputToBeProcessedInCL p" "m_optDVFSState p' = m_optDVFSState p"
    "voltage_freq_table p' = voltage_freq_table p" "GemDroidIP.more p' = GemDroidIP.more p"
    "m_IPWorkingCycles p' = m_IPWorkingCycles p" "m_MemReqs p' = m_MemReqs p" "ip_ticks p' = ip_ticks p"
    "targetOutputChunkSizeInCL p' = targetOutputChunkSizeInCL p" "ioLatency p' = ioLatency p"
  using assms by (cases p; cases p'; simp add: ip_same_def erase_power_def)+

lemma ip_same_refl [simp]: "ip_same p p"
  by (simp add: ip_same_def)

lemma ip_same_trans: "ip_same p q \<Longrightarrow> ip_same q r \<Longrightarrow> ip_same p r"
  by (simp add: ip_same_def)

lemma ip_same_countPState [simp]: "ip_same p (countPState p)"
  by (cases "power_state p") (simp_all add: ip_same_def countPState_def erase_power_def)

lemma ip_same_power [simp]:
  "ip_same p (q\<lparr>power_state := x\<rparr>) \<longleftrightarrow> ip_same p q"
  "ip_same p (q\<lparr>cyclesToWake := k\<rparr>) \<longleftrightarrow> ip_same p q"
  "ip_same p (q\<lparr>idleCycles := k\<rparr>) \<longleftrightarrow> ip_same p q"
  by (simp_all add: ip_same_def erase_power_def)

lemma ip_same_dvfs_on_wake [simp]: "ip_same p (dvfs_on_wake gov q) \<longleftrightarrow> ip_same p q"
  by (simp add: ip_same_def dvfs_on_wake_def erase_power_def)

lemma dvfs_on_wake_sel [simp]:
  "power_state (dvfs_on_wake gov p) = power_state p" "cyclesToWake (dvfs_on_wake gov p) = cyclesToWake p"
  "idleCycles (dvfs_on_wake gov p) = idleCycles p" "ip_type (dvfs_on_wake gov p) = ip_type p"
  "ip_id (dvfs_on_wake gov p) = ip_id p" "core_id (dvfs_on_wake gov p) = core_id p"
  "m_frameNum (dvfs_on_wake gov p) = m_frameNum p" "isDev (dvfs_on_wake gov p) = isDev p"
  by (simp_all add: dvfs_on_wake_def)

lemma ip_dvfs_inv_dvfs_on_wake [simp]: "ip_dvfs_inv p \<Longrightarrow> ip_dvfs_inv (dvfs_on_wake gov p)"
  by (simp add: ip_dvfs_inv_def dvfs_on_wake_def)

lemma ip_inv_power_fields:
  "ip_dvfs_inv (p\<lparr>power_state := x\<rparr>) = ip_dvfs_inv p" "ip_dvfs_inv (p\<lparr>cyclesToWake := k\<rparr>) = ip_dvfs_inv p"
  "ip_dvfs_inv (p\<lparr>idleCycles := k\<rparr>) = ip_dvfs_inv p" "ip_class_ok (p\<lparr>power_state := x\<rparr>) = ip_class_ok p"
  "ip_class_ok (p\<lparr>cyclesToWake := k\<rparr>) = ip_class_ok p" "ip_class_ok (p\<lparr>idleCycles := k\<rparr>) = ip_class_ok p"
  "ip_class_ok (dvfs_on_wake gov p) = ip_class_ok p"
  by (simp_all add: ip_dvfs_inv_def ip_class_ok_def dvfs_on_wake_def)

lemma ip_setPStateActive_eq:
  "ip_class_ok p \<Longrightarrow> ip_setPStateActive p g =
     Inr ((dvfs_on_wake (governor g) p)\<lparr>power_state := ip_active\<rparr>,
          markIPRequestStarted 0 (ip_type p) (ip_id p) 0 g)"
  by (cases "IP_TYPE_VD < ip_type p")
    (simp_all add: ip_setPStateActive_def dvfs_on_wake_def setMaxIPFreq_def setOptIPFreq_def
      ip_class_ok_def)

text \<open>A cycle of the power state machine, by the case it is in.\<close>

lemma ip_updatePower_waking:
  "cyclesToWake p > 1 \<Longrightarrow> ip_updatePower p g =
     Inr (False, (countPState p)\<lparr>cyclesToWake := cyclesToWake p - 1\<rparr>, g)"
  by (simp add: ip_updatePower_def Let_def)

lemma ip_updatePower_wake:
  "cyclesToWake p = 1 \<Longrightarrow> power_state p \<noteq> ip_active \<Longrightarrow> ip_class_ok p \<Longrightarrow> ip_updatePower p g =
     Inr (False, (dvfs_on_wake (governor g) ((countPState p)\<lparr>cyclesToWake := 0\<rparr>))
            \<lparr>power_state := ip_active, idleCycles := 0\<rparr>,
          markIPRequestStarted (core_id p) (ip_type p) (ip_id p) (m_frameNum p)
            (markIPRequestStarted 0 (ip_type p) (ip_id p) 0 g))"
proof -
  assume "cyclesToWake p = 1" "power_state p \<noteq> ip_active" "ip_class_ok p"
  moreover from this have "ip_class_ok ((countPState p)\<lparr>cyclesToWake := 0\<rparr>)"
    by (simp add: ip_class_ok_def)
  ultimately show ?thesis
    by (simp add: ip_updatePower_def Let_def ip_setPStateActive_eq)
qed

lemma ip_updatePower_sleep:
  "cyclesToWake p \<le> 0 \<Longrightarrow> idleCycles (countPState p) \<ge> 97800 \<Longrightarrow> ip_updatePower p g =
     Inr (False, (countPState p)\<lparr>idleCycles := 0, power_state :=
            (if power_state p = ip_active then ip_lowpower else ip_idle)\<rparr>, g)"
  by (cases "power_state p")
    (simp_all add: ip_updatePower_def Let_def setPStateLowPower_def setPStateIdle_def)

lemma ip_updatePower_rest:
  "cyclesToWake p \<le> 0 \<Longrightarrow> idleCycles (countPState p) < 97800 \<Longrightarrow> ip_updatePower p g =
     Inr (power_state p = ip_active, countPState p, g)"
  by (simp add: ip_updatePower_def Let_def)

lemma ip_updatePower_ok:
  assumes "ip_inv p"
  obtains ok p' g' where "ip_updatePower p g = Inr (ok, p', g')" "ip_inv p'" "pstate_step p p'"
    "ok \<longrightarrow> power_state p' = ip_active" "ip_same p p'" "flowTable g' = flowTable g"
proof -
  let ?p = "countPState p"
  have inv: "ip_power_inv ?p" "ip_dvfs_inv ?p" "ip_class_ok ?p"
    using ip_inv_countPState [OF assms] by (simp_all add: ip_inv_def)
  consider (wake) "cyclesToWake p = 1" "power_state p \<noteq> ip_active" | (waking) "cyclesToWake p > 1"
    | (sleep) "cyclesToWake p = 0" "idleCycles ?p \<ge> 97800" | (rest) "cyclesToWake p = 0" "idleCycles ?p < 97800"
    using assms unfolding ip_inv_def ip_power_inv_def by force
  then show thesis
  proof cases
    case wake
    have "ip_class_ok p" using assms by (simp add: ip_inv_def)
    from ip_updatePower_wake [OF wake this] show thesis
      by (rule that) (use wake inv in \<open>simp_all add: ip_inv_def ip_inv_power_fields ip_power_inv_def pstate_step_def\<close>)
  next
    case waking
    from ip_updatePower_waking [OF this] show thesis
      by (rule that) (use waking inv in \<open>simp_all add: ip_inv_def ip_inv_power_fields ip_power_inv_def pstate_step_def\<close>)
  next
    case sleep
    then have "cyclesToWake p \<le> 0" by simp
    from ip_updatePower_sleep [OF this sleep(2)] show thesis
      by (rule that; cases "power_state p")
        (use sleep inv in \<open>simp_all add: ip_inv_def ip_inv_power_fields ip_power_inv_def pstate_step_def\<close>)
  next
    case rest
    then have "cyclesToWake p \<le> 0" by simp
    from ip_updatePower_rest [OF this rest(2)] show thesis
      by (rule that) (use rest inv in \<open>simp_all add: ip_inv_def pstate_step_def\<close>)
  qed
qed

subsection \<open>Lemmas: waking up\<close>

lemma ip_tick_waking:
  "cyclesToWake p > 1 \<Longrightarrow>
   ip_tick p u = Inr ((countPState (p\<lparr>ip_ticks := ip_ticks p + 1\<rparr>))\<lparr>cyclesToWake := cyclesToWake p - 1\<rparr>, u)"
  by (simp add: ip_tick_def ip_updatePower_waking)

lemma ip_tick_wake:
  "cyclesToWake p = 1 \<Longrightarrow> power_state p \<noteq> ip_active \<Longrightarrow> ip_class_ok p \<Longrightarrow>
   \<exists>p' u'. ip_tick p u = Inr (p', u') \<and> power_state p' = ip_active \<and> cyclesToWake p' = 0 \<and>
     sa u' = sa u \<and> mem u' = mem u \<and> frameStarted (gd u') (ip_type p) (ip_id p) \<and>
     ipProcessStartCycle (gd u') (ip_type p) (ip_id p) = gd_ticks (gd u)"
  by (simp add: ip_tick_def ip_updatePower_wake ip_class_ok_def markIPRequestStarted_def)

lemma ip_run_waking:
  assumes "int n < cyclesToWake p"
  shows "\<exists>p'. ip_run n p u = Inr (p', u) \<and> power_state p' = power_state p \<and>
    cyclesToWake p' = cyclesToWake p - int n \<and> ip_type p' = ip_type p \<and> ip_id p' = ip_id p \<and>
    isDev p' = isDev p"
  using assms
proof (induction n arbitrary: p)
  case (Suc n)
  let ?q = "(countPState (p\<lparr>ip_ticks := ip_ticks p + 1\<rparr>))\<lparr>cyclesToWake := cyclesToWake p - 1\<rparr>"
  have "int n < cyclesToWake ?q" using Suc.prems by simp
  from Suc.IH [OF this] Suc.prems show ?case
    by (simp add: ip_tick_waking diff_diff_add)
qed simp

lemma ip_run_add: "ip_run (m + n) p u = bindE (ip_run m p u) (\<lambda>(p, u). ip_run n p u)"
  by (induction m arbitrary: p u) (auto simp: bindE_def split: sum.splits)

lemma ip_run_wake:
  assumes "cyclesToWake p = int (Suc n)" "power_state p \<noteq> ip_active" "ip_class_ok p"
  shows "\<exists>p' u'. ip_run (Suc n) p u = Inr (p', u') \<and> power_state p' = ip_active \<and> cyclesToWake p' = 0 \<and>
     sa u' = sa u \<and> mem u' = mem u \<and> frameStarted (gd u') (ip_type p) (ip_id p) \<and>
     ipProcessStartCycle (gd u') (ip_type p) (ip_id p) = gd_ticks (gd u)"
proof -
  have "int n < cyclesToWake p" using assms(1) by simp
  from ip_run_waking [OF this, of u] obtain q where q: "ip_run n p u = Inr (q, u)"
    "power_state q = power_state p" "cyclesToWake q = 1" "ip_type q = ip_type p" "ip_id q = ip_id p"
    "isDev q = isDev p"
    using assms(1) by auto
  have "ip_class_ok q" "power_state q \<noteq> ip_active"
    using q assms by (simp_all add: ip_class_ok_def)
  from ip_tick_wake [OF q(3) this(2,1), of u] q show ?thesis
    using ip_run_add [of n 1 p u] by auto
qed

lemma ip_inv_start_or_wake [inv_intros]:
  "ip_inv p \<Longrightarrow> ip_inv (fst (ip_start_or_wake p g))"
  by (cases "power_state p")
    (simp_all add: ip_start_or_wake_def ip_exit_time_def ip_inv_def ip_inv_power_fields ip_power_inv_def)

lemma ip_start_or_wake_sel [simp]:
  "power_state (fst (ip_start_or_wake p g)) = power_state p"
  "ip_type (fst (ip_start_or_wake p g)) = ip_type p" "ip_id (fst (ip_start_or_wake p g)) = ip_id p"
  "isDev (fst (ip_start_or_wake p g)) = isDev p"
  by (simp_all add: ip_start_or_wake_def)

lemma ip_start_or_wake_asleep:
  "power_state p \<noteq> ip_active \<Longrightarrow> cyclesToWake (fst (ip_start_or_wake p g)) = 109200"
  by (cases "power_state p") (simp_all add: ip_start_or_wake_def ip_exit_time_def)

lemma ip_accept_sel [simp]:
  "power_state (ip_accept c a z r n ft k p) = power_state p"
  "ip_type (ip_accept c a z r n ft k p) = ip_type p" "ip_id (ip_accept c a z r n ft k p) = ip_id p"
  "isDev (ip_accept c a z r n ft k p) = isDev p"
  by (simp_all add: ip_accept_def Let_def)

lemma ip_enqueueIPReq_asleep:
  assumes "power_state p \<noteq> ip_active" "\<not> is_busy p"
    and "ip_enqueueIPReq c a z r n ft k p g = (True, q, g')"
  shows "cyclesToWake q = 109200 \<and> power_state q = power_state p \<and> ip_type q = ip_type p \<and>
    ip_id q = ip_id p \<and> isDev q = isDev p"
proof -
  have "q = fst (ip_start_or_wake (ip_accept c a z r n ft k p) g)"
    using assms(2,3) by (simp add: ip_enqueueIPReq_def prod_eq_iff)
  with assms(1) ip_start_or_wake_asleep [of "ip_accept c a z r n ft k p" g] show ?thesis by simp
qed

lemma ip_enqueueIPReq_accepts:
  "\<not> is_busy p \<Longrightarrow> \<exists>q g'. ip_enqueueIPReq c a z r n ft k p g = (True, q, g')"
  by (simp add: ip_enqueueIPReq_def)

lemma ip_inv_ip_accept [inv_intros]: "ip_inv p \<Longrightarrow> ip_inv (ip_accept c a z r n ft k p)"
  by (simp add: ip_accept_def Let_def ip_inv_def ip_power_inv_def ip_dvfs_inv_def ip_class_ok_def)

lemma ip_inv_ip_enqueueIPReq [inv_intros]:
  "ip_inv p \<Longrightarrow> ip_inv (fst (snd (ip_enqueueIPReq c a z r n ft k p g)))"
  by (cases "is_busy p")
    (simp_all add: ip_enqueueIPReq_def ip_inv_start_or_wake ip_inv_ip_accept,
     simp add: ip_inv_def ip_power_inv_def ip_dvfs_inv_def ip_class_ok_def)

text \<open>The working part of a cycle touches nothing that the invariant mentions but \<open>idleCycles\<close>.\<close>

lemma ip_inv_work:
  "ip_inv p \<Longrightarrow> ip_type q = ip_type p \<Longrightarrow> isDev q = isDev p \<Longrightarrow> power_state q = power_state p \<Longrightarrow>
   cyclesToWake q = cyclesToWake p \<Longrightarrow> dvfsState q = dvfsState p \<Longrightarrow> m_optDVFSState q = m_optDVFSState p \<Longrightarrow>
   voltage_freq_table q = voltage_freq_table p \<Longrightarrow> 0 \<le> idleCycles q \<Longrightarrow> ip_inv q"
  by (simp add: ip_inv_def ip_power_inv_def ip_dvfs_inv_def ip_class_ok_def)

lemma ip_inv_idle: "ip_inv p \<Longrightarrow> 0 \<le> idleCycles p"
  by (simp add: ip_inv_def ip_power_inv_def)

lemma ip_inv_ip_process [inv_intros]: "ip_inv p \<Longrightarrow> ip_inv (snd (ip_process p))"
  by (rule ip_inv_work [of p]) (simp_all add: ip_process_def Let_def ip_inv_idle)

lemma ip_inv_ip_sendMemoryReq [inv_intros]: "ip_inv p \<Longrightarrow> ip_inv (fst (snd (ip_sendMemoryReq p u)))"
  by (rule ip_inv_work [of p])
    (simp_all add: ip_sendMemoryReq_def IPActivityUpdate_def ip_inv_idle split_beta)

lemma ip_inv_ip_issue [inv_intros]: "ip_inv p \<Longrightarrow> ip_inv (fst (ip_issue p u))"
  by (rule ip_inv_work [of p])
    (simp_all add: ip_issue_def ip_sendMemoryReq_def IPActivityUpdate_def ip_inv_idle Let_def split_beta)

lemma ip_inv_ip_complete [inv_intros]: "ip_complete p u = Inr (p', u') \<Longrightarrow> ip_inv p \<Longrightarrow> ip_inv p'"
  by (rule ip_inv_work [of p]) (auto simp: ip_complete_def ip_inv_idle Let_def split: if_splits)

lemma ip_inv_ip_tick [inv_intros]:
  assumes "ip_inv p" "ip_tick p u = Inr (p', u')"
  shows "ip_inv p'"
proof -
  have "ip_inv (p\<lparr>ip_ticks := ip_ticks p + 1\<rparr>)" using assms(1) by simp
  then obtain ok q g where q: "ip_updatePower (p\<lparr>ip_ticks := ip_ticks p + 1\<rparr>) (gd u) = Inr (ok, q, g)" "ip_inv q"
    by (rule ip_updatePower_ok [of _ "gd u"])
  from ip_inv_ip_process [OF q(2)] q assms(2) show ?thesis
    by (auto simp: ip_tick_def Let_def split_beta split: if_splits
        dest: ip_inv_ip_complete) (metis fst_conv ip_inv_ip_complete ip_inv_ip_issue)
qed

lemma dev_demo_inv: "dev \<longrightarrow> \<not> t > IP_TYPE_VD \<Longrightarrow> ip_inv (dev_demo t dev)"
  by (simp add: dev_demo_def ip_blank_def ip_inv_def ip_power_inv_def ip_dvfs_inv_def ip_class_ok_def)

subsection \<open>Properties\<close>

text \<open>C21: a sleeping IP that accepts a request wakes up after exactly \<open>109200\<close> of its cycles:
  it stays asleep and touches nothing of the platform before, and in that cycle it becomes
  active and starts the frame at the current tick.\<close>

theorem wake_up_exact:
  assumes "ip_inv p" and "power_state p \<noteq> ip_active" and "\<not> is_busy p"
    and "ip_enqueueIPReq c a z r n ft k p (gd u) = (True, q, g)"
  shows "(\<forall>i<109200. \<exists>q'. ip_run i q u = Inr (q', u) \<and> power_state q' = power_state p) \<and>
    (\<exists>q' u'. ip_run 109200 q u = Inr (q', u') \<and> power_state q' = ip_active \<and> sa u' = sa u \<and>
       frameStarted (gd u') (ip_type p) (ip_id p) \<and>
       ipProcessStartCycle (gd u') (ip_type p) (ip_id p) = gd_ticks (gd u))"
proof -
  from ip_enqueueIPReq_asleep [OF assms(2-4)]
  have q: "cyclesToWake q = int (Suc 109199)" "power_state q = power_state p"
    "ip_type q = ip_type p" "ip_id q = ip_id p" "isDev q = isDev p"
    by simp_all
  then have "ip_class_ok q" "power_state q \<noteq> ip_active"
    using assms(1,2) by (simp_all add: ip_inv_def ip_class_ok_def)
  from ip_run_wake [OF q(1) this(2,1), of u] q have
    "\<exists>q' u'. ip_run (Suc 109199) q u = Inr (q', u') \<and> power_state q' = ip_active \<and> sa u' = sa u \<and>
       frameStarted (gd u') (ip_type p) (ip_id p) \<and>
       ipProcessStartCycle (gd u') (ip_type p) (ip_id p) = gd_ticks (gd u)"
    unfolding q by blast
  moreover have "\<exists>q'. ip_run i q u = Inr (q', u) \<and> power_state q' = power_state p" if "i < 109200" for i
    using ip_run_waking [of i q u] q that by auto
  ultimately show ?thesis by simp
qed

theorem wake_up_exact_witness:
  "\<exists>q g. ip_enqueueIPReq 0 VD_ADDR_START 4096 True 1 IP_TYPE_DC 0 (dev_demo IP_TYPE_DC True) gd_demo = (True, q, g) \<and>
     (\<exists>q' u'. ip_run 109200 q u_demo = Inr (q', u') \<and> power_state q' = ip_active)"
proof -
  let ?p = "dev_demo IP_TYPE_DC True"
  obtain q g where q: "ip_enqueueIPReq 0 VD_ADDR_START 4096 True 1 IP_TYPE_DC 0 ?p (gd u_demo) = (True, q, g)"
    using ip_enqueueIPReq_accepts [of ?p] by (force simp: dev_demo_def ip_blank_def)
  have "ip_inv ?p" "power_state ?p \<noteq> ip_active" "\<not> is_busy ?p"
    by (simp add: dev_demo_inv IP_TYPE_order) (simp_all add: dev_demo_def ip_blank_def)
  from wake_up_exact [OF this q] q show ?thesis by (auto simp: u_demo_def)
qed

text \<open>C19: a cycle of the power state machine never fails one of its assertions, keeps the
  invariant, moves only along active, low power, idle and back to active at the end of a wake-up,
  and lets the IP work only when it is active; it touches nothing but power accounting.\<close>

theorem power_machine_safe:
  assumes "ip_inv p"
  shows "\<exists>ok p' g'. ip_updatePower p g = Inr (ok, p', g') \<and> ip_inv p' \<and> pstate_step p p' \<and>
    ip_same p p' \<and> (ok \<longrightarrow> power_state p' = ip_active)"
  using ip_updatePower_ok [OF assms, of g] by metis

theorem power_machine_safe_witness:
  "\<exists>ok p' g'. ip_updatePower ((dev_demo IP_TYPE_VE False)\<lparr>power_state := ip_active, idleCycles := 97800\<rparr>) gd_demo
      = Inr (ok, p', g') \<and> ip_inv p' \<and> \<not> ok \<and> power_state p' = ip_lowpower"
proof -
  let ?p = "(dev_demo IP_TYPE_VE False)\<lparr>power_state := ip_active, idleCycles := 97800\<rparr>"
  have "ip_inv ?p"
    by (simp add: ip_inv_def ip_power_inv_def ip_dvfs_inv_def ip_class_ok_def dev_demo_def ip_blank_def)
  moreover have "ip_updatePower ?p gd_demo = Inr (False, (countPState ?p)
      \<lparr>idleCycles := 0, power_state := ip_lowpower\<rparr>, gd_demo)"
    by (subst ip_updatePower_sleep) (simp_all add: dev_demo_def ip_blank_def countPState_def)
  ultimately show ?thesis
    using power_machine_safe [of ?p gd_demo] by auto
qed

text \<open>C23: whatever steps the governors ask for, an IP stays at a row of its table, between 200
  and 800 MHz, and the current frequency is found in the table at the current state.\<close>

theorem ip_frequency_in_table:
  assumes "ip_inv p" and "0 \<le> steps"
    and "ip_incFreq steps p = Inr (b, p') \<or> ip_decFreq gov steps p = Inr (b, p') \<or>
         setMaxIPFreq p = Inr p' \<or> setOptIPFreq p = Inr p' \<or> setIPFreq f p = Inr p' \<or>
         ip_setMaxAllowedFreq g p = Inr p'"
  shows "0 \<le> dvfsState p' \<and> dvfsState p' < 7 \<and> 2 / 10 \<le> getIPFreq p' \<and> getIPFreq p' \<le> 8 / 10 \<and>
    ip_getIndexInTable p' (getIPFreq p') = dvfsState p'"
proof -
  have "ip_inv p'"
    using assms unfolding ip_setMaxAllowedFreq_def Let_def
    by (blast intro: ip_inv_ip_incFreq ip_inv_ip_decFreq ip_inv_setMaxIPFreq ip_inv_setOptIPFreq
        ip_inv_setIPFreq)
  then have "ip_dvfs_inv p'" by (simp add: ip_inv_def)
  then show ?thesis
    using getIPFreq_range [of p'] ip_index_freq [of p' "dvfsState p'"]
    by (simp add: ip_dvfs_inv_def getIPFreq_def)
qed

theorem ip_frequency_in_table_witness:
  "\<exists>p'. ip_incFreq 9 (dev_demo IP_TYPE_VE False) = Inr (False, p') \<and> dvfsState p' = 6 \<and>
     getIPFreq p' \<le> 8 / 10"
proof -
  let ?p = "dev_demo IP_TYPE_VE False"
  obtain p' where p': "ip_incFreq 9 ?p = Inr (False, p')" "dvfsState p' = 6"
    by (simp add: ip_incFreq_def setMaxIPFreq_def dev_demo_def ip_blank_def)
  have "ip_inv ?p" by (simp add: dev_demo_inv)
  from ip_frequency_in_table [OF this, of 9 False p'] p' show ?thesis by auto
qed

text \<open>The search for a frequency within a power budget scans from the lowest state and takes
  the first that fits: it never returns more than the lowest frequency when that one fits, and
  when not even that one fits it returns the highest.\<close>

theorem ip_getFreqForPower_extremes:
  assumes "ip_inv p"
  shows "ip_getFreqForPower budget p =
    (if vf_dyn (vft p 0) < budget then vf_freq (vft p 0) else vf_freq (vft p (IP_DVFS_STATES - 1)))"
proof -
  have t: "voltage_freq_table p = ip_table (ip_cap (ip_type p))"
    using assms by (simp add: ip_inv_def ip_dvfs_inv_def)
  moreover have "vf_stat (ip_table (ip_cap (ip_type p)) ! 0) = 0"
    by (simp add: ip_table_def vf_fill_def)
  ultimately show ?thesis
    using ip_vf.freq_for_power_cases [of "ip_type p" budget]
    by (simp add: ip_getFreqForPower_def vft_def)
qed

theorem ip_getFreqForPower_extremes_witness:
  "ip_getFreqForPower 100 (dev_demo IP_TYPE_VE False) = 2 / 10 \<and>
   ip_getFreqForPower 0 (dev_demo IP_TYPE_VE False) = 8 / 10"
proof -
  have "ip_inv (dev_demo IP_TYPE_VE False)" by (simp add: dev_demo_inv)
  from ip_getFreqForPower_extremes [OF this, of 100] ip_getFreqForPower_extremes [OF this, of 0]
  show ?thesis
    by (simp add: vft_def dev_demo_def ip_blank_def ip_table_def vf_fill_def ip_cap_def V2F_def)
qed

text \<open>The energy estimate is exact at the current frequency, and an estimate for a frequency
  that is not in the table reads before it.\<close>

theorem ip_energy_estimate:
  assumes "ip_inv p" and "0 < ip_cap (ip_type p)"
  shows "ip_getEnergyEst time pw (getIPFreq p) p = Inr (time * pw) \<and>
    (\<forall>f. (\<forall>i. 0 \<le> i \<and> i < IP_DVFS_STATES \<longrightarrow> f \<noteq> vf_freq (vft p i)) \<longrightarrow>
       ip_getEnergyEst time pw f p = Inl (OutOfBounds ''voltage_freq_table''))"
proof
  have inv: "ip_dvfs_inv p" using assms by (simp add: ip_inv_def)
  then have st: "0 \<le> dvfsState p" "dvfsState p < 7" by (simp_all add: ip_dvfs_inv_def)
  have ind: "ip_getIndexInTable p (getIPFreq p) = dvfsState p"
    using ip_index_freq [OF inv st] by (simp add: getIPFreq_def)
  have dyn: "0 < vf_dyn (vft p (dvfsState p))"
    using ip_dyn_pos [OF inv assms(2) st] .
  have "0 < getIPFreq p" using getIPFreq_range [OF inv] by simp
  with dyn st show "ip_getEnergyEst time pw (getIPFreq p) p = Inr (time * pw)"
    by (simp add: ip_getEnergyEst_def ind ip_getTimeEst_def Let_def field_simps)
  show "\<forall>f. (\<forall>i. 0 \<le> i \<and> i < IP_DVFS_STATES \<longrightarrow> f \<noteq> vf_freq (vft p i)) \<longrightarrow>
       ip_getEnergyEst time pw f p = Inl (OutOfBounds ''voltage_freq_table'')"
    using ip_index_missing [OF inv] by (simp add: ip_getEnergyEst_def Let_def)
qed

theorem ip_energy_estimate_witness:
  "ip_getEnergyEst 4 (3 / 2) (getIPFreq (dev_demo IP_TYPE_VE False)) (dev_demo IP_TYPE_VE False) = Inr 6"
proof -
  have "ip_inv (dev_demo IP_TYPE_VE False)" "0 < ip_cap (ip_type (dev_demo IP_TYPE_VE False))"
    using V2F_pos by (simp_all add: dev_demo_inv) (simp add: dev_demo_def ip_blank_def ip_cap_def)
  from ip_energy_estimate [OF this, of 4 "3 / 2"] show ?thesis by simp
qed



text \<open>A device waits for as many responses as whole cache lines fit in its data, but sends a
  request for the last, partial line too: a network packet of 1562 bytes is reported as complete
  after 24 responses to its 25 requests, and a request below one line with no response at all.\<close>

theorem device_completes_early:
  "let p = ip_accept 0 NW_ADDR_START 1562 True 1 IP_TYPE_NW 0 (dev_demo IP_TYPE_NW True) in
   m_reqCount p = 25 \<and>
   (case ip_complete (p\<lparr>m_respCount := 24\<rparr>) u_demo of
      Inr (p', u') \<Rightarrow> \<not> is_busy p' \<and> m_reqCount p' = 0 | Inl _ \<Rightarrow> False) \<and>
   (case ip_complete (ip_accept 0 NW_ADDR_START 32 True 1 IP_TYPE_NW 0 (dev_demo IP_TYPE_NW True)) u_demo of
      Inr (p', u') \<Rightarrow> \<not> is_busy p' \<and> m_reqCount p' = 0 | Inl _ \<Rightarrow> False)"
  by code_simp

text \<open>The requests a device sends for one call are the consecutive cache lines of its
  buffer, each once and in order, for as long as the system agent takes them.\<close>

theorem device_sends_lines:
  assumes "ip_sends n p u = Some (p', u')"
  shows "m_reqCount p' = m_reqCount p - int n \<and>
    map mm_addr (ipMemReq (sa u')) = map mm_addr (ipMemReq (sa u)) @
      map (\<lambda>i. m_reqAddr p + 64 * of_nat i) [0..<n] \<and>
    m_reqAddr p' = m_reqAddr p + 64 * of_nat n \<and> coreMemReq (sa u') = coreMemReq (sa u)"
  using assms
proof (induction n arbitrary: p u)
  case (Suc n)
  then obtain p1 u1 where s: "ip_sendMemoryReq p u = (True, p1, u1)" and r: "ip_sends n p1 u1 = Some (p', u')"
    by (auto split: prod.splits if_splits)
  from s have "m_reqCount p1 = m_reqCount p - 1" "m_reqAddr p1 = m_reqAddr p + 64"
    "map mm_addr (ipMemReq (sa u1)) = map mm_addr (ipMemReq (sa u)) @ [m_reqAddr p]"
    "coreMemReq (sa u1) = coreMemReq (sa u)"
    by (auto simp: ip_sendMemoryReq_def enqueueIPMemRequest_def IPActivityUpdate_def split: if_splits)
  with Suc.IH [OF r] show ?case
    by (simp add: upt_conv_Cons map_Suc_upt [symmetric] o_def algebra_simps del: upt_Suc map_Suc_upt)
qed simp

theorem device_sends_lines_witness:
  "\<exists>p' u'. ip_sends 3 (ip_accept 0 DC0_ADDR_START 4096 True 1 IP_TYPE_DC 0 (dev_demo IP_TYPE_DC True)) u_demo = Some (p', u') \<and>
     m_reqCount p' = 61"
proof -
  let ?p = "ip_accept 0 DC0_ADDR_START 4096 True 1 IP_TYPE_DC 0 (dev_demo IP_TYPE_DC True)"
  have "ip_sends 3 ?p u_demo \<noteq> None" "m_reqCount ?p = 64"
    by code_simp+
  then obtain p' u' where "ip_sends 3 ?p u_demo = Some (p', u')" by auto
  from this device_sends_lines [OF this] \<open>m_reqCount ?p = 64\<close> show ?thesis by auto
qed

text \<open>\<open>init\<close> with a frequency of the table succeeds under every governor and establishes the
  invariant; the IP is idle, but its frame counts as started, before any request.\<close>

theorem ip_init_establishes:
  assumes "dev \<longrightarrow> t < IP_TYPE_VD" and "capacitance_of t \<noteq> None"
    and "f \<in> {200, 300, 400, 500, 600, 700, 800}" and "0 \<le> opt" and "opt < 7"
  shows "\<exists>p' g'. ip_init t i dev lat f opt p g = Inr (p', g') \<and> ip_inv p' \<and>
    power_state p' = ip_idle \<and> getIPFreq p' = real_of_int f / 1000 \<and> frameStarted g' t i"
proof -
  let ?q = "p\<lparr>ip_type := t, isDev := dev, ip_id := i, ioLatency := lat\<rparr>"
  have ok: "ip_class_ok ?q" using assms(1) by (auto simp: ip_class_ok_def)
  have cap: "(case capacitance_of t of None \<Rightarrow> x | Some y \<Rightarrow> y) = ip_cap t" for x
    using assms(2) by (auto simp: ip_cap_def)
  obtain k where k: "k < 7" "real_of_int f / 1000 = vf_freq (ip_table (ip_cap t) ! k)"
    using assms(3) ip_table_freqs [of f "ip_cap t"] by auto
  then have ind: "table_index (ip_table (ip_cap t)) (vf_freq (ip_table (ip_cap t) ! k)) = int k"
    using ip_vf.table_index_freq [of k t] by simp
  show ?thesis
    using ok k(1) assms(1,4,5)
    by (simp add: k(2) ip_init_def ip_setPStateActive_eq cap setIPFreq_def ip_getIndexInTable_def ind Let_def
        ip_inv_def ip_power_inv_def ip_dvfs_inv_def ip_class_ok_def getIPFreq_def vft_def
        markIPRequestStarted_def not_less less_imp_le)
qed

theorem ip_init_establishes_witness:
  "\<exists>p' g'. ip_init IP_TYPE_VD 0 False 12 500 1 ip_blank gd_demo = Inr (p', g') \<and> ip_inv p' \<and>
     frameStarted g' IP_TYPE_VD 0"
  using ip_init_establishes [of False IP_TYPE_VD 500 1 0 12 ip_blank gd_demo] by auto

end
