(* ===== verification/GD_Coder.thy ===== *)
theory GD_Coder
  imports GD_IP
begin

section \<open>Accelerators\<close>

text \<open>
  The classes \<open>GemDroidIPDecoder\<close> (video and audio decoders), \<open>GemDroidIPEncoder\<close> (video and
  audio encoders), \<open>GemDroidIPNocoder\<close> (the image processor) and \<open>GemDroidIPDMA\<close>
  (\<open>gemdroid_ip_decoder.cc\<close>, \<open>gemdroid_ip_encoder.cc\<close>, \<open>gemdroid_ip_nocoder.cc\<close>,
  \<open>gemdroid_ip_dma.cc\<close>). The three coders have the same buffers: \<open>coder\<close> extends the record of an
  IP by them, \<open>decoder\<close> extends \<open>coder\<close>. Where the three classes repeat the same text, it is
  defined once (\<open>coder_...\<close>) and named per class; the \<open>updatePower\<close> of the three is the inherited
  one. The decoder's \<open>tick\<close> reads a local variable that is not set when \<open>process\<close> is not called:
  \<open>dec_garbage\<close> is the value it happens to have.

  The contract of a coder is the machine \<open>cstep\<close> on what its buffers hold; the locale \<open>codec\<close>
  shows once that a tick is a sequence of its steps, from what it asks of a coder's \<open>requestData\<close>
  and \<open>process\<close>, and each class is an instance.
\<close>

datatype process_event = OUT_BUFFER_FULL | IN_BUFFER_EMPTY | INBUFFER_DATA_RECVD | TRUE_PROCESS_CYCLE

record coder = GemDroidIP +
  computeLatency :: int
  inBufferSize :: int
  outBufferSize :: int
  currInBuffer :: int
  currOutBuffer :: int
  coding_ratio :: int

record decoder = coder +
  m_frameType :: FrameType
  m_dependenceCount :: int
  m_dependenceAddr :: addr
  m_IPMemOutStall :: int
  m_IPMemInStalls :: int
  m_IPDataReadIntoIP :: int
  m_IPTrueProcessCycles :: int
  dec_garbage :: process_event

subsection \<open>What the three classes share\<close>

definition coder_init ::
  "IP_TYPE \<Rightarrow> int \<Rightarrow> bool \<Rightarrow> int \<Rightarrow> int \<Rightarrow> int \<Rightarrow> int \<Rightarrow> int \<Rightarrow> int \<Rightarrow> int \<Rightarrow> 'a coder_scheme \<Rightarrow> GemDroid \<Rightarrow>
   ('a coder_scheme \<times> GemDroid) result" where
  "coder_init type iid dev latency inSize outSize ratio chunk ip_freq opt_freq p g =
     bindE (ip_init type iid dev 0 ip_freq opt_freq p g) (\<lambda>(p, g).
     Inr (p\<lparr>computeLatency := latency, inBufferSize := inSize, outBufferSize := outSize,
            coding_ratio := ratio, targetOutputChunkSizeInCL := chunk, currInBuffer := 0,
            currOutBuffer := 0\<rparr>, g))"

definition coder_memResponse :: "addr \<Rightarrow> bool \<Rightarrow> 'a coder_scheme \<Rightarrow> 'a coder_scheme" where
  "coder_memResponse addr isRead p =
     ip_memResponse addr isRead (if isRead then p\<lparr>currInBuffer := currInBuffer p + 1\<rparr> else p)"

definition coder_start :: "int \<Rightarrow> 'a coder_scheme \<Rightarrow> 'a coder_scheme result" where
  "coder_start sz p =
     bindE (assertE ''currInBuffer == 0'' (currInBuffer p = 0)) (\<lambda>_.
     bindE (assertE ''currOutBuffer == 0'' (currOutBuffer p = 0)) (\<lambda>_.
     Inr (p\<lparr>inputProcessedInCL := 0, inputToBeProcessedInCL := cdiv sz CACHE_LINE_SIZE, reqSent := 0\<rparr>)))"

definition coder_sendDataOut :: "'a coder_scheme \<Rightarrow> 'd uncore \<Rightarrow> 'a coder_scheme \<times> 'd uncore" where
  "coder_sendDataOut p u =
     (if currOutBuffer p > 0 then
        let (ok, s) = enqueueIPMemRequest (ip_type p) (ip_id p) (core_id p) (m_reqOutAddr p) False (sa u) in
        if \<not> ok then (p\<lparr>m_memRejected := m_memRejected p + 1\<rparr>, u\<lparr>sa := s\<rparr>)
        else (p\<lparr>m_reqOutAddr := m_reqOutAddr p + of_int CACHE_LINE_SIZE, m_MemReqs := m_MemReqs p + 1,
                currOutBuffer := currOutBuffer p - 1\<rparr>, u\<lparr>sa := s\<rparr>)
      else (p, u))"

definition coder_requestData :: "'a coder_scheme \<Rightarrow> 'd uncore \<Rightarrow> 'a coder_scheme \<times> 'd uncore" where
  "coder_requestData p u =
     (if m_reqCount p > 0 \<and> reqSent p < inBufferSize p then
        let (ok, p, u) = ip_sendMemoryReq p u
        in (if ok then p\<lparr>reqSent := reqSent p + 1\<rparr> else p, u)
      else (p, u))"

definition coder_finish :: "'a coder_scheme \<Rightarrow> 'd uncore \<Rightarrow> ('a coder_scheme \<times> 'd uncore) result" where
  "coder_finish p u =
     (if inputProcessedInCL p = inputToBeProcessedInCL p \<and> currOutBuffer p = 0 then
        let p = p\<lparr>is_busy := False\<rparr> in bindE (ip_respond p u) (\<lambda>u. Inr (p, u))
      else Inr (p, u))"

text \<open>The beginning of the three \<open>tick\<close>s, with the rest of it as \<open>work\<close>.\<close>

definition coder_tick ::
  "('a coder_scheme \<Rightarrow> 'd uncore \<Rightarrow> ('a coder_scheme \<times> 'd uncore) result) \<Rightarrow>
   'a coder_scheme \<Rightarrow> 'd uncore \<Rightarrow> ('a coder_scheme \<times> 'd uncore) result" where
  "coder_tick work p u =
     bindE (ip_updatePower (p\<lparr>ip_ticks := ip_ticks p + 1\<rparr>) (gd u)) (\<lambda>(ok, p, g).
     let u = u\<lparr>gd := g\<rparr> in
     if \<not> ok then Inr (p, u)
     else
       bindE (assertE ''isPStateActive'' (power_state p = ip_active)) (\<lambda>_.
       if is_busy p = False then Inr (p\<lparr>idleCycles := idleCycles p + 1\<rparr>, u)
       else work (p\<lparr>m_IPWorkingCycles := m_IPWorkingCycles p + 1\<rparr>) u))"

subsection \<open>The encoder\<close>

definition enc_init ::
  "IP_TYPE \<Rightarrow> int \<Rightarrow> bool \<Rightarrow> int \<Rightarrow> int \<Rightarrow> int \<Rightarrow> int \<Rightarrow> int \<Rightarrow> int \<Rightarrow> int \<Rightarrow> coder \<Rightarrow> GemDroid \<Rightarrow>
   (coder \<times> GemDroid) result" where
  "enc_init = coder_init"

definition enc_memResponse :: "addr \<Rightarrow> bool \<Rightarrow> coder \<Rightarrow> coder" where
  "enc_memResponse = coder_memResponse"

definition enc_enqueueIPReq ::
  "int \<Rightarrow> addr \<Rightarrow> int \<Rightarrow> bool \<Rightarrow> int \<Rightarrow> IP_TYPE \<Rightarrow> int \<Rightarrow> coder \<Rightarrow> GemDroid \<Rightarrow> (bool \<times> coder \<times> GemDroid) result" where
  "enc_enqueueIPReq core addr sz isRead frameNum ftype flowId p g =
     (let (ok, p, g) = ip_enqueueIPReq core addr sz isRead frameNum ftype flowId p g in
      if ok then
        let p = (if ip_type p = IP_TYPE_VE then p\<lparr>m_reqOutAddr := VE_ADDR_START + of_int FRAME_SIZE\<rparr>
                 else if ip_type p = IP_TYPE_AE then p\<lparr>m_reqOutAddr := AE_ADDR_START + of_int AUD_FRAME_SIZE\<rparr>
                 else p)
        in bindE (coder_start sz p) (\<lambda>p. Inr (True, p, g))
      else Inr (False, p, g))"

definition enc_sendDataOut :: "coder \<Rightarrow> 'd uncore \<Rightarrow> coder \<times> 'd uncore" where
  "enc_sendDataOut = coder_sendDataOut"

definition enc_requestData :: "coder \<Rightarrow> 'd uncore \<Rightarrow> coder \<times> 'd uncore" where
  "enc_requestData = coder_requestData"

definition enc_process :: "coder \<Rightarrow> bool \<times> coder" where
  "enc_process p =
     (if currOutBuffer p + targetOutputChunkSizeInCL p > outBufferSize p then (False, p)
      else if m_cyclesToSkip p > 0 then
        let p = p\<lparr>m_cyclesToSkip := m_cyclesToSkip p - 1\<rparr> in
        (True,
         if m_cyclesToSkip p = 0 then
           let p = p\<lparr>inputProcessedInCL := inputProcessedInCL p + 1\<rparr> in
           if crem (inputProcessedInCL p) (targetOutputChunkSizeInCL p * coding_ratio p) = 0 then
             p\<lparr>currOutBuffer := currOutBuffer p + targetOutputChunkSizeInCL p\<rparr>
           else p
         else p)
      else if currInBuffer p > 0 then
        (True, p\<lparr>m_cyclesToSkip := cdiv (computeLatency p) (coding_ratio p),
                 currInBuffer := currInBuffer p - 1, reqSent := reqSent p - 1\<rparr>)
      else (False, p))"

definition enc_work :: "coder \<Rightarrow> 'd uncore \<Rightarrow> (coder \<times> 'd uncore) result" where
  "enc_work p u =
     (let (p, u) = enc_sendDataOut p u;
          (p, u) = enc_requestData p u;
          (is_success, p) = (if inputProcessedInCL p < inputToBeProcessedInCL p then enc_process p
                             else (False, p)) in
      bindE (coder_finish p u) (\<lambda>(p, u).
      Inr (if \<not> is_success then p\<lparr>m_IPMemStalls := m_IPMemStalls p + 1\<rparr> else p, u)))"

definition enc_tick :: "coder \<Rightarrow> 'd uncore \<Rightarrow> (coder \<times> 'd uncore) result" where
  "enc_tick = coder_tick enc_work"

subsection \<open>The image processor\<close>

definition noc_init ::
  "IP_TYPE \<Rightarrow> int \<Rightarrow> bool \<Rightarrow> int \<Rightarrow> int \<Rightarrow> int \<Rightarrow> int \<Rightarrow> int \<Rightarrow> int \<Rightarrow> int \<Rightarrow> coder \<Rightarrow> GemDroid \<Rightarrow>
   (coder \<times> GemDroid) result" where
  "noc_init = coder_init"

definition noc_memResponse :: "addr \<Rightarrow> bool \<Rightarrow> coder \<Rightarrow> coder" where
  "noc_memResponse = coder_memResponse"

definition noc_enqueueIPReq ::
  "int \<Rightarrow> addr \<Rightarrow> int \<Rightarrow> bool \<Rightarrow> int \<Rightarrow> IP_TYPE \<Rightarrow> int \<Rightarrow> coder \<Rightarrow> GemDroid \<Rightarrow> (bool \<times> coder \<times> GemDroid) result" where
  "noc_enqueueIPReq core addr sz isRead frameNum ftype flowId p g =
     (let (ok, p, g) = ip_enqueueIPReq core addr sz isRead frameNum ftype flowId p g in
      if ok then
        let p = (if ip_type p = IP_TYPE_IMG then p\<lparr>m_reqOutAddr := IMG_ADDR_START + of_int FRAME_SIZE\<rparr> else p)
        in bindE (coder_start sz p) (\<lambda>p. Inr (True, p, g))
      else Inr (False, p, g))"

definition noc_sendDataOut :: "coder \<Rightarrow> 'd uncore \<Rightarrow> coder \<times> 'd uncore" where
  "noc_sendDataOut = coder_sendDataOut"

definition noc_requestData :: "coder \<Rightarrow> 'd uncore \<Rightarrow> coder \<times> 'd uncore" where
  "noc_requestData = coder_requestData"

definition noc_process :: "coder \<Rightarrow> bool \<times> coder" where
  "noc_process p =
     (if currOutBuffer p + targetOutputChunkSizeInCL p > outBufferSize p then (False, p)
      else if m_cyclesToSkip p > 0 then
        let p = p\<lparr>m_cyclesToSkip := m_cyclesToSkip p - 1\<rparr> in
        (True,
         if m_cyclesToSkip p = 0 then
           let p = p\<lparr>inputProcessedInCL := inputProcessedInCL p + 1\<rparr> in
           if crem (inputProcessedInCL p) (targetOutputChunkSizeInCL p) = 0 then
             p\<lparr>currOutBuffer := currOutBuffer p + targetOutputChunkSizeInCL p\<rparr>
           else p
         else p)
      else if currInBuffer p > 0 then
        (True, p\<lparr>m_cyclesToSkip := computeLatency p, currInBuffer := currInBuffer p - 1,
                 reqSent := reqSent p - 1\<rparr>)
      else (False, p))"

definition noc_work :: "coder \<Rightarrow> 'd uncore \<Rightarrow> (coder \<times> 'd uncore) result" where
  "noc_work p u =
     (let (p, u) = noc_sendDataOut p u;
          (p, u) = noc_requestData p u;
          (is_success, p) = (if inputProcessedInCL p < inputToBeProcessedInCL p then noc_process p
                             else (False, p)) in
      bindE (coder_finish p u) (\<lambda>(p, u).
      Inr (if \<not> is_success then p\<lparr>m_IPMemStalls := m_IPMemStalls p + 1\<rparr> else p, u)))"

definition noc_tick :: "coder \<Rightarrow> 'd uncore \<Rightarrow> (coder \<times> 'd uncore) result" where
  "noc_tick = coder_tick noc_work"

subsection \<open>The decoder\<close>

definition dec_init ::
  "IP_TYPE \<Rightarrow> int \<Rightarrow> bool \<Rightarrow> int \<Rightarrow> int \<Rightarrow> int \<Rightarrow> int \<Rightarrow> int \<Rightarrow> int \<Rightarrow> int \<Rightarrow> decoder \<Rightarrow> GemDroid \<Rightarrow>
   (decoder \<times> GemDroid) result" where
  "dec_init type iid dev latency inSize outSize ratio chunk ip_freq opt_freq p g =
     bindE (coder_init type iid dev latency inSize outSize ratio chunk ip_freq opt_freq p g) (\<lambda>(p, g).
     Inr (p\<lparr>m_IPMemOutStall := 0, m_IPMemInStalls := 0, m_IPDataReadIntoIP := 0,
            m_IPTrueProcessCycles := 0\<rparr>, g))"

definition dec_memResponse :: "addr \<Rightarrow> bool \<Rightarrow> decoder \<Rightarrow> decoder" where
  "dec_memResponse = coder_memResponse"

definition dec_enqueueIPReq ::
  "int \<Rightarrow> addr \<Rightarrow> int \<Rightarrow> bool \<Rightarrow> int \<Rightarrow> IP_TYPE \<Rightarrow> int \<Rightarrow> decoder \<Rightarrow> GemDroid \<Rightarrow> (bool \<times> decoder \<times> GemDroid) result" where
  "dec_enqueueIPReq core addr sz isRead frameNum ftype flowId p g =
     (let (ok, p, g) = ip_enqueueIPReq core addr sz isRead frameNum ftype flowId p g in
      if ok then
        let p = (if ip_type p = IP_TYPE_VD then
                   let p = p\<lparr>m_reqOutAddr := VD_ADDR_START + of_int FRAME_SIZE\<rparr> in
                   if crem frameNum 10 = 0 then p\<lparr>m_frameType := I_Frame\<rparr>
                   else p\<lparr>m_frameType := P_Frame,
                          m_dependenceCount := \<lceil>(real_of_int sz * (4 / 10)) / real_of_int CACHE_LINE_SIZE\<rceil>,
                          m_dependenceAddr := VD_ADDR_START + 2 * of_int FRAME_SIZE,
                          m_reqCount := \<lceil>real_of_int (m_reqCount p) * (6 / 10)\<rceil>\<rparr>
                 else if ip_type p = IP_TYPE_AD then p\<lparr>m_reqOutAddr := AD_ADDR_START + of_int AUD_FRAME_SIZE\<rparr>
                 else p)
        in bindE (coder_start sz p) (\<lambda>p. Inr (True, p, g))
      else Inr (False, p, g))"

definition dec_sendDataOut :: "decoder \<Rightarrow> 'd uncore \<Rightarrow> decoder \<times> 'd uncore" where
  "dec_sendDataOut = coder_sendDataOut"

definition dec_requestDependentData :: "decoder \<Rightarrow> 'd uncore \<Rightarrow> decoder \<times> 'd uncore" where
  "dec_requestDependentData p u =
     (if reqSent p \<ge> inBufferSize p then (p, u)
      else
        let (ok, s) = enqueueIPMemRequest (ip_type p) (ip_id p) (core_id p) (m_dependenceAddr p) True (sa u) in
        if \<not> ok then (p\<lparr>m_memRejected := m_memRejected p + 1\<rparr>, u\<lparr>sa := s\<rparr>)
        else (IPActivityUpdate (p\<lparr>m_dependenceCount := m_dependenceCount p - 1,
                m_dependenceAddr := m_dependenceAddr p + of_int CACHE_LINE_SIZE,
                m_MemReqs := m_MemReqs p + 1, reqSent := reqSent p + 1\<rparr>), u\<lparr>sa := s\<rparr>))"

definition dec_requestData :: "decoder \<Rightarrow> 'd uncore \<Rightarrow> decoder \<times> 'd uncore" where
  "dec_requestData = coder_requestData"

definition dec_request :: "decoder \<Rightarrow> 'd uncore \<Rightarrow> decoder \<times> 'd uncore" where
  "dec_request p u = (if m_dependenceCount p > 0 then dec_requestDependentData p u else dec_requestData p u)"

definition dec_process :: "decoder \<Rightarrow> process_event \<times> decoder" where
  "dec_process p =
     (if currOutBuffer p + coding_ratio p > outBufferSize p then (OUT_BUFFER_FULL, p)
      else if m_cyclesToSkip p > 0 then
        let p = p\<lparr>m_cyclesToSkip := m_cyclesToSkip p - 1\<rparr> in
        (TRUE_PROCESS_CYCLE,
         if m_cyclesToSkip p = 0 then
           p\<lparr>inputProcessedInCL := inputProcessedInCL p + 1, currOutBuffer := currOutBuffer p + coding_ratio p\<rparr>
         else p)
      else if currInBuffer p > 0 then
        (INBUFFER_DATA_RECVD, p\<lparr>m_cyclesToSkip := computeLatency p, currInBuffer := currInBuffer p - 1,
                                reqSent := reqSent p - 1\<rparr>)
      else (IN_BUFFER_EMPTY, p))"

definition dec_count :: "process_event \<Rightarrow> decoder \<Rightarrow> decoder" where
  "dec_count ev p =
     (case ev of
        OUT_BUFFER_FULL \<Rightarrow> p\<lparr>m_IPMemOutStall := m_IPMemOutStall p + 1\<rparr>
      | IN_BUFFER_EMPTY \<Rightarrow> p\<lparr>m_IPMemInStalls := m_IPMemInStalls p + 1\<rparr>
      | INBUFFER_DATA_RECVD \<Rightarrow> p\<lparr>m_IPDataReadIntoIP := m_IPDataReadIntoIP p + 1\<rparr>
      | TRUE_PROCESS_CYCLE \<Rightarrow> p\<lparr>m_IPTrueProcessCycles := m_IPTrueProcessCycles p + 1\<rparr>)"

definition dec_work :: "decoder \<Rightarrow> 'd uncore \<Rightarrow> (decoder \<times> 'd uncore) result" where
  "dec_work p u =
     (let (p, u) = dec_sendDataOut p u;
          (p, u) = dec_request p u;
          (is_success, p) = (if inputProcessedInCL p < inputToBeProcessedInCL p then dec_process p
                             else (dec_garbage p, p)) in
      bindE (coder_finish p u) (\<lambda>(p, u). Inr (dec_count is_success p, u)))"

definition dec_tick :: "decoder \<Rightarrow> 'd uncore \<Rightarrow> (decoder \<times> 'd uncore) result" where
  "dec_tick = coder_tick dec_work"

subsection \<open>The DMA engine\<close>

record dma = GemDroidIP +
  srcAddr :: addr
  destAddr :: addr

definition dma_init :: "IP_TYPE \<Rightarrow> int \<Rightarrow> dma \<Rightarrow> dma" where
  "dma_init type iid p = p\<lparr>ip_type := type, ip_id := iid, isDev := False, m_reqCount := -1, ip_ticks := 0\<rparr>"

definition dma_enqueueIPReq :: "int \<Rightarrow> addr \<Rightarrow> addr \<Rightarrow> int \<Rightarrow> int \<Rightarrow> int \<Rightarrow> dma \<Rightarrow> bool \<times> dma" where
  "dma_enqueueIPReq senderId src dest sz frameNum flowId p =
     (if \<not> is_busy p then
        (True, p\<lparr>is_busy := True, m_frameNum := frameNum,
                 m_reqCount := \<lceil>real_of_int sz / real_of_int CACHE_LINE_SIZE\<rceil>, srcAddr := src,
                 destAddr := dest, m_isRead := True, m_reqAddr := src, m_CPUReqs := m_CPUReqs p + 1\<rparr>)
      else (False, p\<lparr>m_IPBusyStalls := m_IPBusyStalls p + 1\<rparr>))"

definition dma_tick :: "dma \<Rightarrow> 'd uncore \<Rightarrow> dma \<times> 'd uncore" where
  "dma_tick p u =
     (let p = p\<lparr>ip_ticks := ip_ticks p + 1\<rparr> in
      if m_reqCount p > 0 then
        let (ok, p, u) = ip_sendMemoryReq p u
        in (if m_reqCount p = 0 then p\<lparr>is_busy := False\<rparr> else p, u)
      else (p, u))"

definition dma_memResponse :: "addr \<Rightarrow> bool \<Rightarrow> dma \<Rightarrow> 'd uncore \<Rightarrow> dma \<times> 'd uncore" where
  "dma_memResponse addr isRead p u =
     (if isRead then
        let (ok, s) = enqueueIPMemRequest (ip_type p) (ip_id p) 0 (destAddr p) False (sa u) in
        if \<not> ok then (p\<lparr>m_memRejected := m_memRejected p + 1\<rparr>, u\<lparr>sa := s\<rparr>)
        else (p\<lparr>destAddr := destAddr p + of_int CACHE_LINE_SIZE, m_MemReqs := m_MemReqs p + 1\<rparr>, u\<lparr>sa := s\<rparr>)
      else (p, u))"

subsection \<open>The contract of a coder\<close>

text \<open>
  What the buffers of a coder hold, and the steps it may take: write a line out, ask for a line,
  take a line that has arrived, finish it with the lines it gives, complete the frame. The
  environment answers a read and hands over the next frame of \<open>n\<close> lines.
\<close>

record cview =
  v_busy :: bool
  v_in :: int
  v_out :: int
  v_sent :: int
  v_work :: bool
  v_done :: int
  v_total :: int
  v_todo :: int
  v_incap :: int
  v_outcap :: int

inductive cstep :: "cview \<Rightarrow> cview \<Rightarrow> bool" where
  drain: "0 < v_out v \<Longrightarrow> cstep v (v\<lparr>v_out := v_out v - 1\<rparr>)"
| ask: "0 < v_todo v \<Longrightarrow> v_sent v < v_incap v \<Longrightarrow>
    cstep v (v\<lparr>v_todo := v_todo v - 1, v_sent := v_sent v + 1\<rparr>)"
| take_line: "0 < v_in v \<Longrightarrow> \<not> v_work v \<Longrightarrow>
    cstep v (v\<lparr>v_in := v_in v - 1, v_sent := v_sent v - 1, v_work := True\<rparr>)"
| finish_line: "v_work v \<Longrightarrow> 0 \<le> k \<Longrightarrow> v_out v + k \<le> v_outcap v \<Longrightarrow>
    cstep v (v\<lparr>v_work := False, v_done := v_done v + 1, v_out := v_out v + k\<rparr>)"
| complete: "v_busy v \<Longrightarrow> v_done v = v_total v \<Longrightarrow> v_out v = 0 \<Longrightarrow> cstep v (v\<lparr>v_busy := False\<rparr>)"

inductive cenv :: "cview \<Rightarrow> cview \<Rightarrow> bool" where
  respond: "v_in v < v_sent v \<Longrightarrow> cenv v (v\<lparr>v_in := v_in v + 1\<rparr>)"
| accept: "\<not> v_busy v \<Longrightarrow> 0 \<le> n \<Longrightarrow>
    cenv v (v\<lparr>v_busy := True, v_done := 0, v_total := n, v_todo := n, v_sent := 0\<rparr>)"

definition cinv :: "cview \<Rightarrow> bool" where
  "cinv v \<longleftrightarrow> 0 \<le> v_in v \<and> v_in v \<le> v_sent v \<and> v_sent v \<le> v_incap v \<and>
     0 \<le> v_out v \<and> v_out v \<le> v_outcap v \<and> 0 \<le> v_todo v \<and>
     (if v_busy v then v_done v + of_bool (v_work v) + v_sent v + v_todo v = v_total v
      else v_sent v = 0 \<and> v_out v = 0 \<and> \<not> v_work v \<and> v_todo v = 0)"

definition view :: "('a coder_scheme \<Rightarrow> int) \<Rightarrow> 'a coder_scheme \<Rightarrow> cview" where
  "view todo p =
     \<lparr>v_busy = is_busy p, v_in = currInBuffer p, v_out = currOutBuffer p, v_sent = reqSent p,
      v_work = (m_cyclesToSkip p > 0), v_done = inputProcessedInCL p,
      v_total = inputToBeProcessedInCL p, v_todo = todo p, v_incap = inBufferSize p,
      v_outcap = outBufferSize p\<rparr>"

text \<open>What the working part of a tick leaves alone.\<close>

definition coder_frame :: "'a coder_scheme \<Rightarrow> 'a coder_scheme \<Rightarrow> bool" where
  "coder_frame p q \<longleftrightarrow> ip_type q = ip_type p \<and> ip_id q = ip_id p \<and> isDev q = isDev p \<and>
     power_state q = power_state p \<and> cyclesToWake q = cyclesToWake p \<and> idleCycles q = idleCycles p \<and>
     dvfsState q = dvfsState p \<and> m_optDVFSState q = m_optDVFSState p \<and>
     voltage_freq_table q = voltage_freq_table p \<and> computeLatency q = computeLatency p \<and>
     coding_ratio q = coding_ratio p \<and> targetOutputChunkSizeInCL q = targetOutputChunkSizeInCL p \<and>
     ioLatency q = ioLatency p"

definition coder_todo :: "'a coder_scheme \<Rightarrow> int" where
  "coder_todo p = max 0 (m_reqCount p)"

definition dec_todo :: "decoder \<Rightarrow> int" where
  "dec_todo p = max 0 (m_reqCount p) + max 0 (m_dependenceCount p)"

text \<open>The parameters under which a line takes at least a cycle and gives at least nothing.\<close>

definition enc_ok :: "coder \<Rightarrow> bool" where
  "enc_ok p \<longleftrightarrow> ioLatency p = 0 \<and> 0 < coding_ratio p \<and> coding_ratio p \<le> computeLatency p \<and> 0 \<le> targetOutputChunkSizeInCL p"

definition noc_ok :: "coder \<Rightarrow> bool" where
  "noc_ok p \<longleftrightarrow> ioLatency p = 0 \<and> 0 < computeLatency p \<and> 0 \<le> targetOutputChunkSizeInCL p"

definition dec_ok :: "decoder \<Rightarrow> bool" where
  "dec_ok p \<longleftrightarrow> ioLatency p = 0 \<and> 0 < computeLatency p \<and> 0 \<le> coding_ratio p"

text \<open>
  The life of a coder: from an idle one with empty buffers, any sequence of ticks (whatever the
  rest of the system is then), of answers to the reads it has sent and to its writes, of
  requests of a size the class handles, and of changes the governors and power states make.
\<close>

inductive coder_run ::
  "('a coder_scheme \<Rightarrow> bool) \<Rightarrow> ('a coder_scheme \<Rightarrow> 'd uncore \<Rightarrow> ('a coder_scheme \<times> 'd uncore) result) \<Rightarrow>
   (addr \<Rightarrow> bool \<Rightarrow> 'a coder_scheme \<Rightarrow> 'a coder_scheme) \<Rightarrow>
   (int \<Rightarrow> addr \<Rightarrow> int \<Rightarrow> bool \<Rightarrow> int \<Rightarrow> IP_TYPE \<Rightarrow> int \<Rightarrow> 'a coder_scheme \<Rightarrow> GemDroid \<Rightarrow>
     (bool \<times> 'a coder_scheme \<times> GemDroid) result) \<Rightarrow>
   ('a coder_scheme \<Rightarrow> int \<Rightarrow> bool) \<Rightarrow> 'a coder_scheme \<Rightarrow> bool"
  for fresh tick resp enq sizes where
  fresh: "fresh p \<Longrightarrow> coder_run fresh tick resp enq sizes p"
| ticked: "coder_run fresh tick resp enq sizes p \<Longrightarrow> tick p u = Inr (p', u') \<Longrightarrow>
    coder_run fresh tick resp enq sizes p'"
| read_done: "coder_run fresh tick resp enq sizes p \<Longrightarrow> currInBuffer p < reqSent p \<Longrightarrow>
    coder_run fresh tick resp enq sizes (resp a True p)"
| write_done: "coder_run fresh tick resp enq sizes p \<Longrightarrow> coder_run fresh tick resp enq sizes (resp a False p)"
| called: "coder_run fresh tick resp enq sizes p \<Longrightarrow> sizes p z \<Longrightarrow>
    enq c a z r n ft k p g = Inr (b, p', g') \<Longrightarrow> coder_run fresh tick resp enq sizes p'"
| governed: "coder_run fresh tick resp enq sizes p \<Longrightarrow> ip_same p p' \<Longrightarrow> ip_inv p' \<Longrightarrow>
    coder_run fresh tick resp enq sizes p'"

definition coder_fresh :: "('a coder_scheme \<Rightarrow> int) \<Rightarrow> ('a coder_scheme \<Rightarrow> bool) \<Rightarrow> 'a coder_scheme \<Rightarrow> bool" where
  "coder_fresh todo ok p \<longleftrightarrow> ip_inv p \<and> ok p \<and> \<not> is_busy p \<and> cinv (view todo p)"

text \<open>Whole cache lines; for the video decoder lines that split into two fifths of dependent data and
  three fifths of input.\<close>

definition line_sizes :: "coder \<Rightarrow> int \<Rightarrow> bool" where
  "line_sizes p z \<longleftrightarrow> 0 \<le> z \<and> 64 dvd z"

definition dec_sizes :: "decoder \<Rightarrow> int \<Rightarrow> bool" where
  "dec_sizes p z \<longleftrightarrow> 0 \<le> z \<and> (if ip_type p = IP_TYPE_VD then 320 else 64) dvd z"

text \<open>The video decoder and encoder as the platform creates them, idle, for the witnesses.\<close>

definition coder_demo :: "IP_TYPE \<Rightarrow> int \<Rightarrow> int \<Rightarrow> int \<Rightarrow> coder" where
  "coder_demo t lat ratio chunk = GemDroidIP.extend
     ((dev_demo t False)\<lparr>ioLatency := 0, targetOutputChunkSizeInCL := chunk\<rparr>)
     (coder.fields lat 24 64 0 0 ratio)"

definition dec_demo :: decoder where
  "dec_demo = coder.extend (coder_demo IP_TYPE_VD 12 16 1)
     (decoder.fields I_Frame 0 0 0 0 0 0 IN_BUFFER_EMPTY)"

inductive_cases cstepE: "cstep v w"
inductive_cases cenvE: "cenv v w"

lemma view_sel [simp]:
  "v_busy (view todo p) = is_busy p" "v_in (view todo p) = currInBuffer p"
  "v_out (view todo p) = currOutBuffer p" "v_sent (view todo p) = reqSent p"
  "v_work (view todo p) = (m_cyclesToSkip p > 0)" "v_done (view todo p) = inputProcessedInCL p"
  "v_total (view todo p) = inputToBeProcessedInCL p" "v_todo (view todo p) = todo p"
  "v_incap (view todo p) = inBufferSize p" "v_outcap (view todo p) = outBufferSize p"
  by (simp_all add: view_def)

lemma cinv_cstep: "cstep v w \<Longrightarrow> cinv v \<Longrightarrow> cinv w"
  by (induction rule: cstep.induct) (auto simp: cinv_def of_bool_def split: if_splits)

lemma cinv_csteps: "cstep\<^sup>*\<^sup>* v w \<Longrightarrow> cinv v \<Longrightarrow> cinv w"
  by (induction rule: rtranclp_induct) (auto intro: cinv_cstep)

lemma cinv_cenv: "cenv v w \<Longrightarrow> cinv v \<Longrightarrow> cinv w"
  by (induction rule: cenv.induct) (auto simp: cinv_def split: if_splits)

lemma ip_inv_coder_frame: "coder_frame p q \<Longrightarrow> ip_inv p \<Longrightarrow> ip_inv q"
  by (rule ip_inv_work [of p]) (simp_all add: coder_frame_def ip_inv_idle)

lemma coder_frame_trans: "coder_frame p q \<Longrightarrow> coder_frame q r \<Longrightarrow> coder_frame p r"
  by (simp add: coder_frame_def)

lemma view_sendDataOut:
  assumes "coder_sendDataOut p u = (q, u')" and "todo q = todo p"
  shows "cstep\<^sup>*\<^sup>* (view todo p) (view todo q)"
proof (cases "view todo q = view todo p")
  case False
  with assms have "0 < v_out (view todo p) \<and> view todo q = (view todo p)\<lparr>v_out := v_out (view todo p) - 1\<rparr>"
    by (auto simp: coder_sendDataOut_def view_def split: if_splits prod.splits)
  then show ?thesis using cstep.drain by fastforce
qed simp

lemma coder_sendDataOut_frame:
  "coder_sendDataOut p u = (q, u') \<Longrightarrow>
   coder_frame p q \<and> m_reqCount q = m_reqCount p \<and> coder.more q = coder.more p"
  by (auto simp: coder_sendDataOut_def coder_frame_def split: if_splits prod.splits)

lemma coder_finish_view:
  assumes "coder_finish p u = Inr (q, u')" and "is_busy p" and "todo q = todo p"
  shows "cstep\<^sup>*\<^sup>* (view todo p) (view todo q)"
proof (cases "inputProcessedInCL p = inputToBeProcessedInCL p \<and> currOutBuffer p = 0")
  case True
  with assms(1) have "q = p\<lparr>is_busy := False\<rparr>"
    by (auto simp: coder_finish_def Let_def)
  then have "view todo q = (view todo p)\<lparr>v_busy := False\<rparr>"
    using assms(3) by (simp add: view_def)
  with True assms(2) show ?thesis
    by (simp add: r_into_rtranclp cstep.complete)
next
  case False
  with assms(1) show ?thesis by (auto simp: coder_finish_def)
qed

lemma coder_finish_frame:
  "coder_finish p u = Inr (q, u') \<Longrightarrow>
   coder_frame p q \<and> m_reqCount q = m_reqCount p \<and> coder.more q = coder.more p"
  by (auto simp: coder_finish_def coder_frame_def Let_def split: if_splits)

lemma coder_tick_cases:
  assumes "ip_updatePower (p\<lparr>ip_ticks := ip_ticks p + 1\<rparr>) (gd u) = Inr (b, q, g)"
    and "coder_tick work p u = Inr (p', u')"
  shows "p' = q \<or> p' = q\<lparr>idleCycles := idleCycles q + 1\<rparr> \<or>
    (is_busy q \<and> work (q\<lparr>m_IPWorkingCycles := m_IPWorkingCycles q + 1\<rparr>) (u\<lparr>gd := g\<rparr>) = Inr (p', u'))"
proof (cases "b \<and> power_state q = ip_active")
  case True
  with assms show ?thesis by (cases "is_busy q") (simp_all add: coder_tick_def)
next
  case False
  with assms have "\<not> b" by (cases b) (simp_all add: coder_tick_def assertE_def)
  with assms show ?thesis by (simp add: coder_tick_def)
qed

text \<open>
  The interface: \<open>work\<close> is what a class does in a tick of a busy coder, \<open>todo\<close> the lines it still
  has to ask for, \<open>ok\<close> its parameters.
\<close>

locale codec =
  fixes request :: "'a coder_scheme \<Rightarrow> 'd uncore \<Rightarrow> 'a coder_scheme \<times> 'd uncore"
    and process :: "'a coder_scheme \<Rightarrow> 'a coder_scheme"
    and work :: "'a coder_scheme \<Rightarrow> 'd uncore \<Rightarrow> ('a coder_scheme \<times> 'd uncore) result"
    and todo :: "'a coder_scheme \<Rightarrow> int"
    and ok :: "'a coder_scheme \<Rightarrow> bool"
  assumes todo_cong: "m_reqCount q = m_reqCount p \<Longrightarrow> coder.more q = coder.more p \<Longrightarrow> todo q = todo p"
    and ok_cong: "ioLatency q = ioLatency p \<Longrightarrow> computeLatency q = computeLatency p \<Longrightarrow> coding_ratio q = coding_ratio p \<Longrightarrow>
      targetOutputChunkSizeInCL q = targetOutputChunkSizeInCL p \<Longrightarrow> ok q = ok p"
    and request_sim: "cinv (view todo p) \<Longrightarrow> request p u = (q, u') \<Longrightarrow>
      cstep\<^sup>*\<^sup>* (view todo p) (view todo q) \<and> coder_frame p q \<and> is_busy q = is_busy p"
    and process_sim: "ok p \<Longrightarrow>
      cstep\<^sup>*\<^sup>* (view todo p) (view todo (process p)) \<and> coder_frame p (process p) \<and>
      is_busy (process p) = is_busy p"
    and work_parts: "work p u = Inr (p', u') \<Longrightarrow>
      \<exists>p1 u1 p2 u2 p3 q. coder_sendDataOut p u = (p1, u1) \<and> request p1 u1 = (p2, u2) \<and>
        (p3 = p2 \<or> p3 = process p2) \<and> coder_finish p3 u2 = Inr (q, u') \<and>
        coder_frame q p' \<and> view todo p' = view todo q"
begin

lemma work_sim:
  assumes "cinv (view todo p)" and "ok p" and "is_busy p" and "work p u = Inr (p', u')"
  shows "cstep\<^sup>*\<^sup>* (view todo p) (view todo p') \<and> coder_frame p p'"
proof -
  from work_parts [OF assms(4)] obtain p1 u1 p2 u2 p3 q where
    s: "coder_sendDataOut p u = (p1, u1)" and r: "request p1 u1 = (p2, u2)"
    and pr: "p3 = p2 \<or> p3 = process p2" and f: "coder_finish p3 u2 = Inr (q, u')"
    and q: "coder_frame q p'" "view todo p' = view todo q" by blast
  have f1: "coder_frame p p1" and t1: "todo p1 = todo p"
    using coder_sendDataOut_frame [OF s] todo_cong by blast+
  have b1: "is_busy p1"
    using s assms(3) by (auto simp: coder_sendDataOut_def split: if_splits prod.splits)
  have v1: "cstep\<^sup>*\<^sup>* (view todo p) (view todo p1)" by (rule view_sendDataOut [OF s t1])
  have v2: "cstep\<^sup>*\<^sup>* (view todo p1) (view todo p2)" and f2: "coder_frame p1 p2" and b2: "is_busy p2"
    using request_sim [OF cinv_csteps [OF v1 assms(1)] r] b1 by blast+
  have "ok p2" using assms(2) f1 f2 ok_cong [of p2 p] by (simp add: coder_frame_def)
  then have v3: "cstep\<^sup>*\<^sup>* (view todo p2) (view todo p3)" and f3: "coder_frame p2 p3" and b3: "is_busy p3"
    using process_sim [of p2] pr b2 by (auto simp: coder_frame_def)
  have f4: "coder_frame p3 q" and t4: "todo q = todo p3"
    using coder_finish_frame [OF f] todo_cong by blast+
  have "cstep\<^sup>*\<^sup>* (view todo p3) (view todo q)" by (rule coder_finish_view [OF f b3 t4])
  with v1 v2 v3 q(2) have "cstep\<^sup>*\<^sup>* (view todo p) (view todo p')" by (auto intro: rtranclp_trans)
  moreover have "coder_frame p p'" using f1 f2 f3 f4 q(1) coder_frame_trans by meson
  ultimately show ?thesis ..
qed

lemma view_same:
  assumes "ip_same p q" shows "view todo q = view todo p" "ok q = ok p"
proof -
  note s = ip_sameD [OF assms]
  have m: "computeLatency q = computeLatency p" "coding_ratio q = coding_ratio p"
    "inBufferSize q = inBufferSize p" "outBufferSize q = outBufferSize p"
    "currInBuffer q = currInBuffer p" "currOutBuffer q = currOutBuffer p" "coder.more q = coder.more p"
    using s(21) by (cases p; cases q; simp)+
  with s todo_cong [of q p] show "view todo q = view todo p" by (simp add: view_def)
  from m s ok_cong show "ok q = ok p" by blast
qed

text \<open>A tick of a coder is a sequence of steps of the contract and keeps the invariants.\<close>

lemma tick_sim:
  assumes "ip_inv p" and "cinv (view todo p)" and "ok p" and "coder_tick work p u = Inr (p', u')"
  shows "cstep\<^sup>*\<^sup>* (view todo p) (view todo p') \<and> cinv (view todo p') \<and> ip_inv p' \<and> ok p'"
proof -
  let ?p = "p\<lparr>ip_ticks := ip_ticks p + 1\<rparr>"
  have p: "view todo ?p = view todo p" "ok ?p = ok p"
    using todo_cong [of ?p p] ok_cong [of ?p p] by (simp_all add: view_def)
  have "ip_inv ?p" using assms(1) by simp
  then obtain b q g where q: "ip_updatePower ?p (gd u) = Inr (b, q, g)" "ip_inv q" "ip_same ?p q"
    by (rule ip_updatePower_ok [of _ "gd u"])
  have vq: "view todo q = view todo p" "ok q" using view_same [OF q(3)] p assms(3) by auto
  let ?i = "q\<lparr>idleCycles := idleCycles q + 1\<rparr>" and ?w = "q\<lparr>m_IPWorkingCycles := m_IPWorkingCycles q + 1\<rparr>"
  have i: "view todo ?i = view todo q" "ok ?i = ok q" "ip_inv ?i"
    using todo_cong [of ?i q] ok_cong [of ?i q] q(2) ip_inv_idle [OF q(2)]
    by (simp_all add: view_def) (rule ip_inv_work [of q], simp_all)
  have w: "view todo ?w = view todo q" "ok ?w = ok q" "ip_inv ?w"
    using todo_cong [of ?w q] ok_cong [of ?w q] q(2) ip_inv_idle [OF q(2)]
    by (simp_all add: view_def) (rule ip_inv_work [of q], simp_all)
  consider "p' = q" | "p' = ?i" | "is_busy q" "work ?w (u\<lparr>gd := g\<rparr>) = Inr (p', u')"
    using coder_tick_cases [OF q(1) assms(4)] by blast
  then show ?thesis
  proof cases
    case 3
    with w vq assms(2) have "cstep\<^sup>*\<^sup>* (view todo ?w) (view todo p')" "coder_frame ?w p'"
      using work_sim [of ?w "u\<lparr>gd := g\<rparr>" p' u'] by simp_all
    with w vq assms(2) ip_inv_coder_frame [of ?w p'] ok_cong [of p' ?w] show ?thesis
      by (auto simp: coder_frame_def intro: cinv_csteps)
  qed (use vq i q(2) assms(2) in auto)
qed

end

subsection \<open>The three classes are coders\<close>

lemma csteps_ask:
  "0 < v_todo v \<Longrightarrow> v_sent v < v_incap v \<Longrightarrow>
   w = v\<lparr>v_todo := v_todo v - 1, v_sent := v_sent v + 1\<rparr> \<Longrightarrow> cstep\<^sup>*\<^sup>* v w"
  by (simp add: cstep.ask r_into_rtranclp)

lemma csteps_take:
  "0 < v_in v \<Longrightarrow> \<not> v_work v \<Longrightarrow>
   w = v\<lparr>v_in := v_in v - 1, v_sent := v_sent v - 1, v_work := True\<rparr> \<Longrightarrow> cstep\<^sup>*\<^sup>* v w"
  by (simp add: cstep.take_line r_into_rtranclp)

lemma csteps_finish:
  "v_work v \<Longrightarrow> 0 \<le> k \<Longrightarrow> v_out v + k \<le> v_outcap v \<Longrightarrow>
   w = v\<lparr>v_work := False, v_done := v_done v + 1, v_out := v_out v + k\<rparr> \<Longrightarrow> cstep\<^sup>*\<^sup>* v w"
  by (simp add: cstep.finish_line r_into_rtranclp)

lemma coder_requestData_cases:
  assumes "coder_requestData p u = (q, u')"
  shows "(q = p \<or> q = p\<lparr>m_memRejected := m_memRejected p + 1\<rparr>) \<or>
    (0 < m_reqCount p \<and> reqSent p < inBufferSize p \<and>
     q = (IPActivityUpdate (p\<lparr>m_reqCount := m_reqCount p - 1, m_reqAddr := m_reqAddr p + 64,
            m_MemReqs := m_MemReqs p + 1\<rparr>))\<lparr>reqSent := reqSent p + 1\<rparr>)"
  using assms
  by (auto simp: coder_requestData_def ip_sendMemoryReq_def IPActivityUpdate_def split: if_splits prod.splits)

lemma coder_requestData_sim:
  assumes "coder_requestData p u = (q, u')"
    and "\<And>q. coder.more q = coder.more p \<Longrightarrow> todo q = max 0 (m_reqCount q) + c" and "0 \<le> c"
  shows "cstep\<^sup>*\<^sup>* (view todo p) (view todo q) \<and> coder_frame p q \<and> is_busy q = is_busy p"
  using coder_requestData_cases [OF assms(1)]
proof (elim disjE conjE)
  assume "0 < m_reqCount p" "reqSent p < inBufferSize p"
    and q: "q = (IPActivityUpdate (p\<lparr>m_reqCount := m_reqCount p - 1, m_reqAddr := m_reqAddr p + 64,
            m_MemReqs := m_MemReqs p + 1\<rparr>))\<lparr>reqSent := reqSent p + 1\<rparr>"
  moreover have "todo p = max 0 (m_reqCount p) + c" "todo q = max 0 (m_reqCount q) + c"
    using assms(2) [of p] assms(2) [of q] q by (simp_all add: IPActivityUpdate_def)
  moreover have "view todo q = (view todo p)\<lparr>v_todo := todo p - 1, v_sent := reqSent p + 1\<rparr>"
    using calculation by (simp add: view_def IPActivityUpdate_def)
  ultimately show ?thesis
    using assms(3) csteps_ask [of "view todo p" "view todo q"]
    by (simp add: coder_frame_def IPActivityUpdate_def)
next
  assume "q = p"
  then show ?thesis by (simp add: coder_frame_def)
next
  assume q: "q = p\<lparr>m_memRejected := m_memRejected p + 1\<rparr>"
  then have "todo q = todo p" using assms(2) [of p] assms(2) [of q] by simp
  then have "view todo q = view todo p" by (simp add: q view_def)
  then show ?thesis by (simp add: q coder_frame_def)
qed

lemma csteps_process:
  assumes "full \<Longrightarrow> q = p"
    and "\<not> full \<Longrightarrow> m_cyclesToSkip p > 1 \<Longrightarrow> view todo q = view todo p"
    and "\<not> full \<Longrightarrow> m_cyclesToSkip p = 1 \<Longrightarrow> 0 \<le> k \<and> currOutBuffer p + k \<le> outBufferSize p \<and>
      view todo q = (view todo p)\<lparr>v_work := False, v_done := inputProcessedInCL p + 1, v_out := currOutBuffer p + k\<rparr>"
    and "\<not> full \<Longrightarrow> m_cyclesToSkip p \<le> 0 \<Longrightarrow> 0 < currInBuffer p \<Longrightarrow>
      view todo q = (view todo p)\<lparr>v_in := currInBuffer p - 1, v_sent := reqSent p - 1, v_work := True\<rparr>"
    and "\<not> full \<Longrightarrow> m_cyclesToSkip p \<le> 0 \<Longrightarrow> currInBuffer p \<le> 0 \<Longrightarrow> q = p"
  shows "cstep\<^sup>*\<^sup>* (view todo p) (view todo q)"
proof -
  consider full | "\<not> full" "m_cyclesToSkip p > 1" | (line) "\<not> full" "m_cyclesToSkip p = 1"
    | (take_line) "\<not> full" "m_cyclesToSkip p \<le> 0" "0 < currInBuffer p"
    | "\<not> full" "m_cyclesToSkip p \<le> 0" "currInBuffer p \<le> 0"
    by linarith
  then show ?thesis
  proof cases
    case line
    with assms(3) show ?thesis
      using csteps_finish [of "view todo p" k "view todo q"] by simp
  next
    case take_line
    with assms(4) show ?thesis
      using csteps_take [of "view todo p" "view todo q"] by simp
  qed (use assms in auto)
qed

lemma enc_process_sim:
  assumes "enc_ok p"
  shows "cstep\<^sup>*\<^sup>* (view coder_todo p) (view coder_todo (snd (enc_process p))) \<and>
    coder_frame p (snd (enc_process p)) \<and> is_busy (snd (enc_process p)) = is_busy p"
proof -
  let ?q = "snd (enc_process p)"
  have lat: "0 < cdiv (computeLatency p) (coding_ratio p)"
    using assms by (simp add: enc_ok_def cdiv_nonneg pos_imp_zdiv_pos_iff)
  have "cstep\<^sup>*\<^sup>* (view coder_todo p) (view coder_todo ?q)"
    by (rule csteps_process [where full = "currOutBuffer p + targetOutputChunkSizeInCL p > outBufferSize p"
          and k = "currOutBuffer ?q - currOutBuffer p"])
      (use assms lat in \<open>simp_all add: enc_process_def Let_def view_def coder_todo_def enc_ok_def\<close>)
  then show ?thesis by (simp add: enc_process_def coder_frame_def Let_def)
qed

lemma noc_process_sim:
  assumes "noc_ok p"
  shows "cstep\<^sup>*\<^sup>* (view coder_todo p) (view coder_todo (snd (noc_process p))) \<and>
    coder_frame p (snd (noc_process p)) \<and> is_busy (snd (noc_process p)) = is_busy p"
proof -
  let ?q = "snd (noc_process p)"
  have "cstep\<^sup>*\<^sup>* (view coder_todo p) (view coder_todo ?q)"
    by (rule csteps_process [where full = "currOutBuffer p + targetOutputChunkSizeInCL p > outBufferSize p"
          and k = "currOutBuffer ?q - currOutBuffer p"])
      (use assms in \<open>simp_all add: noc_process_def Let_def view_def coder_todo_def noc_ok_def\<close>)
  then show ?thesis by (simp add: noc_process_def coder_frame_def Let_def)
qed

lemma dec_process_sim:
  assumes "dec_ok p"
  shows "cstep\<^sup>*\<^sup>* (view dec_todo p) (view dec_todo (snd (dec_process p))) \<and>
    coder_frame p (snd (dec_process p)) \<and> is_busy (snd (dec_process p)) = is_busy p"
proof -
  let ?q = "snd (dec_process p)"
  have "cstep\<^sup>*\<^sup>* (view dec_todo p) (view dec_todo ?q)"
    by (rule csteps_process [where full = "currOutBuffer p + coding_ratio p > outBufferSize p"
          and k = "currOutBuffer ?q - currOutBuffer p"])
      (use assms in \<open>simp_all add: dec_process_def Let_def view_def dec_todo_def dec_ok_def\<close>)
  then show ?thesis by (simp add: dec_process_def coder_frame_def Let_def)
qed

interpretation enc: codec enc_requestData "\<lambda>p. snd (enc_process p)" enc_work coder_todo enc_ok
proof
  show "coder_todo q = coder_todo p" if "m_reqCount q = m_reqCount p" for p q :: coder
    using that by (simp add: coder_todo_def)
  show "enc_ok q = enc_ok p" if "ioLatency q = ioLatency p" "computeLatency q = computeLatency p" "coding_ratio q = coding_ratio p"
    "targetOutputChunkSizeInCL q = targetOutputChunkSizeInCL p" for p q
    using that by (simp add: enc_ok_def)
  show "cstep\<^sup>*\<^sup>* (view coder_todo p) (view coder_todo q) \<and> coder_frame p q \<and> is_busy q = is_busy p"
    if "enc_requestData p u = (q, u')" for p q and u u' :: "'d uncore"
    using coder_requestData_sim [of p u q u' coder_todo 0] that by (simp add: enc_requestData_def coder_todo_def)
  show "\<exists>p1 u1 p2 u2 p3 q. coder_sendDataOut p u = (p1, u1) \<and> enc_requestData p1 u1 = (p2, u2) \<and>
        (p3 = p2 \<or> p3 = snd (enc_process p2)) \<and> coder_finish p3 u2 = Inr (q, u') \<and>
        coder_frame q p' \<and> view coder_todo p' = view coder_todo q"
    if "enc_work p u = Inr (p', u')" for p p' and u u' :: "'d uncore"
  proof -
    obtain p1 u1 p2 u2 where s: "coder_sendDataOut p u = (p1, u1)" "enc_requestData p1 u1 = (p2, u2)"
      by (metis surj_pair)
    define r where "r = (if inputProcessedInCL p2 < inputToBeProcessedInCL p2 then enc_process p2 else (False, p2))"
    have "enc_work p u = bindE (coder_finish (snd r) u2) (\<lambda>(q, u). Inr ((if \<not> fst r then q\<lparr>m_IPMemStalls := m_IPMemStalls q + 1\<rparr> else q), u))"
      by (cases "inputProcessedInCL p2 < inputToBeProcessedInCL p2")
        (simp_all add: enc_work_def enc_sendDataOut_def s r_def split_beta)
    with that obtain q where q: "coder_finish (snd r) u2 = Inr (q, u')" "p' = (if \<not> fst r then q\<lparr>m_IPMemStalls := m_IPMemStalls q + 1\<rparr> else q)"
      by auto
    then have "coder_frame q p' \<and> view coder_todo p' = view coder_todo q"
      by (simp add: coder_frame_def view_def coder_todo_def)
    moreover have "snd r = p2 \<or> snd r = snd (enc_process p2)" by (simp add: r_def)
    ultimately show ?thesis using s q(1) by blast
  qed
qed (rule enc_process_sim)

interpretation noc: codec noc_requestData "\<lambda>p. snd (noc_process p)" noc_work coder_todo noc_ok
proof
  show "coder_todo q = coder_todo p" if "m_reqCount q = m_reqCount p" for p q :: coder
    using that by (simp add: coder_todo_def)
  show "noc_ok q = noc_ok p" if "ioLatency q = ioLatency p" "computeLatency q = computeLatency p" "coding_ratio q = coding_ratio p"
    "targetOutputChunkSizeInCL q = targetOutputChunkSizeInCL p" for p q
    using that by (simp add: noc_ok_def)
  show "cstep\<^sup>*\<^sup>* (view coder_todo p) (view coder_todo q) \<and> coder_frame p q \<and> is_busy q = is_busy p"
    if "noc_requestData p u = (q, u')" for p q and u u' :: "'d uncore"
    using coder_requestData_sim [of p u q u' coder_todo 0] that by (simp add: noc_requestData_def coder_todo_def)
  show "\<exists>p1 u1 p2 u2 p3 q. coder_sendDataOut p u = (p1, u1) \<and> noc_requestData p1 u1 = (p2, u2) \<and>
        (p3 = p2 \<or> p3 = snd (noc_process p2)) \<and> coder_finish p3 u2 = Inr (q, u') \<and>
        coder_frame q p' \<and> view coder_todo p' = view coder_todo q"
    if "noc_work p u = Inr (p', u')" for p p' and u u' :: "'d uncore"
  proof -
    obtain p1 u1 p2 u2 where s: "coder_sendDataOut p u = (p1, u1)" "noc_requestData p1 u1 = (p2, u2)"
      by (metis surj_pair)
    define r where "r = (if inputProcessedInCL p2 < inputToBeProcessedInCL p2 then noc_process p2 else (False, p2))"
    have "noc_work p u = bindE (coder_finish (snd r) u2) (\<lambda>(q, u). Inr ((if \<not> fst r then q\<lparr>m_IPMemStalls := m_IPMemStalls q + 1\<rparr> else q), u))"
      by (cases "inputProcessedInCL p2 < inputToBeProcessedInCL p2")
        (simp_all add: noc_work_def noc_sendDataOut_def s r_def split_beta)
    with that obtain q where q: "coder_finish (snd r) u2 = Inr (q, u')" "p' = (if \<not> fst r then q\<lparr>m_IPMemStalls := m_IPMemStalls q + 1\<rparr> else q)"
      by auto
    then have "coder_frame q p' \<and> view coder_todo p' = view coder_todo q"
      by (simp add: coder_frame_def view_def coder_todo_def)
    moreover have "snd r = p2 \<or> snd r = snd (noc_process p2)" by (simp add: r_def)
    ultimately show ?thesis using s q(1) by blast
  qed
qed (rule noc_process_sim)

lemma dec_todo_cong:
  "m_reqCount q = m_reqCount p \<Longrightarrow> coder.more q = coder.more p \<Longrightarrow> dec_todo q = dec_todo p"
  by (cases p; cases q; simp add: dec_todo_def)

lemma dec_requestDependentData_cases:
  assumes "dec_requestDependentData p u = (q, u')"
  shows "(q = p \<or> q = p\<lparr>m_memRejected := m_memRejected p + 1\<rparr>) \<or>
    (reqSent p < inBufferSize p \<and>
     q = IPActivityUpdate (p\<lparr>m_dependenceCount := m_dependenceCount p - 1,
            m_dependenceAddr := m_dependenceAddr p + 64, m_MemReqs := m_MemReqs p + 1,
            reqSent := reqSent p + 1\<rparr>))"
  using assms
  by (auto simp: dec_requestDependentData_def IPActivityUpdate_def split: if_splits prod.splits)

lemma dec_request_sim:
  assumes "dec_request p u = (q, u')"
  shows "cstep\<^sup>*\<^sup>* (view dec_todo p) (view dec_todo q) \<and> coder_frame p q \<and> is_busy q = is_busy p"
proof (cases "m_dependenceCount p > 0")
  case True
  with assms have "dec_requestDependentData p u = (q, u')" by (simp add: dec_request_def)
  from dec_requestDependentData_cases [OF this] show ?thesis
  proof (elim disjE conjE)
    assume "reqSent p < inBufferSize p" and q: "q = IPActivityUpdate (p\<lparr>m_dependenceCount := m_dependenceCount p - 1,
            m_dependenceAddr := m_dependenceAddr p + 64, m_MemReqs := m_MemReqs p + 1, reqSent := reqSent p + 1\<rparr>)"
    moreover have "view dec_todo q = (view dec_todo p)\<lparr>v_todo := dec_todo p - 1, v_sent := reqSent p + 1\<rparr>"
      using True by (simp add: q view_def dec_todo_def IPActivityUpdate_def)
    moreover have "0 < dec_todo p" using True by (simp add: dec_todo_def)
    ultimately show ?thesis
      using csteps_ask [of "view dec_todo p" "view dec_todo q"]
      by (simp add: coder_frame_def IPActivityUpdate_def)
  next
    assume "q = p"
    then show ?thesis by (simp add: coder_frame_def)
  next
    assume "q = p\<lparr>m_memRejected := m_memRejected p + 1\<rparr>"
    then show ?thesis by (simp add: coder_frame_def view_def dec_todo_def)
  qed
next
  case False
  have "coder.more r = coder.more p \<Longrightarrow> dec_todo r = max 0 (m_reqCount r) + 0" for r
    using False by (cases p; cases r; simp add: dec_todo_def)
  moreover have "coder_requestData p u = (q, u')"
    using False assms by (simp add: dec_request_def dec_requestData_def)
  ultimately show ?thesis using coder_requestData_sim [of p u q u' dec_todo 0] by blast
qed

interpretation dec: codec dec_request "\<lambda>p. snd (dec_process p)" dec_work dec_todo dec_ok
proof
  show "dec_todo q = dec_todo p" if "m_reqCount q = m_reqCount p" "coder.more q = coder.more p" for p q :: decoder
    using dec_todo_cong [OF that] .
  show "dec_ok q = dec_ok p" if "ioLatency q = ioLatency p" "computeLatency q = computeLatency p" "coding_ratio q = coding_ratio p"
    "targetOutputChunkSizeInCL q = targetOutputChunkSizeInCL p" for p q
    using that by (simp add: dec_ok_def)
  show "cstep\<^sup>*\<^sup>* (view dec_todo p) (view dec_todo q) \<and> coder_frame p q \<and> is_busy q = is_busy p"
    if "cinv (view dec_todo p)" "dec_request p u = (q, u')" for p q and u u' :: "'d uncore"
    by (rule dec_request_sim [OF that(2)])
  show "\<exists>p1 u1 p2 u2 p3 q. coder_sendDataOut p u = (p1, u1) \<and> dec_request p1 u1 = (p2, u2) \<and>
        (p3 = p2 \<or> p3 = snd (dec_process p2)) \<and> coder_finish p3 u2 = Inr (q, u') \<and>
        coder_frame q p' \<and> view dec_todo p' = view dec_todo q"
    if "dec_work p u = Inr (p', u')" for p p' and u u' :: "'d uncore"
  proof -
    obtain p1 u1 p2 u2 where s: "coder_sendDataOut p u = (p1, u1)" "dec_request p1 u1 = (p2, u2)"
      by (metis surj_pair)
    define r where "r = (if inputProcessedInCL p2 < inputToBeProcessedInCL p2 then dec_process p2 else (dec_garbage p2, p2))"
    have "dec_work p u = bindE (coder_finish (snd r) u2) (\<lambda>(q, u). Inr (dec_count (fst r) q, u))"
      by (cases "inputProcessedInCL p2 < inputToBeProcessedInCL p2")
        (simp_all add: dec_work_def dec_sendDataOut_def s r_def split_beta)
    with that obtain q where q: "coder_finish (snd r) u2 = Inr (q, u')" "p' = dec_count (fst r) q"
      by auto
    then have "coder_frame q p' \<and> view dec_todo p' = view dec_todo q"
      by (cases "fst r"; simp add: coder_frame_def view_def dec_todo_def dec_count_def)
    moreover have "snd r = p2 \<or> snd r = snd (dec_process p2)" by (simp add: r_def)
    ultimately show ?thesis using s q(1) by blast
  qed
qed (rule dec_process_sim)

subsection \<open>The life of a coder\<close>

locale coder_class = codec request process work todo ok
  for request :: "'a coder_scheme \<Rightarrow> 'd uncore \<Rightarrow> 'a coder_scheme \<times> 'd uncore"
    and process :: "'a coder_scheme \<Rightarrow> 'a coder_scheme"
    and work :: "'a coder_scheme \<Rightarrow> 'd uncore \<Rightarrow> ('a coder_scheme \<times> 'd uncore) result"
    and todo :: "'a coder_scheme \<Rightarrow> int"
    and ok :: "'a coder_scheme \<Rightarrow> bool" +
  fixes enq :: "int \<Rightarrow> addr \<Rightarrow> int \<Rightarrow> bool \<Rightarrow> int \<Rightarrow> IP_TYPE \<Rightarrow> int \<Rightarrow> 'a coder_scheme \<Rightarrow> GemDroid \<Rightarrow>
      (bool \<times> 'a coder_scheme \<times> GemDroid) result"
    and sizes :: "'a coder_scheme \<Rightarrow> int \<Rightarrow> bool"
  assumes enq_busy: "is_busy p \<Longrightarrow>
      enq c a z r n ft k p g = Inr (False, p\<lparr>m_IPBusyStalls := m_IPBusyStalls p + 1\<rparr>, g)"
    and enq_idle: "\<not> is_busy p \<Longrightarrow> cinv (view todo p) \<Longrightarrow> ok p \<Longrightarrow> ip_inv p \<Longrightarrow> sizes p z \<Longrightarrow>
      \<exists>p' g'. enq c a z r n ft k p g = Inr (True, p', g') \<and> ip_inv p' \<and> ok p' \<and> 0 \<le> z div 64 \<and>
        view todo p' = (view todo p)\<lparr>v_busy := True, v_done := 0, v_total := z div 64,
          v_todo := z div 64, v_sent := 0\<rparr>"
begin

lemma enq_total:
  assumes "ip_inv p" "ok p" "cinv (view todo p)" "sizes p z"
  shows "\<exists>b p' g'. enq c a z r n ft k p g = Inr (b, p', g') \<and> b = (\<not> is_busy p) \<and>
    ip_inv p' \<and> ok p' \<and> cinv (view todo p')"
proof (cases "is_busy p")
  case True
  let ?q = "p\<lparr>m_IPBusyStalls := m_IPBusyStalls p + 1\<rparr>"
  have "ip_inv ?q" by (rule ip_inv_work [OF assms(1)]) (simp_all add: ip_inv_idle assms(1))
  moreover have "view todo ?q = view todo p" "ok ?q = ok p"
    using todo_cong [of ?q p] ok_cong [of ?q p] by (simp_all add: view_def)
  ultimately show ?thesis using enq_busy [OF True] True assms by auto
next
  case False
  from enq_idle [OF this assms(3,2,1,4), of c a r n ft k g] obtain p' g' where
    p': "enq c a z r n ft k p g = Inr (True, p', g')" "ip_inv p'" "ok p'" "0 \<le> z div 64"
    "view todo p' = (view todo p)\<lparr>v_busy := True, v_done := 0, v_total := z div 64,
       v_todo := z div 64, v_sent := 0\<rparr>" by blast
  have "cenv (view todo p) (view todo p')"
    unfolding p'(5) by (rule cenv.accept) (use False p'(4) in simp_all)
  with p' assms(3) False show ?thesis by (auto intro: cinv_cenv)
qed

lemma run_inv:
  assumes "coder_run (coder_fresh todo ok) (coder_tick work) coder_memResponse enq sizes p"
  shows "ip_inv p \<and> ok p \<and> cinv (view todo p)"
  using assms
proof induction
  case (fresh p)
  then show ?case by (simp add: coder_fresh_def)
next
  case (ticked p u p' u')
  then show ?case using tick_sim [of p u p' u'] by blast
next
  case (read_done p a)
  let ?q = "coder_memResponse a True p"
  have "view todo ?q = (view todo p)\<lparr>v_in := v_in (view todo p) + 1\<rparr>" "ok ?q = ok p"
    using todo_cong [of ?q p] ok_cong [of ?q p]
    by (simp_all add: view_def coder_memResponse_def ip_memResponse_def)
  moreover have "ip_inv ?q"
    by (rule ip_inv_work [of p]) (use read_done in \<open>simp_all add: coder_memResponse_def ip_memResponse_def ip_inv_idle\<close>)
  moreover have "cenv (view todo p) (view todo ?q)"
    unfolding calculation(1) by (rule cenv.respond) (use read_done in simp)
  ultimately show ?case using read_done cinv_cenv by blast
next
  case (write_done p a)
  let ?q = "coder_memResponse a False p"
  have "view todo ?q = view todo p" "ok ?q = ok p"
    using todo_cong [of ?q p] ok_cong [of ?q p]
    by (simp_all add: view_def coder_memResponse_def ip_memResponse_def)
  moreover have "ip_inv ?q"
    by (rule ip_inv_work [of p]) (use write_done in \<open>simp_all add: coder_memResponse_def ip_memResponse_def ip_inv_idle\<close>)
  ultimately show ?case using write_done by simp
next
  case (called p z c a r n ft k g b p' g')
  then show ?case using enq_total [of p z c a r n ft k g] by auto
next
  case (governed p p')
  then show ?case using view_same [of p p'] by simp
qed

lemma run_enq:
  assumes "coder_run (coder_fresh todo ok) (coder_tick work) coder_memResponse enq sizes p"
    and "sizes p z"
  shows "\<exists>b p' g'. enq c a z r n ft k p g = Inr (b, p', g') \<and> b = (\<not> is_busy p)"
  using enq_total [OF _ _ _ assms(2)] run_inv [OF assms(1)] by blast

end

lemma lines_ceiling: "64 dvd z \<Longrightarrow> \<lceil>real_of_int z / 64\<rceil> = z div 64"
  by (auto elim!: dvdE)

lemma coder_accepted:
  assumes "\<not> is_busy p"
  obtains q g' where "ip_enqueueIPReq c a z r n ft k p g = (True, q, g')"
    "is_busy q" "m_reqCount q = \<lceil>real_of_int z / 64\<rceil>" "m_cyclesToSkip q = ioLatency p * \<lceil>real_of_int z / 64\<rceil>"
    "GemDroidIP.more q = GemDroidIP.more p" "ip_type q = ip_type p" "ioLatency q = ioLatency p"
    "targetOutputChunkSizeInCL q = targetOutputChunkSizeInCL p" "ip_inv p \<longrightarrow> ip_inv q"
proof
  let ?q = "fst (ip_start_or_wake (ip_accept c a z r n ft k p) g)"
  show "ip_enqueueIPReq c a z r n ft k p g = (True, ?q, snd (ip_start_or_wake (ip_accept c a z r n ft k p) g))"
    using assms by (simp add: ip_enqueueIPReq_def)
  show "ip_inv p \<longrightarrow> ip_inv ?q"
    by (simp add: ip_inv_start_or_wake ip_inv_ip_accept)
qed (simp_all add: ip_start_or_wake_def ip_accept_def Let_def)

lemma coder_more_eq:
  assumes "GemDroidIP.more q = GemDroidIP.more p"
  shows "computeLatency q = computeLatency p" "coding_ratio q = coding_ratio p"
    "inBufferSize q = inBufferSize p" "outBufferSize q = outBufferSize p"
    "currInBuffer q = currInBuffer p" "currOutBuffer q = currOutBuffer p" "coder.more q = coder.more p"
  using assms by (cases p; cases q; simp)+

lemma cinv_idle:
  "cinv (view todo p) \<Longrightarrow> \<not> is_busy p \<Longrightarrow> currInBuffer p = 0 \<and> currOutBuffer p = 0 \<and> reqSent p = 0 \<and> todo p = 0"
  by (simp add: cinv_def)

lemma coder_start_ok:
  assumes "currInBuffer p = 0" "currOutBuffer p = 0" "0 \<le> z"
  shows "coder_start z p = Inr (p\<lparr>inputProcessedInCL := 0, inputToBeProcessedInCL := z div 64, reqSent := 0\<rparr>)"
  using assms by (simp add: coder_start_def cdiv_nonneg)

text \<open>Accepting a request of whole lines, for a class whose only further change is the output address.\<close>

lemma coder_enq_idle:
  fixes p :: coder
  assumes "\<not> is_busy p" "cinv (view coder_todo p)" "ip_inv p" "line_sizes p z" "ioLatency p = 0"
  obtains q g' where "ip_enqueueIPReq c a z r n ft k p g = (True, q, g')" "currInBuffer q = 0" "currOutBuffer q = 0"
    "\<And>out. let q' = q\<lparr>m_reqOutAddr := out, inputProcessedInCL := 0, inputToBeProcessedInCL := z div 64, reqSent := 0\<rparr>
      in ip_inv q' \<and> computeLatency q' = computeLatency p \<and> coding_ratio q' = coding_ratio p \<and>
        ioLatency q' = 0 \<and> targetOutputChunkSizeInCL q' = targetOutputChunkSizeInCL p \<and>
        view coder_todo q' = (view coder_todo p)\<lparr>v_busy := True, v_done := 0, v_total := z div 64,
          v_todo := z div 64, v_sent := 0\<rparr>"
proof -
  obtain q g' where q: "ip_enqueueIPReq c a z r n ft k p g = (True, q, g')"
    "is_busy q" "m_reqCount q = \<lceil>real_of_int z / 64\<rceil>" "m_cyclesToSkip q = ioLatency p * \<lceil>real_of_int z / 64\<rceil>"
    "GemDroidIP.more q = GemDroidIP.more p" "ip_type q = ip_type p" "ioLatency q = ioLatency p"
    "targetOutputChunkSizeInCL q = targetOutputChunkSizeInCL p" "ip_inv p \<longrightarrow> ip_inv q"
    by (rule coder_accepted [OF assms(1)])
  note m = coder_more_eq [OF q(5)]
  have z: "\<lceil>real_of_int z / 64\<rceil> = z div 64" "0 \<le> z div 64"
    using assms(4) lines_ceiling by (simp_all add: line_sizes_def pos_imp_zdiv_nonneg_iff)
  have idle: "currInBuffer p = 0" "currOutBuffer p = 0" "\<not> 0 < m_cyclesToSkip p"
    using cinv_idle [OF assms(2,1)] assms(1,2) by (simp_all add: cinv_def)
  show thesis
  proof (rule that [OF q(1)])
    fix out
    let ?q = "q\<lparr>m_reqOutAddr := out, inputProcessedInCL := 0, inputToBeProcessedInCL := z div 64, reqSent := 0\<rparr>"
    have "ip_inv ?q" by (rule ip_inv_work [of q]) (use q(9) assms(3) ip_inv_idle in simp_all)
    then show "let q' = ?q in ip_inv q' \<and> computeLatency q' = computeLatency p \<and> coding_ratio q' = coding_ratio p \<and>
        ioLatency q' = 0 \<and> targetOutputChunkSizeInCL q' = targetOutputChunkSizeInCL p \<and>
        view coder_todo q' = (view coder_todo p)\<lparr>v_busy := True, v_done := 0, v_total := z div 64,
          v_todo := z div 64, v_sent := 0\<rparr>"
      using q m z idle assms(5) by (simp add: view_def coder_todo_def)
  qed (use m idle in simp_all)
qed

lemma enc_enq_idle:
  assumes "\<not> is_busy p" "cinv (view coder_todo p)" "enc_ok p" "ip_inv p" "line_sizes p z"
  shows "\<exists>p' g'. enc_enqueueIPReq c a z r n ft k p g = Inr (True, p', g') \<and> ip_inv p' \<and> enc_ok p' \<and> 0 \<le> z div 64 \<and>
    view coder_todo p' = (view coder_todo p)\<lparr>v_busy := True, v_done := 0, v_total := z div 64,
      v_todo := z div 64, v_sent := 0\<rparr>"
proof -
  have "ioLatency p = 0" "0 \<le> z" using assms(3,5) by (simp_all add: enc_ok_def line_sizes_def)
  from coder_enq_idle [OF assms(1,2,4,5) this(1), of c a r n ft k g] obtain q g' where
    q: "ip_enqueueIPReq c a z r n ft k p g = (True, q, g')" "currInBuffer q = 0" "currOutBuffer q = 0"
    and q': "\<And>out. let q' = q\<lparr>m_reqOutAddr := out, inputProcessedInCL := 0,
        inputToBeProcessedInCL := z div 64, reqSent := 0\<rparr>
      in ip_inv q' \<and> computeLatency q' = computeLatency p \<and> coding_ratio q' = coding_ratio p \<and>
        ioLatency q' = 0 \<and> targetOutputChunkSizeInCL q' = targetOutputChunkSizeInCL p \<and>
        view coder_todo q' = (view coder_todo p)\<lparr>v_busy := True, v_done := 0, v_total := z div 64,
          v_todo := z div 64, v_sent := 0\<rparr>" by metis
  let ?out = "if ip_type q = IP_TYPE_VE then VE_ADDR_START + of_int FRAME_SIZE else if ip_type q = IP_TYPE_AE then AE_ADDR_START + of_int AUD_FRAME_SIZE else m_reqOutAddr q"
  let ?q = "q\<lparr>m_reqOutAddr := ?out, inputProcessedInCL := 0, inputToBeProcessedInCL := z div 64, reqSent := 0\<rparr>"
  have "enc_enqueueIPReq c a z r n ft k p g = Inr (True, ?q, g')"
    using q \<open>0 \<le> z\<close> by (simp add: enc_enqueueIPReq_def coder_start_ok)
  moreover have "enc_ok ?q" using q' [of ?out] assms(3) by (simp add: enc_ok_def Let_def)
  ultimately show ?thesis
    using q' [of ?out] \<open>0 \<le> z\<close> by (simp add: Let_def pos_imp_zdiv_nonneg_iff)
qed

interpretation enc_class: coder_class enc_requestData "\<lambda>p. snd (enc_process p)" enc_work coder_todo enc_ok enc_enqueueIPReq line_sizes
proof
  show "enc_enqueueIPReq c a z r n ft k p g = Inr (False, p\<lparr>m_IPBusyStalls := m_IPBusyStalls p + 1\<rparr>, g)"
    if "is_busy p" for c a z r n ft k p g
    using that by (simp add: enc_enqueueIPReq_def ip_enqueueIPReq_def)
qed (rule enc_enq_idle)

lemma noc_enq_idle:
  assumes "\<not> is_busy p" "cinv (view coder_todo p)" "noc_ok p" "ip_inv p" "line_sizes p z"
  shows "\<exists>p' g'. noc_enqueueIPReq c a z r n ft k p g = Inr (True, p', g') \<and> ip_inv p' \<and> noc_ok p' \<and> 0 \<le> z div 64 \<and>
    view coder_todo p' = (view coder_todo p)\<lparr>v_busy := True, v_done := 0, v_total := z div 64,
      v_todo := z div 64, v_sent := 0\<rparr>"
proof -
  have "ioLatency p = 0" "0 \<le> z" using assms(3,5) by (simp_all add: noc_ok_def line_sizes_def)
  from coder_enq_idle [OF assms(1,2,4,5) this(1), of c a r n ft k g] obtain q g' where
    q: "ip_enqueueIPReq c a z r n ft k p g = (True, q, g')" "currInBuffer q = 0" "currOutBuffer q = 0"
    and q': "\<And>out. let q' = q\<lparr>m_reqOutAddr := out, inputProcessedInCL := 0,
        inputToBeProcessedInCL := z div 64, reqSent := 0\<rparr>
      in ip_inv q' \<and> computeLatency q' = computeLatency p \<and> coding_ratio q' = coding_ratio p \<and>
        ioLatency q' = 0 \<and> targetOutputChunkSizeInCL q' = targetOutputChunkSizeInCL p \<and>
        view coder_todo q' = (view coder_todo p)\<lparr>v_busy := True, v_done := 0, v_total := z div 64,
          v_todo := z div 64, v_sent := 0\<rparr>" by metis
  let ?out = "if ip_type q = IP_TYPE_IMG then IMG_ADDR_START + of_int FRAME_SIZE else m_reqOutAddr q"
  let ?q = "q\<lparr>m_reqOutAddr := ?out, inputProcessedInCL := 0, inputToBeProcessedInCL := z div 64, reqSent := 0\<rparr>"
  have "noc_enqueueIPReq c a z r n ft k p g = Inr (True, ?q, g')"
    using q \<open>0 \<le> z\<close> by (simp add: noc_enqueueIPReq_def coder_start_ok)
  moreover have "noc_ok ?q" using q' [of ?out] assms(3) by (simp add: noc_ok_def Let_def)
  ultimately show ?thesis
    using q' [of ?out] \<open>0 \<le> z\<close> by (simp add: Let_def pos_imp_zdiv_nonneg_iff)
qed

interpretation noc_class: coder_class noc_requestData "\<lambda>p. snd (noc_process p)" noc_work coder_todo noc_ok noc_enqueueIPReq line_sizes
proof
  show "noc_enqueueIPReq c a z r n ft k p g = Inr (False, p\<lparr>m_IPBusyStalls := m_IPBusyStalls p + 1\<rparr>, g)"
    if "is_busy p" for c a z r n ft k p g
    using that by (simp add: noc_enqueueIPReq_def ip_enqueueIPReq_def)
qed (rule noc_enq_idle)

lemma frame_split:
  assumes "320 dvd (z :: int)"
  shows "\<lceil>(real_of_int z * (4 / 10)) / 64\<rceil> = 2 * (z div 320)"
    and "\<lceil>real_of_int (z div 64) * (6 / 10)\<rceil> = 3 * (z div 320)" and "z div 64 = 5 * (z div 320)"
proof -
  from assms obtain m where m: "z = 320 * m" by (elim dvdE)
  then have d: "z div 64 = 5 * m" "z div 320 = m" by simp_all
  have "(real_of_int z * (4 / 10)) / 64 = real_of_int (2 * m)"
    "real_of_int (5 * m) * (6 / 10) = real_of_int (3 * m)" by (simp_all add: m)
  then show "\<lceil>(real_of_int z * (4 / 10)) / 64\<rceil> = 2 * (z div 320)"
    "\<lceil>real_of_int (z div 64) * (6 / 10)\<rceil> = 3 * (z div 320)" "z div 64 = 5 * (z div 320)"
    by (simp_all only: d ceiling_of_int)
qed

lemma dec_enq_idle:
  assumes "\<not> is_busy p" "cinv (view dec_todo p)" "dec_ok p" "ip_inv p" "dec_sizes p z"
  shows "\<exists>p' g'. dec_enqueueIPReq c a z r n ft k p g = Inr (True, p', g') \<and> ip_inv p' \<and> dec_ok p' \<and> 0 \<le> z div 64 \<and>
    view dec_todo p' = (view dec_todo p)\<lparr>v_busy := True, v_done := 0, v_total := z div 64,
      v_todo := z div 64, v_sent := 0\<rparr>"
proof -
  obtain q g' where q: "ip_enqueueIPReq c a z r n ft k p g = (True, q, g')"
    "is_busy q" "m_reqCount q = \<lceil>real_of_int z / 64\<rceil>" "m_cyclesToSkip q = ioLatency p * \<lceil>real_of_int z / 64\<rceil>"
    "GemDroidIP.more q = GemDroidIP.more p" "ip_type q = ip_type p" "ioLatency q = ioLatency p"
    "targetOutputChunkSizeInCL q = targetOutputChunkSizeInCL p" "ip_inv p \<longrightarrow> ip_inv q"
    by (rule coder_accepted [OF assms(1)])
  note m = coder_more_eq [OF q(5)]
  have dep: "m_dependenceCount q = m_dependenceCount p" using m(7) by (cases p; cases q; simp)
  have sz: "0 \<le> z" "0 \<le> z div 64" "64 dvd z" "ip_type p = IP_TYPE_VD \<longrightarrow> 320 dvd z"
    using assms(5) dvd_trans [of 64 320 z]
    by (auto simp: dec_sizes_def pos_imp_zdiv_nonneg_iff split: if_splits)
  have idle: "currInBuffer p = 0" "currOutBuffer p = 0" "\<not> 0 < m_cyclesToSkip p" "m_dependenceCount p \<le> 0"
    using cinv_idle [OF assms(2,1)] assms(1,2) by (auto simp: cinv_def dec_todo_def)
  define s where "s = (if ip_type q = IP_TYPE_VD then
      let q = q\<lparr>m_reqOutAddr := VD_ADDR_START + of_int FRAME_SIZE\<rparr> in
      if crem n 10 = 0 then q\<lparr>m_frameType := I_Frame\<rparr>
      else q\<lparr>m_frameType := P_Frame, m_dependenceCount := \<lceil>(real_of_int z * (4 / 10)) / 64\<rceil>,
             m_dependenceAddr := VD_ADDR_START + 2 * of_int FRAME_SIZE,
             m_reqCount := \<lceil>real_of_int (m_reqCount q) * (6 / 10)\<rceil>\<rparr>
    else if ip_type q = IP_TYPE_AD then q\<lparr>m_reqOutAddr := AD_ADDR_START + of_int AUD_FRAME_SIZE\<rparr> else q)"
  let ?s = "s\<lparr>inputProcessedInCL := 0, inputToBeProcessedInCL := z div 64, reqSent := 0\<rparr>"
  have frame: "coder_frame q s" "currInBuffer s = 0" "currOutBuffer s = 0" "is_busy s = is_busy q"
    "inBufferSize s = inBufferSize q" "outBufferSize s = outBufferSize q" "m_cyclesToSkip s = m_cyclesToSkip q"
    using m idle by (simp_all add: s_def coder_frame_def Let_def)
  have "dec_todo s = z div 64"
    using frame_split [of z] sz q(3,6) dep idle lines_ceiling [OF sz(3)]
    by (auto simp: s_def dec_todo_def Let_def)
  then have "view dec_todo ?s = (view dec_todo p)\<lparr>v_busy := True, v_done := 0, v_total := z div 64,
      v_todo := z div 64, v_sent := 0\<rparr>"
    using frame q(2,4) m idle assms(3) by (simp add: view_def dec_todo_def dec_ok_def)
  moreover have "ip_inv ?s"
    by (rule ip_inv_coder_frame [of q]) (use frame(1) q(9) assms(4) in \<open>simp_all add: coder_frame_def\<close>)
  moreover have "dec_enqueueIPReq c a z r n ft k p g = Inr (True, ?s, g')"
  proof -
    have "dec_enqueueIPReq c a z r n ft k p g = bindE (coder_start z s) (\<lambda>p. Inr (True, p, g'))"
      by (simp add: dec_enqueueIPReq_def q(1) s_def Let_def)
    then show ?thesis using frame(2,3) sz(1) by (simp add: coder_start_ok)
  qed
  moreover have "dec_ok ?s" using frame(1) q(7) m assms(3) by (simp add: dec_ok_def coder_frame_def)
  ultimately show ?thesis using sz(2) by blast
qed

interpretation dec_class: coder_class dec_request "\<lambda>p. snd (dec_process p)" dec_work dec_todo dec_ok dec_enqueueIPReq dec_sizes
proof
  show "dec_enqueueIPReq c a z r n ft k p g = Inr (False, p\<lparr>m_IPBusyStalls := m_IPBusyStalls p + 1\<rparr>, g)"
    if "is_busy p" for c a z r n ft k p g
    using that by (simp add: dec_enqueueIPReq_def ip_enqueueIPReq_def)
qed (rule dec_enq_idle)

lemma coder_demo_fields [simp]:
  "is_busy (coder_demo t lat ratio chunk) = False" "currInBuffer (coder_demo t lat ratio chunk) = 0"
  "currOutBuffer (coder_demo t lat ratio chunk) = 0" "reqSent (coder_demo t lat ratio chunk) = 0"
  "m_cyclesToSkip (coder_demo t lat ratio chunk) = 0" "m_reqCount (coder_demo t lat ratio chunk) = -1"
  "inBufferSize (coder_demo t lat ratio chunk) = 24" "outBufferSize (coder_demo t lat ratio chunk) = 64"
  "computeLatency (coder_demo t lat ratio chunk) = lat" "coding_ratio (coder_demo t lat ratio chunk) = ratio"
  "targetOutputChunkSizeInCL (coder_demo t lat ratio chunk) = chunk" "ioLatency (coder_demo t lat ratio chunk) = 0"
  "ip_type (coder_demo t lat ratio chunk) = t"
  by (simp_all add: coder_demo_def dev_demo_def ip_blank_def GemDroidIP.extend_def coder.fields_def)

lemma coder_demo_inv: "ip_inv (coder_demo t lat ratio chunk)"
  by (simp add: coder_demo_def dev_demo_def ip_blank_def GemDroidIP.extend_def
        coder.fields_def ip_inv_def ip_power_inv_def ip_dvfs_inv_def ip_class_ok_def)

lemma dec_demo_fresh: "coder_fresh dec_todo dec_ok dec_demo"
proof -
  have "ip_inv dec_demo"
    by (simp add: dec_demo_def coder_demo_def dev_demo_def ip_blank_def GemDroidIP.extend_def coder.extend_def
        coder.fields_def decoder.fields_def ip_inv_def ip_power_inv_def ip_dvfs_inv_def ip_class_ok_def)
  then show ?thesis
    by (simp add: coder_fresh_def dec_demo_def coder_demo_def dev_demo_def ip_blank_def GemDroidIP.extend_def
        coder.extend_def coder.fields_def decoder.fields_def dec_ok_def cinv_def view_def dec_todo_def)
qed

subsection \<open>Properties\<close>



text \<open>C16: throughout the life of an encoder its buffers stay within their sizes, every line of the
  frame is accounted for, and no call aborts.\<close>

theorem encoder_life:
  assumes "coder_run (coder_fresh coder_todo enc_ok) (enc_tick :: coder \<Rightarrow> 'd uncore \<Rightarrow> _) enc_memResponse
      enc_enqueueIPReq line_sizes p"
  shows "0 \<le> currInBuffer p \<and> currInBuffer p \<le> reqSent p \<and> reqSent p \<le> inBufferSize p \<and>
    0 \<le> currOutBuffer p \<and> currOutBuffer p \<le> outBufferSize p \<and>
    (is_busy p \<longrightarrow> inputProcessedInCL p + (if m_cyclesToSkip p > 0 then 1 else 0) + reqSent p +
       max 0 (m_reqCount p) = inputToBeProcessedInCL p) \<and>
    (\<forall>z c a r n ft k g. line_sizes p z \<longrightarrow>
       (\<exists>p' g'. enc_enqueueIPReq c a z r n ft k p g = Inr (\<not> is_busy p, p', g')))"
proof -
  have run: "coder_run (coder_fresh coder_todo enc_ok)
      (coder_tick enc_work :: coder \<Rightarrow> 'd uncore \<Rightarrow> _) coder_memResponse enc_enqueueIPReq line_sizes p"
    using assms by (simp add: enc_tick_def enc_memResponse_def)
  from enc_class.run_inv [OF run] have "cinv (view coder_todo p)" by blast
  moreover have "\<exists>p' g'. enc_enqueueIPReq c a z r n ft k p g = Inr (\<not> is_busy p, p', g')"
    if "line_sizes p z" for z c a r n ft k g
    using enc_class.run_enq [OF run that, of c a r n ft k g] by blast
  ultimately show ?thesis
    by (auto simp: cinv_def coder_todo_def of_bool_def)
qed

theorem encoder_life_witness:
  "coder_run (coder_fresh coder_todo enc_ok) (enc_tick :: coder \<Rightarrow> completion list uncore \<Rightarrow> _)
      enc_memResponse enc_enqueueIPReq line_sizes (coder_demo IP_TYPE_VE 18 16 16) \<and>
   (\<exists>p' g'. enc_enqueueIPReq 0 CAM_ADDR_START 106168320 True 1 IP_TYPE_MMC_OUT 0 (coder_demo IP_TYPE_VE 18 16 16) gd_demo = Inr (True, p', g'))"
proof -
  let ?p = "coder_demo IP_TYPE_VE 18 16 16"
  have run: "coder_run (coder_fresh coder_todo enc_ok) (enc_tick :: coder \<Rightarrow> completion list uncore \<Rightarrow> _)
      enc_memResponse enc_enqueueIPReq line_sizes ?p"
    by (rule coder_run.fresh) (simp add: coder_fresh_def coder_demo_inv enc_ok_def coder_demo_fields cinv_def coder_todo_def)
  have "line_sizes ?p 106168320" "\<not> is_busy ?p"
    by (simp_all add: line_sizes_def coder_demo_fields)
  with encoder_life [OF run] run show ?thesis by simp
qed

text \<open>C17: the same for the image processor.\<close>

theorem nocoder_life:
  assumes "coder_run (coder_fresh coder_todo noc_ok) (noc_tick :: coder \<Rightarrow> 'd uncore \<Rightarrow> _) noc_memResponse
      noc_enqueueIPReq line_sizes p"
  shows "0 \<le> currInBuffer p \<and> currInBuffer p \<le> reqSent p \<and> reqSent p \<le> inBufferSize p \<and>
    0 \<le> currOutBuffer p \<and> currOutBuffer p \<le> outBufferSize p \<and>
    (is_busy p \<longrightarrow> inputProcessedInCL p + (if m_cyclesToSkip p > 0 then 1 else 0) + reqSent p +
       max 0 (m_reqCount p) = inputToBeProcessedInCL p) \<and>
    (\<forall>z c a r n ft k g. line_sizes p z \<longrightarrow>
       (\<exists>p' g'. noc_enqueueIPReq c a z r n ft k p g = Inr (\<not> is_busy p, p', g')))"
proof -
  have run: "coder_run (coder_fresh coder_todo noc_ok)
      (coder_tick noc_work :: coder \<Rightarrow> 'd uncore \<Rightarrow> _) coder_memResponse noc_enqueueIPReq line_sizes p"
    using assms by (simp add: noc_tick_def noc_memResponse_def)
  from noc_class.run_inv [OF run] have "cinv (view coder_todo p)" by blast
  moreover have "\<exists>p' g'. noc_enqueueIPReq c a z r n ft k p g = Inr (\<not> is_busy p, p', g')"
    if "line_sizes p z" for z c a r n ft k g
    using noc_class.run_enq [OF run that, of c a r n ft k g] by blast
  ultimately show ?thesis
    by (auto simp: cinv_def coder_todo_def of_bool_def)
qed

theorem nocoder_life_witness:
  "coder_run (coder_fresh coder_todo noc_ok) (noc_tick :: coder \<Rightarrow> completion list uncore \<Rightarrow> _)
      noc_memResponse noc_enqueueIPReq line_sizes (coder_demo IP_TYPE_IMG 16 1 16) \<and>
   (\<exists>p' g'. noc_enqueueIPReq 0 CAM_ADDR_START 53084160 True 1 IP_TYPE_DC 0 (coder_demo IP_TYPE_IMG 16 1 16) gd_demo = Inr (True, p', g'))"
proof -
  let ?p = "coder_demo IP_TYPE_IMG 16 1 16"
  have run: "coder_run (coder_fresh coder_todo noc_ok) (noc_tick :: coder \<Rightarrow> completion list uncore \<Rightarrow> _)
      noc_memResponse noc_enqueueIPReq line_sizes ?p"
    by (rule coder_run.fresh) (simp add: coder_fresh_def coder_demo_inv noc_ok_def coder_demo_fields cinv_def coder_todo_def)
  have "line_sizes ?p 53084160" "\<not> is_busy ?p"
    by (simp_all add: line_sizes_def coder_demo_fields)
  with nocoder_life [OF run] run show ?thesis by simp
qed

text \<open>C18: a tick of a coder refines the contract: what it does to the buffers is a sequence of
  contract steps (lines written out, asked for, taken, finished, the frame completed), for each
  of the three classes.\<close>

theorem coder_ticks_refine:
  fixes u u' :: "'d uncore"
  shows "(ip_inv p \<and> enc_ok p \<and> cinv (view coder_todo p) \<and> enc_tick p u = Inr (p', u') \<longrightarrow>
      cstep\<^sup>*\<^sup>* (view coder_todo p) (view coder_todo p')) \<and>
    (ip_inv p \<and> noc_ok p \<and> cinv (view coder_todo p) \<and> noc_tick p u = Inr (p', u') \<longrightarrow>
      cstep\<^sup>*\<^sup>* (view coder_todo p) (view coder_todo p')) \<and>
    (ip_inv q \<and> dec_ok q \<and> cinv (view dec_todo q) \<and> dec_tick q u = Inr (q', u') \<longrightarrow>
      cstep\<^sup>*\<^sup>* (view dec_todo q) (view dec_todo q'))"
  using enc.tick_sim [of p u p' u'] noc.tick_sim [of p u p' u'] dec.tick_sim [of q u q' u']
  by (simp add: enc_tick_def noc_tick_def dec_tick_def)

lemma dec_process_skipping:
  "m_cyclesToSkip p = int (Suc n) \<Longrightarrow> currOutBuffer p + coding_ratio p \<le> outBufferSize p \<Longrightarrow>
   ((\<lambda>p. snd (dec_process p)) ^^ Suc n) p =
     p\<lparr>m_cyclesToSkip := 0, inputProcessedInCL := inputProcessedInCL p + 1,
       currOutBuffer := currOutBuffer p + coding_ratio p\<rparr>"
proof (induction n arbitrary: p)
  case 0
  then show ?case by (simp add: dec_process_def)
next
  case (Suc n)
  let ?q = "snd (dec_process p)"
  have q: "?q = p\<lparr>m_cyclesToSkip := int (Suc n)\<rparr>"
    using Suc.prems by (simp add: dec_process_def)
  have "((\<lambda>p. snd (dec_process p)) ^^ Suc n) ?q =
     ?q\<lparr>m_cyclesToSkip := 0, inputProcessedInCL := inputProcessedInCL ?q + 1,
       currOutBuffer := currOutBuffer ?q + coding_ratio ?q\<rparr>"
    by (rule Suc.IH) (use q Suc.prems in simp_all)
  then show ?case
    by (subst funpow_Suc_right) (simp add: q)
qed

theorem coder_ticks_refine_witness:
  "let p = (coder_demo IP_TYPE_VE 18 16 16)\<lparr>power_state := ip_active, is_busy := True, m_reqCount := 2,
             inputProcessedInCL := 0, inputToBeProcessedInCL := 2\<rparr>
   in \<exists>p' u'. enc_tick p u_demo = Inr (p', u') \<and> reqSent p' = 1 \<and>
        cstep\<^sup>*\<^sup>* (view coder_todo p) (view coder_todo p')"
proof -
  let ?p = "(coder_demo IP_TYPE_VE 18 16 16)\<lparr>power_state := ip_active, is_busy := True, m_reqCount := 2,
             inputProcessedInCL := 0, inputToBeProcessedInCL := 2\<rparr>"
  have "\<not> isl (enc_tick ?p u_demo) \<and> reqSent (fst (projr (enc_tick ?p u_demo))) = 1" by code_simp
  then obtain p' u' where r: "enc_tick ?p u_demo = Inr (p', u')" "reqSent p' = 1"
    by (cases "enc_tick ?p u_demo") auto
  have "ip_inv ?p"
    by (simp add: coder_demo_def dev_demo_def ip_blank_def GemDroidIP.extend_def
        coder.fields_def ip_inv_def ip_power_inv_def ip_dvfs_inv_def ip_class_ok_def)
  moreover have "enc_ok ?p" "cinv (view coder_todo ?p)"
    by (simp_all add: enc_ok_def cinv_def coder_todo_def)
  ultimately show ?thesis
    using r coder_ticks_refine [of ?p u_demo p' u'] by (simp add: Let_def)
qed

text \<open>A line takes a decoder exactly \<open>computeLatency + 1\<close> cycles of \<open>process\<close> when there is
  room for its output, and gives \<open>coding_ratio\<close> lines.\<close>

theorem decoder_line_latency:
  assumes "m_cyclesToSkip p = 0" "0 < currInBuffer p" "computeLatency p = int (Suc n)"
    and "currOutBuffer p + coding_ratio p \<le> outBufferSize p"
  shows "((\<lambda>p. snd (dec_process p)) ^^ Suc (Suc n)) p =
    p\<lparr>currInBuffer := currInBuffer p - 1, reqSent := reqSent p - 1, m_cyclesToSkip := 0,
      inputProcessedInCL := inputProcessedInCL p + 1, currOutBuffer := currOutBuffer p + coding_ratio p\<rparr>"
proof -
  let ?q = "snd (dec_process p)"
  have q: "?q = p\<lparr>m_cyclesToSkip := int (Suc n), currInBuffer := currInBuffer p - 1, reqSent := reqSent p - 1\<rparr>"
    using assms by (simp add: dec_process_def)
  have "((\<lambda>p. snd (dec_process p)) ^^ Suc n) ?q =
     ?q\<lparr>m_cyclesToSkip := 0, inputProcessedInCL := inputProcessedInCL ?q + 1,
       currOutBuffer := currOutBuffer ?q + coding_ratio ?q\<rparr>"
    by (rule dec_process_skipping) (use q assms in simp_all)
  then show ?thesis
    by (subst funpow_Suc_right) (simp add: q)
qed

theorem decoder_line_latency_witness:
  "inputProcessedInCL (((\<lambda>p. snd (dec_process p)) ^^ Suc (Suc 11)) (dec_demo\<lparr>currInBuffer := 1, reqSent := 1\<rparr>)) = 1"
proof -
  let ?p = "dec_demo\<lparr>currInBuffer := 1, reqSent := 1\<rparr>"
  have "m_cyclesToSkip ?p = 0" "0 < currInBuffer ?p" "computeLatency ?p = int (Suc 11)"
    "currOutBuffer ?p + coding_ratio ?p \<le> outBufferSize ?p" "inputProcessedInCL ?p = 0"
    by (simp_all add: dec_demo_def coder_demo_def dev_demo_def ip_blank_def GemDroidIP.extend_def
        coder.extend_def coder.fields_def decoder.fields_def)
  then show ?thesis by (subst decoder_line_latency) simp_all
qed

text \<open>The DMA engine copies a line when the read of it returns; when the system agent refuses
  the write then, the line is not kept for a retry: nothing but a counter records it, and the next
  line that returns is written to its place.\<close>

theorem dma_drops_line:
  assumes "\<not> fst (enqueueIPMemRequest (ip_type p) (ip_id p) 0 (destAddr p) False (sa u))"
    and "fst (enqueueIPMemRequest (ip_type p) (ip_id p) 0 (destAddr p) False (sa u2))"
  shows "\<exists>u1. dma_memResponse a True p u = (p\<lparr>m_memRejected := m_memRejected p + 1\<rparr>, u1) \<and>
    ipMemReq (sa u1) = ipMemReq (sa u) \<and>
    (\<exists>p' u'. dma_memResponse a' True (p\<lparr>m_memRejected := m_memRejected p + 1\<rparr>) u2 = (p', u') \<and>
      ipMemReq (sa u') = ipMemReq (sa u2) @ [mem_msg (ip_type p) (ip_id p) 0 (destAddr p) False False] \<and>
      destAddr p' = destAddr p + 64)"
  using assms by (auto simp: dma_memResponse_def enqueueIPMemRequest_def split: if_splits)

theorem dma_drops_line_witness:
  "let p = GemDroidIP.extend (dev_demo IP_TYPE_DMA False) (dma.fields 4096 2160000000);
       full = u_demo\<lparr>sa := sa_demo\<lparr>ipMemReq := replicate 231 (mem_msg IP_TYPE_DMA 0 0 64 True False)\<rparr>\<rparr>
   in m_memRejected (fst (dma_memResponse 0 True p full)) = 1"
proof -
  let ?p = "GemDroidIP.extend (dev_demo IP_TYPE_DMA False) (dma.fields 4096 2160000000)"
  let ?full = "u_demo\<lparr>sa := sa_demo\<lparr>ipMemReq := replicate 231 (mem_msg IP_TYPE_DMA 0 0 64 True False)\<rparr>\<rparr>"
  have "\<not> fst (enqueueIPMemRequest (ip_type ?p) (ip_id ?p) 0 (destAddr ?p) False (sa ?full))"
    "fst (enqueueIPMemRequest (ip_type ?p) (ip_id ?p) 0 (destAddr ?p) False (sa u_demo))"
    unfolding enqueueIPMemRequest_def ip_mem_limit by (simp_all add: u_demo_def sa_demo_def)
  from dma_drops_line [OF this, of 0 0] have
    "fst (dma_memResponse 0 True ?p ?full) = ?p\<lparr>m_memRejected := m_memRejected ?p + 1\<rparr>"
    by (elim exE conjE) (simp only: fst_conv)
  then show ?thesis
    by (simp add: Let_def) (simp add: dev_demo_def ip_blank_def GemDroidIP.extend_def)
qed

end
