(* ===== verification/GD_Core.thy ===== *)
theory GD_Core
  imports GD_IP
begin

section \<open>The cores\<close>

text \<open>
  Class \<open>GemDroidCore\<close> (\<open>gemdroid_core.hh\<close>, \<open>gemdroid_core.cc\<close>) and the transactions of
  \<open>gemdroid_core_util.hh\<close>: a core replays a trace, keeps its transactions in a reorder buffer,
  sends memory requests and IP calls to the system agent and follows the frame rate of the
  display. The trace file and the file for looking ahead are lists of tokens; a token is its
  text with its value as a decimal and as a hexadecimal number, what the stream makes of it when
  the code reads a string, an integer or an address. Reading past the end gives an empty text, as the
  code expects (\<open>op == ""\<close>), and 0. Numbers that are not numbers are not modelled, and neither
  are the statistics' snapshots, the distribution of idle streaks and the printing. The global
  variable \<open>true_fetch\<close> that the end of a trace clears is a field here.

  The reorder buffer is the vector \<open>outstanding_transactions\<close> with its size in a counter of its
  own, as in the source; that the two agree is part of the invariant.
\<close>

abbreviation (input) MAX_TRANSACTIONS :: int where "MAX_TRANSACTIONS \<equiv> 100"
abbreviation (input) ROB_SIZE :: int where "ROB_SIZE \<equiv> 32"
abbreviation (input) AUD_FPS_TICKS :: real where "AUD_FPS_TICKS \<equiv> 10000000000 / 60"
abbreviation (input) DEADLOCK_PERIOD :: int where "DEADLOCK_PERIOD \<equiv> 100000"
abbreviation (input) CORE_PSTATE_LOWPOWER_ENTER_TIME :: int where "CORE_PSTATE_LOWPOWER_ENTER_TIME \<equiv> 200000"
abbreviation (input) CORE_PSTATE_IDLE_ENTER_TIME :: int where "CORE_PSTATE_IDLE_ENTER_TIME \<equiv> 1128900"
abbreviation (input) CORE_PSTATE_LOWPOWER_EXIT_TIME :: int where "CORE_PSTATE_LOWPOWER_EXIT_TIME \<equiv> 54600"
abbreviation (input) CORE_PSTATE_IDLE_EXIT_TIME :: int where "CORE_PSTATE_IDLE_EXIT_TIME \<equiv> 2634600"
abbreviation (input) CORE_CAPACITANCE :: real where "CORE_CAPACITANCE \<equiv> 1"
abbreviation (input) CORE_STATIC_PWR :: real where "CORE_STATIC_PWR \<equiv> 35 / 100"

subsection \<open>Transactions\<close>

datatype INSTR_TYPE = INSTR_CPU | INSTR_MMU_LD | INSTR_MMU_ST | INSTR_OTHERS

record GemDroidOoOTransaction =
  transaction_type :: INSTR_TYPE
  number_of_instructions :: int
  instr_executed_ooo :: int
  tr_addr :: addr
  can_be_committed :: bool
  inserted_tick :: int
  isIssued :: bool

definition new_transaction :: "INSTR_TYPE \<Rightarrow> int \<Rightarrow> addr \<Rightarrow> GemDroidOoOTransaction result" where
  "new_transaction type n addr =
     bindE (assertE ''addr == -1'' (type = INSTR_CPU \<longrightarrow> addr = -1)) (\<lambda>_.
     bindE (assertE ''addr != 1'' (type = INSTR_MMU_LD \<or> type = INSTR_MMU_ST \<longrightarrow> addr \<noteq> 1)) (\<lambda>_.
     bindE (assertE ''number_of_instructions == 0''
              (type = INSTR_MMU_LD \<or> type = INSTR_MMU_ST \<longrightarrow> n = 0)) (\<lambda>_.
     Inr \<lparr>transaction_type = type, number_of_instructions = n, instr_executed_ooo = 0, tr_addr = addr,
          can_be_committed = False, inserted_tick = -1, isIssued = False\<rparr>)))"

definition commit_transaction :: "GemDroidOoOTransaction \<Rightarrow> GemDroidOoOTransaction" where
  "commit_transaction t = t\<lparr>can_be_committed := True\<rparr>"

definition commit_instruction :: "GemDroidOoOTransaction \<Rightarrow> GemDroidOoOTransaction result" where
  "commit_instruction t =
     bindE (assertE ''number_of_instructions'' (number_of_instructions t \<noteq> 0)) (\<lambda>_.
     Inr (t\<lparr>number_of_instructions := number_of_instructions t - 1,
            instr_executed_ooo := instr_executed_ooo t + 1\<rparr>))"

definition issueToMem :: "int \<Rightarrow> GemDroidOoOTransaction \<Rightarrow> GemDroidOoOTransaction" where
  "issueToMem tick t = t\<lparr>inserted_tick := tick, isIssued := True\<rparr>"

definition tr_isRead :: "GemDroidOoOTransaction \<Rightarrow> bool result" where
  "tr_isRead t = bindE (assertE ''transaction_type != INSTR_CPU'' (transaction_type t \<noteq> INSTR_CPU)) (\<lambda>_.
     Inr (transaction_type t = INSTR_MMU_LD))"

subsection \<open>The state of a core\<close>

datatype CPU_PSTATE = CPU_PSTATE_ACTIVE | CPU_PSTATE_LOWPOWER | CPU_PSTATE_IDLE

datatype APP_TYPE = CORE_BOUND | DISPLAY_BOUND | VIDEO_PLAYBACK | AUDIO_PLAYBACK

datatype token = Token (tok_text: string) (tok_dec: int) (tok_hex: addr)

record GemDroidCore =
  c_id :: int
  issue_width :: nat
  c_ticks :: int
  c_idleCycles :: int
  c_cyclesToWake :: int
  c_idleStreak :: int
  cpu_pstate :: CPU_PSTATE
  needToLookAhead :: bool
  qemu_to_60FPS_speedratio :: real
  em_trace_file :: "token list"
  lookahead_trace_file :: "token list"
  true_fetch :: bool
  type_of_application :: APP_TYPE
  idleStalls :: int
  fpsStalls :: int
  lastDCTick :: int
  audFpsStalls :: int
  lastSNDTick :: int
  m_readFBLine :: bool
  m_thisMilliSecActivePStateCycles :: int
  m_thisMilliSecLowpowerPStateCycles :: int
  m_thisMilliSecIdlePStateCycles :: int
  m_thisMilliSecInstructionsCommitted :: int
  m_thisMilliSecRobFullStalls :: int
  m_thisMilliSecIdleStalls :: int
  m_thisDVFSEpochInstructionsCommitted :: int
  m_thisMicroSecActivePStateCycles :: int
  m_thisMicroSecLowpowerPStateCycles :: int
  m_thisMicroSecIdlePStateCycles :: int
  m_thisMicroSecInstructionsCommitted :: int
  m_thisMicroSecRobFullStalls :: int
  outstanding_transactions :: "GemDroidOoOTransaction list"
  outstanding_transactions_size :: int
  number_of_instr_executed_OoO :: int
  deadlocks_faced :: int
  c_table :: "vf_row list"
  c_dvfsCounter :: int
  c_dvfsState :: int
  optDVFSState :: int
  c_powerInLastEpoch :: real
  pstateTimer :: int
  flagProfile :: bool
  m_profileRobFullStalls :: int
  m_profileMemFullStalls :: int
  m_profileActiveCycles :: int
  m_profileStartCPUCycle :: int
  profileStartGemDroidCycle :: int
  m_thisFrameRobFullStalls :: int
  m_thisFrameMemFullStalls :: int
  m_thisFrameIPFullStalls :: int
  m_idleStallsCount :: int
  m_fpsStallsCount :: int
  m_framesDisplayed :: int
  m_framesDropped :: int
  m_framesDroppedDueToRobStalls :: int
  m_framesDroppedDueToMemStalls :: int
  m_framesDroppedDueToIPStalls :: int
  m_FPS :: real
  c_m_idleCycles :: int
  m_committedInsns :: int
  m_cycles :: int
  m_memReqs :: int
  m_ipReqs :: int
  m_ipCallsPresentInTrace :: "IP_TYPE \<Rightarrow> int"
  m_ipResps :: int
  lines_read_cpu :: int
  m_activePStateCycles :: int
  m_lowpowerPStateCycles :: int
  m_idlePStateCycles :: int
  m_frameNumber :: "IP_TYPE \<Rightarrow> int"
  c_startCycle :: int

definition core_table :: "vf_row list" where
  "core_table = vf_fill CORE_STATIC_PWR CORE_CAPACITANCE
     [(925 / 1000, 300 / 1000), (9485714286 / 10000000000, 400 / 1000),
      (9721428571 / 10000000000, 500 / 1000), (9957142857 / 10000000000, 600 / 1000),
      (10192857143 / 10000000000, 700 / 1000), (10428571429 / 10000000000, 800 / 1000),
      (10664285714 / 10000000000, 900 / 1000), (109 / 100, 1000 / 1000),
      (11135714286 / 10000000000, 1100 / 1000), (11371428571 / 10000000000, 1200 / 1000),
      (11607142857 / 10000000000, 1400 / 1000), (11842857143 / 10000000000, 1600 / 1000),
      (1255 / 1000, 1800 / 1000)]"

definition new_GemDroidCore :: "GemDroidCore \<Rightarrow> GemDroidCore" where
  "new_GemDroidCore c =
     c\<lparr>lines_read_cpu := 0, number_of_instr_executed_OoO := 0, deadlocks_faced := 0,
       outstanding_transactions_size := 0, type_of_application := CORE_BOUND, needToLookAhead := True,
       c_idleCycles := 0, c_cyclesToWake := 0, c_idleStreak := 0, c_ticks := 0, fpsStalls := 0,
       lastDCTick := 0, audFpsStalls := 0, lastSNDTick := 0, c_m_idleCycles := 0, m_committedInsns := 0,
       m_cycles := 0, m_memReqs := 0, m_ipReqs := 0, m_ipResps := 0, m_framesDisplayed := 0,
       m_framesDropped := 0, m_framesDroppedDueToRobStalls := 0, m_framesDroppedDueToMemStalls := 0,
       m_fpsStallsCount := 0, m_FPS := 0, m_readFBLine := False, m_idleStallsCount := 0, idleStalls := 0,
       qemu_to_60FPS_speedratio := 0, m_thisFrameRobFullStalls := 0, m_thisFrameMemFullStalls := 0,
       m_activePStateCycles := 0, m_lowpowerPStateCycles := 0, m_idlePStateCycles := 0, c_startCycle := 0,
       m_thisMilliSecActivePStateCycles := 0, m_thisMilliSecLowpowerPStateCycles := 0,
       m_thisMilliSecIdlePStateCycles := 0, m_thisMilliSecInstructionsCommitted := 0,
       m_thisMilliSecRobFullStalls := 0, m_thisDVFSEpochInstructionsCommitted := 0,
       m_thisMilliSecIdleStalls := 0, m_thisMicroSecActivePStateCycles := 0,
       m_thisMicroSecLowpowerPStateCycles := 0, m_thisMicroSecIdlePStateCycles := 0,
       m_thisMicroSecInstructionsCommitted := 0, m_thisMicroSecRobFullStalls := 0,
       m_ipCallsPresentInTrace := (\<lambda>_. 0), m_frameNumber := (\<lambda>_. 0), outstanding_transactions := [],
       c_table := core_table, c_dvfsCounter := 0\<rparr>"

definition core_resetStats :: "GemDroidCore \<Rightarrow> GemDroidCore" where
  "core_resetStats c =
     c\<lparr>c_m_idleCycles := 0, m_committedInsns := 0, m_cycles := 0, m_memReqs := 0, m_ipReqs := 0,
       m_ipResps := 0, lines_read_cpu := 0, m_fpsStallsCount := 0, m_framesDisplayed := 0,
       m_framesDropped := 0, m_framesDroppedDueToRobStalls := 0, m_framesDroppedDueToMemStalls := 0,
       m_FPS := 0, m_thisFrameRobFullStalls := 0, m_thisFrameMemFullStalls := 0,
       m_activePStateCycles := 0, m_lowpowerPStateCycles := 0, m_idlePStateCycles := 0\<rparr>"

subsection \<open>Voltage and frequency scaling, power\<close>

definition cvft :: "GemDroidCore \<Rightarrow> int \<Rightarrow> vf_row" where
  "cvft c i = c_table c ! nat i"

definition getCoreFreq :: "GemDroidCore \<Rightarrow> real" where
  "getCoreFreq c = vf_freq (cvft c (c_dvfsState c))"

definition getCoreFreq_at :: "GemDroidCore \<Rightarrow> int \<Rightarrow> real" where
  "getCoreFreq_at c ind = vf_freq (cvft c (clamp_index CORE_DVFS_STATES ind))"

definition core_getIndexInTable :: "GemDroidCore \<Rightarrow> real \<Rightarrow> int" where
  "core_getIndexInTable c freq = table_index (c_table c) freq"

definition core_incFreq :: "int \<Rightarrow> GemDroidCore \<Rightarrow> bool \<times> GemDroidCore" where
  "core_incFreq steps c =
     (if c_dvfsState c < CORE_DVFS_STATES - 1 then (True, c\<lparr>c_dvfsState := c_dvfsState c + steps\<rparr>)
      else (False, c))"

definition core_decFreq :: "GOVERNOR_TYPE \<Rightarrow> int \<Rightarrow> GemDroidCore \<Rightarrow> bool \<times> GemDroidCore" where
  "core_decFreq gov steps c =
     (if gov = GOVERNOR_TYPE_INTERACTIVE \<and> c_dvfsCounter c > 0 then (False, c)
      else if c_dvfsState c > steps - 1 then (True, c\<lparr>c_dvfsState := c_dvfsState c - steps\<rparr>)
      else (False, c))"

definition setMaxCoreFreq :: "GOVERNOR_TYPE \<Rightarrow> GemDroidCore \<Rightarrow> GemDroidCore" where
  "setMaxCoreFreq gov c =
     (let c = c\<lparr>c_dvfsState := CORE_DVFS_STATES - 1\<rparr> in
      if gov = GOVERNOR_TYPE_INTERACTIVE then c\<lparr>c_dvfsCounter := INTERACTIVE_GOVERNOR_LAT\<rparr> else c)"

definition setMinCoreFreq :: "GemDroidCore \<Rightarrow> GemDroidCore" where
  "setMinCoreFreq c = c\<lparr>c_dvfsState := 0\<rparr>"

definition setOptCoreFreq :: "GemDroidCore \<Rightarrow> GemDroidCore" where
  "setOptCoreFreq c = c\<lparr>c_dvfsState := optDVFSState c\<rparr>"

definition setCoreFreqInd :: "int \<Rightarrow> GemDroidCore \<Rightarrow> GemDroidCore result" where
  "setCoreFreqInd ind c = bindE (assertE ''ind'' (ind > -1 \<and> ind < CORE_DVFS_STATES)) (\<lambda>_.
     Inr (c\<lparr>c_dvfsState := ind\<rparr>))"

definition setCoreFreq :: "real \<Rightarrow> GemDroidCore \<Rightarrow> GemDroidCore result" where
  "setCoreFreq freq c =
     (let ind = core_getIndexInTable c freq in
      bindE (assertE ''ind'' (ind > -1 \<and> ind < CORE_DVFS_STATES)) (\<lambda>_.
      Inr (c\<lparr>c_dvfsState := ind\<rparr>)))"

definition core_updateDVFS :: "GOVERNOR_TYPE \<Rightarrow> GemDroidCore \<Rightarrow> GemDroidCore" where
  "core_updateDVFS gov c =
     (if gov = GOVERNOR_TYPE_INTERACTIVE then c\<lparr>c_dvfsCounter := c_dvfsCounter c - 1\<rparr> else c)"

definition core_getFreqForPower :: "real \<Rightarrow> GemDroidCore \<Rightarrow> real" where
  "core_getFreqForPower pw c = table_freq_for_power (c_table c) pw"

text \<open>The frequency found for the budget is stored in an \<open>int\<close> and then used as an index.\<close>

definition core_setMaxAllowedFreq :: "GemDroid \<Rightarrow> GemDroidCore \<Rightarrow> GemDroidCore result" where
  "core_setMaxAllowedFreq g c =
     (let powerAllowed = getCoordinatedPower g - c_powerInLastEpoch c;
          freq = trunc (core_getFreqForPower powerAllowed c)
      in setCoreFreq (vf_freq (cvft c freq)) c)"

definition core_setPStateActive :: "GemDroidCore \<Rightarrow> GemDroid \<Rightarrow> GemDroidCore \<times> GemDroid" where
  "core_setPStateActive c g =
     (let c = (if governor g = GOVERNOR_TYPE_INTERACTIVE then setMaxCoreFreq (governor g) c
               else if governor g = GOVERNOR_TYPE_POWERCAP then setOptCoreFreq c else c)
      in (c\<lparr>cpu_pstate := CPU_PSTATE_ACTIVE, c_idleCycles := 0\<rparr>,
          markIPRequestStarted (c_id c) IP_TYPE_CPU (c_id c) 0 g))"

definition core_setPStateLowPower :: "GemDroidCore \<Rightarrow> GemDroidCore result" where
  "core_setPStateLowPower c =
     bindE (assertE ''isPStateActive'' (cpu_pstate c = CPU_PSTATE_ACTIVE)) (\<lambda>_.
     Inr (c\<lparr>pstateTimer := CORE_PSTATE_LOWPOWER_ENTER_TIME, cpu_pstate := CPU_PSTATE_LOWPOWER\<rparr>))"

definition core_getTimeEst :: "real \<Rightarrow> real \<Rightarrow> real \<Rightarrow> real" where
  "core_getTimeEst time oldFreq newFreq = time * (oldFreq / newFreq)"

text \<open>\<open>scaledTime\<close> is the platform's \<open>memScaledTimeCPU\<close>; the result is the frequency and the slack left.\<close>

definition core_getFreqForSlackOptimal ::
  "real \<Rightarrow> real \<Rightarrow> real \<Rightarrow> GemDroidCore \<Rightarrow> (real \<times> real) result" where
  "core_getFreqForSlackOptimal scaledTime prevTime slack c =
     (let est = (\<lambda>f. core_getTimeEst scaledTime (getCoreFreq c) f);
          st = c_dvfsState c;
          optFreqInd = optDVFSState c;
          k = slack_scan (nat CORE_DVFS_STATES + 1)
                (\<lambda>k. est (getCoreFreq_at c k) > prevTime + slack) optFreqInd (st - 1);
          newFreq = (if slack < 0 then getCoreFreq_at c (st + 2)
                     else if st > optFreqInd then getCoreFreq_at c (k + 1)
                     else getCoreFreq_at c optFreqInd)
      in bindE (assertE ''newFreq > 0'' (slack < 0 \<or> \<not> st > optFreqInd \<or> newFreq > 0)) (\<lambda>_.
         Inr (newFreq, slack - (est newFreq - prevTime))))"

definition core_getStaticPower :: "real \<Rightarrow> real \<Rightarrow> GemDroidCore \<Rightarrow> real" where
  "core_getStaticPower activePortion lowPortion c =
     (let r = cvft c (c_dvfsState c) in vf_stat r * activePortion + vf_stat r / 3 * lowPortion)"

definition core_getDynamicPower :: "real \<Rightarrow> real \<Rightarrow> GemDroidCore \<Rightarrow> real" where
  "core_getDynamicPower coreActivity coreStallActivity c =
     (let r = cvft c (c_dvfsState c); coreActivity = (if coreActivity > 1 then 1 else coreActivity)
      in coreActivity * vf_dyn r + coreStallActivity * vf_dyn r / 3)"

text \<open>The stall activity is a quotient of two integers, unlike the commit activity.\<close>

definition core_powerIn1us :: "GemDroidCore \<Rightarrow> real \<times> GemDroidCore" where
  "core_powerIn1us c =
     (let one_microsec = trunc (getCoreFreq c * 1000);
          slots = int (issue_width c) * one_microsec;
          staticPower = core_getStaticPower
            (real_of_int (m_thisMicroSecActivePStateCycles c) / real_of_int one_microsec)
            (real_of_int (m_thisMicroSecLowpowerPStateCycles c) / real_of_int one_microsec) c;
          dynamicPower = core_getDynamicPower
            (real_of_int (m_thisMicroSecInstructionsCommitted c) / real_of_int slots)
            (real_of_int (cdiv (m_thisMicroSecRobFullStalls c) slots)) c
      in (staticPower + dynamicPower,
          c\<lparr>m_thisMicroSecActivePStateCycles := 0, m_thisMicroSecLowpowerPStateCycles := 0,
            m_thisMicroSecIdlePStateCycles := 0, m_thisMicroSecInstructionsCommitted := 0,
            m_thisMicroSecRobFullStalls := 0\<rparr>))"

definition core_powerIn1ms :: "GemDroidCore \<Rightarrow> real \<times> GemDroidCore" where
  "core_powerIn1ms c =
     (let one_millisec = trunc (getCoreFreq c * 1000000);
          slots = int (issue_width c) * one_millisec;
          staticPower = core_getStaticPower
            (real_of_int (m_thisMilliSecActivePStateCycles c) / real_of_int one_millisec)
            (real_of_int (m_thisMilliSecLowpowerPStateCycles c) / real_of_int one_millisec) c;
          dynamicPower = core_getDynamicPower
            (real_of_int (m_thisMilliSecInstructionsCommitted c) / real_of_int slots)
            (real_of_int (cdiv (m_thisMilliSecRobFullStalls c) slots)) c
      in (staticPower + dynamicPower,
          c\<lparr>m_thisMilliSecActivePStateCycles := 0, m_thisMilliSecLowpowerPStateCycles := 0,
            m_thisMilliSecIdlePStateCycles := 0, m_thisMilliSecInstructionsCommitted := 0,
            m_thisMilliSecRobFullStalls := 0, m_thisMilliSecIdleStalls := 0,
            c_powerInLastEpoch := staticPower + dynamicPower\<rparr>))"

definition core_getLoadInLastDVFSEpoch :: "(IP_TYPE \<Rightarrow> real) \<Rightarrow> GemDroidCore \<Rightarrow> real \<times> GemDroidCore" where
  "core_getLoadInLastDVFSEpoch lastTime c =
     (let ticks_in_epoch = (lastTime IP_TYPE_CPU * 1000000) * getCoreFreq c
      in (real_of_int (m_thisDVFSEpochInstructionsCommitted c) / (ticks_in_epoch * real (issue_width c)),
          c\<lparr>m_thisDVFSEpochInstructionsCommitted := 0\<rparr>))"

definition core_getPowerEst :: "GemDroidCore \<Rightarrow> real" where
  "core_getPowerEst c =
     (if cpu_pstate c = CPU_PSTATE_ACTIVE then
        vf_stat (cvft c (c_dvfsState c)) / 2 + vf_dyn (cvft c (c_dvfsState c)) / 2 else 0)"

definition core_getEnergyEst :: "real \<Rightarrow> real \<Rightarrow> real \<Rightarrow> GemDroidCore \<Rightarrow> real result" where
  "core_getEnergyEst time pw newFreq c =
     (let activity = (pw - CORE_STATIC_PWR) / vf_dyn (cvft c (c_dvfsState c));
          ind = core_getIndexInTable c newFreq;
          newTime = time * (getCoreFreq c / newFreq) in
      bindE (boundsE ''voltage_freq_table'' (0 \<le> ind)) (\<lambda>_.
      Inr (newTime * CORE_STATIC_PWR + newTime * (activity * vf_dyn (cvft c ind)))))"

subsection \<open>The reorder buffer\<close>

definition core_streakCalculator :: "GemDroidCore \<Rightarrow> GemDroidCore" where
  "core_streakCalculator c = (if c_idleStreak c > 0 then c\<lparr>c_idleStreak := 0\<rparr> else c)"

definition searchInROB :: "addr \<Rightarrow> GemDroidCore \<Rightarrow> int" where
  "searchInROB addr c =
     (case first_index (\<lambda>t. addr = tr_addr t \<and> \<not> can_be_committed t)
             (take (nat (min (outstanding_transactions_size c) MAX_TRANSACTIONS)) (outstanding_transactions c)) of
        Some i \<Rightarrow> int i
      | None \<Rightarrow> if outstanding_transactions_size c = 0 then -2 else -1)"

definition markTransactionCompleted :: "addr \<Rightarrow> GemDroidCore \<Rightarrow> int \<times> GemDroidCore" where
  "markTransactionCompleted addr c =
     (case first_index (\<lambda>t. addr = tr_addr t)
             (take (nat (min (outstanding_transactions_size c) MAX_TRANSACTIONS)) (outstanding_transactions c)) of
        Some i \<Rightarrow> (int i, c\<lparr>outstanding_transactions :=
                     (outstanding_transactions c)[i := commit_transaction (outstanding_transactions c ! i)]\<rparr>)
      | None \<Rightarrow> (if outstanding_transactions_size c = 0 then -2 else -1, c))"

definition commitHeadTransaction :: "GemDroidCore \<Rightarrow> GemDroidCore result" where
  "commitHeadTransaction c =
     bindE (boundsE ''outstanding_transactions[0]'' (outstanding_transactions c \<noteq> [])) (\<lambda>_.
     bindE (assertE ''isTransactionReadyToCommit'' (can_be_committed (hd (outstanding_transactions c)))) (\<lambda>_.
     let c = c\<lparr>outstanding_transactions := tl (outstanding_transactions c),
               outstanding_transactions_size := outstanding_transactions_size c - 1\<rparr> in
     bindE (assertE ''size < 0'' (\<not> outstanding_transactions_size c < 0)) (\<lambda>_. Inr c)))"

definition updateStatInstructionCommit :: "GemDroidCore \<Rightarrow> GemDroid \<Rightarrow> GemDroidCore \<times> GemDroid" where
  "updateStatInstructionCommit c g =
     (c\<lparr>m_committedInsns := m_committedInsns c + 1,
        m_thisMilliSecInstructionsCommitted := m_thisMilliSecInstructionsCommitted c + 1,
        m_thisDVFSEpochInstructionsCommitted := m_thisDVFSEpochInstructionsCommitted c + 1,
        m_thisMicroSecInstructionsCommitted := m_thisMicroSecInstructionsCommitted c + 1\<rparr>,
      g\<lparr>m_totalCommittedInsns := m_totalCommittedInsns g + 1\<rparr>)"

definition pushTransaction :: "GemDroidOoOTransaction \<Rightarrow> GemDroidCore \<Rightarrow> GemDroidCore result" where
  "pushTransaction t c =
     (let c = c\<lparr>outstanding_transactions := outstanding_transactions c @ [t],
                outstanding_transactions_size := outstanding_transactions_size c + 1\<rparr> in
      bindE (assertE ''size > MAX_TRANSACTIONS'' (\<not> outstanding_transactions_size c > MAX_TRANSACTIONS)) (\<lambda>_.
      Inr c))"

definition addInstructions :: "int \<Rightarrow> GemDroidCore \<Rightarrow> GemDroidCore result" where
  "addInstructions insns c =
     bindE (new_transaction INSTR_CPU insns (-1)) (\<lambda>t. pushTransaction t c)"

subsection \<open>Issue and commit\<close>

definition set_txn :: "nat \<Rightarrow> GemDroidOoOTransaction \<Rightarrow> GemDroidCore \<Rightarrow> GemDroidCore" where
  "set_txn i t c = c\<lparr>outstanding_transactions := (outstanding_transactions c)[i := t]\<rparr>"

text \<open>Sending transaction \<open>i\<close> to memory; \<open>refused\<close> is what the caller counts when the system agent
  does not take it.\<close>

definition issue_txn ::
  "nat \<Rightarrow> (GemDroidCore \<Rightarrow> GemDroidCore) \<Rightarrow> GemDroidCore \<Rightarrow> 'd uncore \<Rightarrow> (GemDroidCore \<times> 'd uncore) result" where
  "issue_txn i refused c u =
     (let t = outstanding_transactions c ! i in
      bindE (tr_isRead t) (\<lambda>r.
      let (ok, s) = enqueueCoreMemRequest (c_id c) (tr_addr t) r (sa u) in
      if ok then Inr (set_txn i (issueToMem (c_ticks c) t) c, u\<lparr>sa := s\<rparr>)
      else Inr (refused c, u\<lparr>sa := s\<rparr>)))"

definition mem_full_stall :: "GemDroidCore \<Rightarrow> GemDroidCore" where
  "mem_full_stall c =
     c\<lparr>m_thisFrameMemFullStalls := m_thisFrameMemFullStalls c + 1,
       m_profileMemFullStalls := (if flagProfile c then m_profileMemFullStalls c + 1 else m_profileMemFullStalls c)\<rparr>"

definition rob_full_stall :: "GemDroidCore \<Rightarrow> GemDroidCore" where
  "rob_full_stall c =
     c\<lparr>m_thisFrameRobFullStalls := m_thisFrameRobFullStalls c + 1,
       m_profileRobFullStalls := (if flagProfile c then m_profileRobFullStalls c + 1 else m_profileRobFullStalls c),
       m_thisMicroSecRobFullStalls := m_thisMicroSecRobFullStalls c + 1,
       m_thisMilliSecRobFullStalls := m_thisMilliSecRobFullStalls c + 1,
       c_idleCycles := c_idleCycles c + 1\<rparr>"

definition commit_head ::
  "GemDroidCore \<Rightarrow> 'd uncore \<Rightarrow> (GemDroidCore \<times> 'd uncore) result" where
  "commit_head c u =
     bindE (commitHeadTransaction c) (\<lambda>c.
     let (c, g) = updateStatInstructionCommit c (gd u) in Inr (c, u\<lparr>gd := g\<rparr>))"

definition commit_one ::
  "nat \<Rightarrow> GemDroidCore \<Rightarrow> 'd uncore \<Rightarrow> (GemDroidCore \<times> 'd uncore) result" where
  "commit_one i c u =
     bindE (commit_instruction (outstanding_transactions c ! i)) (\<lambda>t.
     let (c, g) = updateStatInstructionCommit (set_txn i t c) (gd u) in Inr (c, u\<lparr>gd := g\<rparr>))"

definition inOrder_slot :: "GemDroidCore \<Rightarrow> 'd uncore \<Rightarrow> (GemDroidCore \<times> 'd uncore) result" where
  "inOrder_slot c u =
     (if outstanding_transactions_size c > 0 then
        bindE (boundsE ''outstanding_transactions[0]'' (outstanding_transactions c \<noteq> [])) (\<lambda>_.
        let t = outstanding_transactions c ! 0 in
        if transaction_type t = INSTR_CPU then
          if number_of_instructions t > 0 then commit_one 0 c u
          else if number_of_instructions t = 0 then
            bindE (commitHeadTransaction (set_txn 0 (commit_transaction t) c)) (\<lambda>c. Inr (c, u))
          else Inr (c, u)
        else if can_be_committed t then commit_head (c\<lparr>c_idleCycles := 0\<rparr>) u
        else if \<not> isIssued t then issue_txn 0 mem_full_stall c u
        else Inr (rob_full_stall c, u))
      else Inr (c\<lparr>c_idleCycles := c_idleCycles c + 1\<rparr>, u))"

fun inOrder_loop :: "nat \<Rightarrow> GemDroidCore \<Rightarrow> 'd uncore \<Rightarrow> (GemDroidCore \<times> 'd uncore) result" where
  "inOrder_loop 0 c u = Inr (c, u)"
| "inOrder_loop (Suc j) c u = bindE (inOrder_slot c u) (\<lambda>(c, u). inOrder_loop j c u)"

definition inOrderProcess :: "GemDroidCore \<Rightarrow> 'd uncore \<Rightarrow> (GemDroidCore \<times> 'd uncore) result" where
  "inOrderProcess c u = inOrder_loop (issue_width c) c u"

text \<open>
  The out-of-order \<open>process\<close>, which \<open>IN_ORDER\<close> disables. One pass through the loop ends in \<open>Next\<close>
  (the next slot), \<open>Again\<close> (\<open>j--; continue\<close>: the same slot with the next candidate) or \<open>Stop\<close>
  (\<open>break\<close>); the candidate \<open>ROB_check_head\<close> grows with every \<open>Again\<close>.
\<close>

datatype slot_result = Next | Again | Stop

definition ooo_rest ::
  "int \<Rightarrow> GemDroidCore \<Rightarrow> 'd uncore \<Rightarrow> (slot_result \<times> int \<times> GemDroidCore \<times> 'd uncore) result" where
  "ooo_rest head c u =
     (if number_of_instr_executed_OoO c < ROB_SIZE \<and> outstanding_transactions_size c > 0 then
        let t = outstanding_transactions c ! 0 in
        if transaction_type t = INSTR_CPU \<and> number_of_instructions t > 0 then
          bindE (commit_one 0 c u) (\<lambda>(c, u).
          Inr (Next, head, core_streakCalculator
                 (c\<lparr>number_of_instr_executed_OoO := number_of_instr_executed_OoO c + 1\<rparr>), u))
        else if \<not> can_be_committed t \<and> transaction_type t \<noteq> INSTR_CPU then
          let head = head + 1 in
          if head \<ge> outstanding_transactions_size c then Inr (Stop, head, c, u)
          else
            let h = outstanding_transactions c ! nat head in
            if transaction_type h \<noteq> INSTR_CPU \<and> \<not> isIssued h then
              bindE (issue_txn (nat head) mem_full_stall c u) (\<lambda>(c', u').
              Inr (Next, head, if isIssued (outstanding_transactions c' ! nat head)
                               then core_streakCalculator c' else c', u'))
            else if transaction_type h = INSTR_CPU \<and> number_of_instructions h > 0 then
              bindE (commit_one (nat head) c u) (\<lambda>(c, u).
              Inr (Next, head, core_streakCalculator
                     (c\<lparr>number_of_instr_executed_OoO := number_of_instr_executed_OoO c + 1\<rparr>), u))
            else Inr (Again, head, c, u)
        else Inr (Next, head, c, u)
      else
        let c = rob_full_stall c in Inr (Next, head, c\<lparr>c_idleStreak := c_idleStreak c + 1\<rparr>, u))"

definition ooo_slot ::
  "int \<Rightarrow> GemDroidCore \<Rightarrow> 'd uncore \<Rightarrow> (slot_result \<times> int \<times> GemDroidCore \<times> 'd uncore) result" where
  "ooo_slot head c u =
     (if outstanding_transactions_size c > 0 then
        bindE (boundsE ''outstanding_transactions[0]'' (outstanding_transactions c \<noteq> [])) (\<lambda>_.
        let t = outstanding_transactions c ! 0 in
        if transaction_type t \<noteq> INSTR_CPU then
          if can_be_committed t then
            bindE (commit_head (core_streakCalculator (c\<lparr>c_idleCycles := 0\<rparr>)) u) (\<lambda>(c, u).
            Inr (Next, head, c, u))
          else if \<not> isIssued t then
            bindE (issue_txn 0 (\<lambda>c. c) c u) (\<lambda>(c, u). Inr (Next, head, c, u))
          else ooo_rest head c u
        else
          let c = c\<lparr>number_of_instr_executed_OoO := number_of_instr_executed_OoO c - instr_executed_ooo t\<rparr>;
              t = t\<lparr>instr_executed_ooo := 0\<rparr>;
              c = core_streakCalculator ((set_txn 0 t c)\<lparr>c_idleCycles := 0\<rparr>) in
          if number_of_instructions t = 0 then
            bindE (commitHeadTransaction (set_txn 0 (commit_transaction t) c)) (\<lambda>c. ooo_rest head c u)
          else ooo_rest head c u)
      else Inr (Next, head, c\<lparr>c_idleCycles := c_idleCycles c + 1, c_idleStreak := c_idleStreak c + 1\<rparr>, u))"

lemma commitHeadTransaction_size:
  "commitHeadTransaction c = Inr c' \<Longrightarrow> outstanding_transactions_size c' = outstanding_transactions_size c - 1"
  by (auto simp: commitHeadTransaction_def Let_def)

lemma ooo_rest_Again:
  "ooo_rest head c u = Inr (Again, head', c', u') \<Longrightarrow>
   head' = head + 1 \<and> head' < outstanding_transactions_size c' \<and> c' = c"
  by (auto simp: ooo_rest_def Let_def split: if_splits)

lemma ooo_slot_Again:
  assumes "ooo_slot head c u = Inr (Again, head', c', u')"
  shows "head' = head + 1 \<and> head' < outstanding_transactions_size c' \<and>
    outstanding_transactions_size c' \<le> outstanding_transactions_size c"
  using assms
  by (auto simp: ooo_slot_def Let_def core_streakCalculator_def set_txn_def split: if_splits
      dest!: ooo_rest_Again commitHeadTransaction_size)

function ooo_loop :: "nat \<Rightarrow> int \<Rightarrow> GemDroidCore \<Rightarrow> 'd uncore \<Rightarrow> (GemDroidCore \<times> 'd uncore) result" where
  "ooo_loop 0 head c u = Inr (c, u)"
| "ooo_loop (Suc j) head c u =
     bindE (ooo_slot head c u) (\<lambda>(r, head, c, u).
     if r = Next then ooo_loop j head c u
     else if r = Again then ooo_loop (Suc j) head c u
     else Inr (c, u))"
  by pat_completeness auto

termination
proof (relation "measures [\<lambda>(j, head, c, u). j, \<lambda>(j, head, c, u). nat (outstanding_transactions_size c - head)]")
  fix j head and c :: GemDroidCore and u :: "'d uncore" and x r y head' z c' u'
  assume "ooo_slot head c u = Inr x" "(r, y) = x" "(head', z) = y" "(c', u') = z" "r \<noteq> Next" "r = Again"
  then have "ooo_slot head c u = Inr (Again, head', c', u')" by auto
  from ooo_slot_Again [OF this]
  show "((Suc j, head', c', u'), Suc j, head, c, u)
    \<in> measures [\<lambda>(j, head, c, u). j, \<lambda>(j, head, c, u). nat (outstanding_transactions_size c - head)]"
    by auto
qed auto

definition core_process :: "GemDroidCore \<Rightarrow> 'd uncore \<Rightarrow> (GemDroidCore \<times> 'd uncore) result" where
  "core_process c u = ooo_loop (issue_width c) 0 c u"

definition checkDeadlock :: "GemDroidCore \<Rightarrow> GemDroidCore result" where
  "checkDeadlock c =
     (if outstanding_transactions_size c > 0 then
        bindE (boundsE ''outstanding_transactions[0]'' (outstanding_transactions c \<noteq> [])) (\<lambda>_.
        let t = outstanding_transactions c ! 0 in
        if transaction_type t \<noteq> INSTR_CPU \<and> isIssued t \<and> \<not> can_be_committed t \<and>
           c_ticks c - inserted_tick t > DEADLOCK_PERIOD then
          bindE (commitHeadTransaction (set_txn 0 (commit_transaction t) c)) (\<lambda>c.
          Inr (c\<lparr>deadlocks_faced := deadlocks_faced c + 1\<rparr>))
        else Inr c)
      else Inr c)"

subsection \<open>The trace\<close>

definition next_tok :: "token list \<Rightarrow> token \<times> token list" where
  "next_tok ts = (case ts of [] \<Rightarrow> (Token '''' 0 0, []) | t # ts' \<Rightarrow> (t, ts'))"

lemma next_tok_shorter: "next_tok ts = (op, ts') \<Longrightarrow> tok_text op \<noteq> [] \<Longrightarrow> length ts' < length ts"
  by (cases ts) (auto simp: next_tok_def)

lemma next_tok_le: "next_tok ts = (op, ts') \<Longrightarrow> length ts' \<le> length ts"
  by (cases ts) (auto simp: next_tok_def)

text \<open>
  The loop of \<open>setIdleRatio\<close> over the file for looking ahead: it ends at the next frame or at the
  end of the file. The result is the compute ticks and the idle nanoseconds until then, whether
  there is more to look at, and the rest of the file.
\<close>

function look_ahead :: "int \<Rightarrow> int \<Rightarrow> bool \<Rightarrow> token list \<Rightarrow> int \<times> int \<times> bool \<times> token list" where
  "look_ahead working idle again ts =
     (let (op, ts') = next_tok ts in
      if tok_text op = ''CPU'' then
        let (insns, ts') = next_tok ts'; (wait, ts') = next_tok ts'
        in look_ahead (working + tok_dec insns) (idle + tok_dec wait) again ts'
      else if tok_text op = ''MMU_ld'' \<or> tok_text op = ''MMU_st'' then look_ahead working idle again (drop 2 ts')
      else if tok_text op = ''CPUSummary'' then look_ahead working idle again (drop 4 ts')
      else if tok_text op = ''END'' then look_ahead working idle False ts'
      else if tok_text op = '''' then (working, idle, False, ts')
      else if contains ''FB-UP'' (tok_text op) then (working, idle, again, drop 2 ts')
      else look_ahead working idle again (drop 2 ts'))"
  by pat_completeness auto

termination
proof (relation "measure (\<lambda>(_, _, _, ts). length ts)")
  fix working idle again ts x op ts1 y insns ts2 z wait ts3
  assume "x = next_tok ts" "(op, ts1) = x" "tok_text op = ''CPU''" "y = next_tok ts1" "(insns, ts2) = y"
    "z = next_tok ts2" "(wait, ts3) = z"
  then have "length ts1 < length ts" "length ts2 \<le> length ts1" "length ts3 \<le> length ts2"
    using next_tok_shorter [of ts op ts1] next_tok_le [of ts1 insns ts2] next_tok_le [of ts2 wait ts3] by auto
  then show "((working + tok_dec insns, idle + tok_dec wait, again, ts3), working, idle, again, ts)
    \<in> measure (\<lambda>(_, _, _, ts). length ts)" by simp
qed (auto dest!: next_tok_shorter [OF sym])

definition setIdleRatio :: "GemDroidCore \<Rightarrow> GemDroidCore" where
  "setIdleRatio c =
     (let (working, idle, again, ts) = look_ahead 0 0 (needToLookAhead c) (lookahead_trace_file c);
          f = getCoreFreq c
      in c\<lparr>needToLookAhead := again, lookahead_trace_file := ts,
           qemu_to_60FPS_speedratio :=
             (if idle = 0 \<and> working = 0 then 0
              else (real_of_int idle * f) / (f * 1000000 * 16 - real_of_int working))\<rparr>)"

declare look_ahead.simps [simp del]

subsection \<open>Frames\<close>

definition isFrameDrop :: "GemDroid \<Rightarrow> GemDroidCore \<Rightarrow> bool \<times> GemDroidCore" where
  "isFrameDrop g c =
     (let c = c\<lparr>c_startCycle := 0, m_thisFrameRobFullStalls := 0, m_thisFrameMemFullStalls := 0,
                m_thisFrameIPFullStalls := 0\<rparr> in
      if type_of_application c = DISPLAY_BOUND \<or> type_of_application c = VIDEO_PLAYBACK then
        let ticksFromLastDC = to_int32 (gd_ticks g - lastDCTick c);
            c = c\<lparr>m_frameNumber := (m_frameNumber c)(IP_TYPE_DC := m_frameNumber c IP_TYPE_DC + 1)\<rparr> in
        if lastDCTick c = 0 then
          (False, c\<lparr>fpsStalls := trunc (FPS_TICKS - real_of_int (c_ticks c))\<rparr>)
        else if real_of_int ticksFromLastDC < FPS_TICKS then
          (False, c\<lparr>fpsStalls := trunc (FPS_TICKS - real_of_int ticksFromLastDC)\<rparr>)
        else
          let c = c\<lparr>lastDCTick := gd_ticks g, m_framesDropped := m_framesDropped c + 1\<rparr> in
          (True,
           if m_thisFrameRobFullStalls c > m_thisFrameMemFullStalls c \<and>
              m_thisFrameRobFullStalls c > m_thisFrameIPFullStalls c then
             c\<lparr>m_framesDroppedDueToRobStalls := m_framesDroppedDueToRobStalls c + 1\<rparr>
           else if m_thisFrameMemFullStalls c > m_thisFrameRobFullStalls c \<and>
                   m_thisFrameMemFullStalls c > m_thisFrameIPFullStalls c then
             c\<lparr>m_framesDroppedDueToMemStalls := m_framesDroppedDueToMemStalls c + 1\<rparr>
           else c\<lparr>m_framesDroppedDueToIPStalls := m_framesDroppedDueToIPStalls c + 1\<rparr>)
      else (False, c))"

definition isAudioFrameDrop :: "GemDroid \<Rightarrow> GemDroidCore \<Rightarrow> bool \<times> GemDroidCore" where
  "isAudioFrameDrop g c =
     (if type_of_application c = AUDIO_PLAYBACK then
        let ticksFromLastSND = to_int32 (gd_ticks g - lastSNDTick c);
            c = c\<lparr>m_frameNumber := (m_frameNumber c)(IP_TYPE_SND := m_frameNumber c IP_TYPE_SND + 1)\<rparr> in
        if lastSNDTick c = 0 then (False, c\<lparr>audFpsStalls := 1\<rparr>)
        else if real_of_int ticksFromLastSND < AUD_FPS_TICKS then
          (False, c\<lparr>audFpsStalls := to_int32 (trunc (AUD_FPS_TICKS - real_of_int ticksFromLastSND))\<rparr>)
        else (True, c\<lparr>lastSNDTick := gd_ticks g\<rparr>)
      else (False, c))"

subsection \<open>Reading the trace\<close>

definition processMMURequest :: "string \<Rightarrow> addr \<Rightarrow> GemDroidCore \<Rightarrow> GemDroidCore result" where
  "processMMURequest op addr c =
     (let index = searchInROB addr c; is_read = (op = ''MMU_ld'') in
      if index = -1 \<or> index = -2 then
        let c = c\<lparr>m_memReqs := m_memReqs c + 1\<rparr> in
        bindE (new_transaction (if is_read then INSTR_MMU_LD else INSTR_MMU_ST) 0 addr) (\<lambda>t.
        pushTransaction t c)
      else Inr c)"

definition count_calls :: "IP_TYPE list \<Rightarrow> GemDroidCore \<Rightarrow> GemDroidCore" where
  "count_calls ts c =
     c\<lparr>m_ipCallsPresentInTrace := fold (\<lambda>t f. f(t := f t + 1)) ts (m_ipCallsPresentInTrace c)\<rparr>"

text \<open>
  The first half of \<open>processIPCall\<close>: which IP is called, at which address, for how many bytes, as
  a read or a write and for which type of flow, or \<open>None\<close> where the function returns without a call.
\<close>

type_synonym ip_call = "IP_TYPE \<times> addr \<times> int \<times> bool \<times> IP_TYPE"

definition complete_cpu :: "GemDroidCore \<Rightarrow> real \<Rightarrow> int \<Rightarrow> GemDroid \<Rightarrow> GemDroid" where
  "complete_cpu c memFreq frameNum g =
     snd (markIPRequestCompleted memFreq (getCoreFreq c) (c_id c) IP_TYPE_CPU (c_id c) frameNum 0 g)"

definition fb_call ::
  "real \<Rightarrow> GemDroidCore \<Rightarrow> GemDroid \<Rightarrow> (ip_call option \<times> GemDroidCore \<times> GemDroid) result" where
  "fb_call memFreq c g =
     (let (shouldFrameDrop, c) = isFrameDrop g c;
          c = c\<lparr>m_readFBLine := True\<rparr>;
          finish = (\<lambda>t addr sz r c. Inr (Some (t, addr, sz, r, IP_TYPE_DC), count_calls [t] c,
                      complete_cpu c memFreq (m_frameNumber c t + 1) g)) in
      if shouldFrameDrop then finish IP_TYPE_DC DC0_ADDR_START FRAME_SIZE True c
      else
        bindE (nextIPtoCall (flowTable g) (app_id g (nat (c_id c))) IP_TYPE_CPU IP_TYPE_DC) (\<lambda>ips.
        let ip = ips ! 0 in
        if ip = int (ip_code IP_TYPE_VD) then
          finish IP_TYPE_VD VD_ADDR_START (FRAME_SIZE div VID_CODING_RATIO) True c
        else if ip = int (ip_code IP_TYPE_IMG) then
          finish IP_TYPE_IMG IMG_ADDR_START (FRAME_SIZE div 2) True c
        else if ip = int (ip_code IP_TYPE_VE) then finish IP_TYPE_VE VE_ADDR_START FRAME_SIZE True c
        else if ip = int (ip_code IP_TYPE_MMC_IN) then
          finish IP_TYPE_MMC_IN MMC_IN_ADDR_START (FRAME_SIZE div VID_CODING_RATIO) False c
        else if ip = int (ip_code IP_TYPE_DC) then finish IP_TYPE_DC DC0_ADDR_START FRAME_SIZE True c
        else Inr (None, c, complete_cpu c memFreq (m_frameNumber c IP_TYPE_DC + 1) g)))"

definition snd_call :: "GemDroidCore \<Rightarrow> GemDroid \<Rightarrow> (ip_call option \<times> GemDroidCore \<times> GemDroid) result" where
  "snd_call c g =
     (let c = snd (isAudioFrameDrop g c) in
      bindE (nextIPtoCall (flowTable g) (app_id g (nat (c_id c))) IP_TYPE_CPU IP_TYPE_SND) (\<lambda>ips.
      if ips ! 0 = int (ip_code IP_TYPE_MMC_IN) then
        Inr (Some (IP_TYPE_MMC_IN, MMC_IN_ADDR_START, AUD_FRAME_SIZE div AUD_CODING_RATIO, False, IP_TYPE_SND),
             count_calls [IP_TYPE_MMC_IN, IP_TYPE_AD, IP_TYPE_SND] c, g)
      else if ips ! 0 = -1 then Inr (None, c, g)
      else Inr (Some (IP_TYPE_AD, AD_ADDR_START, AUD_FRAME_SIZE, True, IP_TYPE_SND),
                count_calls [IP_TYPE_AD, IP_TYPE_SND] c, g)))"

definition select_call ::
  "real \<Rightarrow> string \<Rightarrow> GemDroidCore \<Rightarrow> GemDroid \<Rightarrow> (ip_call option \<times> GemDroidCore \<times> GemDroid) result" where
  "select_call memFreq op c g =
     (if contains ''FB-UP'' op then fb_call memFreq c g
      else if contains ''NW'' op then
        Inr (Some (IP_TYPE_NW, NW_ADDR_START, 1562, False, IP_TYPE_END), count_calls [IP_TYPE_NW] c, g)
      else if contains ''SND-IN'' op then snd_call c g
      else if contains ''SND-OUT'' op then
        Inr (Some (IP_TYPE_MIC, MIC_ADDR_START, AUD_FRAME_SIZE, False, IP_TYPE_MIC),
             count_calls [IP_TYPE_MIC, IP_TYPE_AE] c, g)
      else if contains ''CAM'' op then
        if \<not> m_readFBLine c then Inr (None, c, g)
        else Inr (Some (IP_TYPE_CAM, CAM_ADDR_START, FRAME_SIZE div 1, False, IP_TYPE_CAM),
                  (count_calls [IP_TYPE_CAM, IP_TYPE_IMG, IP_TYPE_DC] c)
                    \<lparr>m_readFBLine := False, em_trace_file := drop 3 (em_trace_file c)\<rparr>, g)
      else Inr (None, c, g))"

definition processIPCall ::
  "string \<Rightarrow> addr \<Rightarrow> int \<Rightarrow> GemDroidCore \<Rightarrow> 'd uncore \<Rightarrow> (GemDroidCore \<times> 'd uncore) result" where
  "processIPCall op addr sz c u =
     bindE (select_call (m_freq (mem u)) op c (gd u)) (\<lambda>(call, c, g).
     let u = u\<lparr>gd := g\<rparr> in
     case call of
       None \<Rightarrow> Inr (c, u)
     | Some (ip_master, addr, sz, r, ftype) \<Rightarrow>
         if isIPReqLimitReached ip_master (sa u) then
           Inr (c\<lparr>m_thisFrameIPFullStalls := m_thisFrameIPFullStalls c + 1\<rparr>, u)
         else
           let frameNum = m_frameNumber c ip_master;
               c = c\<lparr>m_ipReqs := m_ipReqs c + 1,
                     m_frameNumber := (m_frameNumber c)(ip_master := frameNum + 1)\<rparr> in
           bindE (flow_identification (flowTable g) (app_id g (nat (c_id c))) ip_master) (\<lambda>flows.
           bindE (enqueueCoreIPRequest (c_id c) ip_master addr sz r frameNum ftype (flows ! 0) (sa u)) (\<lambda>(ok, s).
           Inr (c, u\<lparr>sa := s\<rparr>))))"

definition core_base :: "int \<Rightarrow> int" where
  "core_base cid = (if cid < 2 then cid * 1024 * 1024 * 1024 else cdiv cid 6 * 1024 * 1024 * 1024)"

definition readLine :: "GemDroidCore \<Rightarrow> 'd uncore \<Rightarrow> (GemDroidCore \<times> 'd uncore) result" where
  "readLine c u =
     bindE (assertE ''isPStateActive'' (cpu_pstate c = CPU_PSTATE_ACTIVE)) (\<lambda>_.
     let (optok, ts) = next_tok (em_trace_file c);
         op = tok_text optok;
         c = c\<lparr>lines_read_cpu := lines_read_cpu c + 1, em_trace_file := ts\<rparr> in
     if op = ''CPU'' then
       let (insns, ts) = next_tok ts; (wait, ts) = next_tok ts;
           c = c\<lparr>em_trace_file := ts,
                 idleStalls := (if qemu_to_60FPS_speedratio c \<noteq> 0 then
                                  trunc (real_of_int (tok_dec wait) * getCoreFreq c / qemu_to_60FPS_speedratio c)
                                else 0)\<rparr>
       in bindE (addInstructions (tok_dec insns) c) (\<lambda>c. Inr (c, u))
     else if op = ''MMU_ld'' \<or> op = ''MMU_st'' then
       let (a, ts) = next_tok ts; (sz, ts) = next_tok ts
       in bindE (processMMURequest op (tok_hex a + of_int (core_base (c_id c))) (c\<lparr>em_trace_file := ts\<rparr>)) (\<lambda>c.
          Inr (c, u))
     else if op = ''CPUSummary'' then Inr (c\<lparr>em_trace_file := drop 4 ts\<rparr>, u)
     else if op = ''END'' then Inr (c\<lparr>true_fetch := False\<rparr>, u)
     else if op = '''' then Inr (c, u)
     else
       let (a, ts) = next_tok ts; (sz, ts) = next_tok ts in
       bindE (processIPCall op (tok_hex a) (tok_dec sz) (c\<lparr>em_trace_file := ts\<rparr>) u) (\<lambda>(c, u).
       Inr (if contains ''FB-UP'' op \<and> type_of_application c \<noteq> CORE_BOUND \<and> needToLookAhead c
            then setIdleRatio c else c, u)))"

subsection \<open>One tick\<close>

definition core_countPState :: "GemDroidCore \<Rightarrow> GemDroidCore" where
  "core_countPState c =
     (case cpu_pstate c of
        CPU_PSTATE_ACTIVE \<Rightarrow>
          c\<lparr>m_activePStateCycles := m_activePStateCycles c + 1,
            m_thisMilliSecActivePStateCycles := m_thisMilliSecActivePStateCycles c + 1,
            m_thisMicroSecActivePStateCycles := m_thisMicroSecActivePStateCycles c + 1\<rparr>
      | CPU_PSTATE_LOWPOWER \<Rightarrow>
          c\<lparr>m_lowpowerPStateCycles := m_lowpowerPStateCycles c + 1,
            m_thisMilliSecLowpowerPStateCycles := m_thisMilliSecLowpowerPStateCycles c + 1,
            m_thisMicroSecLowpowerPStateCycles := m_thisMicroSecLowpowerPStateCycles c + 1\<rparr>
      | CPU_PSTATE_IDLE \<Rightarrow>
          c\<lparr>m_idlePStateCycles := m_idlePStateCycles c + 1,
            m_thisMilliSecIdlePStateCycles := m_thisMilliSecIdlePStateCycles c + 1,
            m_thisMicroSecIdlePStateCycles := m_thisMicroSecIdlePStateCycles c + 1\<rparr>)"

text \<open>The entry of the idle state is compiled out (\<open>ENABLE_CORE_IDLE\<close> is 0).\<close>

definition core_fallAsleep :: "GemDroidCore \<Rightarrow> GemDroidCore result" where
  "core_fallAsleep c =
     (if cpu_pstate c = CPU_PSTATE_ACTIVE \<and> c_idleCycles c \<ge> CORE_PSTATE_LOWPOWER_ENTER_TIME then
        bindE (core_setPStateLowPower c) (\<lambda>c. Inr (c\<lparr>c_idleCycles := 0\<rparr>))
      else Inr c)"

definition core_exit_time :: "GemDroidCore \<Rightarrow> int" where
  "core_exit_time c =
     (case cpu_pstate c of
        CPU_PSTATE_LOWPOWER \<Rightarrow> CORE_PSTATE_LOWPOWER_EXIT_TIME
      | CPU_PSTATE_IDLE \<Rightarrow> CORE_PSTATE_IDLE_EXIT_TIME
      | CPU_PSTATE_ACTIVE \<Rightarrow> c_cyclesToWake c)"

definition fps_stall :: "GemDroidCore \<Rightarrow> GemDroid \<Rightarrow> GemDroidCore \<times> GemDroid" where
  "fps_stall c g =
     (let c = c\<lparr>m_fpsStallsCount := m_fpsStallsCount c + 1,
                fpsStalls := trunc (real_of_int (fpsStalls c) - GEMDROID_FREQ / getCoreFreq c),
                c_idleCycles := c_idleCycles c + 1, c_idleStreak := c_idleStreak c + 1\<rparr> in
      if fpsStalls c \<le> 0 then
        (c\<lparr>m_framesDisplayed := m_framesDisplayed c + 1, c_startCycle := 0, flagProfile := True,
           profileStartGemDroidCycle := gd_ticks g, m_profileRobFullStalls := 0,
           m_profileMemFullStalls := 0, m_profileStartCPUCycle := c_ticks c, lastDCTick := gd_ticks g,
           c_cyclesToWake := core_exit_time c\<rparr>,
         if cpu_pstate c = CPU_PSTATE_ACTIVE then markIPRequestStarted (c_id c) IP_TYPE_CPU (c_id c) 0 g else g)
      else (c, g))"

definition aud_stall :: "GemDroidCore \<Rightarrow> GemDroid \<Rightarrow> GemDroidCore" where
  "aud_stall c g =
     (let c = c\<lparr>audFpsStalls := trunc (real_of_int (audFpsStalls c) - GEMDROID_FREQ / getCoreFreq c),
                c_idleCycles := c_idleCycles c + 1, c_idleStreak := c_idleStreak c + 1\<rparr> in
      if audFpsStalls c \<le> 0 then
        c\<lparr>c_startCycle := 0, lastSNDTick := gd_ticks g, c_cyclesToWake := core_exit_time c\<rparr>
      else c)"

definition core_work :: "GemDroidCore \<Rightarrow> 'd uncore \<Rightarrow> (GemDroidCore \<times> 'd uncore) result" where
  "core_work c u =
     (let c = (if flagProfile c \<and> gd_ticks (gd u) \<ge> profileStartGemDroidCycle c + 300 * MICROSEC then
                 c\<lparr>m_profileActiveCycles := c_ticks c - m_profileStartCPUCycle c, flagProfile := False\<rparr>
               else c) in
      bindE (inOrderProcess c u) (\<lambda>(c, u).
      if number_of_instr_executed_OoO c < ROB_SIZE \<and> outstanding_transactions_size c < MAX_TRANSACTIONS
      then readLine c u else Inr (c, u)))"

text \<open>
  \<open>tick\<close>: the deadlock check (on every tick that is not a multiple of the period) and the residency
  counters; then waking up, or falling asleep and the three kinds of stalls, and otherwise work.
\<close>

definition core_proceed :: "GemDroidCore \<Rightarrow> 'd uncore \<Rightarrow> (GemDroidCore \<times> 'd uncore) result" where
  "core_proceed c u =
     (if c_cyclesToWake c > 0 then
        let c = c\<lparr>c_cyclesToWake := c_cyclesToWake c - 1\<rparr> in
        if c_cyclesToWake c = 0 then
          let (c, g) = core_setPStateActive c (gd u) in Inr (c, u\<lparr>gd := g\<rparr>)
        else Inr (c, u)
      else
        bindE (core_fallAsleep c) (\<lambda>c.
        if idleStalls c > 0 then
          Inr (c\<lparr>m_idleStallsCount := m_idleStallsCount c + 1,
                 m_thisMilliSecIdleStalls := m_thisMilliSecIdleStalls c + 1,
                 idleStalls := idleStalls c - 1\<rparr>, u)
        else if fpsStalls c > 0 then
          let (c, g) = fps_stall c (gd u) in Inr (c, u\<lparr>gd := g\<rparr>)
        else if audFpsStalls c > 0 then Inr (aud_stall c (gd u), u)
        else core_work c u))"

definition core_tick :: "GemDroidCore \<Rightarrow> 'd uncore \<Rightarrow> (GemDroidCore \<times> 'd uncore) result" where
  "core_tick c u =
     (let c = c\<lparr>c_ticks := c_ticks c + 1, m_cycles := m_cycles c + 1\<rparr> in
      bindE (if crem (c_ticks c) DEADLOCK_PERIOD \<noteq> 0 then checkDeadlock c else Inr c) (\<lambda>c.
      core_proceed (core_countPState c) u))"

definition core_app_type :: "string \<Rightarrow> APP_TYPE \<Rightarrow> APP_TYPE" where
  "core_app_type trace_name t =
     (if contains ''DISP'' trace_name then DISPLAY_BOUND
      else if contains ''VID'' trace_name then VIDEO_PLAYBACK
      else if contains ''AUD'' trace_name then AUDIO_PLAYBACK else t)"

text \<open>\<open>init\<close>; the frequency is in MHz, and \<open>trace\<close> is the content of the trace file (\<open>None\<close>: it cannot be opened).\<close>

definition core_init ::
  "int \<Rightarrow> string \<Rightarrow> token list option \<Rightarrow> int \<Rightarrow> int \<Rightarrow> nat \<Rightarrow> GemDroidCore \<Rightarrow> GemDroid \<Rightarrow> (GemDroidCore \<times> GemDroid) result" where
  "core_init cid trace_name trace core_freq optState iw c g =
     (let c = c\<lparr>c_id := cid, issue_width := iw,
                type_of_application := core_app_type trace_name (type_of_application c)\<rparr> in
      case trace of None \<Rightarrow> Inl (AssertFail ''0'')
      | Some ts \<Rightarrow>
          let c = c\<lparr>em_trace_file := ts, lookahead_trace_file := ts\<rparr>;
              c = (if type_of_application c \<noteq> CORE_BOUND then setIdleRatio c else c);
              (c, g) = core_setPStateActive c g in
          bindE (setCoreFreq (real_of_int core_freq / 1000) c) (\<lambda>c.
          Inr (c\<lparr>optDVFSState := optState\<rparr>, g)))"

subsection \<open>Specifications\<close>

text \<open>
  A transaction is well formed when its type is one the core creates, instructions carry no address
  and are never issued, and an access carries no instructions. The reorder buffer of an
  in-order core is well formed when its counter is right, it is not over its limit, and only its head
  may be at the memory.
\<close>

definition txn_ok :: "int \<Rightarrow> GemDroidOoOTransaction \<Rightarrow> bool" where
  "txn_ok now t \<longleftrightarrow> transaction_type t \<noteq> INSTR_OTHERS \<and>
     (transaction_type t = INSTR_CPU \<longrightarrow> tr_addr t = -1 \<and> \<not> isIssued t) \<and>
     (transaction_type t \<noteq> INSTR_CPU \<longrightarrow> number_of_instructions t = 0) \<and>
     (isIssued t \<longrightarrow> inserted_tick t \<le> now)"

definition rob_inv :: "GemDroidCore \<Rightarrow> bool" where
  "rob_inv c \<longleftrightarrow> outstanding_transactions_size c = int (length (outstanding_transactions c)) \<and>
     length (outstanding_transactions c) \<le> 100 \<and>
     (\<forall>t\<in>set (outstanding_transactions c). txn_ok (c_ticks c) t) \<and>
     (\<forall>t\<in>set (tl (outstanding_transactions c)). \<not> isIssued t)"

definition core_inv :: "GemDroidCore \<Rightarrow> bool" where
  "core_inv c \<longleftrightarrow> rob_inv c \<and> c_table c = core_table \<and>
     0 \<le> c_dvfsState c \<and> c_dvfsState c < CORE_DVFS_STATES \<and>
     0 \<le> optDVFSState c \<and> optDVFSState c < CORE_DVFS_STATES \<and>
     cpu_pstate c \<noteq> CPU_PSTATE_IDLE \<and> (0 < c_cyclesToWake c \<longrightarrow> cpu_pstate c = CPU_PSTATE_LOWPOWER) \<and>
     number_of_instr_executed_OoO c = 0"

text \<open>The faults that an assertion of the trace reader or an overrun flow array can raise.\<close>

definition core_faults :: "fault list" where
  "core_faults = [AssertFail ''isPStateActive'', AssertFail ''addr != 1'', OutOfBounds ''ips'', OutOfBounds ''flows'']"

text \<open>
  The ledger of instructions: what was committed, what was given up as a deadlock, and what the
  reorder buffer still holds, an access counting as one instruction.
\<close>

definition txn_work :: "GemDroidOoOTransaction \<Rightarrow> int" where
  "txn_work t = (if transaction_type t = INSTR_CPU then number_of_instructions t else 1)"

definition core_total :: "GemDroidCore \<Rightarrow> int" where
  "core_total c = m_committedInsns c + deadlocks_faced c + sum_list (map txn_work (outstanding_transactions c))"

text \<open>The requests the core has still to send, in program order.\<close>

definition unsent :: "GemDroidOoOTransaction \<Rightarrow> bool" where
  "unsent t \<longleftrightarrow> transaction_type t \<noteq> INSTR_CPU \<and> \<not> isIssued t"

definition txn_msg :: "int \<Rightarrow> GemDroidOoOTransaction \<Rightarrow> GemDroidMemMsg" where
  "txn_msg cid t = mem_msg IP_TYPE_CPU cid cid (tr_addr t) (transaction_type t = INSTR_MMU_LD) False"

definition pending :: "GemDroidCore \<Rightarrow> GemDroidMemMsg list" where
  "pending c = map (txn_msg (c_id c)) (filter unsent (outstanding_transactions c))"

text \<open>Only an access that was sent is answered.\<close>

definition answers_ok :: "GemDroidCore \<Rightarrow> bool" where
  "answers_ok c \<longleftrightarrow> (\<forall>t\<in>set (outstanding_transactions c). unsent t \<longrightarrow> \<not> can_be_committed t)"

text \<open>What a slot of \<open>inOrderProcess\<close> keeps.\<close>

definition slot_frame :: "GemDroidCore \<Rightarrow> 'd uncore \<Rightarrow> GemDroidCore \<Rightarrow> 'd uncore \<Rightarrow> bool" where
  "slot_frame c u c' u' \<longleftrightarrow>
     core_total c' = core_total c \<and> m_memReqs c' = m_memReqs c \<and> lines_read_cpu c' = lines_read_cpu c \<and>
     em_trace_file c' = em_trace_file c \<and> c_id c' = c_id c \<and>
     flowTable (gd u') = flowTable (gd u) \<and> app_id (gd u') = app_id (gd u) \<and> ipReq (sa u') = ipReq (sa u) \<and>
     (answers_ok c \<longrightarrow> answers_ok c' \<and>
        coreMemReq (sa u') @ pending c' = coreMemReq (sa u) @ pending c)"

text \<open>A core that has just been built, for the witnesses.\<close>

definition core_demo :: "token list \<Rightarrow> GemDroidCore" where
  "core_demo ts = new_GemDroidCore
     \<lparr>c_id = 0, issue_width = 2, c_ticks = 0, c_idleCycles = 0, c_cyclesToWake = 0, c_idleStreak = 0,
      cpu_pstate = CPU_PSTATE_ACTIVE, needToLookAhead = True, qemu_to_60FPS_speedratio = 0,
      em_trace_file = ts, lookahead_trace_file = ts, true_fetch = True, type_of_application = CORE_BOUND,
      idleStalls = 0, fpsStalls = 0, lastDCTick = 0, audFpsStalls = 0, lastSNDTick = 0, m_readFBLine = False,
      m_thisMilliSecActivePStateCycles = 0, m_thisMilliSecLowpowerPStateCycles = 0,
      m_thisMilliSecIdlePStateCycles = 0, m_thisMilliSecInstructionsCommitted = 0,
      m_thisMilliSecRobFullStalls = 0, m_thisMilliSecIdleStalls = 0,
      m_thisDVFSEpochInstructionsCommitted = 0, m_thisMicroSecActivePStateCycles = 0,
      m_thisMicroSecLowpowerPStateCycles = 0, m_thisMicroSecIdlePStateCycles = 0,
      m_thisMicroSecInstructionsCommitted = 0, m_thisMicroSecRobFullStalls = 0,
      outstanding_transactions = [], outstanding_transactions_size = 0, number_of_instr_executed_OoO = 0,
      deadlocks_faced = 0, c_table = [], c_dvfsCounter = 0, c_dvfsState = 7, optDVFSState = 6,
      c_powerInLastEpoch = 0, pstateTimer = 0, flagProfile = False, m_profileRobFullStalls = 0,
      m_profileMemFullStalls = 0, m_profileActiveCycles = 0, m_profileStartCPUCycle = 0,
      profileStartGemDroidCycle = 0, m_thisFrameRobFullStalls = 0, m_thisFrameMemFullStalls = 0,
      m_thisFrameIPFullStalls = 0, m_idleStallsCount = 0, m_fpsStallsCount = 0, m_framesDisplayed = 0,
      m_framesDropped = 0, m_framesDroppedDueToRobStalls = 0, m_framesDroppedDueToMemStalls = 0,
      m_framesDroppedDueToIPStalls = 0, m_FPS = 0, c_m_idleCycles = 0, m_committedInsns = 0, m_cycles = 0,
      m_memReqs = 0, m_ipReqs = 0, m_ipCallsPresentInTrace = (\<lambda>_. 0), m_ipResps = 0, lines_read_cpu = 0,
      m_activePStateCycles = 0, m_lowpowerPStateCycles = 0, m_idlePStateCycles = 0,
      m_frameNumber = (\<lambda>_. 0), c_startCycle = 0\<rparr>"

subsection \<open>Lemmas\<close>

interpretation core_vf: dvfs_table core_table
  unfolding core_table_def by (intro dvfs_table_vf_fill) simp_all

lemma length_core_table [simp]: "length core_table = 13"
  by (simp add: core_table_def)

lemmas rob_defs = core_total_def pending_def answers_ok_def rob_inv_def set_txn_def

lemma enqueueCoreMemRequest_frame:
  assumes "enqueueCoreMemRequest cid a r s = (ok, s')"
  shows "ipReq s' = ipReq s \<and>
    coreMemReq s' = coreMemReq s @ (if ok then [mem_msg IP_TYPE_CPU cid cid a r False] else [])"
  using assms by (auto simp: enqueueCoreMemRequest_def split: if_splits)

lemma rob_nonempty:
  assumes "rob_inv c" "outstanding_transactions_size c > 0"
  obtains t ts where "outstanding_transactions c = t # ts"
  using assms by (cases "outstanding_transactions c") (auto simp: rob_inv_def)

text \<open>Retiring the head, and replacing it.\<close>

lemma commitHeadTransaction_ok:
  assumes "outstanding_transactions c = t # ts" "can_be_committed t" "outstanding_transactions_size c > 0"
  shows "commitHeadTransaction c = Inr (c\<lparr>outstanding_transactions := ts,
    outstanding_transactions_size := outstanding_transactions_size c - 1\<rparr>)"
  using assms by (simp add: commitHeadTransaction_def)

lemma rob_inv_retire:
  assumes "rob_inv c" "outstanding_transactions c = t # ts"
  shows "rob_inv (c\<lparr>outstanding_transactions := ts,
    outstanding_transactions_size := outstanding_transactions_size c - 1\<rparr>)"
  using assms by (cases ts) (auto simp: rob_inv_def)

lemma rob_inv_head:
  assumes "rob_inv c" "outstanding_transactions c = t # ts" "txn_ok (c_ticks c) t'"
  shows "rob_inv (c\<lparr>outstanding_transactions := t' # ts\<rparr>)"
  using assms by (auto simp: rob_inv_def)

lemma slot_frame_refl: "slot_frame c u c u"
  by (simp add: slot_frame_def)

lemma slot_frame_trans: "slot_frame c u c' u' \<Longrightarrow> slot_frame c' u' c'' u'' \<Longrightarrow> slot_frame c u c'' u''"
  by (simp add: slot_frame_def)

text \<open>The branches of a slot, each with what it keeps.\<close>

lemma commit_one_ok:
  assumes "core_inv c" "outstanding_transactions c = t # ts" "transaction_type t = INSTR_CPU" "number_of_instructions t > 0"
  shows "\<exists>c' u'. commit_one 0 c u = Inr (c', u') \<and> core_inv c' \<and> slot_frame c u c' u'"
proof -
  let ?t = "t\<lparr>number_of_instructions := number_of_instructions t - 1, instr_executed_ooo := instr_executed_ooo t + 1\<rparr>"
  have "txn_ok (c_ticks c) ?t"
    using assms by (simp add: core_inv_def rob_inv_def txn_ok_def)
  then have "rob_inv (c\<lparr>outstanding_transactions := ?t # ts\<rparr>)"
    using assms rob_inv_head by (simp add: core_inv_def)
  moreover have "commit_one 0 c u = Inr (fst (updateStatInstructionCommit (set_txn 0 ?t c) (gd u)),
      u\<lparr>gd := snd (updateStatInstructionCommit (set_txn 0 ?t c) (gd u))\<rparr>)"
    using assms by (simp add: commit_one_def commit_instruction_def split_beta)
  ultimately show ?thesis
    using assms by (auto simp: core_inv_def updateStatInstructionCommit_def slot_frame_def rob_defs txn_work_def unsent_def)
qed

lemma retire_cpu_ok:
  assumes "core_inv c" "outstanding_transactions c = t # ts" "transaction_type t = INSTR_CPU" "number_of_instructions t = 0"
  shows "\<exists>c'. commitHeadTransaction (set_txn 0 (commit_transaction t) c) = Inr c' \<and> core_inv c' \<and> slot_frame c u c' u"
proof -
  have sz: "outstanding_transactions_size c > 0"
    using assms by (simp add: core_inv_def rob_inv_def)
  have "commitHeadTransaction (set_txn 0 (commit_transaction t) c) =
      Inr (c\<lparr>outstanding_transactions := ts, outstanding_transactions_size := outstanding_transactions_size c - 1\<rparr>)"
    using assms sz by (subst commitHeadTransaction_ok) (auto simp: set_txn_def commit_transaction_def)
  moreover note rob_inv_retire [OF _ assms(2)]
  ultimately show ?thesis
    using assms by (auto simp: core_inv_def slot_frame_def core_total_def pending_def answers_ok_def txn_work_def unsent_def)
qed

lemma commit_head_ok:
  assumes "core_inv c" "outstanding_transactions c = t # ts" "transaction_type t \<noteq> INSTR_CPU" "can_be_committed t"
  shows "\<exists>c' u'. commit_head (c\<lparr>c_idleCycles := 0\<rparr>) u = Inr (c', u') \<and> core_inv c' \<and> slot_frame c u c' u'"
proof -
  have sz: "outstanding_transactions_size c > 0"
    using assms by (simp add: core_inv_def rob_inv_def)
  have "commitHeadTransaction (c\<lparr>c_idleCycles := 0\<rparr>) =
      Inr (c\<lparr>c_idleCycles := 0, outstanding_transactions := ts,
             outstanding_transactions_size := outstanding_transactions_size c - 1\<rparr>)"
    using assms sz by (subst commitHeadTransaction_ok) auto
  moreover have "rob_inv (c\<lparr>outstanding_transactions := ts, outstanding_transactions_size := outstanding_transactions_size c - 1\<rparr>)"
    using assms rob_inv_retire by (simp add: core_inv_def)
  ultimately show ?thesis
    using assms by (auto simp: commit_head_def core_inv_def rob_inv_def updateStatInstructionCommit_def slot_frame_def
        core_total_def pending_def answers_ok_def txn_work_def unsent_def)
qed

lemma issue_txn_ok:
  assumes "core_inv c" "outstanding_transactions c = t # ts" "transaction_type t \<noteq> INSTR_CPU" "\<not> isIssued t"
  shows "\<exists>c' u'. issue_txn 0 mem_full_stall c u = Inr (c', u') \<and> core_inv c' \<and> slot_frame c u c' u'"
proof -
  obtain ok s where e: "enqueueCoreMemRequest (c_id c) (tr_addr t) (transaction_type t = INSTR_MMU_LD) (sa u) = (ok, s)"
    by fastforce
  have ok: "txn_ok (c_ticks c) t" using assms by (simp add: core_inv_def rob_inv_def)
  then have "rob_inv (c\<lparr>outstanding_transactions := issueToMem (c_ticks c) t # ts\<rparr>)"
    using assms by (intro rob_inv_head) (auto simp: core_inv_def txn_ok_def issueToMem_def)
  then show ?thesis
    using assms ok enqueueCoreMemRequest_frame [OF e]
    by (auto simp: issue_txn_def tr_isRead_def e core_inv_def slot_frame_def rob_defs txn_work_def unsent_def
        mem_full_stall_def issueToMem_def txn_msg_def)
qed

lemma rob_full_stall_ok: "core_inv c \<Longrightarrow> core_inv (rob_full_stall c) \<and> slot_frame c u (rob_full_stall c) u"
  by (simp add: core_inv_def rob_full_stall_def slot_frame_def rob_defs)

lemma inOrder_slot_ok:
  assumes "core_inv c"
  shows "\<exists>c' u'. inOrder_slot c u = Inr (c', u') \<and> core_inv c' \<and> slot_frame c u c' u'"
proof (cases "outstanding_transactions_size c > 0")
  case True
  then obtain t ts where t: "outstanding_transactions c = t # ts"
    using assms rob_nonempty by (auto simp: core_inv_def)
  have "\<not> number_of_instructions t > 0 \<Longrightarrow> number_of_instructions t \<noteq> 0 \<Longrightarrow> transaction_type t = INSTR_CPU \<Longrightarrow> ?thesis"
    using assms True t by (simp add: inOrder_slot_def slot_frame_refl)
  moreover note commit_one_ok [OF assms t, of u] retire_cpu_ok [OF assms t, of u] commit_head_ok [OF assms t, of u]
    issue_txn_ok [OF assms t, of u] rob_full_stall_ok [OF assms, of u]
  ultimately show ?thesis
    using True t by (auto simp: inOrder_slot_def)
next
  case False
  with assms show ?thesis
    by (auto simp: inOrder_slot_def core_inv_def slot_frame_def rob_defs)
qed

lemma inOrder_loop_ok:
  "core_inv c \<Longrightarrow> \<exists>c' u'. inOrder_loop j c u = Inr (c', u') \<and> core_inv c' \<and> slot_frame c u c' u'"
proof (induction j arbitrary: c u)
  case 0
  then show ?case by (simp add: slot_frame_refl)
next
  case (Suc j)
  obtain c1 u1 where 1: "inOrder_slot c u = Inr (c1, u1)" "core_inv c1" "slot_frame c u c1 u1"
    using inOrder_slot_ok [OF Suc.prems] by blast
  with Suc.IH [of c1 u1] show ?case
    by (auto intro: slot_frame_trans)
qed

lemma inOrderProcess_ok:
  "core_inv c \<Longrightarrow> \<exists>c' u'. inOrderProcess c u = Inr (c', u') \<and> core_inv c' \<and> slot_frame c u c' u'"
  by (simp add: inOrderProcess_def inOrder_loop_ok)

lemma checkDeadlock_ok:
  assumes "core_inv c"
  shows "\<exists>c'. checkDeadlock c = Inr c' \<and> core_inv c' \<and> slot_frame c u c' u \<and>
    c_cyclesToWake c' = c_cyclesToWake c \<and> c_idleCycles c' = c_idleCycles c"
proof (cases "outstanding_transactions_size c > 0")
  case True
  then obtain t ts where t: "outstanding_transactions c = t # ts"
    using assms rob_nonempty by (auto simp: core_inv_def)
  have "commitHeadTransaction (set_txn 0 (commit_transaction t) c) =
      Inr (c\<lparr>outstanding_transactions := ts, outstanding_transactions_size := outstanding_transactions_size c - 1\<rparr>)"
    using t True by (subst commitHeadTransaction_ok) (auto simp: set_txn_def commit_transaction_def)
  moreover have "rob_inv (c\<lparr>outstanding_transactions := ts, outstanding_transactions_size := outstanding_transactions_size c - 1\<rparr>)"
    using assms t rob_inv_retire by (simp add: core_inv_def)
  ultimately show ?thesis
    using assms True t
    by (auto simp: checkDeadlock_def core_inv_def slot_frame_def core_total_def pending_def answers_ok_def
        txn_work_def unsent_def rob_inv_def)
next
  case False
  with assms show ?thesis by (simp add: checkDeadlock_def slot_frame_refl)
qed

text \<open>What the reorder buffer, the ledgers and the invariant depend on; device calls leave it alone.\<close>

definition rob_view :: "GemDroidCore \<Rightarrow> GemDroidOoOTransaction list \<times> int list \<times> vf_row list \<times> CPU_PSTATE" where
  "rob_view c = (outstanding_transactions c,
     [outstanding_transactions_size c, number_of_instr_executed_OoO c, c_dvfsState c, optDVFSState c,
      c_cyclesToWake c, c_ticks c, m_committedInsns c, deadlocks_faced c, m_memReqs c, lines_read_cpu c, c_id c],
     c_table c, cpu_pstate c)"

lemma rob_view_cong:
  assumes "rob_view c' = rob_view c"
  shows "core_inv c' = core_inv c" "core_total c' = core_total c" "pending c' = pending c"
    "answers_ok c' = answers_ok c" "m_memReqs c' = m_memReqs c" "lines_read_cpu c' = lines_read_cpu c" "c_id c' = c_id c"
    "cpu_pstate c' = cpu_pstate c"
  using assms by (simp_all add: rob_view_def core_inv_def rob_defs)

lemma rob_view_isFrameDrop [simp, frame_simps]: "rob_view (snd (isFrameDrop g c)) = rob_view c"
  by (simp add: isFrameDrop_def Let_def rob_view_def)

lemma rob_view_isAudioFrameDrop [simp, frame_simps]: "rob_view (snd (isAudioFrameDrop g c)) = rob_view c"
  by (simp add: isAudioFrameDrop_def Let_def rob_view_def)

lemma rob_view_setIdleRatio [simp, frame_simps]: "rob_view (setIdleRatio c) = rob_view c"
  by (simp add: setIdleRatio_def Let_def rob_view_def split_beta)

lemma rob_view_count_calls [simp, frame_simps]: "rob_view (count_calls ts c) = rob_view c"
  by (simp add: count_calls_def rob_view_def)

lemma rob_view_fields [simp, frame_simps]:
  "rob_view (c\<lparr>m_readFBLine := b\<rparr>) = rob_view c"
  "rob_view (c\<lparr>em_trace_file := ts\<rparr>) = rob_view c"
  "rob_view (c\<lparr>m_thisFrameIPFullStalls := n\<rparr>) = rob_view c"
  "rob_view (c\<lparr>m_ipReqs := n\<rparr>) = rob_view c"
  "rob_view (c\<lparr>m_frameNumber := f\<rparr>) = rob_view c"
  "rob_view (c\<lparr>idleStalls := n\<rparr>) = rob_view c"
  "rob_view (c\<lparr>true_fetch := b\<rparr>) = rob_view c"
  by (simp_all add: rob_view_def)

lemma nextIPtoCall_faults:
  assumes "wf_flowTable tbl"
  shows "(\<exists>ips. nextIPtoCall tbl a t ft = Inr ips) \<or> nextIPtoCall tbl a t ft = Inl (OutOfBounds ''ips'')"
proof -
  have "tbl ! app_code a \<in> set tbl"
    using assms by (simp add: wf_flowTable_def)
  then have "\<forall>row\<in>set (tbl ! app_code a). row \<noteq> []"
    using assms by (fastforce simp: wf_flowTable_def)
  from next_in_flows_spec [OF this, of "[]" "int (ip_code t)" "int (ip_code ft)"]
  show ?thesis by (auto simp: nextIPtoCall_def Let_def)
qed

lemma flow_identification_faults:
  "(\<exists>f. flow_identification tbl a t = Inr f) \<or> flow_identification tbl a t = Inl (OutOfBounds ''flows'')"
  using ident_in_flows_spec [of "[]" "tbl ! app_code a" "int (ip_code t)" 0]
  by (auto simp: flow_identification_def Let_def)

text \<open>Choosing the IP to call: a call never goes to a core or to the end marker.\<close>

definition call_ok :: "GemDroidCore \<Rightarrow> GemDroid \<Rightarrow> (ip_call option \<times> GemDroidCore \<times> GemDroid) result \<Rightarrow> bool" where
  "call_ok c g r = (case r of
     Inl e \<Rightarrow> e = OutOfBounds ''ips''
   | Inr (call, c', g') \<Rightarrow> rob_view c' = rob_view c \<and> flowTable g' = flowTable g \<and> app_id g' = app_id g \<and>
       (case call of None \<Rightarrow> True | Some (t, _) \<Rightarrow> t \<noteq> IP_TYPE_CPU \<and> t \<noteq> IP_TYPE_END))"

lemma complete_cpu_frame [simp, frame_simps]:
  "flowTable (complete_cpu c m n g) = flowTable g" "app_id (complete_cpu c m n g) = app_id g"
  by (simp_all add: complete_cpu_def)

lemma fb_call_ok:
  assumes "wf_flowTable (flowTable g)"
  shows "call_ok c g (fb_call memFreq c g)"
proof -
  obtain d c1 where fd: "isFrameDrop g c = (d, c1)" by fastforce
  with rob_view_isFrameDrop [of g c] have v: "rob_view c1 = rob_view c" by simp
  then show ?thesis
    using nextIPtoCall_faults [OF assms, of "app_id g (nat (c_id c1))" IP_TYPE_CPU IP_TYPE_DC]
    by (auto simp: fb_call_def fd Let_def call_ok_def)
qed

lemma snd_call_ok:
  assumes "wf_flowTable (flowTable g)"
  shows "call_ok c g (snd_call c g)"
  using nextIPtoCall_faults [OF assms, of "app_id g (nat (c_id (snd (isAudioFrameDrop g c))))" IP_TYPE_CPU IP_TYPE_SND]
  by (auto simp: snd_call_def Let_def call_ok_def)

lemma select_call_ok:
  assumes "wf_flowTable (flowTable g)"
  shows "call_ok c g (select_call memFreq op c g)"
  using fb_call_ok [OF assms, of c memFreq] snd_call_ok [OF assms, of c]
  by (auto simp: select_call_def call_ok_def)

lemma processIPCall_ok:
  fixes u :: "'d uncore"
  assumes "wf_flowTable (flowTable (gd u))" "processIPCall op addr sz c u = r"
  shows "(\<exists>e. r = Inl e \<and> (e = OutOfBounds ''ips'' \<or> e = OutOfBounds ''flows'')) \<or>
    (\<exists>c' u'. r = Inr (c', u') \<and> rob_view c' = rob_view c \<and> coreMemReq (sa u') = coreMemReq (sa u))"
proof (cases "select_call (m_freq (mem u)) op c (gd u)")
  case (Inl e)
  with select_call_ok [OF assms(1), of c "m_freq (mem u)" op] show ?thesis
    using assms(2) by (auto simp: processIPCall_def call_ok_def)
next
  case (Inr x)
  then obtain call c1 g1 where x: "select_call (m_freq (mem u)) op c (gd u) = Inr (call, c1, g1)"
    by (cases x) auto
  with select_call_ok [OF assms(1), of c "m_freq (mem u)" op]
  have 1: "rob_view c1 = rob_view c" "case call of None \<Rightarrow> True | Some (t, _) \<Rightarrow> t \<noteq> IP_TYPE_CPU \<and> t \<noteq> IP_TYPE_END"
    by (simp_all add: call_ok_def)
  show ?thesis
  proof (cases call)
    case None
    with x 1 show ?thesis using assms(2) by (auto simp: processIPCall_def)
  next
    case (Some y)
    obtain t a n rd ft where y: "y = (t, a, n, rd, ft)" by (cases y)
    show ?thesis
      using assms(2) 1 flow_identification_faults [of "flowTable g1" "app_id g1 (nat (c_id c1))" t]
      by (cases "isIPReqLimitReached t (sa u)")
        (auto simp: processIPCall_def x Some y Let_def isIPReqLimitReached_def enqueueCoreIPRequest_def)
  qed
qed

definition line_op :: "GemDroidCore \<Rightarrow> string" where
  "line_op c = tok_text (fst (next_tok (em_trace_file c)))"

definition line_arg :: "GemDroidCore \<Rightarrow> token" where
  "line_arg c = fst (next_tok (snd (next_tok (em_trace_file c))))"

definition line_msg :: "GemDroidCore \<Rightarrow> GemDroidMemMsg" where
  "line_msg c = mem_msg IP_TYPE_CPU (c_id c) (c_id c) (tok_hex (line_arg c) + of_int (core_base (c_id c)))
     (line_op c = ''MMU_ld'') False"

text \<open>What reading a line brings: instructions, or at most one access.\<close>

definition read_frame :: "GemDroidCore \<Rightarrow> 'd uncore \<Rightarrow> GemDroidCore \<Rightarrow> 'd uncore \<Rightarrow> bool" where
  "read_frame c u c' u' \<longleftrightarrow>
     core_total c' = core_total c +
       (if line_op c = ''CPU'' then tok_dec (line_arg c) else m_memReqs c' - m_memReqs c) \<and>
     lines_read_cpu c' = lines_read_cpu c + 1 \<and> coreMemReq (sa u') = coreMemReq (sa u) \<and>
     (answers_ok c \<longrightarrow> answers_ok c') \<and>
     (\<exists>new. pending c' = pending c @ new \<and> int (length new) = m_memReqs c' - m_memReqs c \<and>
        (new = [] \<or> new = [line_msg c] \<and> line_op c \<in> {''MMU_ld'', ''MMU_st''}))"

lemma pushTransaction_ok:
  assumes "rob_inv c" "outstanding_transactions_size c < 100" "txn_ok (c_ticks c) t" "\<not> isIssued t"
  shows "\<exists>c'. pushTransaction t c = Inr c' \<and> rob_inv c' \<and>
    c' = c\<lparr>outstanding_transactions := outstanding_transactions c @ [t],
           outstanding_transactions_size := outstanding_transactions_size c + 1\<rparr>"
  using assms by (cases "outstanding_transactions c") (auto simp: pushTransaction_def rob_inv_def)

lemma addInstructions_ok:
  assumes "core_inv c" "outstanding_transactions_size c < 100"
  shows "\<exists>c'. addInstructions n c = Inr c' \<and> core_inv c' \<and> core_total c' = core_total c + n \<and>
    lines_read_cpu c' = lines_read_cpu c \<and> m_memReqs c' = m_memReqs c \<and> pending c' = pending c \<and>
    (answers_ok c \<longrightarrow> answers_ok c')"
proof -
  let ?t = "\<lparr>transaction_type = INSTR_CPU, number_of_instructions = n, instr_executed_ooo = 0, tr_addr = - 1,
    can_be_committed = False, inserted_tick = -1, isIssued = False\<rparr>"
  obtain c' where "pushTransaction ?t c = Inr c'" "rob_inv c'"
    "c' = c\<lparr>outstanding_transactions := outstanding_transactions c @ [?t],
      outstanding_transactions_size := outstanding_transactions_size c + 1\<rparr>"
    using assms pushTransaction_ok [of c ?t] by (auto simp: core_inv_def txn_ok_def)
  then show ?thesis
    using assms by (auto simp: addInstructions_def new_transaction_def core_inv_def core_total_def pending_def
        answers_ok_def txn_work_def unsent_def)
qed

lemma processMMURequest_ok:
  assumes "core_inv c" "outstanding_transactions_size c < 100" "processMMURequest op a c = r"
  shows "(r = Inl (AssertFail ''addr != 1'')) \<or>
    (\<exists>c' new. r = Inr c' \<and> core_inv c' \<and> core_total c' = core_total c + (m_memReqs c' - m_memReqs c) \<and>
       lines_read_cpu c' = lines_read_cpu c \<and> (answers_ok c \<longrightarrow> answers_ok c') \<and> pending c' = pending c @ new \<and>
       int (length new) = m_memReqs c' - m_memReqs c \<and>
       (new = [] \<or> new = [mem_msg IP_TYPE_CPU (c_id c) (c_id c) a (op = ''MMU_ld'') False]))"
proof (cases "searchInROB a c = -1 \<or> searchInROB a c = -2")
  case True
  let ?t = "\<lparr>transaction_type = if op = ''MMU_ld'' then INSTR_MMU_LD else INSTR_MMU_ST, number_of_instructions = 0,
    instr_executed_ooo = 0, tr_addr = a, can_be_committed = False, inserted_tick = -1, isIssued = False\<rparr>"
  let ?c = "c\<lparr>m_memReqs := m_memReqs c + 1\<rparr>"
  have t: "txn_ok (c_ticks ?c) ?t" "rob_inv ?c" using assms(1) by (auto simp: txn_ok_def core_inv_def rob_inv_def)
  then obtain c' where c': "pushTransaction ?t ?c = Inr c'" "rob_inv c'"
    "c' = ?c\<lparr>outstanding_transactions := outstanding_transactions c @ [?t],
      outstanding_transactions_size := outstanding_transactions_size c + 1\<rparr>"
    using assms(2) pushTransaction_ok [of ?c ?t] by auto
  have "core_inv c'" using c' assms(1) by (simp add: core_inv_def)
  moreover have "pending c' = pending c @ [mem_msg IP_TYPE_CPU (c_id c) (c_id c) a (op = ''MMU_ld'') False]"
    using c'(3) by (simp add: pending_def unsent_def txn_msg_def)
  moreover have "core_total c' = core_total c + 1" "answers_ok c \<longrightarrow> answers_ok c'"
    using c'(3) by (auto simp: core_total_def txn_work_def answers_ok_def)
  ultimately show ?thesis
    using assms(3) True c'(1,3) by (cases "a = 1") (auto simp: processMMURequest_def Let_def new_transaction_def)
next
  case False
  with assms show ?thesis by (auto simp: processMMURequest_def Let_def)
qed

text \<open>The shapes of \<open>readLine\<close> on an active core.\<close>

lemma readLine_CPU:
  assumes "line_op c = ''CPU''" "cpu_pstate c = CPU_PSTATE_ACTIVE"
  shows "\<exists>ts st. readLine c u = bindE (addInstructions (tok_dec (line_arg c))
    (c\<lparr>lines_read_cpu := lines_read_cpu c + 1, em_trace_file := ts, idleStalls := st\<rparr>)) (\<lambda>c. Inr (c, u))"
  using assms unfolding readLine_def line_op_def line_arg_def by (simp add: Let_def split_beta) blast

lemma readLine_MMU:
  assumes "line_op c \<in> {''MMU_ld'', ''MMU_st''}" "cpu_pstate c = CPU_PSTATE_ACTIVE"
  shows "\<exists>ts. readLine c u = bindE (processMMURequest (line_op c) (tok_hex (line_arg c) + of_int (core_base (c_id c)))
    (c\<lparr>lines_read_cpu := lines_read_cpu c + 1, em_trace_file := ts\<rparr>)) (\<lambda>c. Inr (c, u))"
  using assms unfolding readLine_def line_op_def line_arg_def by (auto simp add: Let_def split_beta)

lemma readLine_skip:
  assumes "line_op c \<in> {''CPUSummary'', ''END'', ''''}" "cpu_pstate c = CPU_PSTATE_ACTIVE"
  shows "\<exists>c'. readLine c u = Inr (c', u) \<and> rob_view c' = rob_view (c\<lparr>lines_read_cpu := lines_read_cpu c + 1\<rparr>)"
  using assms unfolding readLine_def line_op_def by (elim insertE) (simp_all add: Let_def split_beta rob_view_def)

lemma readLine_IP:
  assumes "line_op c \<notin> {''CPU'', ''MMU_ld'', ''MMU_st'', ''CPUSummary'', ''END'', ''''}"
    "cpu_pstate c = CPU_PSTATE_ACTIVE"
  shows "\<exists>ts. readLine c u =
    bindE (processIPCall (line_op c) (tok_hex (line_arg c))
             (tok_dec (fst (next_tok (snd (next_tok (snd (next_tok (em_trace_file c))))))))
             (c\<lparr>lines_read_cpu := lines_read_cpu c + 1, em_trace_file := ts\<rparr>) u) (\<lambda>(c', u').
    Inr (if contains ''FB-UP'' (line_op c) \<and> type_of_application c' \<noteq> CORE_BOUND \<and> needToLookAhead c'
         then setIdleRatio c' else c', u'))"
  using assms by (auto simp: readLine_def line_op_def line_arg_def Let_def split_beta)

lemma readLine_ok:
  fixes u :: "'d uncore"
  assumes inv: "core_inv c" and room: "outstanding_transactions_size c < 100"
    and wf: "wf_flowTable (flowTable (gd u))" and r: "readLine c u = r"
  shows "(\<exists>e. r = Inl e \<and> e \<in> set core_faults) \<or> (\<exists>c' u'. r = Inr (c', u') \<and> core_inv c' \<and> read_frame c u c' u')"
proof -
  let ?c1 = "\<lambda>ts st. c\<lparr>lines_read_cpu := lines_read_cpu c + 1, em_trace_file := ts, idleStalls := st\<rparr>"
  let ?c2 = "\<lambda>ts. c\<lparr>lines_read_cpu := lines_read_cpu c + 1, em_trace_file := ts\<rparr>"
  have v1: "core_inv (?c1 ts st)" "core_total (?c1 ts st) = core_total c" "pending (?c1 ts st) = pending c"
    "answers_ok (?c1 ts st) = answers_ok c" for ts st
    using inv by (simp_all add: core_inv_def rob_defs)
  have v2: "core_inv (?c2 ts)" "core_total (?c2 ts) = core_total c" "pending (?c2 ts) = pending c"
    "answers_ok (?c2 ts) = answers_ok c" for ts
    using inv by (simp_all add: core_inv_def rob_defs)
  consider (sleep) "cpu_pstate c \<noteq> CPU_PSTATE_ACTIVE"
    | (cpu) "cpu_pstate c = CPU_PSTATE_ACTIVE" "line_op c = ''CPU''"
    | (mmu) "cpu_pstate c = CPU_PSTATE_ACTIVE" "line_op c \<in> {''MMU_ld'', ''MMU_st''}"
    | (skip) "cpu_pstate c = CPU_PSTATE_ACTIVE" "line_op c \<in> {''CPUSummary'', ''END'', ''''}"
    | (ip) "cpu_pstate c = CPU_PSTATE_ACTIVE" "line_op c \<notin> {''CPU'', ''MMU_ld'', ''MMU_st'', ''CPUSummary'', ''END'', ''''}"
    by blast
  then show ?thesis
  proof cases
    case sleep
    with r show ?thesis by (auto simp: readLine_def core_faults_def)
  next
    case cpu
    then obtain ts st where "readLine c u = bindE (addInstructions (tok_dec (line_arg c)) (?c1 ts st)) (\<lambda>c. Inr (c, u))"
      using readLine_CPU by blast
    with addInstructions_ok [OF v1(1) [where ts = ts and st = st], of "tok_dec (line_arg c)"] room r v1 cpu show ?thesis
      by (fastforce simp: read_frame_def)
  next
    case mmu
    then obtain ts where e: "readLine c u = bindE (processMMURequest (line_op c)
        (tok_hex (line_arg c) + of_int (core_base (c_id c))) (?c2 ts)) (\<lambda>c. Inr (c, u))"
      using readLine_MMU by blast
    from processMMURequest_ok [OF v2(1) [of ts] _ refl, of "line_op c" "tok_hex (line_arg c) + of_int (core_base (c_id c))"] room
    consider "readLine c u = Inl (AssertFail ''addr != 1'')"
      | c' new where "readLine c u = Inr (c', u)" "core_inv c'" "core_total c' = core_total c + (m_memReqs c' - m_memReqs c)"
        "lines_read_cpu c' = lines_read_cpu c + 1" "answers_ok c \<longrightarrow> answers_ok c'" "pending c' = pending c @ new"
        "int (length new) = m_memReqs c' - m_memReqs c" "new = [] \<or> new = [line_msg c]"
      unfolding e by (auto simp: v2 line_msg_def)
    then show ?thesis
    proof cases
      case 1
      with r show ?thesis by (auto simp: core_faults_def)
    next
      case (2 c' new)
      have "read_frame c u c' u"
        using mmu(2) 2 by (simp add: read_frame_def) (intro conjI impI exI [of _ new], auto)
      with 2 r show ?thesis by auto
    qed
  next
    case skip
    then obtain c' where c': "readLine c u = Inr (c', u)" "rob_view c' = rob_view (?c2 [])"
      using readLine_skip [of c u] by auto
    with rob_view_cong [OF c'(2)] v2 [of "[]"] r skip(2) show ?thesis
      by (auto simp: read_frame_def)
  next
    case ip
    from readLine_IP [OF ip(2,1), of u] obtain ts sz where e: "readLine c u =
      bindE (processIPCall (line_op c) (tok_hex (line_arg c)) sz (?c2 ts) u) (\<lambda>(c', u').
        Inr (if contains ''FB-UP'' (line_op c) \<and> type_of_application c' \<noteq> CORE_BOUND \<and> needToLookAhead c'
             then setIdleRatio c' else c', u'))" by blast
    from processIPCall_ok [OF wf refl, of "line_op c" "tok_hex (line_arg c)" sz "?c2 ts"]
    consider e' where "processIPCall (line_op c) (tok_hex (line_arg c)) sz (?c2 ts) u = Inl e'"
        "e' = OutOfBounds ''ips'' \<or> e' = OutOfBounds ''flows''"
      | c' u' where "processIPCall (line_op c) (tok_hex (line_arg c)) sz (?c2 ts) u = Inr (c', u')"
        "rob_view c' = rob_view (?c2 ts)" "coreMemReq (sa u') = coreMemReq (sa u)" by blast
    then show ?thesis
    proof cases
      case 1
      with r e show ?thesis by (auto simp: core_faults_def)
    next
      case 2
      let ?c' = "if contains ''FB-UP'' (line_op c) \<and> type_of_application c' \<noteq> CORE_BOUND \<and> needToLookAhead c'
             then setIdleRatio c' else c'"
      have "rob_view ?c' = rob_view (?c2 ts)" using 2(2) by simp
      from rob_view_cong [OF this] v2 2 r e ip(2) show ?thesis
        by (auto simp: read_frame_def)
    qed
  qed
qed

text \<open>The stages of a tick before work.\<close>

lemma txn_ok_later: "txn_ok n t \<Longrightarrow> n \<le> m \<Longrightarrow> txn_ok m t"
  by (auto simp: txn_ok_def)

lemma core_clock_ok:
  assumes "core_inv c"
  shows "core_inv (c\<lparr>c_ticks := c_ticks c + 1, m_cycles := m_cycles c + 1\<rparr>) \<and>
    slot_frame c u (c\<lparr>c_ticks := c_ticks c + 1, m_cycles := m_cycles c + 1\<rparr>) u"
  using assms txn_ok_later [of "c_ticks c" _ "c_ticks c + 1"] by (simp add: core_inv_def rob_defs slot_frame_def)

lemma core_countPState_sel [simp, frame_simps]:
  "rob_view (core_countPState c) = rob_view c"
  "em_trace_file (core_countPState c) = em_trace_file c"
  "c_idleCycles (core_countPState c) = c_idleCycles c"
  "fpsStalls (core_countPState c) = fpsStalls c"
  "idleStalls (core_countPState c) = idleStalls c"
  "m_framesDisplayed (core_countPState c) = m_framesDisplayed c"
  by (simp_all add: core_countPState_def rob_view_def split: CPU_PSTATE.splits)

lemma slot_frame_view: "rob_view c' = rob_view c \<Longrightarrow> em_trace_file c' = em_trace_file c \<Longrightarrow> slot_frame c u c' u"
  using rob_view_cong [of c' c] by (simp add: slot_frame_def)

lemma core_countPState_ok: "core_inv c \<Longrightarrow> core_inv (core_countPState c) \<and> slot_frame c u (core_countPState c) u"
  using rob_view_cong(1) [of "core_countPState c" c] slot_frame_view [of "core_countPState c" c u] by simp

lemma core_setPStateActive_ok:
  assumes "core_inv c" "c_cyclesToWake c = 0" "core_setPStateActive c (gd u) = (c', g)"
  shows "core_inv c' \<and> slot_frame c u c' (u\<lparr>gd := g\<rparr>)"
  using assms by (cases "governor (gd u) = GOVERNOR_TYPE_INTERACTIVE"; cases "governor (gd u) = GOVERNOR_TYPE_POWERCAP")
    (auto simp: core_setPStateActive_def Let_def core_inv_def rob_defs slot_frame_def setMaxCoreFreq_def setOptCoreFreq_def)

lemma core_fallAsleep_ok:
  assumes "core_inv c" "\<not> 0 < c_cyclesToWake c"
  shows "\<exists>c'. core_fallAsleep c = Inr c' \<and> core_inv c' \<and> slot_frame c u c' u \<and> \<not> 0 < c_cyclesToWake c'"
  using assms by (auto simp: core_fallAsleep_def core_setPStateLowPower_def core_inv_def rob_defs slot_frame_def)

lemma fps_stall_ok:
  assumes "core_inv c" "\<not> 0 < c_cyclesToWake c" "fps_stall c (gd u) = (c', g)"
  shows "core_inv c' \<and> slot_frame c u c' (u\<lparr>gd := g\<rparr>)"
  using assms by (cases "cpu_pstate c")
    (auto simp: fps_stall_def Let_def core_inv_def rob_defs slot_frame_def core_exit_time_def split: if_splits)

lemma aud_stall_ok:
  assumes "core_inv c" "\<not> 0 < c_cyclesToWake c"
  shows "core_inv (aud_stall c g) \<and> slot_frame c u (aud_stall c g) u"
  using assms by (cases "cpu_pstate c")
    (auto simp: aud_stall_def Let_def core_inv_def rob_defs slot_frame_def core_exit_time_def)

text \<open>What a tick keeps.\<close>

definition tick_frame :: "GemDroidCore \<Rightarrow> 'd uncore \<Rightarrow> GemDroidCore \<Rightarrow> 'd uncore \<Rightarrow> bool" where
  "tick_frame c u c' u' \<longleftrightarrow>
     core_total c' = core_total c +
       (if lines_read_cpu c' = lines_read_cpu c then 0
        else if line_op c = ''CPU'' then tok_dec (line_arg c) else m_memReqs c' - m_memReqs c) \<and>
     (answers_ok c \<longrightarrow> answers_ok c' \<and>
        (\<exists>new. coreMemReq (sa u') @ pending c' = coreMemReq (sa u) @ pending c @ new \<and>
           int (length new) = m_memReqs c' - m_memReqs c \<and>
           (new = [] \<or> new = [line_msg c] \<and> line_op c \<in> {''MMU_ld'', ''MMU_st''})))"

lemma tick_frame_slot: "slot_frame c u c' u' \<Longrightarrow> tick_frame c u c' u'"
  by (simp add: slot_frame_def tick_frame_def)

lemma tick_frame_read: "read_frame c u c' u' \<Longrightarrow> tick_frame c u c' u'"
  by (auto simp: read_frame_def tick_frame_def)

lemma tick_frame_after:
  assumes s: "slot_frame c u c1 u1" and r: "tick_frame c1 u1 c' u'"
  shows "tick_frame c u c' u'"
proof -
  have "line_op c1 = line_op c" "line_arg c1 = line_arg c" "line_msg c1 = line_msg c"
    using s by (simp_all add: slot_frame_def line_op_def line_arg_def line_msg_def)
  moreover have "coreMemReq (sa u1) @ pending c1 @ new = coreMemReq (sa u) @ pending c @ new" if "answers_ok c" for new
    using s that unfolding append_assoc [symmetric] by (simp only: slot_frame_def)
  ultimately show ?thesis
    using s r unfolding tick_frame_def slot_frame_def by metis
qed

lemma core_work_ok:
  fixes u :: "'d uncore"
  assumes "core_inv c" "wf_flowTable (flowTable (gd u))"
  shows "(\<exists>e. core_work c u = Inl e \<and> e \<in> set core_faults) \<or>
    (\<exists>c' u'. core_work c u = Inr (c', u') \<and> core_inv c' \<and> tick_frame c u c' u')"
proof -
  define c0 where "c0 = (if flagProfile c \<and> gd_ticks (gd u) \<ge> profileStartGemDroidCycle c + 300 * MICROSEC then
     c\<lparr>m_profileActiveCycles := c_ticks c - m_profileStartCPUCycle c, flagProfile := False\<rparr> else c)"
  have 0: "core_inv c0" "slot_frame c u c0 u"
    using assms(1) by (simp_all add: c0_def core_inv_def slot_frame_def rob_defs)
  obtain c1 u1 where 1: "inOrderProcess c0 u = Inr (c1, u1)" "core_inv c1" "slot_frame c0 u c1 u1"
    using inOrderProcess_ok [OF 0(1)] by blast
  have f: "slot_frame c u c1 u1" using slot_frame_trans [OF 0(2) 1(3)] .
  then have "wf_flowTable (flowTable (gd u1))" using assms(2) by (simp add: slot_frame_def)
  note rl = readLine_ok [OF 1(2) _ this refl]
  have w: "core_work c u = (if number_of_instr_executed_OoO c1 < ROB_SIZE \<and>
      outstanding_transactions_size c1 < MAX_TRANSACTIONS then readLine c1 u1 else Inr (c1, u1))"
    unfolding core_work_def Let_def c0_def [symmetric] 1(1) by simp
  show ?thesis
  proof (cases "number_of_instr_executed_OoO c1 < ROB_SIZE \<and> outstanding_transactions_size c1 < MAX_TRANSACTIONS")
    case True
    with w rl tick_frame_after [OF f tick_frame_read] show ?thesis by auto
  next
    case False
    then have "core_work c u = Inr (c1, u1)" unfolding w by auto
    with 1(2) tick_frame_slot [OF f] show ?thesis by auto
  qed
qed

definition tick_ok :: "GemDroidCore \<Rightarrow> 'd uncore \<Rightarrow> (GemDroidCore \<times> 'd uncore) result \<Rightarrow> bool" where
  "tick_ok c u r = (case r of Inl e \<Rightarrow> e \<in> set core_faults | Inr (c', u') \<Rightarrow> core_inv c' \<and> tick_frame c u c' u')"

lemma tick_ok_after: "slot_frame c u c1 u1 \<Longrightarrow> tick_ok c1 u1 r \<Longrightarrow> tick_ok c u r"
  by (auto simp: tick_ok_def tick_frame_after split: sum.splits)

lemma tick_ok_slot: "core_inv c' \<Longrightarrow> slot_frame c u c' u' \<Longrightarrow> tick_ok c u (Inr (c', u'))"
  by (simp add: tick_ok_def tick_frame_slot)

lemma core_work_tick_ok: "core_inv c \<Longrightarrow> wf_flowTable (flowTable (gd u)) \<Longrightarrow> tick_ok c u (core_work c u)"
  using core_work_ok [of c u] by (auto simp: tick_ok_def)

text \<open>A tick begins with the clock, the deadlock check and the residency counters.\<close>

lemma core_tick_begins:
  assumes "core_inv c"
  obtains c1 where "core_inv c1" "slot_frame c u c1 u" "core_tick c u = core_proceed c1 u"
proof -
  let ?c0 = "c\<lparr>c_ticks := c_ticks c + 1, m_cycles := m_cycles c + 1\<rparr>"
  have 0: "core_inv ?c0" "slot_frame c u ?c0 u" using core_clock_ok [OF assms] by blast+
  obtain c1 where 1: "(if crem (c_ticks ?c0) DEADLOCK_PERIOD \<noteq> 0 then checkDeadlock ?c0 else Inr ?c0) = Inr c1"
      "core_inv c1" "slot_frame ?c0 u c1 u"
    using checkDeadlock_ok [OF 0(1), of u] 0(1) slot_frame_refl [of ?c0 u]
    by (cases "crem (c_ticks ?c0) DEADLOCK_PERIOD \<noteq> 0") auto
  have "core_inv (core_countPState c1)" "slot_frame c u (core_countPState c1) u"
    using core_countPState_ok [OF 1(2), of u] slot_frame_trans 0 1 by blast+
  from that [OF this] show ?thesis
    unfolding core_tick_def Let_def 1(1) by simp
qed

lemma core_proceed_tick_ok:
  fixes u :: "'d uncore"
  assumes inv: "core_inv c1" and wf: "wf_flowTable (flowTable (gd u))"
  shows "tick_ok c1 u (core_proceed c1 u)"
proof (cases "c_cyclesToWake c1 > 0")
  case True
  let ?w = "c1\<lparr>c_cyclesToWake := c_cyclesToWake c1 - 1\<rparr>"
  obtain c' g where s: "core_setPStateActive ?w (gd u) = (c', g)" by fastforce
  have "core_inv ?w" "slot_frame c1 u ?w u"
    using inv True by (simp_all add: core_inv_def rob_defs slot_frame_def)
  moreover from this have "c_cyclesToWake ?w = 0 \<Longrightarrow> core_inv c' \<and> slot_frame c1 u c' (u\<lparr>gd := g\<rparr>)"
    using core_setPStateActive_ok [OF _ _ s] slot_frame_trans by blast
  ultimately show ?thesis
    using True s by (auto simp: core_proceed_def Let_def intro!: tick_ok_slot)
next
  case False
  obtain c2 where 2: "core_fallAsleep c1 = Inr c2" "core_inv c2" "slot_frame c1 u c2 u" "\<not> 0 < c_cyclesToWake c2"
    using core_fallAsleep_ok [OF inv False] by blast
  obtain c3 g where s: "fps_stall c2 (gd u) = (c3, g)" by fastforce
  let ?i = "c2\<lparr>m_idleStallsCount := m_idleStallsCount c2 + 1,
    m_thisMilliSecIdleStalls := m_thisMilliSecIdleStalls c2 + 1, idleStalls := idleStalls c2 - 1\<rparr>"
  have "tick_ok c2 u (Inr (?i, u))"
    using 2(2) by (intro tick_ok_slot) (simp_all add: core_inv_def rob_defs slot_frame_def)
  moreover have "tick_ok c2 u (Inr (c3, u\<lparr>gd := g\<rparr>))" "tick_ok c2 u (Inr (aud_stall c2 (gd u), u))"
    using fps_stall_ok [OF 2(2,4) s] aud_stall_ok [OF 2(2,4)] by (auto intro: tick_ok_slot)
  moreover have "tick_ok c2 u (core_work c2 u)" by (rule core_work_tick_ok [OF 2(2) wf])
  ultimately show ?thesis
    using False 2(1) s by (auto simp: core_proceed_def intro!: tick_ok_after [OF 2(3)])
qed

lemma core_tick_tick_ok: "core_inv c \<Longrightarrow> wf_flowTable (flowTable (gd u)) \<Longrightarrow> tick_ok c u (core_tick c u)"
  by (rule core_tick_begins [of c u]) (auto intro: tick_ok_after core_proceed_tick_ok)

text \<open>
  The states of a core that runs: built and initialised, ticking, receiving responses of the memory, in
  a system that changes as it likes but keeps a flow table of the right shape.
\<close>

inductive core_reach :: "GemDroidCore \<Rightarrow> 'd uncore \<Rightarrow> bool" where
  boot: "core_init cid nm trace fr opt iw (new_GemDroidCore c0) g = Inr (c, g') \<Longrightarrow>
    0 \<le> opt \<Longrightarrow> opt < CORE_DVFS_STATES \<Longrightarrow> wf_flowTable (flowTable (gd u)) \<Longrightarrow> core_reach c u"
| tick: "core_reach c u \<Longrightarrow> core_tick c u = Inr (c', u') \<Longrightarrow> wf_flowTable (flowTable (gd u'')) \<Longrightarrow> core_reach c' u''"
| response: "core_reach c u \<Longrightarrow> core_reach (snd (markTransactionCompleted a c)) u"
| elsewhere: "core_reach c u \<Longrightarrow> wf_flowTable (flowTable (gd u')) \<Longrightarrow> core_reach c u'"

lemma core_inv_markTransactionCompleted:
  assumes "core_inv c"
  shows "core_inv (snd (markTransactionCompleted a c))"
proof (cases "first_index (\<lambda>t. a = tr_addr t)
    (take (nat (min (outstanding_transactions_size c) MAX_TRANSACTIONS)) (outstanding_transactions c))")
  case None
  with assms show ?thesis by (simp add: markTransactionCompleted_def)
next
  case (Some i)
  let ?ts = "outstanding_transactions c"
  let ?ts' = "?ts[i := commit_transaction (?ts ! i)]"
  have i: "i < length ?ts" using Some by (simp add: first_index_Some_iff)
  have k: "isIssued (?ts' ! j) = isIssued (?ts ! j)" "txn_ok n (?ts' ! j) = txn_ok n (?ts ! j)" if "j < length ?ts" for j n
    using that by (cases "j = i"; simp add: commit_transaction_def txn_ok_def)+
  have "\<forall>t\<in>set ?ts'. txn_ok (c_ticks c) t"
    using assms k by (simp add: core_inv_def rob_inv_def all_set_conv_all_nth)
  moreover have "\<forall>t\<in>set (tl ?ts'). \<not> isIssued t"
    using assms k by (simp add: core_inv_def rob_inv_def all_set_conv_all_nth nth_tl)
  ultimately show ?thesis
    using assms Some by (simp add: markTransactionCompleted_def core_inv_def rob_inv_def)
qed

lemma setCoreFreq_InrD:
  "setCoreFreq f c = Inr c' \<Longrightarrow> \<exists>k. 0 \<le> k \<and> k < CORE_DVFS_STATES \<and> c' = c\<lparr>c_dvfsState := k\<rparr>"
  by (auto simp: setCoreFreq_def Let_def intro!: exI [of _ "core_getIndexInTable c f"])

lemma core_init_ok:
  assumes "core_init cid nm trace fr opt iw (new_GemDroidCore c0) g = Inr (c, g')" "0 \<le> opt" "opt < CORE_DVFS_STATES"
  shows "core_inv c"
proof -
  obtain ts where "trace = Some ts"
    using assms(1) by (cases trace) (simp_all add: core_init_def Let_def)
  define c1 where "c1 = (new_GemDroidCore c0)\<lparr>c_id := cid, issue_width := iw,
    type_of_application := core_app_type nm (type_of_application (new_GemDroidCore c0)),
    em_trace_file := ts, lookahead_trace_file := ts\<rparr>"
  define c2 where "c2 = (if type_of_application c1 \<noteq> CORE_BOUND then setIdleRatio c1 else c1)"
  obtain c3 g3 where 3: "core_setPStateActive c2 g = (c3, g3)" by fastforce
  have "rob_view c2 = rob_view c1" by (simp add: c2_def)
  then have v: "outstanding_transactions c2 = []" "outstanding_transactions_size c2 = 0" "c_table c2 = core_table"
      "c_cyclesToWake c2 = 0" "number_of_instr_executed_OoO c2 = 0"
    by (simp_all add: rob_view_def c1_def new_GemDroidCore_def)
  have "outstanding_transactions c3 = []" "outstanding_transactions_size c3 = 0" "c_table c3 = core_table"
      "c_cyclesToWake c3 = 0" "number_of_instr_executed_OoO c3 = 0" "cpu_pstate c3 = CPU_PSTATE_ACTIVE"
    using 3 v by (auto simp: core_setPStateActive_def Let_def setMaxCoreFreq_def setOptCoreFreq_def split: if_splits)
  moreover have "bindE (setCoreFreq (real_of_int fr / 1000) c3) (\<lambda>c. Inr (c\<lparr>optDVFSState := opt\<rparr>, g3)) = Inr (c, g')"
    using assms(1) 3 [unfolded c2_def c1_def] \<open>trace = Some ts\<close> by (simp add: core_init_def Let_def)
  ultimately show ?thesis
    using assms(2,3) by (auto simp: core_inv_def rob_inv_def dest!: setCoreFreq_InrD)
qed

lemma core_reach_inv: "core_reach c u \<Longrightarrow> core_inv c \<and> wf_flowTable (flowTable (gd u))"
proof (induction rule: core_reach.induct)
  case (tick c u c' u' u'')
  then show ?case using core_tick_tick_ok [of c u] by (simp add: tick_ok_def)
qed (auto intro: core_init_ok core_inv_markTransactionCompleted)

subsection \<open>Properties\<close>

text \<open>C35: a core that was built, initialised and has run in any system with a well-formed flow
  table keeps its invariant: the buffer's counter is its length, at most 100 transactions wait, only the
  head is at the memory, the voltage and frequency state is inside the table and the idle state is never
  entered. No assertion or array access of the reorder buffer can fail in a tick: the only faults left are the
  reader's assertions (the core is awake, no access to address 1) and overruns of the five-element flow
  arrays.\<close>

theorem core_reorder_buffer_safe:
  assumes "core_reach c u"
  shows "core_inv c \<and> (\<forall>e. core_tick c u = Inl e \<longrightarrow> e \<in> set core_faults)"
  using core_reach_inv [OF assms] core_tick_tick_ok [of c u] by (auto simp: tick_ok_def)

lemma core_demo_boot:
  "core_init 0 ''GAME'' (Some ts) 1000 6 2 (new_GemDroidCore (core_demo ts)) gd_demo =
     Inr (core_demo ts, markIPRequestStarted 0 IP_TYPE_CPU 0 0 gd_demo)"
proof -
  have "table_index core_table 1 = 7"
    by code_simp
  then show ?thesis
    by (simp add: core_init_def core_app_type_def Let_def core_demo_def new_GemDroidCore_def core_setPStateActive_def
        gd_demo_def markIPRequestStarted_def setCoreFreq_def core_getIndexInTable_def)
qed

lemma wf_shipped_table: "wf_flowTable (flowTable (gd u_demo))"
  by code_simp

theorem core_reorder_buffer_safe_witness:
  "core_inv (core_demo [Token ''CPU'' 0 0, Token ''3'' 3 3, Token ''0'' 0 0])"
proof -
  have "core_reach (core_demo [Token ''CPU'' 0 0, Token ''3'' 3 3, Token ''0'' 0 0]) u_demo"
    by (rule core_reach.boot [OF core_demo_boot]) (simp_all add: wf_shipped_table)
  from core_reorder_buffer_safe [OF this] show ?thesis by simp
qed

lemma core_demo_inv: "core_inv (core_demo ts)"
  by (rule core_init_ok [OF core_demo_boot]) simp_all

text \<open>C36: no instruction is lost or committed twice. What a core has committed, has given up as a
  deadlock and still holds in its buffer grows in a tick by exactly what the trace line it read brings: the
  line's instructions for a \<open>CPU\<close> line, 1 for an access that is not already waiting, and nothing on a tick
  that reads no line.\<close>

theorem core_conserves_instructions:
  fixes u u' :: "'d uncore"
  assumes "core_inv c" "wf_flowTable (flowTable (gd u))" "core_tick c u = Inr (c', u')"
  shows "core_total c' = core_total c +
    (if lines_read_cpu c' = lines_read_cpu c then 0
     else if line_op c = ''CPU'' then tok_dec (line_arg c) else m_memReqs c' - m_memReqs c)"
  using core_tick_tick_ok [OF assms(1,2)] assms(3) by (simp add: tick_ok_def tick_frame_def)

theorem core_conserves_instructions_witness:
  "case core_tick (core_demo [Token ''CPU'' 0 0, Token ''3'' 3 3, Token ''0'' 0 0]) u_demo of
     Inl e \<Rightarrow> False | Inr (c', u') \<Rightarrow> core_total c' = 3"
proof -
  let ?c = "core_demo [Token ''CPU'' 0 0, Token ''3'' 3 3, Token ''0'' 0 0]"
  have "case core_tick ?c u_demo of Inl e \<Rightarrow> False | Inr (c', u') \<Rightarrow> lines_read_cpu c' = 1"
    by code_simp
  moreover have "core_total ?c = 0" "lines_read_cpu ?c = 0" "line_op ?c = ''CPU''" "tok_dec (line_arg ?c) = 3"
    by code_simp+
  ultimately show ?thesis
    using core_conserves_instructions [OF core_demo_inv wf_shipped_table, of "[Token ''CPU'' 0 0, Token ''3'' 3 3, Token ''0'' 0 0]"]
    by (auto split: sum.splits)
qed





text \<open>A frame that is later still, by 215 to 429 milliseconds, is not dropped: the narrowing to an \<open>int\<close>
  makes the elapsed time negative, and the core is stalled for longer than a sixtieth of a second.\<close>

theorem frame_drop_wraps:
  assumes "type_of_application c = DISPLAY_BOUND \<or> type_of_application c = VIDEO_PLAYBACK"
    and "lastDCTick c \<noteq> 0" and "2 ^ 31 \<le> gd_ticks g - lastDCTick c" and "gd_ticks g - lastDCTick c < 2 ^ 32"
    and "isFrameDrop g c = (dropped, c')"
  shows "\<not> dropped \<and> m_framesDropped c' = m_framesDropped c \<and> 166666666 < fpsStalls c'"
proof -
  have w: "to_int32 (gd_ticks g - lastDCTick c) = gd_ticks g - lastDCTick c - 2 ^ 32"
    using assms by (intro to_int32_wrap) simp_all
  have "gd_ticks g - lastDCTick c - 2 ^ 32 \<le> -1" using assms(4) by simp
  then have n: "real_of_int (gd_ticks g - lastDCTick c - 2 ^ 32) \<le> -1" by linarith
  then have "166666667 \<le> \<lfloor>10000000000 / 60 - real_of_int (gd_ticks g - lastDCTick c - 2 ^ 32)\<rfloor>"
    by (simp add: le_floor_iff)
  with n w assms show ?thesis
    by (auto simp: isFrameDrop_def Let_def trunc_nonneg)
qed

theorem frame_drop_wraps_witness:
  "case isFrameDrop (gd_demo\<lparr>gd_ticks := 3000000001\<rparr>)
     ((core_demo [])\<lparr>type_of_application := VIDEO_PLAYBACK, lastDCTick := 1\<rparr>) of
     (dropped, c') \<Rightarrow> \<not> dropped \<and> 166666666 < fpsStalls c'"
proof -
  obtain d c' where e: "isFrameDrop (gd_demo\<lparr>gd_ticks := 3000000001\<rparr>)
     ((core_demo [])\<lparr>type_of_application := VIDEO_PLAYBACK, lastDCTick := 1\<rparr>) = (d, c')" by fastforce
  from frame_drop_wraps [OF _ _ _ _ e] show ?thesis by (simp add: e)
qed

text \<open>Under the power cap a core only ever gets one of the two lowest frequencies, 400 MHz when even
  the lowest one is over the budget and 300 MHz when the budget has room: the frequency found, in GHz, is
  truncated and used as an index.\<close>

theorem core_power_cap_states:
  assumes "core_inv c"
  shows "core_setMaxAllowedFreq g c = Inr (c\<lparr>c_dvfsState :=
    (if vf_stat (core_table ! 0) + vf_dyn (core_table ! 0) < getCoordinatedPower g - c_powerInLastEpoch c then 0 else 1)\<rparr>)"
proof -
  have t: "c_table c = core_table" using assms by (simp add: core_inv_def)
  have f: "trunc (vf_freq (core_table ! 0)) = 0" "trunc (vf_freq (core_table ! 12)) = 1"
    by code_simp+
  have i: "table_index core_table (vf_freq (core_table ! 0)) = 0" "table_index core_table (vf_freq (core_table ! Suc 0)) = 1"
    using core_vf.table_index_freq [of 0] core_vf.table_index_freq [of 1] by simp_all
  show ?thesis
    using core_vf.freq_for_power_cases f i
    by (simp add: core_setMaxAllowedFreq_def core_getFreqForPower_def t Let_def cvft_def setCoreFreq_def core_getIndexInTable_def)
qed

theorem core_power_cap_states_witness:
  "core_setMaxAllowedFreq gd_demo (core_demo []) = Inr ((core_demo [])\<lparr>c_dvfsState := 0\<rparr>)"
proof -
  have "vf_stat (core_table ! 0) + vf_dyn (core_table ! 0) < getCoordinatedPower gd_demo - c_powerInLastEpoch (core_demo [])"
    by code_simp
  with core_power_cap_states [OF core_demo_inv, of gd_demo "[]"] show ?thesis by simp
qed

text \<open>Raising a core's frequency by one step and lowering it by any number stays inside the table; raising by
  more steps leaves it exactly when there are not that many states above and the core is not already at the
  highest.\<close>

theorem core_dvfs_steps:
  assumes "core_inv c" "0 < steps" "core_incFreq steps c = (b, c')" "core_decFreq gov steps c = (b', c'')"
  shows "(c_dvfsState c' < 13 \<longleftrightarrow> c_dvfsState c + steps \<le> 12 \<or> c_dvfsState c = 12) \<and>
    (steps = 1 \<longrightarrow> core_inv c') \<and> core_inv c''"
  using assms by (auto simp: core_incFreq_def core_decFreq_def core_inv_def rob_inv_def split: if_splits)

theorem core_dvfs_steps_witness:
  "c_dvfsState (snd (core_incFreq 2 ((core_demo [])\<lparr>c_dvfsState := 11\<rparr>))) = 13 \<and>
   \<not> c_dvfsState (snd (core_incFreq 2 ((core_demo [])\<lparr>c_dvfsState := 11\<rparr>))) < 13"
proof -
  let ?c = "(core_demo [])\<lparr>c_dvfsState := 11\<rparr>"
  have "core_inv ?c" using core_demo_inv [of "[]"] by (simp add: core_inv_def rob_inv_def)
  from core_dvfs_steps [OF this, of 2, OF _ surjective_pairing surjective_pairing, of GOVERNOR_TYPE_DISABLED]
  show ?thesis by (simp add: core_incFreq_def)
qed

subsection \<open>Frame pacing\<close>

text \<open>Ticks of one core, each in the system as it is then.\<close>

fun core_ticks :: "'d uncore list \<Rightarrow> GemDroidCore \<Rightarrow> GemDroidCore result" where
  "core_ticks [] c = Inr c"
| "core_ticks (u # us) c = bindE (core_tick c u) (\<lambda>(c, _). core_ticks us c)"

definition stall_step :: "GemDroidCore \<Rightarrow> int" where
  "stall_step c = \<lceil>10 / getCoreFreq c\<rceil>"

definition fps_stalled :: "GemDroidCore \<Rightarrow> bool" where
  "fps_stalled c \<longleftrightarrow> core_inv c \<and> c_cyclesToWake c \<le> 0 \<and> idleStalls c \<le> 0 \<and> 0 < fpsStalls c"

lemma trunc_countdown:
  assumes "0 < x"
  shows "trunc (real_of_int n - x) \<le> 0 \<longleftrightarrow> n \<le> \<lceil>x\<rceil>"
    and "\<lceil>x\<rceil> \<le> n \<Longrightarrow> trunc (real_of_int n - x) = n - \<lceil>x\<rceil>"
proof -
  have c: "\<lfloor>real_of_int n - x\<rfloor> = n - \<lceil>x\<rceil>"
    using floor_add_int [of "- x" n] by (simp add: ceiling_def)
  then show "\<lceil>x\<rceil> \<le> n \<Longrightarrow> trunc (real_of_int n - x) = n - \<lceil>x\<rceil>"
    by (subst trunc_nonneg) (auto simp: ceiling_le_iff)
  have "trunc (real_of_int n - x) \<le> 0 \<longleftrightarrow> real_of_int n - x < 1" by (rule trunc_nonpos_iff)
  also have "\<dots> \<longleftrightarrow> \<lfloor>real_of_int n - x\<rfloor> \<le> 0" by (simp add: floor_le_iff)
  finally show "trunc (real_of_int n - x) \<le> 0 \<longleftrightarrow> n \<le> \<lceil>x\<rceil>" using c by simp
qed

lemma core_inv_freq_pos: "core_inv c \<Longrightarrow> 0 < getCoreFreq c"
  using core_vf.freq_pos [of "nat (c_dvfsState c)"] by (simp add: core_inv_def getCoreFreq_def cvft_def nat_less_iff)

text \<open>The fields of the stall that the deadlock check and the power state leave alone.\<close>

definition stall_view :: "GemDroidCore \<Rightarrow> int list \<times> vf_row list" where
  "stall_view c = ([c_dvfsState c, fpsStalls c, idleStalls c, m_framesDisplayed c, lastDCTick c], c_table c)"

lemma stall_view_checkDeadlock: "checkDeadlock c = Inr c' \<Longrightarrow> stall_view c' = stall_view c"
  by (auto simp: checkDeadlock_def Let_def commitHeadTransaction_def set_txn_def stall_view_def split: if_splits)

lemma stall_view_fallAsleep: "core_fallAsleep c = Inr c' \<Longrightarrow> stall_view c' = stall_view c"
  by (auto simp: core_fallAsleep_def core_setPStateLowPower_def stall_view_def split: if_splits)

lemma stall_view_countPState [simp, frame_simps]: "stall_view (core_countPState c) = stall_view c"
  by (simp add: core_countPState_def stall_view_def split: CPU_PSTATE.splits)

lemma stall_view_cong:
  assumes "stall_view c' = stall_view c"
  shows "fpsStalls c' = fpsStalls c" "idleStalls c' = idleStalls c" "m_framesDisplayed c' = m_framesDisplayed c"
    "lastDCTick c' = lastDCTick c" "getCoreFreq c' = getCoreFreq c"
  using assms by (simp_all add: stall_view_def getCoreFreq_def cvft_def)

lemma core_tick_stalled:
  fixes u :: "'d uncore"
  assumes "fps_stalled c"
  obtains c1 where "core_inv c1" "c_cyclesToWake c1 \<le> 0" "stall_view c1 = stall_view c"
    "core_tick c u = Inr (fst (fps_stall c1 (gd u)), u\<lparr>gd := snd (fps_stall c1 (gd u))\<rparr>)"
proof -
  let ?c0 = "c\<lparr>c_ticks := c_ticks c + 1, m_cycles := m_cycles c + 1\<rparr>"
  have inv: "core_inv c" and w: "c_cyclesToWake c \<le> 0" and st: "idleStalls c \<le> 0" "0 < fpsStalls c"
    using assms by (simp_all add: fps_stalled_def)
  have 0: "core_inv ?c0" using core_clock_ok [OF inv] by blast
  have v0: "stall_view ?c0 = stall_view c" by (simp add: stall_view_def)
  obtain c1 where 1: "(if crem (c_ticks ?c0) DEADLOCK_PERIOD \<noteq> 0 then checkDeadlock ?c0 else Inr ?c0) = Inr c1"
      "core_inv c1" "c_cyclesToWake c1 \<le> 0"
    using checkDeadlock_ok [OF 0, of u] 0 w by (cases "crem (c_ticks ?c0) DEADLOCK_PERIOD \<noteq> 0") auto
  have v1: "stall_view (core_countPState c1) = stall_view c"
    using 1(1) v0 stall_view_checkDeadlock [of ?c0 c1] by (auto split: if_splits)
  let ?c1 = "core_countPState c1"
  have i1: "core_inv ?c1" "\<not> 0 < c_cyclesToWake ?c1"
    using core_countPState_ok [OF 1(2)] 1(3) core_countPState_sel(1) [of c1] by (auto simp: rob_view_def)
  obtain c2 where 2: "core_fallAsleep ?c1 = Inr c2" "core_inv c2" "\<not> 0 < c_cyclesToWake c2"
    using core_fallAsleep_ok [OF i1, of u] by blast
  have v2: "stall_view c2 = stall_view c" using stall_view_fallAsleep [OF 2(1)] v1 by simp
  have "core_tick c u = core_proceed ?c1 u" unfolding core_tick_def Let_def 1(1) by simp
  also have "\<dots> = Inr (fst (fps_stall c2 (gd u)), u\<lparr>gd := snd (fps_stall c2 (gd u))\<rparr>)"
    using i1(2) 2(1) st stall_view_cong [OF v2] by (simp add: core_proceed_def split_beta)
  finally show ?thesis using that [OF 2(2) _ v2] 2(3) by simp
qed

lemma fps_stall_step:
  assumes "core_inv c" "c_cyclesToWake c \<le> 0" "idleStalls c \<le> 0" "0 < fpsStalls c" "fps_stall c g = (c', g')"
  shows "stall_step c < fpsStalls c \<longrightarrow> fps_stalled c' \<and> fpsStalls c' = fpsStalls c - stall_step c \<and>
      m_framesDisplayed c' = m_framesDisplayed c \<and> stall_step c' = stall_step c \<and> g' = g"
    and "\<not> stall_step c < fpsStalls c \<longrightarrow> fpsStalls c' \<le> 0 \<and> m_framesDisplayed c' = m_framesDisplayed c + 1 \<and>
      lastDCTick c' = gd_ticks g"
proof -
  have x: "0 < 10 / getCoreFreq c" using core_inv_freq_pos [OF assms(1)] by simp
  have inv: "core_inv c'"
    using fps_stall_ok [of c "\<lparr>gd = g, sa = sa_demo, mem = mem_demo\<rparr>" c' g'] assms by simp
  note k = trunc_countdown [OF x, of "fpsStalls c"]
  show "stall_step c < fpsStalls c \<longrightarrow> fps_stalled c' \<and> fpsStalls c' = fpsStalls c - stall_step c \<and>
      m_framesDisplayed c' = m_framesDisplayed c \<and> stall_step c' = stall_step c \<and> g' = g"
  proof
    assume "stall_step c < fpsStalls c"
    then have "trunc (real_of_int (fpsStalls c) - 10 / getCoreFreq c) = fpsStalls c - stall_step c"
        "\<not> trunc (real_of_int (fpsStalls c) - 10 / getCoreFreq c) \<le> 0"
      using k by (simp_all add: stall_step_def)
    with assms inv show "fps_stalled c' \<and> fpsStalls c' = fpsStalls c - stall_step c \<and>
      m_framesDisplayed c' = m_framesDisplayed c \<and> stall_step c' = stall_step c \<and> g' = g"
      by (auto simp: fps_stall_def Let_def fps_stalled_def stall_step_def getCoreFreq_def cvft_def)
  qed
  show "\<not> stall_step c < fpsStalls c \<longrightarrow> fpsStalls c' \<le> 0 \<and> m_framesDisplayed c' = m_framesDisplayed c + 1 \<and>
      lastDCTick c' = gd_ticks g"
    using k(1) assms(5) by (auto simp: fps_stall_def Let_def stall_step_def)
qed

lemma core_tick_stall_step:
  fixes u :: "'d uncore"
  assumes "fps_stalled c"
  shows "stall_step c < fpsStalls c \<Longrightarrow> \<exists>c'. core_tick c u = Inr (c', u) \<and> fps_stalled c' \<and>
      fpsStalls c' = fpsStalls c - stall_step c \<and> m_framesDisplayed c' = m_framesDisplayed c \<and> stall_step c' = stall_step c"
    and "\<not> stall_step c < fpsStalls c \<Longrightarrow> \<exists>c' u'. core_tick c u = Inr (c', u') \<and> fpsStalls c' \<le> 0 \<and>
      m_framesDisplayed c' = m_framesDisplayed c + 1 \<and> lastDCTick c' = gd_ticks (gd u)"
proof -
  obtain c1 where 1: "core_inv c1" "c_cyclesToWake c1 \<le> 0" "stall_view c1 = stall_view c"
    "core_tick c u = Inr (fst (fps_stall c1 (gd u)), u\<lparr>gd := snd (fps_stall c1 (gd u))\<rparr>)"
    using core_tick_stalled [OF assms] .
  note v = stall_view_cong [OF 1(3)]
  have s: "stall_step c1 = stall_step c" by (simp add: stall_step_def v)
  have "idleStalls c1 \<le> 0" "0 < fpsStalls c1" using assms v by (simp_all add: fps_stalled_def)
  note f = fps_stall_step [OF 1(1,2) this surjective_pairing, of "gd u"]
  show "stall_step c < fpsStalls c \<Longrightarrow> \<exists>c'. core_tick c u = Inr (c', u) \<and> fps_stalled c' \<and>
      fpsStalls c' = fpsStalls c - stall_step c \<and> m_framesDisplayed c' = m_framesDisplayed c \<and> stall_step c' = stall_step c"
    using f(1) s v 1(4) by simp
  show "\<not> stall_step c < fpsStalls c \<Longrightarrow> \<exists>c' u'. core_tick c u = Inr (c', u') \<and> fpsStalls c' \<le> 0 \<and>
      m_framesDisplayed c' = m_framesDisplayed c + 1 \<and> lastDCTick c' = gd_ticks (gd u)"
    using f(2) s v 1(4) by simp
qed

text \<open>C38: a core that waits for the display comes back. A tick of the core takes the core's period in
  platform ticks, rounded up, off the stall; after the quotient of the two, rounded up, and not before, the frame is
  displayed once and becomes the start of the next frame's deadline, whatever the rest of the system
  does in the meantime.\<close>

theorem frame_pacing:
  fixes us :: "'d uncore list" and u :: "'d uncore"
  assumes "fps_stalled c" and "int (length us) = (fpsStalls c - 1) div stall_step c"
  shows "\<exists>c1 c2 u2. core_ticks us c = Inr c1 \<and> m_framesDisplayed c1 = m_framesDisplayed c \<and> 0 < fpsStalls c1 \<and>
    core_tick c1 u = Inr (c2, u2) \<and> m_framesDisplayed c2 = m_framesDisplayed c + 1 \<and> fpsStalls c2 \<le> 0 \<and>
    lastDCTick c2 = gd_ticks (gd u)"
  using assms
proof (induction us arbitrary: c)
  case Nil
  have "0 < stall_step c"
    using Nil.prems(1) core_inv_freq_pos [of c] by (simp add: stall_step_def fps_stalled_def)
  moreover have "0 < fpsStalls c" using Nil.prems(1) by (simp add: fps_stalled_def)
  ultimately have "\<not> stall_step c < fpsStalls c"
    using Nil.prems(2) by (auto simp: zdiv_eq_0_iff)
  with core_tick_stall_step(2) [OF Nil.prems(1), of u] Nil.prems(1) show ?case
    by (auto simp: fps_stalled_def)
next
  case (Cons v us)
  have p: "0 < stall_step c"
    using Cons.prems(1) core_inv_freq_pos [of c] by (simp add: stall_step_def fps_stalled_def)
  have "1 \<le> (fpsStalls c - 1) div stall_step c" using Cons.prems(2) by simp
  then have less: "stall_step c < fpsStalls c"
    using p Cons.prems(1) div_pos_pos_trivial [of "fpsStalls c - 1" "stall_step c"] by (fastforce simp: fps_stalled_def)
  obtain c' where c': "core_tick c v = Inr (c', v)" "fps_stalled c'" "fpsStalls c' = fpsStalls c - stall_step c"
      "m_framesDisplayed c' = m_framesDisplayed c" "stall_step c' = stall_step c"
    using core_tick_stall_step(1) [OF Cons.prems(1) less] by blast
  have "int (length us) = (fpsStalls c' - 1) div stall_step c'"
    using Cons.prems(2) p c'(3,5) div_add_self2 [of "stall_step c" "fpsStalls c - stall_step c - 1"] by simp
  from Cons.IH [OF c'(2) this] c' show ?case by simp
qed

theorem frame_pacing_witness:
  "\<exists>c1 c2 u2. core_ticks [u_demo, u_demo] ((core_demo [])\<lparr>fpsStalls := 25\<rparr>) = Inr c1 \<and>
     core_tick c1 u_demo = Inr (c2, u2) \<and> m_framesDisplayed c1 = 0 \<and> m_framesDisplayed c2 = 1"
proof -
  let ?c = "(core_demo [])\<lparr>fpsStalls := 25\<rparr>"
  have "core_inv ?c" using core_demo_inv [of "[]"] by (simp add: core_inv_def rob_inv_def)
  then have "fps_stalled ?c" by (simp add: fps_stalled_def core_demo_def new_GemDroidCore_def)
  moreover have "int (length [u_demo, u_demo]) = (fpsStalls ?c - 1) div stall_step ?c" "m_framesDisplayed ?c = 0"
    by code_simp+
  ultimately show ?thesis
    using frame_pacing [of ?c "[u_demo, u_demo]" u_demo] by auto
qed

subsection \<open>Falling asleep with work to do\<close>

lemma inOrder_slot_keeps:
  assumes "inOrder_slot c u = Inr (c', u')"
  shows "cpu_pstate c' = cpu_pstate c \<and> outstanding_transactions_size c' \<le> outstanding_transactions_size c \<and>
    number_of_instr_executed_OoO c' = number_of_instr_executed_OoO c"
  using assms
  by (auto simp: inOrder_slot_def Let_def commit_one_def commit_head_def commitHeadTransaction_def set_txn_def
      updateStatInstructionCommit_def issue_txn_def mem_full_stall_def rob_full_stall_def split_beta split: if_splits)

lemma inOrder_loop_keeps:
  "inOrder_loop j c u = Inr (c', u') \<Longrightarrow>
   cpu_pstate c' = cpu_pstate c \<and> outstanding_transactions_size c' \<le> outstanding_transactions_size c \<and>
   number_of_instr_executed_OoO c' = number_of_instr_executed_OoO c"
  by (induction j arbitrary: c u) (fastforce dest: inOrder_slot_keeps)+

lemma checkDeadlock_keeps:
  assumes "checkDeadlock c = Inr c'"
  shows "cpu_pstate c' = cpu_pstate c \<and> c_idleCycles c' = c_idleCycles c \<and> idleStalls c' = idleStalls c \<and>
    fpsStalls c' = fpsStalls c \<and> audFpsStalls c' = audFpsStalls c \<and> c_cyclesToWake c' = c_cyclesToWake c \<and>
    outstanding_transactions_size c' \<le> outstanding_transactions_size c"
  using assms by (auto simp: checkDeadlock_def Let_def commitHeadTransaction_def set_txn_def split: if_splits)

text \<open>C40: the count of idle cycles is not cleared by committing instructions and also grows while the core waits for
  the memory, and the power state does not ask whether there is work: a core with no stall to wait for and room in its
  buffer that has counted 200000 idle cycles goes to sleep and, in the same tick, fails the assertion of
  \<open>readLine\<close> that it is awake.\<close>

theorem core_asleep_at_work:
  fixes u :: "'d uncore"
  assumes "core_inv c" "cpu_pstate c = CPU_PSTATE_ACTIVE" "CORE_PSTATE_LOWPOWER_ENTER_TIME \<le> c_idleCycles c"
    and "idleStalls c \<le> 0" "fpsStalls c \<le> 0" "audFpsStalls c \<le> 0" "outstanding_transactions_size c < MAX_TRANSACTIONS"
  shows "core_tick c u = Inl (AssertFail ''isPStateActive'')"
proof -
  let ?c0 = "c\<lparr>c_ticks := c_ticks c + 1, m_cycles := m_cycles c + 1\<rparr>"
  have 0: "core_inv ?c0" using core_clock_ok [OF assms(1)] by blast
  obtain c1 where 1: "(if crem (c_ticks ?c0) DEADLOCK_PERIOD \<noteq> 0 then checkDeadlock ?c0 else Inr ?c0) = Inr c1" "core_inv c1"
    using checkDeadlock_ok [OF 0, of u] 0 by (cases "crem (c_ticks ?c0) DEADLOCK_PERIOD \<noteq> 0") auto
  then have k: "cpu_pstate c1 = CPU_PSTATE_ACTIVE" "c_idleCycles c1 = c_idleCycles c" "idleStalls c1 = idleStalls c"
      "fpsStalls c1 = fpsStalls c" "audFpsStalls c1 = audFpsStalls c" "c_cyclesToWake c1 = c_cyclesToWake c"
      "outstanding_transactions_size c1 \<le> outstanding_transactions_size c"
    using assms(2) checkDeadlock_keeps [of ?c0 c1] by (auto split: if_splits)
  let ?c1 = "core_countPState c1"
  let ?c2 = "?c1\<lparr>pstateTimer := 200000, cpu_pstate := CPU_PSTATE_LOWPOWER, c_idleCycles := 0\<rparr>"
  have inv1: "core_inv ?c1" using 1(2) core_countPState_ok by blast
  have f: "cpu_pstate ?c1 = CPU_PSTATE_ACTIVE" "c_idleCycles ?c1 = c_idleCycles c" "idleStalls ?c1 = idleStalls c"
      "fpsStalls ?c1 = fpsStalls c" "audFpsStalls ?c1 = audFpsStalls c" "c_cyclesToWake ?c1 = c_cyclesToWake c"
      "outstanding_transactions_size ?c1 < 100"
    using k assms(7) by (simp_all add: core_countPState_def)
  have "core_fallAsleep ?c1 = Inr ?c2"
    using assms(3) f(1,2) by (simp add: core_fallAsleep_def core_setPStateLowPower_def)
  moreover have "core_tick c u = core_proceed ?c1 u" unfolding core_tick_def Let_def 1(1) by simp
  ultimately have t: "core_tick c u = core_work ?c2 u"
    using assms f by (simp add: core_proceed_def core_inv_def)
  define c3 where "c3 = (if flagProfile ?c2 \<and> gd_ticks (gd u) \<ge> profileStartGemDroidCycle ?c2 + 300 * MICROSEC then
     ?c2\<lparr>m_profileActiveCycles := c_ticks ?c2 - m_profileStartCPUCycle ?c2, flagProfile := False\<rparr> else ?c2)"
  have 3: "core_inv c3" "cpu_pstate c3 = CPU_PSTATE_LOWPOWER" "outstanding_transactions_size c3 < 100"
    using inv1 f(7) by (simp_all add: c3_def core_inv_def rob_inv_def)
  obtain c4 u4 where 4: "inOrderProcess c3 u = Inr (c4, u4)" using inOrderProcess_ok [OF 3(1)] by blast
  have "cpu_pstate c4 = CPU_PSTATE_LOWPOWER" "outstanding_transactions_size c4 < 100" "number_of_instr_executed_OoO c4 = 0"
    using inOrder_loop_keeps [OF 4 [unfolded inOrderProcess_def]] 3 by (simp_all add: core_inv_def)
  then show ?thesis
    unfolding t core_work_def Let_def c3_def [symmetric] 4 by (simp add: readLine_def)
qed

theorem core_asleep_at_work_witness:
  "core_tick ((core_demo [Token ''CPU'' 0 0, Token ''3'' 3 3, Token ''0'' 0 0])\<lparr>c_idleCycles := 200000\<rparr>)
     u_demo = Inl (AssertFail ''isPStateActive'')"
proof (rule core_asleep_at_work)
  show "core_inv ((core_demo [Token ''CPU'' 0 0, Token ''3'' 3 3, Token ''0'' 0 0])\<lparr>c_idleCycles := 200000\<rparr>)"
    by code_simp
qed code_simp+

end
