(* ===== verification/GD_GPU.thy ===== *)
theory GD_GPU
  imports GD_Core
begin

section \<open>The GPU\<close>

text \<open>
  Class \<open>GemDroidIPGPU\<close> (\<open>gemdroid_ip_gpu.hh\<close>, \<open>gemdroid_ip_gpu.cc\<close>): an IP that replays a trace
  of its own instead of serving requests. The record extends the one of an IP; the members
  \<open>cyclesToSkip\<close>, \<open>lastDCTick\<close> and \<open>fpsStalls\<close> are the class's own. The trace is a list of tokens as
  for a core, except that addresses are decimal here; the end of the file is an empty text, which
  the code treats as an unknown line. \<open>init\<close> updates what the object held: it leaves \<open>cyclesToSkip\<close>,
  the frame number and, without a trace, \<open>m_enabled\<close> unset. The printing and the snapshots of the
  statistics are left out; the flag \<open>true_fetch\<close> is a field, as for a core.

  The interface a frame writer offers to the display (lines are asked for in order, each once,
  and a refused line is asked for again) is the locale \<open>line_writer\<close>; the GPU's \<open>tick\<close> is an instance.
\<close>

abbreviation (input) GPU_FPS_TICKS :: real where "GPU_FPS_TICKS \<equiv> 10000000000 / 60"

record gpu = GemDroidIP +
  em_gputrace_file :: "token list"
  gpu_cyclesToSkip :: int
  gpu_lastDCTick :: int
  gpu_fpsStalls :: int
  m_enabled :: bool
  writeToDCFlag :: bool
  m_addrToDC :: addr
  gpu_insnsInMs :: int
  gpu_insnsInUs :: int
  gpu_true_fetch :: bool
  lines_read_gpu :: int
  gpu_fpsStallsCount :: int
  gpu_framesDisplayed :: int
  gpu_framesDropped :: int

subsection \<open>Construction\<close>

text \<open>\<open>trace\<close> is the content of the trace file, \<open>None\<close> when it cannot be opened.\<close>

definition gpu_init ::
  "IP_TYPE \<Rightarrow> int \<Rightarrow> bool \<Rightarrow> string \<Rightarrow> token list option \<Rightarrow> int \<Rightarrow> int \<Rightarrow> gpu \<Rightarrow> GemDroid \<Rightarrow> (gpu \<times> GemDroid) result" where
  "gpu_init type iid dev trace_name trace ip_freq opt_freq p g =
     bindE (ip_init type iid dev 0 ip_freq opt_freq p g) (\<lambda>(p, g).
     if trace_name = ''none.txt'' then Inr (p, g)
     else case trace of
       None \<Rightarrow> Inl (AssertFail ''0'')
     | Some ts \<Rightarrow>
         Inr (p\<lparr>em_gputrace_file := ts, m_enabled := True, lines_read_gpu := 0, gpu_lastDCTick := 0,
                gpu_fpsStalls := 0, power_state := ip_active, writeToDCFlag := False, m_addrToDC := 0,
                gpu_insnsInMs := 0, gpu_insnsInUs := 0, gpu_framesDisplayed := 0, gpu_framesDropped := 0,
                gpu_fpsStallsCount := 0\<rparr>, g))"

definition gpu_resetStats :: "gpu \<Rightarrow> gpu" where
  "gpu_resetStats p = (ip_resetStats p)
     \<lparr>lines_read_gpu := 0, gpu_framesDisplayed := 0, gpu_framesDropped := 0, gpu_fpsStallsCount := 0\<rparr>"

subsection \<open>Memory requests and the trace\<close>

definition gpu_processMMURequest :: "addr \<Rightarrow> bool \<Rightarrow> gpu \<Rightarrow> 'd uncore \<Rightarrow> gpu \<times> 'd uncore" where
  "gpu_processMMURequest addr isRead p u =
     snd (ip_sendMemoryReq (p\<lparr>m_reqCount := 1, m_reqAddr := addr, m_isRead := isRead\<rparr>) u)"

definition gpu_rendered :: "gpu \<Rightarrow> 'd uncore \<Rightarrow> gpu \<times> 'd uncore" where
  "gpu_rendered p u =
     (let ticksFromLastDC = to_int32 (gd_ticks (gd u) - gpu_lastDCTick p);
          g = snd (markIPRequestCompleted (m_freq (mem u)) (getIPFreq p) 0 (ip_type p) (ip_id p) (m_frameNum p) 20 (gd u));
          u = u\<lparr>gd := g\<rparr>;
          p = p\<lparr>writeToDCFlag := True, m_addrToDC := DC1_ADDR_START, m_frameNum := m_frameNum p + 1\<rparr> in
      (if real_of_int ticksFromLastDC < GPU_FPS_TICKS then
         p\<lparr>gpu_fpsStalls := to_int32 (trunc (GPU_FPS_TICKS - real_of_int ticksFromLastDC))\<rparr>
       else p\<lparr>gpu_lastDCTick := gd_ticks (gd u), gpu_framesDropped := gpu_framesDropped p + 1\<rparr>, u))"

definition gpu_readLine :: "gpu \<Rightarrow> 'd uncore \<Rightarrow> (gpu \<times> 'd uncore) result" where
  "gpu_readLine p u =
     (let (optok, ts) = next_tok (em_gputrace_file p);
          op = tok_text optok;
          p = p\<lparr>lines_read_gpu := lines_read_gpu p + 1, em_gputrace_file := ts\<rparr>;
          (arg, ts') = next_tok ts in
      if op = ''GPU'' then
        let p = p\<lparr>em_gputrace_file := ts', gpu_cyclesToSkip := to_int32 (tok_dec arg)\<rparr> in
        bindE (assertE ''insns < 10000000000'' (tok_dec arg < 10000000000)) (\<lambda>_. Inr (p, u))
      else if op = ''GMU_st'' then Inr (p\<lparr>em_gputrace_file := ts'\<rparr>, u)
      else if op = ''GMU_ld'' then
        Inr (gpu_processMMURequest (of_int (tok_dec arg) + GPU_ADDR_START) True (p\<lparr>em_gputrace_file := ts'\<rparr>) u)
      else if op = ''Rendered'' then Inr (gpu_rendered (p\<lparr>em_gputrace_file := drop 2 ts\<rparr>) u)
      else if op = ''END'' then Inr (p\<lparr>gpu_true_fetch := False\<rparr>, u)
      else Inl (AssertFail ''0''))"

subsection \<open>Power\<close>

definition gpu_updatePower :: "gpu \<Rightarrow> GemDroid \<Rightarrow> (bool \<times> gpu \<times> GemDroid) result" where
  "gpu_updatePower p g =
     (let p = countPState p in
      if cyclesToWake p > 0 then
        (let p = p\<lparr>cyclesToWake := cyclesToWake p - 1\<rparr> in
         if cyclesToWake p = 0 then
           bindE (ip_setPStateActive p g) (\<lambda>(p, g). Inr (False, p\<lparr>idleCycles := 0\<rparr>, g))
         else Inr (False, p, g))
      else
        bindE (if idleCycles p \<ge> IPACC_PSTATE_ENTER_TIME then
                 bindE (if power_state p = ip_active then setPStateLowPower p
                        else if power_state p = ip_lowpower then setPStateIdle p else Inr p) (\<lambda>p.
                 Inr (p\<lparr>idleCycles := 0\<rparr>))
               else Inr p) (\<lambda>p.
        Inr (power_state p = ip_active, p, g)))"

definition gpu_getStaticPower :: "real \<Rightarrow> real \<Rightarrow> gpu \<Rightarrow> real" where
  "gpu_getStaticPower activePortion lowPortion p =
     ip_static_power p * activePortion + ip_static_power p / 3 * lowPortion"

definition gpu_getDynamicPower :: "real \<Rightarrow> gpu \<Rightarrow> real" where
  "gpu_getDynamicPower activity p = (if activity > 1 then 1 else activity) * vf_dyn (vft p (dvfsState p))"

definition gpu_powerIn1ms :: "gpu \<Rightarrow> real \<times> gpu" where
  "gpu_powerIn1ms p =
     (let one_millisec = getIPFreq p * 1000000 in
      (gpu_getStaticPower (real_of_int (m_IPActiveInLast1ms p) / one_millisec)
         (real_of_int (m_IPLowInLast1ms p) / one_millisec) p +
       gpu_getDynamicPower (real_of_int (gpu_insnsInMs p) / one_millisec) p,
       p\<lparr>gpu_insnsInMs := 0, m_IPActiveInLast1ms := 0, m_IPLowInLast1ms := 0\<rparr>))"

definition gpu_powerIn1us :: "gpu \<Rightarrow> real \<times> gpu" where
  "gpu_powerIn1us p =
     (let one_microsec = getIPFreq p * 1000 in
      (gpu_getStaticPower (real_of_int (m_IPActiveInLast1us p) / one_microsec)
         (real_of_int (m_IPLowInLast1us p) / one_microsec) p +
       gpu_getDynamicPower (real_of_int (gpu_insnsInUs p) / one_microsec) p,
       p\<lparr>gpu_insnsInUs := 0, m_IPActiveInLast1us := 0, m_IPLowInLast1us := 0\<rparr>))"

definition gpu_getPowerEst :: "gpu \<Rightarrow> real" where
  "gpu_getPowerEst p =
     (if m_enabled p \<and> power_state p = ip_active then gpu_getDynamicPower 1 p + gpu_getStaticPower 1 0 p else 0)"

subsection \<open>One tick\<close>

definition gpu_stall :: "gpu \<Rightarrow> 'd uncore \<Rightarrow> (gpu \<times> 'd uncore) result" where
  "gpu_stall p u =
     (let p = p\<lparr>gpu_fpsStallsCount := gpu_fpsStallsCount p + 1,
                gpu_fpsStalls := trunc (real_of_int (gpu_fpsStalls p) - GEMDROID_FREQ / getIPFreq p),
                idleCycles := idleCycles p + 1\<rparr>;
          (p, g) =
            (if gpu_fpsStalls p \<le> 0 then
               let p = p\<lparr>gpu_lastDCTick := gd_ticks (gd u)\<rparr> in
               case power_state p of
                 ip_lowpower \<Rightarrow> (p\<lparr>cyclesToWake := IPACC_PSTATE_LOWPOWER_EXIT_TIME\<rparr>, gd u)
               | ip_idle \<Rightarrow> (p\<lparr>cyclesToWake := IPACC_PSTATE_IDLE_EXIT_TIME\<rparr>, gd u)
               | ip_active \<Rightarrow> (p, markIPRequestStarted 0 (ip_type p) (ip_id p) 0 (gd u))
             else (p, gd u)) in
      bindE (gpu_updatePower p g) (\<lambda>(_, p, g). Inr (p, u\<lparr>gd := g\<rparr>)))"

definition gpu_writeLine :: "gpu \<Rightarrow> 'd uncore \<Rightarrow> (gpu \<times> 'd uncore) result" where
  "gpu_writeLine p u =
     (let (p, u) = gpu_processMMURequest (m_addrToDC p) False p u;
          p = p\<lparr>m_addrToDC := m_addrToDC p + of_int CACHE_LINE_SIZE\<rparr> in
      if m_addrToDC p \<ge> DC1_ADDR_START + of_int FRAME_SIZE then
        let p = p\<lparr>writeToDCFlag := False\<rparr> in
        bindE (enqueueIPResponse (m_freq (mem u)) (getIPFreq p) (ip_type p) (ip_id p) 0 (gpu_framesDisplayed p)
                 IP_TYPE_DC 0 (gd u) (sa u)) (\<lambda>(ok, g, s).
        Inr (p\<lparr>gpu_framesDisplayed := gpu_framesDisplayed p + 1\<rparr>, u\<lparr>gd := g, sa := s\<rparr>))
      else Inr (p, u))"

definition gpu_run :: "gpu \<Rightarrow> 'd uncore \<Rightarrow> (gpu \<times> 'd uncore) result" where
  "gpu_run p u =
     (if gpu_fpsStalls p > 0 then gpu_stall p u
      else if writeToDCFlag p then gpu_writeLine p u
      else
        bindE (gpu_updatePower p (gd u)) (\<lambda>(ok, p, g).
        let u = u\<lparr>gd := g\<rparr> in
        if \<not> ok then Inr (p, u)
        else
          bindE (assertE ''isPStateActive'' (power_state p = ip_active)) (\<lambda>_.
          if gpu_cyclesToSkip p > 0 then
            Inr (p\<lparr>gpu_cyclesToSkip := gpu_cyclesToSkip p - 1, gpu_insnsInMs := gpu_insnsInMs p + 1,
                   gpu_insnsInUs := gpu_insnsInUs p + 1, m_IPActivityIn1ms := m_IPActivityIn1ms p + 1,
                   m_IPActivityIn1us := m_IPActivityIn1us p + 1\<rparr>, u)
          else gpu_readLine p u)))"

definition gpu_tick :: "gpu \<Rightarrow> 'd uncore \<Rightarrow> (gpu \<times> 'd uncore) result" where
  "gpu_tick p u =
     bindE (assertE ''isEnabled'' (m_enabled p)) (\<lambda>_.
     let p = p\<lparr>ip_ticks := ip_ticks p + 1\<rparr> in
     if m_reqCount p > 0 then
       let (ok, p, u) = ip_sendMemoryReq p u in
       if ok then gpu_run p u else Inr (p\<lparr>idleStreak := idleStreak p + 1\<rparr>, u)
     else gpu_run p u)"

subsection \<open>The power states\<close>

text \<open>The GPU's own \<open>updatePower\<close> is the one of an IP, except that it does not start the frame of
  the current request when it wakes up.\<close>

lemma gpu_updatePower_eq:
  assumes "0 \<le> cyclesToWake p" and "cyclesToWake p \<noteq> 1"
  shows "gpu_updatePower p g = ip_updatePower p g"
proof -
  consider (waking) "cyclesToWake p > 1"
    | (sleep) "cyclesToWake p = 0" "idleCycles (countPState p) \<ge> 97800"
    | (rest) "cyclesToWake p = 0" "idleCycles (countPState p) < 97800"
    using assms by force
  then show ?thesis
    by cases (cases "power_state p"; simp add: gpu_updatePower_def ip_updatePower_def Let_def
        setPStateLowPower_def setPStateIdle_def)+
qed

lemma gpu_updatePower_wake:
  assumes "cyclesToWake p = 1" and "ip_class_ok p"
  shows "gpu_updatePower p g =
     Inr (False, (dvfs_on_wake (governor g) ((countPState p)\<lparr>cyclesToWake := 0\<rparr>))
            \<lparr>power_state := ip_active, idleCycles := 0\<rparr>, markIPRequestStarted 0 (ip_type p) (ip_id p) 0 g)"
proof -
  have "ip_class_ok ((countPState p)\<lparr>cyclesToWake := 0\<rparr>)"
    using assms(2) by (simp add: ip_class_ok_def)
  then show ?thesis
    using assms(1) by (simp add: gpu_updatePower_def Let_def ip_setPStateActive_eq)
qed

lemma gpu_updatePower_ok:
  assumes "ip_inv p"
  obtains ok p' g' where "gpu_updatePower p g = Inr (ok, p', g')" "ip_inv p'" "pstate_step p p'"
    "ok \<longrightarrow> power_state p' = ip_active" "ip_same p p'" "flowTable g' = flowTable g"
proof (cases "cyclesToWake p = 1")
  case False
  then have "gpu_updatePower p g = ip_updatePower p g"
    using assms by (simp add: gpu_updatePower_eq ip_inv_def ip_power_inv_def)
  with ip_updatePower_ok [OF assms, of g] that show thesis by metis
next
  case True
  have p: "ip_power_inv (countPState p)" "ip_dvfs_inv (countPState p)" "ip_class_ok (countPState p)" "ip_class_ok p"
    using ip_inv_countPState [OF assms] assms by (simp_all add: ip_inv_def)
  from gpu_updatePower_wake [OF True p(4)] show thesis
    by (rule that) (use True p in \<open>simp_all add: ip_inv_def ip_inv_power_fields ip_power_inv_def pstate_step_def\<close>)
qed

subsection \<open>Writing a frame\<close>

text \<open>A run of a writer, one step per environment, until it no longer writes: its last state and
  the requests it put into the queues, in order.\<close>

primrec write_run ::
  "('s \<Rightarrow> 'u \<Rightarrow> ('s \<times> 'u) result) \<Rightarrow> ('s \<Rightarrow> bool) \<Rightarrow> ('u \<Rightarrow> 'm list) \<Rightarrow> 'u list \<Rightarrow> 's \<Rightarrow> ('s \<times> 'm list) result" where
  "write_run step writing queue [] s = Inr (s, [])"
| "write_run step writing queue (u # us) s =
     (if writing s then
        bindE (step s u) (\<lambda>(s', u'). bindE (write_run step writing queue us s') (\<lambda>(t, xs).
        Inr (t, drop (length (queue u)) (queue u') @ xs)))
      else Inr (s, []))"

text \<open>
  The interface of a component that writes a frame line by line: \<open>asked s k\<close> says that the first
  \<open>k\<close> of its \<open>n\<close> lines have been asked for, \<open>owed\<close> is the request that was refused and is still to
  be sent, \<open>queue\<close> the queue the requests go to. A step asks for at most the next line, and for
  exactly one when there is \<open>room\<close>. The laws speak of one step in any environment that is \<open>good\<close>;
  the lemmas of a whole run, in which every step may see another environment.
\<close>

locale line_writer =
  fixes step :: "'s \<Rightarrow> 'u \<Rightarrow> ('s \<times> 'u) result"
    and asked :: "'s \<Rightarrow> nat \<Rightarrow> bool"
    and writing :: "'s \<Rightarrow> bool"
    and owed :: "'s \<Rightarrow> 'm list"
    and queue :: "'u \<Rightarrow> 'm list"
    and line :: "nat \<Rightarrow> 'm"
    and n :: nat
    and good :: "'u \<Rightarrow> bool"
    and room :: "'u \<Rightarrow> bool"
  assumes asked_writing: "asked s k \<Longrightarrow> k \<le> n \<and> (writing s \<longleftrightarrow> k < n)"
    and step_asked: "asked s k \<Longrightarrow> k < n \<Longrightarrow> good u \<Longrightarrow>
      \<exists>s' u' xs k'. step s u = Inr (s', u') \<and> queue u' = queue u @ xs \<and> asked s' k' \<and> k \<le> k' \<and> k' \<le> Suc k \<and>
        xs @ owed s' = owed s @ map line [k..<k'] \<and> (room u \<longrightarrow> k' = Suc k)"
begin

lemma run_lines:
  assumes "asked s k" and "\<forall>u\<in>set us. good u"
  shows "\<exists>t xs k'. write_run step writing queue us s = Inr (t, xs) \<and> asked t k' \<and> k \<le> k' \<and> k' \<le> k + length us \<and>
    xs @ owed t = owed s @ map line [k..<k'] \<and>
    ((\<forall>u\<in>set us. room u) \<longrightarrow> k' = min (k + length us) n)"
  using assms
proof (induction us arbitrary: s k)
  case Nil
  then show ?case using asked_writing [OF Nil(1)] by force
next
  case (Cons u us)
  show ?case
  proof (cases "k < n")
    case False
    with asked_writing [OF Cons.prems(1)] Cons.prems(1) show ?thesis
      by (intro exI [of _ s] exI [of _ "[]"] exI [of _ k]) auto
  next
    case True
    have "good u" using Cons.prems(2) by simp
    from step_asked [OF Cons.prems(1) True this] obtain s' u' xs k1 where
      1: "step s u = Inr (s', u')" "queue u' = queue u @ xs" "asked s' k1" "k \<le> k1" "k1 \<le> Suc k"
        "xs @ owed s' = owed s @ map line [k..<k1]" "room u \<longrightarrow> k1 = Suc k"
      by blast
    from Cons.IH [OF 1(3)] Cons.prems(2) obtain t ys k2 where
      2: "write_run step writing queue us s' = Inr (t, ys)" "asked t k2" "k1 \<le> k2" "k2 \<le> k1 + length us"
        "ys @ owed t = owed s' @ map line [k1..<k2]"
        "(\<forall>u\<in>set us. room u) \<longrightarrow> k2 = min (k1 + length us) n"
      by auto
    have "write_run step writing queue (u # us) s = Inr (t, xs @ ys)"
      using True asked_writing [OF Cons.prems(1)] 1 2 by simp
    moreover have "(xs @ ys) @ owed t = owed s @ map line [k..<k2]"
    proof -
      have "(xs @ ys) @ owed t = (xs @ owed s') @ map line [k1..<k2]"
        using 2(5) by simp
      also have "\<dots> = owed s @ map line ([k..<k1] @ [k1..<k2])"
        using 1(6) by simp
      also have "[k..<k1] @ [k1..<k2] = [k..<k2]"
        using upt_add_eq_append [of k k1 "k2 - k1"] 1(4) 2(3) by simp
      finally show ?thesis .
    qed
    ultimately show ?thesis
      using 1 2 by (intro exI [of _ t] exI [of _ "xs @ ys"] exI [of _ k2]) auto
  qed
qed

end

text \<open>The GPU as a line writer.\<close>

definition gpu_owed :: "gpu \<Rightarrow> GemDroidMemMsg list" where
  "gpu_owed p = (if m_reqCount p > 0
     then [mem_msg (ip_type p) (ip_id p) (core_id p) (m_reqAddr p) (m_isRead p) False] else [])"

definition gpu_line :: "int \<Rightarrow> int \<Rightarrow> nat \<Rightarrow> GemDroidMemMsg" where
  "gpu_line i c k = mem_msg IP_TYPE_GPU i c (DC1_ADDR_START + 64 * of_nat k) False False"

definition gpu_asked :: "int \<Rightarrow> int \<Rightarrow> gpu \<Rightarrow> nat \<Rightarrow> bool" where
  "gpu_asked i c p k \<longleftrightarrow> ip_type p = IP_TYPE_GPU \<and> ip_id p = i \<and> core_id p = c \<and> m_enabled p \<and>
     gpu_fpsStalls p \<le> 0 \<and> m_reqCount p \<le> 1 \<and> m_addrToDC p = DC1_ADDR_START + 64 * of_nat k \<and>
     k \<le> 414720 \<and> (writeToDCFlag p \<longleftrightarrow> k < 414720)"

definition gpu_flow_known :: "'d uncore \<Rightarrow> bool" where
  "gpu_flow_known u \<longleftrightarrow>
     (case flow_identification (flowTable (gd u)) (app_id (gd u) 0) IP_TYPE_GPU of Inl _ \<Rightarrow> False | Inr _ \<Rightarrow> True)"

definition sa_room :: "'d uncore \<Rightarrow> bool" where
  "sa_room u \<longleftrightarrow> length (ipMemReq (sa u)) < 231 \<and> length (memCoreResp (sa u)) + length (memIpResp (sa u)) \<le> MAX_MEM_RESPS"

lemma ip_sendMemoryReq_ledger:
  assumes "ip_sendMemoryReq p u = (ok, p', u')"
  shows "ipMemReq (sa u') = ipMemReq (sa u) @
      (if ok then [mem_msg (ip_type p) (ip_id p) (core_id p) (m_reqAddr p) (m_isRead p) False] else [])"
    "ok \<Longrightarrow> m_reqCount p' = m_reqCount p - 1"
    "\<not> ok \<Longrightarrow> p' = p\<lparr>m_memRejected := m_memRejected p + 1\<rparr>"
    "ip_type p' = ip_type p" "ip_id p' = ip_id p" "core_id p' = core_id p" "GemDroidIP.more p' = GemDroidIP.more p"
    "gd u' = gd u" "sa_room u \<Longrightarrow> ok"
  using assms by (auto simp: ip_sendMemoryReq_def enqueueIPMemRequest_def IPActivityUpdate_def
      ip_mem_limit sa_room_def split: if_splits)

text \<open>The fields of the GPU that the operations of the base class leave alone.\<close>

lemma gpu_moreD:
  fixes p p' :: gpu
  assumes "GemDroidIP.more p' = GemDroidIP.more p"
  shows "em_gputrace_file p' = em_gputrace_file p" "gpu_fpsStalls p' = gpu_fpsStalls p"
    "m_enabled p' = m_enabled p" "writeToDCFlag p' = writeToDCFlag p" "m_addrToDC p' = m_addrToDC p"
    "gpu_framesDisplayed p' = gpu_framesDisplayed p" "gpu_lastDCTick p' = gpu_lastDCTick p"
  using assms by (cases p; cases p'; simp)+

lemma gpu_owed_frame [simp]:
  "gpu_owed (p\<lparr>m_addrToDC := a\<rparr>) = gpu_owed p" "gpu_owed (p\<lparr>writeToDCFlag := b\<rparr>) = gpu_owed p"
  "gpu_owed (p\<lparr>gpu_framesDisplayed := n\<rparr>) = gpu_owed p"
  by (simp_all add: gpu_owed_def)

lemma gpu_asked_displayed [simp]: "gpu_asked i c (p\<lparr>gpu_framesDisplayed := n\<rparr>) k = gpu_asked i c p k"
  by (simp add: gpu_asked_def)

lemma gpu_processMMURequest_ledger:
  assumes "gpu_processMMURequest a r p u = (p', u')"
  shows "\<exists>xs. ipMemReq (sa u') = ipMemReq (sa u) @ xs \<and>
      xs @ gpu_owed p' = [mem_msg (ip_type p) (ip_id p) (core_id p) a r False]"
    "m_reqCount p' \<le> 1" "ip_type p' = ip_type p" "ip_id p' = ip_id p" "core_id p' = core_id p"
    "GemDroidIP.more p' = GemDroidIP.more p" "gd u' = gd u"
proof -
  let ?p = "p\<lparr>m_reqCount := 1, m_reqAddr := a, m_isRead := r\<rparr>"
  obtain ok where "ip_sendMemoryReq ?p u = (ok, p', u')"
    using assms by (cases "ip_sendMemoryReq ?p u") (auto simp: gpu_processMMURequest_def)
  note l = ip_sendMemoryReq_ledger [OF this]
  show "\<exists>xs. ipMemReq (sa u') = ipMemReq (sa u) @ xs \<and>
      xs @ gpu_owed p' = [mem_msg (ip_type p) (ip_id p) (core_id p) a r False]" "m_reqCount p' \<le> 1"
    using l by (cases ok; simp add: gpu_owed_def)+
  show "ip_type p' = ip_type p" "ip_id p' = ip_id p" "core_id p' = core_id p"
    "GemDroidIP.more p' = GemDroidIP.more p" "gd u' = gd u"
    using l by simp_all
qed

lemma gpu_response_ok:
  fixes u :: "'d uncore"
  assumes "gpu_flow_known u"
  shows "\<exists>g s. enqueueIPResponse mf cf IP_TYPE_GPU i 0 fr ft fl (gd u) s0 = Inr (True, g, s) \<and>
    ipMemReq s = ipMemReq s0"
proof -
  let ?s = "s0\<lparr>numIPCoreResponse := numIPCoreResponse s0 + 1\<rparr>"
  obtain flows where f: "flow_identification (flowTable (gd u)) (app_id (gd u) 0) IP_TYPE_GPU = Inr flows"
    using assms by (auto simp: gpu_flow_known_def split: sum.splits)
  have "\<exists>s. callNextIP g IP_TYPE_GPU i 0 fr ft k1 k2 ?s = Inr s \<and> ipMemReq s = ipMemReq s0" for g k1 k2
    by (simp add: callNextIP_def callIP_def enqueueIPIPRequest_def)
  then obtain s where "callNextIP (snd (markIPRequestCompleted mf cf 0 IP_TYPE_GPU i fr fl (gd u))) IP_TYPE_GPU i 0 fr ft
      (flows ! 0) (flows ! 1) ?s = Inr s" "ipMemReq s = ipMemReq s0" by blast
  then show ?thesis using f by (simp add: enqueueIPResponse_def)
qed

lemma dc1_line_last:
  "k < 414720 \<Longrightarrow> (DC1_ADDR_START + 64 * of_nat k + 64 :: addr) \<ge> DC1_ADDR_START + of_int FRAME_SIZE \<longleftrightarrow> Suc k = 414720"
proof -
  assume k: "k < 414720"
  have "uint (DC1_ADDR_START + 64 * of_nat k + 64 :: addr) = 2400000064 + 64 * int k"
  proof -
    have "(DC1_ADDR_START + 64 * of_nat k + 64 :: addr) = of_int (2400000064 + 64 * int k)"
      by simp
    then show ?thesis using k by (simp only: uint_word_of_int) (simp add: take_bit_eq_mod)
  qed
  moreover have "uint (DC1_ADDR_START + of_int FRAME_SIZE :: addr) = 2426542080"
    by simp
  ultimately show ?thesis using k by (simp only: word_le_def) auto
qed

lemma gpu_writeLine_step:
  assumes "gpu_asked i c p k" "k < 414720" "gpu_flow_known u"
  shows "\<exists>p' u' xs. gpu_writeLine p u = Inr (p', u') \<and> ipMemReq (sa u') = ipMemReq (sa u) @ xs \<and>
    gpu_asked i c p' (Suc k) \<and> xs @ gpu_owed p' = [gpu_line i c k]"
proof -
  obtain q v where q: "gpu_processMMURequest (m_addrToDC p) False p u = (q, v)" by force
  note l = gpu_processMMURequest_ledger [OF q] and m = gpu_moreD [OF l(6)]
  let ?q = "q\<lparr>m_addrToDC := m_addrToDC q + 64\<rparr>"
  from l(1) obtain xs where xs: "ipMemReq (sa v) = ipMemReq (sa u) @ xs"
    "xs @ gpu_owed q = [gpu_line i c k]"
    using assms(1) by (auto simp: gpu_asked_def gpu_line_def)
  have addr: "m_addrToDC p = DC1_ADDR_START + 64 * of_nat k"
    using assms(1) by (simp add: gpu_asked_def)
  have room: "m_addrToDC ?q \<ge> DC1_ADDR_START + of_int FRAME_SIZE \<longleftrightarrow> Suc k = 414720"
    using dc1_line_last [OF assms(2)] by (simp add: m addr)
  have asked: "gpu_asked i c (?q\<lparr>writeToDCFlag := Suc k < 414720\<rparr>) (Suc k)"
    using assms(1,2) l m by (simp add: gpu_asked_def algebra_simps)
  have "gpu_flow_known v" using assms(3) l(7) by (simp add: gpu_flow_known_def)
  from gpu_response_ok [OF this] obtain g s where
    r: "enqueueIPResponse (m_freq (mem v)) (getIPFreq ?q) IP_TYPE_GPU i 0 (gpu_framesDisplayed q) IP_TYPE_DC 0 (gd v) (sa v)
      = Inr (True, g, s)" "ipMemReq s = ipMemReq (sa v)" by metis
  show ?thesis
  proof (cases "Suc k = 414720")
    case True
    have "gpu_writeLine p u = Inr (?q\<lparr>writeToDCFlag := False, gpu_framesDisplayed := gpu_framesDisplayed q + 1\<rparr>,
        v\<lparr>gd := g, sa := s\<rparr>)"
      using r(1) room True l(3,4) assms(1) q
      by (simp add: gpu_writeLine_def Let_def gpu_asked_def getIPFreq_def vft_def)
    moreover have "gpu_asked i c (?q\<lparr>writeToDCFlag := False, gpu_framesDisplayed := gpu_framesDisplayed q + 1\<rparr>) (Suc k)"
      using asked unfolding True by simp
    ultimately show ?thesis
      using xs r(2) by (intro exI conjI) (assumption | simp)+
  next
    case False
    then have "gpu_writeLine p u = Inr (?q, v)"
      using room q by (simp add: gpu_writeLine_def Let_def)
    moreover have "gpu_asked i c ?q (Suc k)"
      using asked False assms l m by (simp add: gpu_asked_def)
    ultimately show ?thesis using xs by (intro exI conjI) (assumption | simp)+
  qed
qed

lemma gpu_tick_asked:
  fixes u :: "'d uncore"
  assumes "gpu_asked i c p k" "k < 414720" "gpu_flow_known u"
  shows "\<exists>p' u' xs k'. gpu_tick p u = Inr (p', u') \<and> ipMemReq (sa u') = ipMemReq (sa u) @ xs \<and>
    gpu_asked i c p' k' \<and> k \<le> k' \<and> k' \<le> Suc k \<and>
    xs @ gpu_owed p' = gpu_owed p @ map (gpu_line i c) [k..<k'] \<and> (sa_room u \<longrightarrow> k' = Suc k)"
proof -
  let ?p = "p\<lparr>ip_ticks := ip_ticks p + 1\<rparr>"
  have p: "gpu_asked i c ?p k" "gpu_owed ?p = gpu_owed p" "m_enabled p"
    using assms(1) by (simp_all add: gpu_asked_def gpu_owed_def)
  have run: "gpu_run q v = gpu_writeLine q v" if "gpu_asked i c q k" for q and v :: "'d uncore"
    using that assms(2) by (simp add: gpu_run_def gpu_asked_def)
  show ?thesis
  proof (cases "m_reqCount p > 0")
    case False
    then have "gpu_tick p u = gpu_writeLine ?p u"
      using p run [OF p(1)] by (simp add: gpu_tick_def Let_def)
    with gpu_writeLine_step [OF p(1) assms(2,3)] False show ?thesis
      by (fastforce simp: gpu_owed_def [of p] intro!: exI [of _ "Suc k"])
  next
    case True
    obtain ok q v where s: "ip_sendMemoryReq ?p u = (ok, q, v)" by (cases "ip_sendMemoryReq ?p u")
    note l = ip_sendMemoryReq_ledger [OF s] and m = gpu_moreD [OF l(7)]
    have one: "m_reqCount p = 1" using True assms(1) by (simp add: gpu_asked_def)
    show ?thesis
    proof (cases ok)
      case False
      then have "gpu_tick p u = Inr (q\<lparr>idleStreak := idleStreak q + 1\<rparr>, v)" "\<not> sa_room u"
        using True s p l(9) by (auto simp: gpu_tick_def Let_def)
      with l False p(1,2) show ?thesis
        by (intro exI [of _ "q\<lparr>idleStreak := idleStreak q + 1\<rparr>"] exI [of _ v] exI [of _ "[]"] exI [of _ k])
          (simp add: gpu_asked_def gpu_owed_def)
    next
      case ok: True
      have "gpu_asked i c q k" using p(1) l ok one m by (simp add: gpu_asked_def)
      moreover have "gpu_flow_known v" using assms(3) l(8) by (simp add: gpu_flow_known_def)
      ultimately obtain p' u' xs where w: "gpu_writeLine q v = Inr (p', u')"
        "ipMemReq (sa u') = ipMemReq (sa v) @ xs" "gpu_asked i c p' (Suc k)" "xs @ gpu_owed p' = [gpu_line i c k]"
        using gpu_writeLine_step assms(2) by blast
      have "gpu_tick p u = Inr (p', u')"
        using True s p(3) ok w(1) run [OF \<open>gpu_asked i c q k\<close>] by (simp add: gpu_tick_def Let_def)
      moreover have "ipMemReq (sa u') = ipMemReq (sa u) @ gpu_owed p @ xs"
        using w(2) l(1) ok one by (simp add: gpu_owed_def)
      ultimately show ?thesis using w(3,4)
        by (intro exI [of _ p'] exI [of _ u'] exI [of _ "gpu_owed p @ xs"] exI [of _ "Suc k"]) simp
    qed
  qed
qed

interpretation gpu_wr: line_writer gpu_tick "gpu_asked i c" writeToDCFlag gpu_owed
  "\<lambda>u. ipMemReq (sa u)" "gpu_line i c" 414720 gpu_flow_known sa_room for i c
  by unfold_locales (simp add: gpu_asked_def, rule gpu_tick_asked)

subsection \<open>Invariant\<close>

definition gpu_inv :: "gpu \<Rightarrow> bool" where
  "gpu_inv p \<longleftrightarrow> ip_inv p \<and> ip_type p = IP_TYPE_GPU \<and> \<not> isDev p \<and> m_reqCount p \<le> 1"

lemma gpu_inv_work:
  "gpu_inv p \<Longrightarrow> ip_type q = ip_type p \<Longrightarrow> isDev q = isDev p \<Longrightarrow> power_state q = power_state p \<Longrightarrow>
   cyclesToWake q = cyclesToWake p \<Longrightarrow> dvfsState q = dvfsState p \<Longrightarrow> m_optDVFSState q = m_optDVFSState p \<Longrightarrow>
   voltage_freq_table q = voltage_freq_table p \<Longrightarrow> 0 \<le> idleCycles q \<Longrightarrow> m_reqCount q \<le> 1 \<Longrightarrow> gpu_inv q"
  using ip_inv_work [of p q] by (simp add: gpu_inv_def)

lemma gpu_inv_frame [simp]:
  "gpu_inv (p\<lparr>m_addrToDC := a\<rparr>) = gpu_inv p" "gpu_inv (p\<lparr>writeToDCFlag := b\<rparr>) = gpu_inv p"
  "gpu_inv (p\<lparr>gpu_framesDisplayed := n\<rparr>) = gpu_inv p" "gpu_inv (p\<lparr>gpu_true_fetch := b\<rparr>) = gpu_inv p"
  "gpu_inv (p\<lparr>em_gputrace_file := ts\<rparr>) = gpu_inv p" "gpu_inv (p\<lparr>gpu_cyclesToSkip := n\<rparr>) = gpu_inv p"
  "gpu_inv (p\<lparr>lines_read_gpu := n\<rparr>) = gpu_inv p" "gpu_inv (p\<lparr>ip_ticks := n\<rparr>) = gpu_inv p"
  "gpu_inv (p\<lparr>idleStreak := n\<rparr>) = gpu_inv p" "gpu_inv (p\<lparr>gpu_fpsStalls := n\<rparr>) = gpu_inv p"
  "gpu_inv (p\<lparr>gpu_fpsStallsCount := n\<rparr>) = gpu_inv p" "gpu_inv (p\<lparr>gpu_lastDCTick := n\<rparr>) = gpu_inv p"
  "gpu_inv (p\<lparr>gpu_framesDropped := n\<rparr>) = gpu_inv p" "gpu_inv (p\<lparr>m_frameNum := n\<rparr>) = gpu_inv p"
  "gpu_inv (p\<lparr>gpu_insnsInMs := n\<rparr>) = gpu_inv p" "gpu_inv (p\<lparr>gpu_insnsInUs := n\<rparr>) = gpu_inv p"
  "gpu_inv (p\<lparr>m_IPActivityIn1ms := n\<rparr>) = gpu_inv p" "gpu_inv (p\<lparr>m_IPActivityIn1us := n\<rparr>) = gpu_inv p"
  by (simp_all add: gpu_inv_def ip_inv_def ip_power_inv_def ip_dvfs_inv_def ip_class_ok_def)

lemma gpu_inv_idle: "gpu_inv p \<Longrightarrow> 0 \<le> n \<Longrightarrow> gpu_inv (p\<lparr>idleCycles := n\<rparr>)"
  by (simp add: gpu_inv_def ip_inv_def ip_power_inv_def ip_dvfs_inv_def ip_class_ok_def)

lemma gpu_inv_send: "gpu_inv p \<Longrightarrow> gpu_inv (fst (snd (ip_sendMemoryReq p u)))"
  by (rule gpu_inv_work [of p])
    (simp_all add: gpu_inv_def ip_sendMemoryReq_def IPActivityUpdate_def ip_inv_idle split_beta)

lemma gpu_inv_processMMURequest: "gpu_inv p \<Longrightarrow> gpu_inv (fst (gpu_processMMURequest a r p u))"
  unfolding gpu_processMMURequest_def
  by (rule gpu_inv_send, rule gpu_inv_work [of p]) (simp_all add: gpu_inv_def ip_inv_idle)

lemma gpu_inv_rendered: "gpu_inv p \<Longrightarrow> gpu_inv (fst (gpu_rendered p u))"
  by (simp add: gpu_rendered_def Let_def)

lemma gpu_inv_readLine: "gpu_readLine p u = Inr (p', u') \<Longrightarrow> gpu_inv p \<Longrightarrow> gpu_inv p'"
  unfolding gpu_readLine_def Let_def split_beta
  by (auto split: if_splits
      dest!: arg_cong [where f = fst and x = "gpu_processMMURequest _ _ _ _"]
        arg_cong [where f = fst and x = "gpu_rendered _ _"])
    (metis gpu_inv_processMMURequest gpu_inv_frame gpu_inv_rendered)+

lemma gpu_inv_writeLine: "gpu_writeLine p u = Inr (p', u') \<Longrightarrow> gpu_inv p \<Longrightarrow> gpu_inv p'"
  using gpu_inv_processMMURequest [of p "m_addrToDC p" False u]
  by (auto simp: gpu_writeLine_def Let_def split_beta split: if_splits)

lemma gpu_updatePower_inv:
  assumes "gpu_inv p"
  obtains ok p' g' where "gpu_updatePower p g = Inr (ok, p', g')" "gpu_inv p'"
    "ok \<longrightarrow> power_state p' = ip_active" "GemDroidIP.more p' = GemDroidIP.more p"
proof -
  from assms have "ip_inv p" by (simp add: gpu_inv_def)
  then obtain ok p' g' where u: "gpu_updatePower p g = Inr (ok, p', g')" "ip_inv p'"
    "ok \<longrightarrow> power_state p' = ip_active" "ip_same p p'"
    by (rule gpu_updatePower_ok [of p g])
  from ip_sameD [OF u(4)] assms u(2) have "gpu_inv p'" by (simp add: gpu_inv_def)
  with u that ip_sameD [OF u(4)] show thesis by metis
qed

lemma gpu_inv_wake:
  "gpu_inv p \<Longrightarrow> power_state p \<noteq> ip_active \<Longrightarrow> gpu_inv (p\<lparr>cyclesToWake := 109200\<rparr>)"
  by (simp add: gpu_inv_def ip_inv_def ip_power_inv_def ip_dvfs_inv_def ip_class_ok_def)

lemma gpu_stall_ok:
  assumes "gpu_inv p"
  shows "\<exists>p' u'. gpu_stall p u = Inr (p', u') \<and> gpu_inv p' \<and> sa u' = sa u"
proof -
  let ?p = "p\<lparr>gpu_fpsStallsCount := gpu_fpsStallsCount p + 1,
                gpu_fpsStalls := trunc (real_of_int (gpu_fpsStalls p) - GEMDROID_FREQ / getIPFreq p),
                idleCycles := idleCycles p + 1\<rparr>"
  have "0 \<le> idleCycles p" using assms by (simp add: gpu_inv_def ip_inv_idle)
  with assms have p: "gpu_inv ?p" by (intro gpu_inv_idle) simp_all
  have step: "\<exists>p' u'. bindE (gpu_updatePower q g) (\<lambda>(_, p, g). Inr (p, u\<lparr>gd := g\<rparr>)) = Inr (p', u') \<and>
      gpu_inv p' \<and> sa u' = sa u" if "gpu_inv q" for q g
  proof -
    obtain ok p' g' where "gpu_updatePower q g = Inr (ok, p', g')" "gpu_inv p'"
      by (rule gpu_updatePower_inv [OF \<open>gpu_inv q\<close>, of g])
    then show ?thesis by (intro exI [of _ p'] exI [of _ "u\<lparr>gd := g'\<rparr>"]) simp
  qed
  show ?thesis
  proof (cases "gpu_fpsStalls ?p \<le> 0")
    case False
    with step [OF p, of "gd u"] show ?thesis by (simp add: gpu_stall_def)
  next
    case True
    have "gpu_inv (?p\<lparr>gpu_lastDCTick := gd_ticks (gd u)\<rparr>)" using p by simp
    from step [OF this] step [OF gpu_inv_wake [OF this]] True show ?thesis
      by (cases "power_state p") (simp_all add: gpu_stall_def)
  qed
qed

lemma gpu_inv_run: "gpu_run p u = Inr (p', u') \<Longrightarrow> gpu_inv p \<Longrightarrow> gpu_inv p'"
proof -
  assume r: "gpu_run p u = Inr (p', u')" and p: "gpu_inv p"
  consider (stall) "gpu_fpsStalls p > 0" | (lines) "\<not> gpu_fpsStalls p > 0" "writeToDCFlag p"
    | (replay) "\<not> gpu_fpsStalls p > 0" "\<not> writeToDCFlag p" by blast
  then show "gpu_inv p'"
  proof cases
    case stall
    with r gpu_stall_ok [OF p, of u] show ?thesis by (auto simp: gpu_run_def)
  next
    case lines
    with r p show ?thesis by (auto simp: gpu_run_def dest: gpu_inv_writeLine)
  next
    case replay
    obtain ok q g where "gpu_updatePower p (gd u) = Inr (ok, q, g)" "gpu_inv q"
      by (rule gpu_updatePower_inv [OF p, of "gd u"])
    with replay r show ?thesis
      by (auto simp: gpu_run_def Let_def split: if_splits dest: gpu_inv_readLine)
  qed
qed

lemma gpu_inv_tick [inv_intros]:
  assumes "gpu_tick p u = Inr (p', u')" and "gpu_inv p"
  shows "gpu_inv p'"
  using assms gpu_inv_send [of "p\<lparr>ip_ticks := ip_ticks p + 1\<rparr>" u]
  by (auto simp: gpu_tick_def Let_def split_beta split: if_splits dest: gpu_inv_run)

subsection \<open>Properties\<close>

text \<open>A GPU that is about to write a frame, for the witness.\<close>

definition gpu_demo :: gpu where
  "gpu_demo = GemDroidIP.extend (dev_demo IP_TYPE_GPU False)
     (gpu.fields [] 0 0 0 True True DC1_ADDR_START 0 0 True 0 0 0 0)"

text \<open>C10: while it writes a frame the GPU never fails, whatever the other components do to the
  queues between its ticks: the write requests it puts into the system agent's queue, followed by
  the one that was refused and is still owed, are exactly the first lines of the frame buffer, in
  order and each once; it asks for at most one line per tick, for exactly one when the agent has
  room, and it stops after the last of the 414720 lines.\<close>

theorem gpu_writes_frame:
  assumes "gpu_asked i c p 0" and "\<forall>u\<in>set us. gpu_flow_known u"
  shows "\<exists>q xs k. write_run gpu_tick writeToDCFlag (\<lambda>u. ipMemReq (sa u)) us p = Inr (q, xs) \<and>
    k \<le> length us \<and> k \<le> 414720 \<and> xs @ gpu_owed q = gpu_owed p @ map (gpu_line i c) [0..<k] \<and>
    (writeToDCFlag q \<longleftrightarrow> k < 414720) \<and> ((\<forall>u\<in>set us. sa_room u) \<longrightarrow> k = min (length us) 414720)"
proof -
  from gpu_wr.run_lines [OF assms] obtain q xs k where
    "write_run gpu_tick writeToDCFlag (\<lambda>u. ipMemReq (sa u)) us p = Inr (q, xs)" "gpu_asked i c q k"
    "k \<le> 0 + length us" "xs @ gpu_owed q = gpu_owed p @ map (gpu_line i c) [0..<k]"
    "(\<forall>u\<in>set us. sa_room u) \<longrightarrow> k = min (0 + length us) 414720" by blast
  with gpu_wr.asked_writing [of i c q k] show ?thesis
    by (intro exI [of _ q] exI [of _ xs] exI [of _ k]) simp
qed

theorem gpu_writes_frame_witness:
  "\<exists>q xs. write_run gpu_tick writeToDCFlag (\<lambda>u. ipMemReq (sa u)) [u_demo, u_demo] gpu_demo = Inr (q, xs) \<and>
     xs @ gpu_owed q = map (gpu_line 0 0) [0..<2] \<and> writeToDCFlag q"
proof -
  have "gpu_asked 0 0 gpu_demo 0" "gpu_owed gpu_demo = []"
    by (simp_all add: gpu_asked_def gpu_owed_def gpu_demo_def GemDroidIP.defs gpu.defs dev_demo_def ip_blank_def)
  moreover have "gpu_flow_known u_demo" by code_simp
  moreover have "sa_room u_demo" by code_simp
  ultimately show ?thesis
    using gpu_writes_frame [of 0 0 gpu_demo "[u_demo, u_demo]"]
    by (auto simp: upt_conv_Cons simp del: write_run.simps)
qed

end
