(* ===== verification/GD_System.thy ===== *)
theory GD_System
  imports GD_Coder GD_GPU
begin

section \<open>The components together\<close>

text \<open>
  The members of class \<open>GemDroid\<close> (\<open>gemdroid.hh\<close>) that are components, in the record \<open>world\<close>, and the
  calls between them: \<open>tickIP\<close>, \<open>getIPInstance\<close>, \<open>memIPResponse\<close>, \<open>memCoreResponse\<close> and \<open>enqueueIPReq\<close> of
  \<open>gemdroid.cc\<close>, and the functions of the system agent that call them (\<open>sendMemoryResponses\<close>,
  \<open>sendIPRequests\<close>, \<open>process\<close> and \<open>tick\<close> of \<open>gemdroid_sa.cc\<close>).

  An array of components is a function of the instance; \<open>inst\<close> raises the fault of an instance
  outside the array. No method of an IP is virtual, so that a call through the base pointer that
  \<open>getIPInstance\<close> returns runs the base class's operation on the base subobject: \<open>getIPInstance\<close>
  truncates the record and \<open>setIPInstance\<close> writes the base fields back.
\<close>

record 'd world =
  un :: "'d uncore"
  gemdroid_core :: "nat \<Rightarrow> GemDroidCore"
  gemdroid_ip_dc :: "int \<Rightarrow> GemDroidIP"
  gemdroid_ip_nw :: "int \<Rightarrow> GemDroidIP"
  gemdroid_ip_snd :: "int \<Rightarrow> GemDroidIP"
  gemdroid_ip_mic :: "int \<Rightarrow> GemDroidIP"
  gemdroid_ip_cam :: "int \<Rightarrow> GemDroidIP"
  gemdroid_ip_mmc_in :: "int \<Rightarrow> GemDroidIP"
  gemdroid_ip_mmc_out :: "int \<Rightarrow> GemDroidIP"
  gemdroid_ip_vd :: "int \<Rightarrow> decoder"
  gemdroid_ip_ve :: "int \<Rightarrow> coder"
  gemdroid_ip_ad :: "int \<Rightarrow> decoder"
  gemdroid_ip_ae :: "int \<Rightarrow> coder"
  gemdroid_ip_img :: "int \<Rightarrow> coder"
  gemdroid_ip_gpu :: "int \<Rightarrow> gpu"

definition inst :: "int \<Rightarrow> 'a \<Rightarrow> 'a result" where
  "inst i x = bindE (boundsE ''instance'' (0 \<le> i \<and> i < int MAX_IPS)) (\<lambda>_. Inr x)"

subsection \<open>Base subobjects\<close>

abbreviation (input) rebase :: "GemDroidIP \<Rightarrow> 'a GemDroidIP_scheme \<Rightarrow> 'a GemDroidIP_scheme" where
  "rebase b p \<equiv> GemDroidIP.extend b (GemDroidIP.more p)"

definition getIPInstance :: "IP_TYPE \<Rightarrow> int \<Rightarrow> 'd world \<Rightarrow> GemDroidIP result" where
  "getIPInstance type i w =
     (case type of
        IP_TYPE_DC \<Rightarrow> inst i (gemdroid_ip_dc w i)
      | IP_TYPE_NW \<Rightarrow> inst i (gemdroid_ip_nw w i)
      | IP_TYPE_SND \<Rightarrow> inst i (gemdroid_ip_snd w i)
      | IP_TYPE_MIC \<Rightarrow> inst i (gemdroid_ip_mic w i)
      | IP_TYPE_CAM \<Rightarrow> inst i (gemdroid_ip_cam w i)
      | IP_TYPE_MMC_IN \<Rightarrow> inst i (gemdroid_ip_mmc_in w i)
      | IP_TYPE_MMC_OUT \<Rightarrow> inst i (gemdroid_ip_mmc_out w i)
      | IP_TYPE_VD \<Rightarrow> inst i (GemDroidIP.truncate (gemdroid_ip_vd w i))
      | IP_TYPE_VE \<Rightarrow> inst i (GemDroidIP.truncate (gemdroid_ip_ve w i))
      | IP_TYPE_AD \<Rightarrow> inst i (GemDroidIP.truncate (gemdroid_ip_ad w i))
      | IP_TYPE_AE \<Rightarrow> inst i (GemDroidIP.truncate (gemdroid_ip_ae w i))
      | IP_TYPE_IMG \<Rightarrow> inst i (GemDroidIP.truncate (gemdroid_ip_img w i))
      | IP_TYPE_GPU \<Rightarrow> inst i (GemDroidIP.truncate (gemdroid_ip_gpu w i))
      | _ \<Rightarrow> Inl (AssertFail ''0''))"

definition setIPInstance :: "IP_TYPE \<Rightarrow> int \<Rightarrow> GemDroidIP \<Rightarrow> 'd world \<Rightarrow> 'd world" where
  "setIPInstance type i b w =
     (case type of
        IP_TYPE_DC \<Rightarrow> w\<lparr>gemdroid_ip_dc := (gemdroid_ip_dc w)(i := b)\<rparr>
      | IP_TYPE_NW \<Rightarrow> w\<lparr>gemdroid_ip_nw := (gemdroid_ip_nw w)(i := b)\<rparr>
      | IP_TYPE_SND \<Rightarrow> w\<lparr>gemdroid_ip_snd := (gemdroid_ip_snd w)(i := b)\<rparr>
      | IP_TYPE_MIC \<Rightarrow> w\<lparr>gemdroid_ip_mic := (gemdroid_ip_mic w)(i := b)\<rparr>
      | IP_TYPE_CAM \<Rightarrow> w\<lparr>gemdroid_ip_cam := (gemdroid_ip_cam w)(i := b)\<rparr>
      | IP_TYPE_MMC_IN \<Rightarrow> w\<lparr>gemdroid_ip_mmc_in := (gemdroid_ip_mmc_in w)(i := b)\<rparr>
      | IP_TYPE_MMC_OUT \<Rightarrow> w\<lparr>gemdroid_ip_mmc_out := (gemdroid_ip_mmc_out w)(i := b)\<rparr>
      | IP_TYPE_VD \<Rightarrow> w\<lparr>gemdroid_ip_vd := (gemdroid_ip_vd w)(i := rebase b (gemdroid_ip_vd w i))\<rparr>
      | IP_TYPE_VE \<Rightarrow> w\<lparr>gemdroid_ip_ve := (gemdroid_ip_ve w)(i := rebase b (gemdroid_ip_ve w i))\<rparr>
      | IP_TYPE_AD \<Rightarrow> w\<lparr>gemdroid_ip_ad := (gemdroid_ip_ad w)(i := rebase b (gemdroid_ip_ad w i))\<rparr>
      | IP_TYPE_AE \<Rightarrow> w\<lparr>gemdroid_ip_ae := (gemdroid_ip_ae w)(i := rebase b (gemdroid_ip_ae w i))\<rparr>
      | IP_TYPE_IMG \<Rightarrow> w\<lparr>gemdroid_ip_img := (gemdroid_ip_img w)(i := rebase b (gemdroid_ip_img w i))\<rparr>
      | IP_TYPE_GPU \<Rightarrow> w\<lparr>gemdroid_ip_gpu := (gemdroid_ip_gpu w)(i := rebase b (gemdroid_ip_gpu w i))\<rparr>
      | _ \<Rightarrow> w)"

text \<open>A call of an operation \<open>f\<close> of the base class through the pointer.\<close>

definition withIPInstance ::
  "IP_TYPE \<Rightarrow> int \<Rightarrow> (GemDroidIP \<Rightarrow> GemDroidIP result) \<Rightarrow> 'd world \<Rightarrow> 'd world result" where
  "withIPInstance type i f w =
     bindE (getIPInstance type i w) (\<lambda>p. bindE (f p) (\<lambda>p. Inr (setIPInstance type i p w)))"

subsection \<open>Dispatch\<close>

definition tickIP :: "IP_TYPE \<Rightarrow> int \<Rightarrow> 'd world \<Rightarrow> 'd world result" where
  "tickIP type i w =
     (case type of
        IP_TYPE_DC \<Rightarrow> bindE (bindE (inst i (gemdroid_ip_dc w i)) (\<lambda>p. ip_tick p (un w))) (\<lambda>(p, u).
          Inr (w\<lparr>gemdroid_ip_dc := (gemdroid_ip_dc w)(i := p), un := u\<rparr>))
      | IP_TYPE_NW \<Rightarrow> bindE (bindE (inst i (gemdroid_ip_nw w i)) (\<lambda>p. ip_tick p (un w))) (\<lambda>(p, u).
          Inr (w\<lparr>gemdroid_ip_nw := (gemdroid_ip_nw w)(i := p), un := u\<rparr>))
      | IP_TYPE_SND \<Rightarrow> bindE (bindE (inst i (gemdroid_ip_snd w i)) (\<lambda>p. ip_tick p (un w))) (\<lambda>(p, u).
          Inr (w\<lparr>gemdroid_ip_snd := (gemdroid_ip_snd w)(i := p), un := u\<rparr>))
      | IP_TYPE_MIC \<Rightarrow> bindE (bindE (inst i (gemdroid_ip_mic w i)) (\<lambda>p. ip_tick p (un w))) (\<lambda>(p, u).
          Inr (w\<lparr>gemdroid_ip_mic := (gemdroid_ip_mic w)(i := p), un := u\<rparr>))
      | IP_TYPE_CAM \<Rightarrow> bindE (bindE (inst i (gemdroid_ip_cam w i)) (\<lambda>p. ip_tick p (un w))) (\<lambda>(p, u).
          Inr (w\<lparr>gemdroid_ip_cam := (gemdroid_ip_cam w)(i := p), un := u\<rparr>))
      | IP_TYPE_MMC_IN \<Rightarrow> bindE (bindE (inst i (gemdroid_ip_mmc_in w i)) (\<lambda>p. ip_tick p (un w))) (\<lambda>(p, u).
          Inr (w\<lparr>gemdroid_ip_mmc_in := (gemdroid_ip_mmc_in w)(i := p), un := u\<rparr>))
      | IP_TYPE_MMC_OUT \<Rightarrow> bindE (bindE (inst i (gemdroid_ip_mmc_out w i)) (\<lambda>p. ip_tick p (un w))) (\<lambda>(p, u).
          Inr (w\<lparr>gemdroid_ip_mmc_out := (gemdroid_ip_mmc_out w)(i := p), un := u\<rparr>))
      | IP_TYPE_VD \<Rightarrow> bindE (bindE (inst i (gemdroid_ip_vd w i)) (\<lambda>p. dec_tick p (un w))) (\<lambda>(p, u).
          Inr (w\<lparr>gemdroid_ip_vd := (gemdroid_ip_vd w)(i := p), un := u\<rparr>))
      | IP_TYPE_VE \<Rightarrow> bindE (bindE (inst i (gemdroid_ip_ve w i)) (\<lambda>p. enc_tick p (un w))) (\<lambda>(p, u).
          Inr (w\<lparr>gemdroid_ip_ve := (gemdroid_ip_ve w)(i := p), un := u\<rparr>))
      | IP_TYPE_AD \<Rightarrow> bindE (bindE (inst i (gemdroid_ip_ad w i)) (\<lambda>p. dec_tick p (un w))) (\<lambda>(p, u).
          Inr (w\<lparr>gemdroid_ip_ad := (gemdroid_ip_ad w)(i := p), un := u\<rparr>))
      | IP_TYPE_AE \<Rightarrow> bindE (bindE (inst i (gemdroid_ip_ae w i)) (\<lambda>p. enc_tick p (un w))) (\<lambda>(p, u).
          Inr (w\<lparr>gemdroid_ip_ae := (gemdroid_ip_ae w)(i := p), un := u\<rparr>))
      | IP_TYPE_IMG \<Rightarrow> bindE (bindE (inst i (gemdroid_ip_img w i)) (\<lambda>p. noc_tick p (un w))) (\<lambda>(p, u).
          Inr (w\<lparr>gemdroid_ip_img := (gemdroid_ip_img w)(i := p), un := u\<rparr>))
      | IP_TYPE_GPU \<Rightarrow> bindE (bindE (inst i (gemdroid_ip_gpu w i)) (\<lambda>p. gpu_tick p (un w))) (\<lambda>(p, u).
          Inr (w\<lparr>gemdroid_ip_gpu := (gemdroid_ip_gpu w)(i := p), un := u\<rparr>))
      | _ \<Rightarrow> Inr w)"

definition memIPResponse :: "IP_TYPE \<Rightarrow> int \<Rightarrow> addr \<Rightarrow> bool \<Rightarrow> 'd world \<Rightarrow> 'd world result" where
  "memIPResponse type i a r w =
     bindE (assertE ''ip_type != IP_TYPE_CPU'' (type \<noteq> IP_TYPE_CPU)) (\<lambda>_.
     case type of
       IP_TYPE_DC \<Rightarrow> inst i (w\<lparr>gemdroid_ip_dc := (gemdroid_ip_dc w)(i := ip_memResponse a r (gemdroid_ip_dc w i))\<rparr>)
     | IP_TYPE_SND \<Rightarrow> inst i (w\<lparr>gemdroid_ip_snd := (gemdroid_ip_snd w)(i := ip_memResponse a r (gemdroid_ip_snd w i))\<rparr>)
     | IP_TYPE_MIC \<Rightarrow> inst i (w\<lparr>gemdroid_ip_mic := (gemdroid_ip_mic w)(i := ip_memResponse a r (gemdroid_ip_mic w i))\<rparr>)
     | IP_TYPE_NW \<Rightarrow> inst i (w\<lparr>gemdroid_ip_nw := (gemdroid_ip_nw w)(i := ip_memResponse a r (gemdroid_ip_nw w i))\<rparr>)
     | IP_TYPE_CAM \<Rightarrow> inst i (w\<lparr>gemdroid_ip_cam := (gemdroid_ip_cam w)(i := ip_memResponse a r (gemdroid_ip_cam w i))\<rparr>)
     | IP_TYPE_MMC_IN \<Rightarrow>
         inst i (w\<lparr>gemdroid_ip_mmc_in := (gemdroid_ip_mmc_in w)(i := ip_memResponse a r (gemdroid_ip_mmc_in w i))\<rparr>)
     | IP_TYPE_MMC_OUT \<Rightarrow>
         inst i (w\<lparr>gemdroid_ip_mmc_out := (gemdroid_ip_mmc_out w)(i := ip_memResponse a r (gemdroid_ip_mmc_out w i))\<rparr>)
     | IP_TYPE_VD \<Rightarrow> inst i (w\<lparr>gemdroid_ip_vd := (gemdroid_ip_vd w)(i := dec_memResponse a r (gemdroid_ip_vd w i))\<rparr>)
     | IP_TYPE_VE \<Rightarrow> inst i (w\<lparr>gemdroid_ip_ve := (gemdroid_ip_ve w)(i := enc_memResponse a r (gemdroid_ip_ve w i))\<rparr>)
     | IP_TYPE_AD \<Rightarrow> inst i (w\<lparr>gemdroid_ip_ad := (gemdroid_ip_ad w)(i := dec_memResponse a r (gemdroid_ip_ad w i))\<rparr>)
     | IP_TYPE_AE \<Rightarrow> inst i (w\<lparr>gemdroid_ip_ae := (gemdroid_ip_ae w)(i := enc_memResponse a r (gemdroid_ip_ae w i))\<rparr>)
     | IP_TYPE_IMG \<Rightarrow> inst i (w\<lparr>gemdroid_ip_img := (gemdroid_ip_img w)(i := noc_memResponse a r (gemdroid_ip_img w i))\<rparr>)
     | _ \<Rightarrow> Inr w)"

definition memCoreResponse :: "int \<Rightarrow> addr \<Rightarrow> 'd world \<Rightarrow> (bool \<times> 'd world) result" where
  "memCoreResponse core a w =
     bindE (boundsE ''gemdroid_core'' (0 \<le> core \<and> core < int MAX_CPUS)) (\<lambda>_.
     let (is_success, c) = markTransactionCompleted a (gemdroid_core w (nat core)) in
     Inr (is_success \<noteq> -1 \<and> is_success \<noteq> -2, w\<lparr>gemdroid_core := (gemdroid_core w)(nat core := c)\<rparr>))"

text \<open>Handing a request to instance \<open>i\<close> of an array of components, with the class's \<open>enqueueIPReq\<close>.\<close>

definition hand_to ::
  "int \<Rightarrow> ('p \<Rightarrow> GemDroid \<Rightarrow> (bool \<times> 'p \<times> GemDroid) result) \<Rightarrow> (int \<Rightarrow> 'p) \<Rightarrow> ((int \<Rightarrow> 'p) \<Rightarrow> 'd world \<Rightarrow> 'd world) \<Rightarrow>
   'd world \<Rightarrow> (bool \<times> 'd world) result" where
  "hand_to i enq ps put w =
     bindE (enq (ps i) (gd (un w))) (\<lambda>(ok, p, g).
     Inr (ok, put (ps(i := p)) (w\<lparr>un := (un w)\<lparr>gd := g\<rparr>\<rparr>)))"

definition enqueueIPReq ::
  "IP_TYPE \<Rightarrow> int \<Rightarrow> IP_TYPE \<Rightarrow> addr \<Rightarrow> int \<Rightarrow> bool \<Rightarrow> int \<Rightarrow> IP_TYPE \<Rightarrow> int \<Rightarrow> 'd world \<Rightarrow> (bool \<times> 'd world) result"
  where
  "enqueueIPReq sender_type core type a sz r n ft k w =
     (let ip = (\<lambda>p g. Inr (ip_enqueueIPReq core a sz r n ft k p g));
          dec = dec_enqueueIPReq core a sz r n ft k;
          enc = enc_enqueueIPReq core a sz r n ft k in
      case type of
        IP_TYPE_DC \<Rightarrow> hand_to (if sender_type = IP_TYPE_GPU then 1 else 0) ip (gemdroid_ip_dc w)
          (\<lambda>ps w. w\<lparr>gemdroid_ip_dc := ps\<rparr>) w
      | IP_TYPE_NW \<Rightarrow> hand_to 0 ip (gemdroid_ip_nw w) (\<lambda>ps w. w\<lparr>gemdroid_ip_nw := ps\<rparr>) w
      | IP_TYPE_SND \<Rightarrow> hand_to 0 ip (gemdroid_ip_snd w) (\<lambda>ps w. w\<lparr>gemdroid_ip_snd := ps\<rparr>) w
      | IP_TYPE_MIC \<Rightarrow> hand_to 0 ip (gemdroid_ip_mic w) (\<lambda>ps w. w\<lparr>gemdroid_ip_mic := ps\<rparr>) w
      | IP_TYPE_CAM \<Rightarrow> hand_to 0 ip (gemdroid_ip_cam w) (\<lambda>ps w. w\<lparr>gemdroid_ip_cam := ps\<rparr>) w
      | IP_TYPE_MMC_IN \<Rightarrow> hand_to 0 ip (gemdroid_ip_mmc_in w) (\<lambda>ps w. w\<lparr>gemdroid_ip_mmc_in := ps\<rparr>) w
      | IP_TYPE_MMC_OUT \<Rightarrow> hand_to 0 ip (gemdroid_ip_mmc_out w) (\<lambda>ps w. w\<lparr>gemdroid_ip_mmc_out := ps\<rparr>) w
      | IP_TYPE_VD \<Rightarrow> hand_to 0 dec (gemdroid_ip_vd w) (\<lambda>ps w. w\<lparr>gemdroid_ip_vd := ps\<rparr>) w
      | IP_TYPE_VE \<Rightarrow> hand_to 0 enc (gemdroid_ip_ve w) (\<lambda>ps w. w\<lparr>gemdroid_ip_ve := ps\<rparr>) w
      | IP_TYPE_AD \<Rightarrow> hand_to 0 dec (gemdroid_ip_ad w) (\<lambda>ps w. w\<lparr>gemdroid_ip_ad := ps\<rparr>) w
      | IP_TYPE_AE \<Rightarrow> hand_to 0 enc (gemdroid_ip_ae w) (\<lambda>ps w. w\<lparr>gemdroid_ip_ae := ps\<rparr>) w
      | IP_TYPE_IMG \<Rightarrow> hand_to 0 (noc_enqueueIPReq core a sz r n ft k) (gemdroid_ip_img w)
          (\<lambda>ps w. w\<lparr>gemdroid_ip_img := ps\<rparr>) w
      | IP_TYPE_GPU \<Rightarrow> hand_to 0 (\<lambda>p g. Inr (ip_enqueueIPReq core a sz r n ft k p g)) (gemdroid_ip_gpu w)
          (\<lambda>ps w. w\<lparr>gemdroid_ip_gpu := ps\<rparr>) w
      | _ \<Rightarrow> Inl (AssertFail ''0''))"

subsection \<open>The system agent's other half\<close>

definition sendMemoryResponses :: "'d world \<Rightarrow> 'd world result" where
  "sendMemoryResponses w =
     (case popMemResponse (gd_perfectMemory (gd (un w))) (sa (un w)) of
        (None, s) \<Rightarrow> Inr w
      | (Some m, s) \<Rightarrow>
          bindE (if memCoreResp (sa (un w)) \<noteq> []
                 then bindE (memCoreResponse (mm_id m) (mm_addr m) w) (\<lambda>(ok, w). Inr w)
                 else memIPResponse (mm_ip_type m) (mm_id m) (mm_addr m) (mm_isRead m) w) (\<lambda>w.
          Inr (w\<lparr>un := (un w)\<lparr>sa := s\<rparr>\<rparr>)))"

fun sendIPRequests_from :: "IP_TYPE list \<Rightarrow> 'd world \<Rightarrow> 'd world result" where
  "sendIPRequests_from [] w = Inr w"
| "sendIPRequests_from (t # ts) w =
     (case ipReq (sa (un w)) t of
        [] \<Rightarrow> sendIPRequests_from ts w
      | q # qs \<Rightarrow>
          bindE (enqueueIPReq (rq_sendertype q) (rq_core_id q) (rq_iptype q) (rq_addr q) (rq_size q) (rq_isRead q)
                   (rq_frameNum q) (rq_flowType q) (rq_flowId q) w) (\<lambda>(ok, w).
          if ok then
            Inr (w\<lparr>un := (un w)\<lparr>sa := updateActivityCountIn1Ms 1
                     ((sa (un w))\<lparr>ipReq := (ipReq (sa (un w)))(t := tl (ipReq (sa (un w)) t))\<rparr>)\<rparr>\<rparr>)
          else sendIPRequests_from ts w))"

definition sendIPRequests :: "'d world \<Rightarrow> 'd world result" where
  "sendIPRequests w = sendIPRequests_from (tl (butlast IP_TYPES)) w"

fun repeatE :: "nat \<Rightarrow> ('s \<Rightarrow> 's result) \<Rightarrow> 's \<Rightarrow> 's result" where
  "repeatE 0 f s = Inr s"
| "repeatE (Suc n) f s = bindE (f s) (repeatE n f)"

definition sa_process :: "'d DRAMSim2Wrapper \<Rightarrow> 'd world \<Rightarrow> 'd world result" where
  "sa_process D w =
     (let w = w\<lparr>un := (un w)\<lparr>sa := sendIPResponses (sa (un w))\<rparr>\<rparr> in
      bindE (repeatE (getNumChannels D) (sendMemoryRequests D) (un w)) (\<lambda>u.
      bindE (sendIPRequests (w\<lparr>un := u\<rparr>)) (\<lambda>w.
      let s = sa (un w) in
      if sa_cyclesToSkip s > 0 then Inr (w\<lparr>un := (un w)\<lparr>sa := s\<lparr>sa_cyclesToSkip := sa_cyclesToSkip s - 1\<rparr>\<rparr>\<rparr>)
      else repeatE (getNumChannels D) sendMemoryResponses w)))"

definition sa_tick :: "'d DRAMSim2Wrapper \<Rightarrow> 'd world \<Rightarrow> 'd world result" where
  "sa_tick D w =
     (let s = sa (un w) in
      sa_process D (w\<lparr>un := (un w)\<lparr>sa := s\<lparr>sa_ticks := sa_ticks s + 1,
        totalQueueSize := totalQueueSize s + int (length (coreMemReq s)) + int (length (ipMemReq s))\<rparr>\<rparr>\<rparr>))"

definition core_tick_at :: "nat \<Rightarrow> 'd world \<Rightarrow> 'd world result" where
  "core_tick_at i w =
     bindE (boundsE ''gemdroid_core'' (i < MAX_CPUS)) (\<lambda>_.
     bindE (core_tick (gemdroid_core w i) (un w)) (\<lambda>(c, u).
     Inr (w\<lparr>gemdroid_core := (gemdroid_core w)(i := c), un := u\<rparr>)))"

subsection \<open>What the components add to the queues\<close>

text \<open>
  \<open>sa_issues t i u u'\<close>: all that happened to the uncore is that component \<open>i\<close> of type \<open>t\<close> put memory
  requests with its own identity at the ends of the request queues, called IPs and kept its books. No
  component removes anything from a queue, touches the memory or the configuration.
\<close>

definition gd_config :: "GemDroid \<Rightarrow> int \<times> GOVERNOR_TYPE \<times> bool \<times> nat \<times> nat \<times> (nat \<Rightarrow> APP_ID) \<times> flow_table" where
  "gd_config g = (gd_ticks g, governor g, gd_perfectMemory g, num_cpus g, num_ip_inst g, app_id g, flowTable g)"

text \<open>The calls the components make: never to a core, the GPU, the DMA engine or the cache, and to an accelerator
  always as a read of a size its class handles.\<close>

definition call_fits :: "IP_TYPE \<Rightarrow> GemDroidIPRequest \<Rightarrow> bool" where
  "call_fits t r \<longleftrightarrow> rq_iptype r = t \<and> t \<noteq> IP_TYPE_CPU \<and> t < IP_TYPE_GPU \<and>
     (t \<in> {IP_TYPE_VD, IP_TYPE_VE, IP_TYPE_AD, IP_TYPE_AE, IP_TYPE_IMG} \<longrightarrow>
        rq_isRead r \<and> 0 \<le> rq_size r \<and> (if t = IP_TYPE_VD then 320 else 64) dvd rq_size r)"

definition calls_ok :: "GemDroidSA \<Rightarrow> bool" where
  "calls_ok s \<longleftrightarrow> (\<forall>t. \<forall>r\<in>set (ipReq s t). call_fits t r)"

definition sa_issues :: "IP_TYPE \<Rightarrow> int \<Rightarrow> 'd uncore \<Rightarrow> 'd uncore \<Rightarrow> bool" where
  "sa_issues t i u u' \<longleftrightarrow> mem u' = mem u \<and> gd_config (gd u') = gd_config (gd u) \<and>
     memCoreResp (sa u') = memCoreResp (sa u) \<and> memIpResp (sa u') = memIpResp (sa u) \<and> sa_ticks (sa u') = sa_ticks (sa u) \<and>
     (sa_inv (sa u) \<longrightarrow> sa_inv (sa u')) \<and> (calls_ok (sa u) \<longrightarrow> calls_ok (sa u')) \<and>
     (\<exists>xs ys. coreMemReq (sa u') = coreMemReq (sa u) @ xs \<and> ipMemReq (sa u') = ipMemReq (sa u) @ ys \<and>
        (\<forall>m\<in>set (xs @ ys). mm_ip_type m = t \<and> mm_id m = i))"

definition issues_by :: "'a GemDroidIP_scheme \<Rightarrow> 'd uncore \<Rightarrow> 'a GemDroidIP_scheme \<Rightarrow> 'd uncore \<Rightarrow> bool" where
  "issues_by p u p' u' \<longleftrightarrow> ip_type p' = ip_type p \<and> ip_id p' = ip_id p \<and> sa_issues (ip_type p) (ip_id p) u u'"

definition core_issues :: "GemDroidCore \<Rightarrow> 'd uncore \<Rightarrow> GemDroidCore \<Rightarrow> 'd uncore \<Rightarrow> bool" where
  "core_issues c u c' u' \<longleftrightarrow> c_id c' = c_id c \<and> sa_issues IP_TYPE_CPU (c_id c) u u'"

lemma issues_refl [simp]: "sa_issues t i u u"
  by (simp add: sa_issues_def)

lemma issues_trans: "sa_issues t i u v \<Longrightarrow> sa_issues t i v w \<Longrightarrow> sa_issues t i u w"
  unfolding sa_issues_def by fastforce

lemma issues_gd [intro]: "gd_config g = gd_config (gd u) \<Longrightarrow> sa_issues t i u (u\<lparr>gd := g\<rparr>)"
  by (simp add: sa_issues_def)

lemma issues_ip_mem: "enqueueIPMemRequest t i c a r (sa u) = (ok, s) \<Longrightarrow> sa_issues t i u (u\<lparr>sa := s\<rparr>)"
  using sa_inv_enqueueIPMemRequest [of "sa u" t i c a r]
  by (auto simp: sa_issues_def enqueueIPMemRequest_def calls_ok_def split: if_splits)

lemma issues_core_mem: "enqueueCoreMemRequest c a r (sa u) = (ok, s) \<Longrightarrow> sa_issues IP_TYPE_CPU c u (u\<lparr>sa := s\<rparr>)"
  using sa_inv_enqueueCoreMemRequest [of "sa u" c a r]
  by (auto simp: sa_issues_def enqueueCoreMemRequest_def calls_ok_def split: if_splits)

lemma issues_core_ip:
  "enqueueCoreIPRequest c ty a z r n ft k (sa u) = Inr (ok, s) \<Longrightarrow>
   call_fits ty (ip_request IP_TYPE_CPU c c ty a z r n ft k) \<Longrightarrow> sa_issues t i u (u\<lparr>sa := s\<rparr>)"
  using sa_inv_enqueueCoreIPRequest [of c ty a z r n ft k "sa u" ok s]
  by (auto simp: sa_issues_def enqueueCoreIPRequest_def calls_ok_def split: if_splits)

lemma calls_ok_callIP:
  "callIP type sid core t a z r n ft k s = Inr s' \<Longrightarrow> calls_ok s \<Longrightarrow>
   call_fits t (ip_request type sid core t a z r n ft k) \<Longrightarrow> calls_ok s'"
  by (auto simp: callIP_def enqueueIPIPRequest_def calls_ok_def split: if_splits)

lemma calls_ok_callNextIP:
  "callNextIP g type sid core n ft k1 k2 s = Inr s' \<Longrightarrow> calls_ok s \<Longrightarrow> calls_ok s'"
  unfolding callNextIP_def Let_def
  by (auto split: if_splits dest!: calls_ok_callIP simp: call_fits_def IP_TYPE_order)

lemma gd_config_marks [simp]:
  "gd_config (markIPRequestStarted c t i n g) = gd_config g"
  "gd_config (snd (markIPRequestCompleted mf cf c t i n k g)) = gd_config g"
  by (simp_all add: gd_config_def markIPRequestStarted_def markIPRequestCompleted_def Let_def)

lemma issues_response:
  assumes "enqueueIPResponse mf cf t i c n ft k (gd u) (sa u) = Inr (ok, g, s)"
  shows "sa_issues t i u (u\<lparr>gd := g, sa := s\<rparr>)"
proof -
  let ?s = "(sa u)\<lparr>numIPCoreResponse := numIPCoreResponse (sa u) + 1\<rparr>"
  have "calls_of t i c n ?s s" "gd_config g = gd_config (gd u)"
    using assms by (auto simp: enqueueIPResponse_def Let_def dest: calls_of_callNextIP)
  moreover have "calls_ok (sa u) \<longrightarrow> calls_ok s"
    using assms by (auto simp: enqueueIPResponse_def Let_def calls_ok_def [of "sa u"] calls_ok_def [of ?s]
        dest!: calls_ok_callNextIP)
  ultimately show ?thesis using sa_inv_enqueueIPResponse [OF assms]
    by (simp add: sa_issues_def calls_of_def)
qed

lemma issues_by_refl [simp]: "issues_by p u p u"
  by (simp add: issues_by_def)

lemma issues_by_trans: "issues_by p u q v \<Longrightarrow> issues_by q v r w \<Longrightarrow> issues_by p u r w"
  using issues_trans by (auto simp: issues_by_def)

lemma issues_by_same: "ip_type p' = ip_type p \<Longrightarrow> ip_id p' = ip_id p \<Longrightarrow> issues_by p u p' u"
  by (simp add: issues_by_def)

lemma issues_by_send: "ip_sendMemoryReq p u = (ok, p', u') \<Longrightarrow> issues_by p u p' u'"
  by (auto simp: ip_sendMemoryReq_def issues_by_def IPActivityUpdate_def split: prod.splits if_splits
      intro: issues_ip_mem)

lemma issues_by_respond: "ip_respond p u = Inr u' \<Longrightarrow> issues_by p u p u'"
  by (auto simp: ip_respond_def issues_by_def intro: issues_response)

lemma ip_setPStateActive_config: "ip_setPStateActive p g = Inr (p', g') \<Longrightarrow> gd_config g' = gd_config g"
  by (auto simp: ip_setPStateActive_def split: if_splits)

lemma ip_updatePower_config: "ip_updatePower p g = Inr (ok, p', g') \<Longrightarrow> gd_config g' = gd_config g"
  by (auto simp: ip_updatePower_def Let_def split: if_splits dest: ip_setPStateActive_config)

lemma gpu_updatePower_config: "gpu_updatePower p g = Inr (ok, p', g') \<Longrightarrow> gd_config g' = gd_config g"
  by (auto simp: gpu_updatePower_def Let_def split: if_splits dest: ip_setPStateActive_config)

lemma issues_by_updatePower:
  assumes "ip_inv p" "ip_updatePower (p\<lparr>ip_ticks := n\<rparr>) (gd u) = Inr (ok, p', g')"
  shows "issues_by p u p' (u\<lparr>gd := g'\<rparr>)" "ip_inv p'"
proof -
  have "ip_inv (p\<lparr>ip_ticks := n\<rparr>)" using assms(1) by simp
  then obtain ok' q h where "ip_updatePower (p\<lparr>ip_ticks := n\<rparr>) (gd u) = Inr (ok', q, h)" "ip_inv q"
    "ip_same (p\<lparr>ip_ticks := n\<rparr>) q" by (rule ip_updatePower_ok [of _ "gd u"])
  with assms(2) show "issues_by p u p' (u\<lparr>gd := g'\<rparr>)" "ip_inv p'"
    using ip_sameD(1,2) [of "p\<lparr>ip_ticks := n\<rparr>" p'] ip_updatePower_config [OF assms(2)]
    by (auto simp: issues_by_def)
qed

lemma issues_by_ip_issue: "issues_by p u (fst (ip_issue p u)) (snd (ip_issue p u))"
proof -
  let ?p = "if is_busy p then p\<lparr>m_IPWorkingCycles := m_IPWorkingCycles p + 1\<rparr> else p"
  obtain ok q v where s: "ip_sendMemoryReq ?p u = (ok, q, v)" by (cases "ip_sendMemoryReq ?p u")
  have "issues_by ?p u q v" by (rule issues_by_send [OF s])
  then have "issues_by p u q v" by (simp add: issues_by_def split: if_splits)
  with s show ?thesis by (simp add: ip_issue_def Let_def issues_by_def)
qed

lemma issues_by_ip_complete: "ip_complete p u = Inr (p', u') \<Longrightarrow> issues_by p u p' u'"
  by (auto simp: ip_complete_def Let_def issues_by_def split: if_splits dest!: issues_by_respond)

lemma issues_by_ip_tick:
  assumes "ip_inv p" "ip_tick p u = Inr (p', u')"
  shows "issues_by p u p' u'"
proof -
  obtain ok q g where q: "ip_updatePower (p\<lparr>ip_ticks := ip_ticks p + 1\<rparr>) (gd u) = Inr (ok, q, g)"
    using assms(2) by (auto simp: ip_tick_def)
  note 1 = issues_by_updatePower [OF assms(1) q]
  have 2: "issues_by q (u\<lparr>gd := g\<rparr>) (snd (ip_process q)) (u\<lparr>gd := g\<rparr>)"
    by (simp add: ip_process_def Let_def issues_by_def)
  show ?thesis
  proof (cases "ok \<and> \<not> fst (ip_process q)")
    case False
    with assms(2) q 1 issues_by_trans [OF 1(1) 2] show ?thesis
      by (auto simp: ip_tick_def Let_def split_beta split: if_splits)
  next
    case True
    with assms(2) q obtain r v where "ip_complete (snd (ip_process q)) (u\<lparr>gd := g\<rparr>) = Inr (r, v)"
      "ip_issue r v = (p', u')"
      by (auto simp: ip_tick_def Let_def split_beta split: if_splits)
    then show ?thesis
      using issues_by_ip_complete issues_by_ip_issue [of r v] issues_by_trans [OF 1(1) 2]
      by (metis fst_conv snd_conv issues_by_trans)
  qed
qed

text \<open>The accelerators.\<close>

lemma issues_by_sendDataOut: "coder_sendDataOut p u = (p', u') \<Longrightarrow> issues_by p u p' u'"
  by (auto simp: coder_sendDataOut_def issues_by_def split: prod.splits if_splits intro: issues_ip_mem)

lemma issues_by_requestData: "coder_requestData p u = (p', u') \<Longrightarrow> issues_by p u p' u'"
proof -
  assume r: "coder_requestData p u = (p', u')"
  obtain ok q v where s: "ip_sendMemoryReq p u = (ok, q, v)" by (cases "ip_sendMemoryReq p u")
  with r issues_by_send [OF s] show ?thesis
    by (auto simp: coder_requestData_def issues_by_def split: if_splits)
qed

lemma issues_by_dec_request: "dec_request p u = (p', u') \<Longrightarrow> issues_by p u p' u'"
  unfolding dec_request_def dec_requestData_def dec_requestDependentData_def
  by (auto simp: issues_by_def IPActivityUpdate_def split: prod.splits if_splits
      dest!: issues_by_requestData intro: issues_ip_mem)

lemma issues_by_finish: "coder_finish p u = Inr (p', u') \<Longrightarrow> issues_by p u p' u'"
  by (auto simp: coder_finish_def Let_def issues_by_def split: if_splits dest!: issues_by_respond)

text \<open>The order of the three \<open>work\<close>s, with what differs as parameters.\<close>

lemma issues_by_work:
  assumes "coder_sendDataOut p u = (p1, u1)" "issues_by p1 u1 p2 u2"
    and "ip_type p3 = ip_type p2" "ip_id p3 = ip_id p2" "coder_finish p3 u2 = Inr (p4, u4)"
    and "ip_type p5 = ip_type p4" "ip_id p5 = ip_id p4"
  shows "issues_by p u p5 u4"
  using issues_by_sendDataOut [OF assms(1)] assms(2) issues_by_finish [OF assms(5)] assms(3,4,6,7)
  by (auto simp: issues_by_def intro: issues_trans)

lemma enc_process_id [simp]: "ip_type (snd (enc_process p)) = ip_type p" "ip_id (snd (enc_process p)) = ip_id p"
  by (simp_all add: enc_process_def Let_def)

lemma noc_process_id [simp]: "ip_type (snd (noc_process p)) = ip_type p" "ip_id (snd (noc_process p)) = ip_id p"
  by (simp_all add: noc_process_def Let_def)

lemma dec_process_id [simp]: "ip_type (snd (dec_process p)) = ip_type p" "ip_id (snd (dec_process p)) = ip_id p"
  by (simp_all add: dec_process_def Let_def)

lemma dec_count_id [simp]: "ip_type (dec_count e p) = ip_type p" "ip_id (dec_count e p) = ip_id p"
  by (cases e; simp add: dec_count_def)+

lemma issues_by_enc_work: "enc_work p u = Inr (p', u') \<Longrightarrow> issues_by p u p' u'"
proof -
  assume w: "enc_work p u = Inr (p', u')"
  obtain p1 u1 p2 u2 where s: "coder_sendDataOut p u = (p1, u1)" "coder_requestData p1 u1 = (p2, u2)" by fastforce
  let ?p3 = "if inputProcessedInCL p2 < inputToBeProcessedInCL p2 then snd (enc_process p2) else p2"
  from w s obtain p4 where "coder_finish ?p3 u2 = Inr (p4, u')" "ip_type p' = ip_type p4" "ip_id p' = ip_id p4"
    by (auto simp: enc_work_def enc_sendDataOut_def enc_requestData_def Let_def split_beta split: if_splits)
  from issues_by_work [OF s(1) issues_by_requestData [OF s(2)] _ _ this] show ?thesis by simp
qed

lemma issues_by_noc_work: "noc_work p u = Inr (p', u') \<Longrightarrow> issues_by p u p' u'"
proof -
  assume w: "noc_work p u = Inr (p', u')"
  obtain p1 u1 p2 u2 where s: "coder_sendDataOut p u = (p1, u1)" "coder_requestData p1 u1 = (p2, u2)" by fastforce
  let ?p3 = "if inputProcessedInCL p2 < inputToBeProcessedInCL p2 then snd (noc_process p2) else p2"
  from w s obtain p4 where "coder_finish ?p3 u2 = Inr (p4, u')" "ip_type p' = ip_type p4" "ip_id p' = ip_id p4"
    by (auto simp: noc_work_def noc_sendDataOut_def noc_requestData_def Let_def split_beta split: if_splits)
  from issues_by_work [OF s(1) issues_by_requestData [OF s(2)] _ _ this] show ?thesis by simp
qed

lemma issues_by_dec_work: "dec_work p u = Inr (p', u') \<Longrightarrow> issues_by p u p' u'"
proof -
  assume w: "dec_work p u = Inr (p', u')"
  obtain p1 u1 p2 u2 where s: "coder_sendDataOut p u = (p1, u1)" "dec_request p1 u1 = (p2, u2)" by fastforce
  let ?p3 = "if inputProcessedInCL p2 < inputToBeProcessedInCL p2 then snd (dec_process p2) else p2"
  from w s obtain p4 where "coder_finish ?p3 u2 = Inr (p4, u')" "ip_type p' = ip_type p4" "ip_id p' = ip_id p4"
    by (auto simp: dec_work_def dec_sendDataOut_def Let_def split_beta split: if_splits)
  from issues_by_work [OF s(1) issues_by_dec_request [OF s(2)] _ _ this] show ?thesis by simp
qed

lemma issues_by_coder_tick:
  assumes "ip_inv p" "coder_tick work p u = Inr (p', u')"
    and "\<And>p u p' u'. work p u = Inr (p', u') \<Longrightarrow> issues_by p u p' u'"
  shows "issues_by p u p' u'"
proof -
  obtain ok q g where q: "ip_updatePower (p\<lparr>ip_ticks := ip_ticks p + 1\<rparr>) (gd u) = Inr (ok, q, g)"
    using assms(2) by (auto simp: coder_tick_def)
  note 1 = issues_by_updatePower [OF assms(1) q]
  have "issues_by q (u\<lparr>gd := g\<rparr>) p' u'"
    using assms(2) q
    by (auto simp: coder_tick_def Let_def issues_by_def split: if_splits dest!: assms(3))
  with 1(1) show ?thesis by (rule issues_by_trans)
qed

lemmas issues_by_ticks =
  issues_by_ip_tick
  issues_by_coder_tick [of _ enc_work, folded enc_tick_def, OF _ _ issues_by_enc_work]
  issues_by_coder_tick [of _ noc_work, folded noc_tick_def, OF _ _ issues_by_noc_work]
  issues_by_coder_tick [of _ dec_work, folded dec_tick_def, OF _ _ issues_by_dec_work]

text \<open>The GPU.\<close>

lemma issues_by_processMMURequest: "issues_by p u (fst (gpu_processMMURequest a r p u)) (snd (gpu_processMMURequest a r p u))"
proof -
  let ?p = "p\<lparr>m_reqCount := 1, m_reqAddr := a, m_isRead := r\<rparr>"
  obtain ok q v where s: "ip_sendMemoryReq ?p u = (ok, q, v)" by (cases "ip_sendMemoryReq ?p u")
  from issues_by_send [OF s] s show ?thesis by (simp add: gpu_processMMURequest_def issues_by_def)
qed

lemma issues_by_rendered: "issues_by p u (fst (gpu_rendered p u)) (snd (gpu_rendered p u))"
  by (simp add: gpu_rendered_def Let_def issues_by_def issues_gd)

lemma issues_by_readLine: "gpu_readLine p u = Inr (p', u') \<Longrightarrow> issues_by p u p' u'"
proof -
  assume r: "gpu_readLine p u = Inr (p', u')"
  have *: "issues_by p u p' u'" if "gpu_processMMURequest a b q u = (p', u')" "ip_type q = ip_type p" "ip_id q = ip_id p" for a b q
    using issues_by_processMMURequest [of q u a b] that by (simp add: issues_by_def)
  have **: "issues_by p u p' u'" if "gpu_rendered q u = (p', u')" "ip_type q = ip_type p" "ip_id q = ip_id p" for q
    using issues_by_rendered [of q u] that by (simp add: issues_by_def)
  show ?thesis
    using r unfolding gpu_readLine_def Let_def split_beta
    by (auto simp: issues_by_same split: if_splits dest!: * **)
qed

lemma issues_by_writeLine: "gpu_writeLine p u = Inr (p', u') \<Longrightarrow> issues_by p u p' u'"
proof -
  assume w: "gpu_writeLine p u = Inr (p', u')"
  obtain q v where q: "gpu_processMMURequest (m_addrToDC p) False p u = (q, v)" by fastforce
  have "issues_by p u q v" using issues_by_processMMURequest [of p u "m_addrToDC p" False] q by simp
  moreover have "issues_by q v p' u'"
    using w q by (auto simp: gpu_writeLine_def Let_def issues_by_def split: if_splits intro: issues_response)
  ultimately show ?thesis by (rule issues_by_trans)
qed

lemma issues_by_gpu_power:
  assumes "gpu_inv p" "gpu_updatePower p g = Inr (ok, p', g')" "gd_config g = gd_config (gd u)"
  shows "issues_by p u p' (u\<lparr>gd := g'\<rparr>)"
proof -
  have "ip_inv p" using assms(1) by (simp add: gpu_inv_def)
  then obtain ok' q h where "gpu_updatePower p g = Inr (ok', q, h)" "ip_same p q"
    by (rule gpu_updatePower_ok [of _ g])
  with assms(2,3) show ?thesis
    using ip_sameD(1,2) [of p p'] gpu_updatePower_config [OF assms(2)] by (auto simp: issues_by_def)
qed

lemma issues_by_gpu_stall: "gpu_inv p \<Longrightarrow> gpu_stall p u = Inr (p', u') \<Longrightarrow> issues_by p u p' u'"
proof -
  assume p: "gpu_inv p" and s: "gpu_stall p u = Inr (p', u')"
  define q where "q = p\<lparr>gpu_fpsStallsCount := gpu_fpsStallsCount p + 1,
    gpu_fpsStalls := trunc (real_of_int (gpu_fpsStalls p) - GEMDROID_FREQ / getIPFreq p), idleCycles := idleCycles p + 1\<rparr>"
  define r where "r = (if gpu_fpsStalls q \<le> 0 then
      (if power_state q = ip_active then q\<lparr>gpu_lastDCTick := gd_ticks (gd u)\<rparr>
       else q\<lparr>gpu_lastDCTick := gd_ticks (gd u), cyclesToWake := 109200\<rparr>) else q)"
  have "0 \<le> idleCycles p" using p by (simp add: gpu_inv_def ip_inv_idle)
  with p have "gpu_inv q" unfolding q_def by (intro gpu_inv_idle) simp_all
  then have r: "gpu_inv r" "ip_type r = ip_type p" "ip_id r = ip_id p"
    using gpu_inv_wake [of "q\<lparr>gpu_lastDCTick := gd_ticks (gd u)\<rparr>"] by (simp_all add: r_def) (simp_all add: q_def)
  obtain ok g g' where g: "gpu_updatePower r g = Inr (ok, p', g')" "gd_config g = gd_config (gd u)" "u' = u\<lparr>gd := g'\<rparr>"
    using s unfolding gpu_stall_def Let_def q_def [symmetric] r_def
    by (cases "power_state q") (auto split: if_splits)
  from issues_by_gpu_power [OF r(1) g(1,2)] g(3) r(2,3) show ?thesis
    by (simp add: issues_by_def)
qed

lemma issues_by_gpu_run:
  assumes "gpu_inv p" "gpu_run p u = Inr (p', u')"
  shows "issues_by p u p' u'"
proof (cases "gpu_fpsStalls p > 0 \<or> writeToDCFlag p")
  case True
  with assms show ?thesis
    by (auto simp: gpu_run_def split: if_splits intro: issues_by_gpu_stall issues_by_writeLine)
next
  case False
  with assms(2) obtain ok q g where q: "gpu_updatePower p (gd u) = Inr (ok, q, g)"
    by (auto simp: gpu_run_def)
  with assms(2) False have "issues_by q (u\<lparr>gd := g\<rparr>) p' u'"
    by (auto simp: gpu_run_def Let_def issues_by_same split: if_splits intro: issues_by_readLine)
  with issues_by_gpu_power [OF assms(1) q refl] show ?thesis
    by (rule issues_by_trans)
qed

lemma issues_by_gpu_tick:
  assumes "gpu_inv p" "gpu_tick p u = Inr (p', u')"
  shows "issues_by p u p' u'"
proof -
  define q where "q = p\<lparr>ip_ticks := ip_ticks p + 1\<rparr>"
  have q: "gpu_inv q" "issues_by p u q u" using assms(1) by (simp_all add: q_def issues_by_def)
  obtain ok r v where s: "ip_sendMemoryReq q u = (ok, r, v)" by (cases "ip_sendMemoryReq q u")
  have r: "gpu_inv r" using gpu_inv_send [OF q(1), of u] s by simp
  have "issues_by q u p' u'"
  proof (cases "m_reqCount q > 0")
    case False
    with assms(2) have "gpu_run q u = Inr (p', u')" by (auto simp: gpu_tick_def Let_def q_def)
    with q(1) show ?thesis by (rule issues_by_gpu_run)
  next
    case True
    with assms(2) s have "if ok then gpu_run r v = Inr (p', u') else p' = r\<lparr>idleStreak := idleStreak r + 1\<rparr> \<and> u' = v"
      by (auto simp: gpu_tick_def Let_def q_def split: if_splits)
    with issues_by_send [OF s] issues_by_gpu_run [OF r, of v p' u'] show ?thesis
      by (auto split: if_splits intro: issues_trans simp: issues_by_def)
  qed
  with q(2) show ?thesis by (rule issues_by_trans)
qed

text \<open>The cores.\<close>

lemma core_issues_refl [simp]: "core_issues c u c u"
  by (simp add: core_issues_def)

lemma core_issues_trans: "core_issues c u d v \<Longrightarrow> core_issues d v e w \<Longrightarrow> core_issues c u e w"
  by (auto simp: core_issues_def intro: issues_trans)

lemma core_issues_same: "c_id c' = c_id c \<Longrightarrow> core_issues c u c' u"
  by (simp add: core_issues_def)

lemma core_issues_gd: "c_id c' = c_id c \<Longrightarrow> gd_config g = gd_config (gd u) \<Longrightarrow> core_issues c u c' (u\<lparr>gd := g\<rparr>)"
  by (simp add: core_issues_def issues_gd)

lemma commitHeadTransaction_id: "commitHeadTransaction c = Inr c' \<Longrightarrow> c_id c' = c_id c"
  by (auto simp: commitHeadTransaction_def Let_def)

lemma core_issues_issue_txn:
  "issue_txn i refused c u = Inr (c', u') \<Longrightarrow> c_id (refused c) = c_id c \<Longrightarrow> core_issues c u c' u'"
  by (auto simp: issue_txn_def Let_def core_issues_def set_txn_def split: if_splits prod.splits intro: issues_core_mem)

lemma updateStat_config [simp]:
  "gd_config (snd (updateStatInstructionCommit c g)) = gd_config g"
  "c_id (fst (updateStatInstructionCommit c g)) = c_id c"
  by (simp_all add: updateStatInstructionCommit_def gd_config_def)

lemma core_issues_inOrder_slot: "inOrder_slot c u = Inr (c', u') \<Longrightarrow> core_issues c u c' u'"
  by (auto simp: inOrder_slot_def Let_def commit_one_def commit_head_def split_beta set_txn_def rob_full_stall_def
      mem_full_stall_def split: if_splits dest!: commitHeadTransaction_id
      intro!: core_issues_same core_issues_gd elim!: core_issues_issue_txn)

lemma core_issues_inOrder_loop: "inOrder_loop n c u = Inr (c', u') \<Longrightarrow> core_issues c u c' u'"
  by (induction n arbitrary: c u) (auto intro: core_issues_trans dest: core_issues_inOrder_slot)

lemma complete_cpu_config [simp]: "gd_config (complete_cpu c mf n g) = gd_config g"
  by (simp add: complete_cpu_def)

lemma frameDrop_id [simp]: "c_id (snd (isFrameDrop g c)) = c_id c" "c_id (snd (isAudioFrameDrop g c)) = c_id c"
  by (simp_all add: isFrameDrop_def isAudioFrameDrop_def Let_def split: if_splits)

lemma setIdleRatio_id [simp]: "c_id (setIdleRatio c) = c_id c"
  by (simp add: setIdleRatio_def split_beta Let_def)

lemma select_call_config:
  "select_call mf op c g = Inr (call, c', g') \<Longrightarrow> gd_config g' = gd_config g \<and> c_id c' = c_id c"
  by (auto simp: select_call_def fb_call_def snd_call_def Let_def split_beta count_calls_def split: if_splits)

lemma select_call_fits:
  "select_call mf op c g = Inr (Some (t, a, z, r, ft), c', g') \<Longrightarrow>
   call_fits t (ip_request IP_TYPE_CPU i i t a z r n ft k)"
  by (auto simp: select_call_def fb_call_def snd_call_def Let_def split_beta call_fits_def IP_TYPE_order split: if_splits)

lemma core_issues_processIPCall: "processIPCall op a z c u = Inr (c', u') \<Longrightarrow> core_issues c u c' u'"
proof -
  assume r: "processIPCall op a z c u = Inr (c', u')"
  then obtain call d g where s: "select_call (m_freq (mem u)) op c (gd u) = Inr (call, d, g)"
    by (auto simp: processIPCall_def)
  have 1: "core_issues c u d (u\<lparr>gd := g\<rparr>)" using select_call_config [OF s] by (simp add: core_issues_gd)
  have "core_issues d (u\<lparr>gd := g\<rparr>) c' u'"
    using r s by (auto simp: processIPCall_def Let_def core_issues_def split: option.splits prod.splits if_splits
        intro!: issues_core_ip intro: select_call_fits)
  with 1 show ?thesis by (rule core_issues_trans)
qed

lemma pushTransaction_id: "pushTransaction t c = Inr c' \<Longrightarrow> c_id c' = c_id c"
  by (auto simp: pushTransaction_def Let_def)

lemma reader_id:
  "addInstructions n c = Inr c' \<Longrightarrow> c_id c' = c_id c"
  "processMMURequest op a c = Inr c' \<Longrightarrow> c_id c' = c_id c"
  by (auto simp: addInstructions_def processMMURequest_def Let_def split: if_splits dest!: pushTransaction_id)

lemma core_issues_readLine: "readLine c u = Inr (c', u') \<Longrightarrow> core_issues c u c' u'"
proof -
  assume r: "readLine c u = Inr (c', u')"
  have *: "core_issues c u d v" if "processIPCall op a z b u = Inr (d, v)" "c_id b = c_id c" for op a z b d v
    using core_issues_processIPCall [OF that(1)] that(2) by (simp add: core_issues_def)
  show ?thesis
    using r unfolding readLine_def Let_def split_beta
    by (auto simp: core_issues_same split: if_splits dest!: * reader_id) (simp_all add: core_issues_def)
qed

lemma core_work_issues: "core_work c u = Inr (c', u') \<Longrightarrow> core_issues c u c' u'"
proof -
  assume r: "core_work c u = Inr (c', u')"
  define d where "d = (if flagProfile c \<and> gd_ticks (gd u) \<ge> profileStartGemDroidCycle c + 300 * MICROSEC then
      c\<lparr>m_profileActiveCycles := c_ticks c - m_profileStartCPUCycle c, flagProfile := False\<rparr> else c)"
  from r obtain e v where e: "inOrder_loop (issue_width d) d u = Inr (e, v)"
      "(if number_of_instr_executed_OoO e < ROB_SIZE \<and> outstanding_transactions_size e < MAX_TRANSACTIONS
        then readLine e v else Inr (e, v)) = Inr (c', u')"
    unfolding core_work_def Let_def d_def [symmetric] inOrderProcess_def bindE_Inr_iff by auto
  from e(2) have "core_issues e v c' u'" by (rule if_split_asm [THEN iffD1, elim_format])
    (auto dest: core_issues_readLine)
  have "core_issues c u d u" by (simp add: d_def core_issues_def)
  with core_issues_inOrder_loop [OF e(1)] \<open>core_issues e v c' u'\<close> show ?thesis
    by (blast intro: core_issues_trans)
qed

lemma checkDeadlock_id: "checkDeadlock c = Inr c' \<Longrightarrow> c_id c' = c_id c"
  by (auto simp: checkDeadlock_def Let_def set_txn_def split: if_splits dest!: commitHeadTransaction_id)

lemma core_fallAsleep_id: "core_fallAsleep c = Inr c' \<Longrightarrow> c_id c' = c_id c"
  by (auto simp: core_fallAsleep_def core_setPStateLowPower_def split: if_splits)

lemma core_countPState_id: "c_id (core_countPState c) = c_id c"
  by (cases "cpu_pstate c") (simp_all add: core_countPState_def)

lemma core_clock_config:
  "gd_config (snd (core_setPStateActive c g)) = gd_config g" "c_id (fst (core_setPStateActive c g)) = c_id c"
  "gd_config (snd (fps_stall c g)) = gd_config g" "c_id (fst (fps_stall c g)) = c_id c" "c_id (aud_stall c g) = c_id c"
  by (simp_all add: core_setPStateActive_def fps_stall_def aud_stall_def Let_def setMaxCoreFreq_def setOptCoreFreq_def)

lemma core_proceed_issues: "core_proceed c u = Inr (c', u') \<Longrightarrow> core_issues c u c' u'"
proof -
  assume r: "core_proceed c u = Inr (c', u')"
  have *: "core_issues c u d v" if "core_work b u = Inr (d, v)" "c_id b = c_id c" for b d v
    using core_work_issues [OF that(1)] that(2) by (simp add: core_issues_def)
  show ?thesis
    using r unfolding core_proceed_def Let_def split_beta
    by (auto simp: core_issues_same core_issues_gd core_clock_config split: if_splits
        dest!: core_fallAsleep_id intro: *)
qed

lemma core_tick_issues: "core_tick c u = Inr (c', u') \<Longrightarrow> core_issues c u c' u'"
proof -
  assume r: "core_tick c u = Inr (c', u')"
  have *: "core_issues c u c' u'" if "core_proceed (core_countPState b) u = Inr (c', u')" "c_id b = c_id c" for b
    using core_proceed_issues [OF that(1)] that(2) by (simp add: core_issues_def core_countPState_id)
  show ?thesis
    using r unfolding core_tick_def Let_def
    by (auto split: if_splits dest!: checkDeadlock_id intro: *)
qed

subsection \<open>The reads an accelerator waits for\<close>

text \<open>
  \<open>coder_reads\<close> is the number of lines an accelerator has asked for and not received. A tick changes
  it by exactly the number of read requests the tick puts into the agent's queue.
\<close>

definition coder_reads :: "'a coder_scheme \<Rightarrow> int" where
  "coder_reads p = reqSent p - currInBuffer p"

definition reads_queued :: "IP_TYPE \<Rightarrow> int \<Rightarrow> 'd uncore \<Rightarrow> int" where
  "reads_queued t i u = int (length (filter (\<lambda>m. mm_isRead m \<and> mm_ip_type m = t \<and> mm_id m = i) (ipMemReq (sa u))))"

definition balanced :: "'a coder_scheme \<Rightarrow> 'd uncore \<Rightarrow> 'a coder_scheme \<Rightarrow> 'd uncore \<Rightarrow> bool" where
  "balanced p u p' u' \<longleftrightarrow> issues_by p u p' u' \<and>
     reads_queued (ip_type p) (ip_id p) u' - coder_reads p' = reads_queued (ip_type p) (ip_id p) u - coder_reads p"

lemma balanced_refl [simp]: "balanced p u p u"
  by (simp add: balanced_def)

lemma balanced_trans: "balanced p u q v \<Longrightarrow> balanced q v r w \<Longrightarrow> balanced p u r w"
  by (auto simp: balanced_def issues_by_def intro: issues_trans)

lemma balanced_same:
  "ip_type p' = ip_type p \<Longrightarrow> ip_id p' = ip_id p \<Longrightarrow> coder_reads p' = coder_reads p \<Longrightarrow> balanced p u p' u"
  by (simp add: balanced_def issues_by_def)

lemma balanced_gd:
  "ip_type p' = ip_type p \<Longrightarrow> ip_id p' = ip_id p \<Longrightarrow> coder_reads p' = coder_reads p \<Longrightarrow>
   issues_by p u p' (u\<lparr>gd := g\<rparr>) \<Longrightarrow> balanced p u p' (u\<lparr>gd := g\<rparr>)"
  by (simp add: balanced_def reads_queued_def)

lemma reads_queued_mem:
  "enqueueIPMemRequest t i c a r (sa u) = (ok, s) \<Longrightarrow>
   reads_queued t i (u\<lparr>sa := s\<rparr>) = reads_queued t i u + of_bool (ok \<and> r)"
  by (auto simp: enqueueIPMemRequest_def reads_queued_def split: if_splits)

lemma reads_queued_respond: "ip_respond p u = Inr u' \<Longrightarrow> reads_queued t i u' = reads_queued t i u"
  by (auto simp: ip_respond_def enqueueIPResponse_def Let_def reads_queued_def calls_of_def dest!: calls_of_callNextIP)

lemma balanced_sendDataOut: "coder_sendDataOut p u = (p', u') \<Longrightarrow> balanced p u p' u'"
proof -
  assume s: "coder_sendDataOut p u = (p', u')"
  obtain ok t where e: "enqueueIPMemRequest (ip_type p) (ip_id p) (core_id p) (m_reqOutAddr p) False (sa u) = (ok, t)"
    by fastforce
  from s e reads_queued_mem [OF e] issues_by_sendDataOut [OF s] show ?thesis
    by (auto simp: coder_sendDataOut_def balanced_def coder_reads_def split: if_splits)
qed

text \<open>A coder asks for lines to read only: a data request of an accelerator is a read.\<close>

lemma balanced_requestData:
  assumes "coder_requestData p u = (p', u')" "m_isRead p"
  shows "balanced p u p' u' \<and> m_isRead p'"
proof -
  obtain ok t where e: "enqueueIPMemRequest (ip_type p) (ip_id p) (core_id p) (m_reqAddr p) (m_isRead p) (sa u) = (ok, t)"
    by fastforce
  from assms e reads_queued_mem [OF e] issues_by_requestData [OF assms(1)] show ?thesis
    by (auto simp: coder_requestData_def ip_sendMemoryReq_def balanced_def coder_reads_def IPActivityUpdate_def split: if_splits)
qed

lemma balanced_dec_request:
  assumes "dec_request p u = (p', u')" "m_isRead p"
  shows "balanced p u p' u' \<and> m_isRead p'"
proof (cases "m_dependenceCount p > 0")
  case False
  with assms balanced_requestData [of p u p' u'] show ?thesis by (simp add: dec_request_def dec_requestData_def)
next
  case True
  obtain ok t where e: "enqueueIPMemRequest (ip_type p) (ip_id p) (core_id p) (m_dependenceAddr p) True (sa u) = (ok, t)"
    by fastforce
  from True assms e reads_queued_mem [OF e] issues_by_dec_request [OF assms(1)] show ?thesis
    by (auto simp: dec_request_def dec_requestDependentData_def balanced_def coder_reads_def IPActivityUpdate_def split: if_splits)
qed

lemma balanced_finish: "coder_finish p u = Inr (p', u') \<Longrightarrow> balanced p u p' u' \<and> m_isRead p' = m_isRead p"
  using issues_by_finish [of p u p' u'] reads_queued_respond [of "p\<lparr>is_busy := False\<rparr>" u u']
  by (auto simp: coder_finish_def Let_def balanced_def coder_reads_def split: if_splits)

lemma process_reads [simp]:
  "coder_reads (snd (enc_process p)) = coder_reads p" "m_isRead (snd (enc_process p)) = m_isRead p"
  "coder_reads (snd (noc_process p)) = coder_reads p" "m_isRead (snd (noc_process p)) = m_isRead p"
  "coder_reads (snd (dec_process q)) = coder_reads q" "m_isRead (snd (dec_process q)) = m_isRead q"
  by (simp_all add: enc_process_def noc_process_def dec_process_def Let_def coder_reads_def)

lemma dec_count_reads [simp]: "coder_reads (dec_count e p) = coder_reads p" "m_isRead (dec_count e p) = m_isRead p"
  by (cases e; simp add: dec_count_def coder_reads_def)+

lemma balanced_work:
  fixes p p1 p2 p3 p4 p5 :: "'a coder_scheme"
  assumes "coder_sendDataOut p u = (p1, u1)" "m_isRead p"
    and "m_isRead p1 \<Longrightarrow> balanced p1 u1 p2 u2 \<and> m_isRead p2"
    and "ip_type p3 = ip_type p2" "ip_id p3 = ip_id p2" "coder_reads p3 = coder_reads p2" "m_isRead p3 = m_isRead p2"
    and "coder_finish p3 u2 = Inr (p4, u4)"
    and "ip_type p5 = ip_type p4" "ip_id p5 = ip_id p4" "coder_reads p5 = coder_reads p4" "m_isRead p5 = m_isRead p4"
  shows "balanced p u p5 u4 \<and> m_isRead p5"
proof -
  have "m_isRead p1"
    using assms(1,2) by (auto simp: coder_sendDataOut_def split: if_splits prod.splits)
  with assms(3) have 2: "balanced p1 u1 p2 u2" "m_isRead p2" by simp_all
  have "balanced p2 u2 p3 u2" "balanced p4 u4 p5 u4" using assms by (simp_all add: balanced_same)
  with 2 balanced_sendDataOut [OF assms(1)] balanced_finish [OF assms(8)] assms show ?thesis
    by (blast intro: balanced_trans)
qed

lemma balanced_enc_work: "enc_work p u = Inr (p', u') \<Longrightarrow> m_isRead p \<Longrightarrow> balanced p u p' u' \<and> m_isRead p'"
proof -
  assume w: "enc_work p u = Inr (p', u')" and r: "m_isRead p"
  obtain p1 u1 p2 u2 where s: "coder_sendDataOut p u = (p1, u1)" "coder_requestData p1 u1 = (p2, u2)" by fastforce
  let ?p3 = "if inputProcessedInCL p2 < inputToBeProcessedInCL p2 then snd (enc_process p2) else p2"
  from w s obtain p4 where "coder_finish ?p3 u2 = Inr (p4, u')" "ip_type p' = ip_type p4" "ip_id p' = ip_id p4"
      "coder_reads p' = coder_reads p4" "m_isRead p' = m_isRead p4"
    by (auto simp: enc_work_def enc_sendDataOut_def enc_requestData_def Let_def split_beta coder_reads_def split: if_splits)
  from balanced_work [OF s(1) r balanced_requestData [OF s(2)] _ _ _ _ this] show ?thesis by simp
qed

lemma balanced_noc_work: "noc_work p u = Inr (p', u') \<Longrightarrow> m_isRead p \<Longrightarrow> balanced p u p' u' \<and> m_isRead p'"
proof -
  assume w: "noc_work p u = Inr (p', u')" and r: "m_isRead p"
  obtain p1 u1 p2 u2 where s: "coder_sendDataOut p u = (p1, u1)" "coder_requestData p1 u1 = (p2, u2)" by fastforce
  let ?p3 = "if inputProcessedInCL p2 < inputToBeProcessedInCL p2 then snd (noc_process p2) else p2"
  from w s obtain p4 where "coder_finish ?p3 u2 = Inr (p4, u')" "ip_type p' = ip_type p4" "ip_id p' = ip_id p4"
      "coder_reads p' = coder_reads p4" "m_isRead p' = m_isRead p4"
    by (auto simp: noc_work_def noc_sendDataOut_def noc_requestData_def Let_def split_beta coder_reads_def split: if_splits)
  from balanced_work [OF s(1) r balanced_requestData [OF s(2)] _ _ _ _ this] show ?thesis by simp
qed

lemma balanced_dec_work: "dec_work p u = Inr (p', u') \<Longrightarrow> m_isRead p \<Longrightarrow> balanced p u p' u' \<and> m_isRead p'"
proof -
  assume w: "dec_work p u = Inr (p', u')" and r: "m_isRead p"
  obtain p1 u1 p2 u2 where s: "coder_sendDataOut p u = (p1, u1)" "dec_request p1 u1 = (p2, u2)" by fastforce
  let ?p3 = "if inputProcessedInCL p2 < inputToBeProcessedInCL p2 then snd (dec_process p2) else p2"
  from w s obtain e p4 where "coder_finish ?p3 u2 = Inr (p4, u')" "p' = dec_count e p4"
    by (auto simp: dec_work_def dec_sendDataOut_def Let_def split_beta split: if_splits)
  with balanced_work [OF s(1) r balanced_dec_request [OF s(2)], of ?p3 p4 u' p'] show ?thesis by simp
qed

lemma balanced_coder_tick:
  assumes "ip_inv p" "coder_tick work p u = Inr (p', u')" "is_busy p \<longrightarrow> m_isRead p"
    and work: "\<And>p u p' u'. work p u = Inr (p', u') \<Longrightarrow> m_isRead p \<Longrightarrow> balanced p u p' u' \<and> m_isRead p'"
  shows "balanced p u p' u' \<and> (is_busy p \<longrightarrow> m_isRead p')"
proof -
  let ?p = "p\<lparr>ip_ticks := ip_ticks p + 1\<rparr>"
  have "ip_inv ?p" using assms(1) by simp
  then obtain ok q g where q: "ip_updatePower ?p (gd u) = Inr (ok, q, g)" "ip_same ?p q"
    by (rule ip_updatePower_ok [of _ "gd u"])
  note s = ip_sameD [OF q(2)]
  have "currInBuffer q = currInBuffer p" using s(21) by (cases p; cases q; simp)
  then have 1: "balanced p u q (u\<lparr>gd := g\<rparr>)" "m_isRead q = m_isRead p" "is_busy q = is_busy p"
    using issues_by_updatePower(1) [OF assms(1) q(1)] s by (simp_all add: balanced_gd coder_reads_def)
  have "balanced q (u\<lparr>gd := g\<rparr>) p' u' \<and> (is_busy p \<longrightarrow> m_isRead p')"
  proof (cases "ok \<and> is_busy q")
    case False
    with assms(2,3) q(1) 1 show ?thesis
      by (auto simp: coder_tick_def Let_def coder_reads_def intro!: balanced_same split: if_splits)
  next
    case True
    with assms(2) q(1) have "work (q\<lparr>m_IPWorkingCycles := m_IPWorkingCycles q + 1\<rparr>) (u\<lparr>gd := g\<rparr>) = Inr (p', u')"
      by (auto simp: coder_tick_def Let_def split: if_splits)
    from work [OF this] True 1 assms(3) show ?thesis
      by (simp add: balanced_def issues_by_def coder_reads_def)
  qed
  with 1(1) show ?thesis by (auto intro: balanced_trans)
qed

end
