(* ===== verification/GD_Contract.thy ===== *)
theory GD_Contract
  imports GD_System
begin

section \<open>The contract of the platform\<close>

text \<open>
  What the components promise each other when they run together. The coder contract of \<open>GD_Coder\<close>
  assumes that the environment answers only reads that were sent and hands over only requests of a
  size the class handles. Here both are discharged: the accounting of reads ties every accelerator to
  the queues of the system agent and to the memory simulator, and the calls the components make are
  of the right kind. The locale \<open>platform_coder\<close> states what an accelerator class has to provide for
  this; the three classes are its instances. \<open>plat_run\<close> says which states the platform reaches by steps
  of any component in any order, and the properties hold in all of them.
\<close>

subsection \<open>Reads in flight\<close>

definition reads_in_flight :: "('d \<Rightarrow> completion multiset) \<Rightarrow> 'd uncore \<Rightarrow> IP_TYPE \<Rightarrow> int \<Rightarrow> int" where
  "reads_in_flight pend u t i = int (size (filter_mset (\<lambda>(r, a, t', i'). r \<and> t' = t \<and> i' = i) (in_flight pend u)))"

lemma in_flight_issues:
  assumes "sa_issues t i u u'"
  shows "\<exists>new. in_flight pend u' = in_flight pend u + new \<and> (\<forall>k\<in>#new. fst (snd (snd k)) = t \<and> snd (snd (snd k)) = i)"
proof -
  from assms obtain xs ys where "coreMemReq (sa u') = coreMemReq (sa u) @ xs" "ipMemReq (sa u') = ipMemReq (sa u) @ ys"
    "\<forall>m\<in>set (xs @ ys). mm_ip_type m = t \<and> mm_id m = i" "mem u' = mem u"
    "memCoreResp (sa u') = memCoreResp (sa u)" "memIpResp (sa u') = memIpResp (sa u)"
    by (auto simp: sa_issues_def)
  then show ?thesis
    by (intro exI [of _ "mset (map msg_key (xs @ ys))"])
      (auto simp: in_flight_def sa_requests_def sa_responses_def msg_key_def)
qed

lemma reads_other:
  assumes "sa_issues t i u u'" and "t' \<noteq> t \<or> i' \<noteq> i"
  shows "reads_in_flight pend u' t' i' = reads_in_flight pend u t' i'"
proof -
  from in_flight_issues [OF assms(1), of pend] obtain new where n: "in_flight pend u' = in_flight pend u + new"
    "\<forall>k\<in>#new. fst (snd (snd k)) = t \<and> snd (snd (snd k)) = i" by blast
  have "filter_mset (\<lambda>(r, a, t'', i''). r \<and> t'' = t' \<and> i'' = i') new = {#}"
    using n(2) assms(2) by (auto simp: filter_mset_eq_conv)
  with n(1) show ?thesis by (simp add: reads_in_flight_def)
qed

lemma size_filter_msgs:
  "int (size (filter_mset (\<lambda>(r, a, t', i'). r \<and> t' = t \<and> i' = i) (mset (map msg_key ms)))) =
   int (length (filter (\<lambda>m. mm_isRead m \<and> mm_ip_type m = t \<and> mm_id m = i) ms))"
  by (induction ms) (simp_all add: msg_key_def)

lemma reads_in_flight_queue:
  assumes "sa_inv (sa u)" "t \<noteq> IP_TYPE_CPU"
  shows "reads_in_flight pend u t i = reads_queued t i u +
    int (size (filter_mset (\<lambda>(r, a, t', i'). r \<and> t' = t \<and> i' = i) (pend (dramWrapper (mem u)) + sa_responses (sa u))))"
proof -
  have "filter (\<lambda>m. mm_isRead m \<and> mm_ip_type m = t \<and> mm_id m = i) (coreMemReq (sa u)) = []"
    using assms by (auto simp: sa_inv_def filter_empty_conv)
  then show ?thesis
    using size_filter_msgs [of t i "coreMemReq (sa u)"] size_filter_msgs [of t i "ipMemReq (sa u)"]
    by (simp add: reads_in_flight_def in_flight_def sa_requests_def reads_queued_def)
qed

lemma reads_balanced:
  assumes "balanced p u p' u'" "sa_inv (sa u)" "ip_type p \<noteq> IP_TYPE_CPU"
  shows "reads_in_flight pend u' (ip_type p) (ip_id p) - coder_reads p' =
    reads_in_flight pend u (ip_type p) (ip_id p) - coder_reads p"
proof -
  from assms(1) have s: "sa_issues (ip_type p) (ip_id p) u u'" by (simp add: balanced_def issues_by_def)
  then have "sa_inv (sa u')" "mem u' = mem u" "sa_responses (sa u') = sa_responses (sa u)"
    using assms(2) by (simp_all add: sa_issues_def sa_responses_def)
  with assms show ?thesis by (simp add: reads_in_flight_queue balanced_def)
qed

subsection \<open>One component\<close>

definition ip_at :: "IP_TYPE \<Rightarrow> int \<Rightarrow> 'a GemDroidIP_scheme \<Rightarrow> bool" where
  "ip_at t i p \<longleftrightarrow> ip_inv p \<and> ip_type p = t \<and> ip_id p = i"

definition coder_at ::
  "('a coder_scheme \<Rightarrow> int) \<Rightarrow> ('a coder_scheme \<Rightarrow> bool) \<Rightarrow> (IP_TYPE \<Rightarrow> int \<Rightarrow> int) \<Rightarrow> IP_TYPE \<Rightarrow> int \<Rightarrow> 'a coder_scheme \<Rightarrow> bool" where
  "coder_at todo ok rd t i p \<longleftrightarrow> ip_at t i p \<and> ok p \<and> cinv (view todo p) \<and>
     (is_busy p \<longrightarrow> m_isRead p) \<and> coder_reads p = rd t i"

text \<open>What governors, power accounting and resets of statistics may do to an IP.\<close>

definition quiet :: "'a GemDroidIP_scheme \<Rightarrow> 'a GemDroidIP_scheme \<Rightarrow> bool" where
  "quiet p p' \<longleftrightarrow> (ip_inv p \<longrightarrow> ip_inv p') \<and> ip_type p' = ip_type p \<and> ip_id p' = ip_id p \<and>
     m_reqCount p' = m_reqCount p \<and> is_busy p' = is_busy p \<and> m_isRead p' = m_isRead p \<and> reqSent p' = reqSent p \<and>
     m_cyclesToSkip p' = m_cyclesToSkip p \<and> inputProcessedInCL p' = inputProcessedInCL p \<and>
     inputToBeProcessedInCL p' = inputToBeProcessedInCL p \<and> ioLatency p' = ioLatency p \<and> isDev p' = isDev p \<and>
     targetOutputChunkSizeInCL p' = targetOutputChunkSizeInCL p \<and> GemDroidIP.more p' = GemDroidIP.more p"

lemma quiet_refl [simp]: "quiet p p"
  by (simp add: quiet_def)

lemma quiet_trans: "quiet p q \<Longrightarrow> quiet q r \<Longrightarrow> quiet p r"
  by (simp add: quiet_def)

lemma ip_at_quiet: "ip_at t i p \<Longrightarrow> quiet p p' \<Longrightarrow> ip_at t i p'"
  by (simp add: ip_at_def quiet_def)

lemma coder_moreD:
  assumes "GemDroidIP.more p' = GemDroidIP.more p"
  shows "computeLatency p' = computeLatency p" "inBufferSize p' = inBufferSize p" "outBufferSize p' = outBufferSize p"
    "currInBuffer p' = currInBuffer p" "currOutBuffer p' = currOutBuffer p" "coding_ratio p' = coding_ratio p"
    "coder.more p' = coder.more p"
  using assms by (cases p; cases p'; simp)+

lemma csteps_busy: "cstep\<^sup>*\<^sup>* v w \<Longrightarrow> v_busy w \<Longrightarrow> v_busy v"
  by (induction rule: rtranclp_induct) (auto elim: cstepE)

locale platform_coder = coder_class request process work todo ok enq sizes
  for request :: "'a coder_scheme \<Rightarrow> 'd uncore \<Rightarrow> 'a coder_scheme \<times> 'd uncore"
    and process :: "'a coder_scheme \<Rightarrow> 'a coder_scheme"
    and work :: "'a coder_scheme \<Rightarrow> 'd uncore \<Rightarrow> ('a coder_scheme \<times> 'd uncore) result"
    and todo :: "'a coder_scheme \<Rightarrow> int"
    and ok :: "'a coder_scheme \<Rightarrow> bool"
    and enq :: "int \<Rightarrow> addr \<Rightarrow> int \<Rightarrow> bool \<Rightarrow> int \<Rightarrow> IP_TYPE \<Rightarrow> int \<Rightarrow> 'a coder_scheme \<Rightarrow> GemDroid \<Rightarrow>
      (bool \<times> 'a coder_scheme \<times> GemDroid) result"
    and sizes :: "'a coder_scheme \<Rightarrow> int \<Rightarrow> bool" +
  assumes work_balanced: "work p u = Inr (p', u') \<Longrightarrow> m_isRead p \<Longrightarrow> balanced p u p' u' \<and> m_isRead p'"
    and enq_frame: "enq c a z r n ft k p g = Inr (b, p', g') \<Longrightarrow> ip_type p' = ip_type p \<and> ip_id p' = ip_id p \<and>
      m_isRead p' = (if b then r else m_isRead p) \<and> is_busy p' \<and> gd_config g' = gd_config g"
begin

lemma at_tick:
  assumes "coder_at todo ok (reads_in_flight pend u) t i p" "coder_tick work p u = Inr (p', u')"
    and "sa_inv (sa u)" "t \<noteq> IP_TYPE_CPU"
  shows "coder_at todo ok (reads_in_flight pend u') t i p' \<and> sa_issues t i u u'"
proof -
  from assms(1) have p: "ip_inv p" "ip_type p = t" "ip_id p = i" "ok p" "cinv (view todo p)" "is_busy p \<longrightarrow> m_isRead p"
    "coder_reads p = reads_in_flight pend u t i" by (simp_all add: coder_at_def ip_at_def)
  from balanced_coder_tick [OF p(1) assms(2) p(6) work_balanced] have
    b: "balanced p u p' u'" "is_busy p \<longrightarrow> m_isRead p'" by blast+
  from tick_sim [OF p(1,5,4) assms(2)] have s: "cstep\<^sup>*\<^sup>* (view todo p) (view todo p')" "cinv (view todo p')" "ip_inv p'" "ok p'"
    by blast+
  have "is_busy p' \<longrightarrow> is_busy p" using csteps_busy [OF s(1)] by simp
  moreover have "coder_reads p' = reads_in_flight pend u' t i"
    using reads_balanced [OF b(1) assms(3), of pend] assms(4) p by simp
  ultimately show ?thesis
    using b s p by (auto simp: coder_at_def ip_at_def balanced_def issues_by_def)
qed

lemma at_enq:
  assumes "coder_at todo ok rd t i p" "sizes p z" "r"
  shows "\<exists>b p' g'. enq c a z r n ft k p g = Inr (b, p', g') \<and> b = (\<not> is_busy p) \<and>
    coder_at todo ok rd t i p' \<and> is_busy p' \<and> gd_config g' = gd_config g"
proof -
  from assms(1) have p: "ip_inv p" "ok p" "cinv (view todo p)" by (simp_all add: coder_at_def ip_at_def)
  from enq_total [OF p assms(2), of c a r n ft k g] obtain b p' g' where
    e: "enq c a z r n ft k p g = Inr (b, p', g')" "b = (\<not> is_busy p)" "ip_inv p'" "ok p'" "cinv (view todo p')" by blast
  note f = enq_frame [OF e(1)]
  have "coder_reads p' = coder_reads p"
  proof (cases "is_busy p")
    case True
    from enq_busy [OF True, of c a z r n ft k g] e(1) show ?thesis by (auto simp: coder_reads_def)
  next
    case False
    from enq_idle [OF False p(3,2,1) assms(2), of c a r n ft k g] e(1)
    have "view todo p' = (view todo p)\<lparr>v_busy := True, v_done := 0, v_total := z div 64, v_todo := z div 64, v_sent := 0\<rparr>"
      by auto
    from arg_cong [OF this, of v_in] arg_cong [OF this, of v_sent] show ?thesis
      using p(3) False by (simp add: coder_reads_def cinv_def)
  qed
  moreover have "is_busy p' \<longrightarrow> m_isRead p'"
  proof (cases "is_busy p")
    case True
    from enq_busy [OF True, of c a z r n ft k g] e(1) assms(1) True show ?thesis by (auto simp: coder_at_def)
  qed (use f e(2) assms(3) in simp)
  ultimately show ?thesis using e f assms(1) by (auto simp: coder_at_def ip_at_def)
qed

lemma at_respond:
  assumes "coder_at todo ok rd t i p" "r \<longrightarrow> 0 < rd t i" "rd' t i = rd t i - of_bool r"
  shows "coder_at todo ok rd' t i (coder_memResponse a r p)"
proof -
  let ?q = "coder_memResponse a r p"
  from assms(1) have p: "ip_inv p" "ip_type p = t" "ip_id p = i" "ok p" "cinv (view todo p)" "is_busy p \<longrightarrow> m_isRead p"
    "coder_reads p = rd t i" by (simp_all add: coder_at_def ip_at_def)
  have q: "view todo ?q = (view todo p)\<lparr>v_in := currInBuffer p + of_bool r\<rparr>" "ok ?q = ok p"
    using todo_cong [of ?q p] ok_cong [of ?q p]
    by (simp_all add: view_def coder_memResponse_def ip_memResponse_def)
  have "ip_inv ?q"
    by (rule ip_inv_work [of p]) (use p(1) in \<open>simp_all add: coder_memResponse_def ip_memResponse_def ip_inv_idle\<close>)
  moreover have "cinv (view todo ?q)"
    unfolding q using p(5,7) assms(2) by (cases r; cases "is_busy p") (simp_all add: cinv_def coder_reads_def)
  moreover have "coder_reads ?q = rd' t i"
    using p(7) assms(3) by (auto simp: coder_reads_def coder_memResponse_def ip_memResponse_def)
  ultimately show ?thesis
    using q p by (simp add: coder_at_def ip_at_def coder_memResponse_def ip_memResponse_def)
qed

lemma at_quiet:
  assumes "coder_at todo ok rd t i p" "quiet p p'"
  shows "coder_at todo ok rd t i p'"
proof -
  from assms(2) have q: "m_reqCount p' = m_reqCount p" "GemDroidIP.more p' = GemDroidIP.more p" "reqSent p' = reqSent p"
    "is_busy p' = is_busy p" "m_cyclesToSkip p' = m_cyclesToSkip p" "inputProcessedInCL p' = inputProcessedInCL p"
    "inputToBeProcessedInCL p' = inputToBeProcessedInCL p" "ioLatency p' = ioLatency p" "m_isRead p' = m_isRead p"
    "targetOutputChunkSizeInCL p' = targetOutputChunkSizeInCL p"
    by (simp_all add: quiet_def)
  note m = coder_moreD [OF q(2)]
  have "view todo p' = view todo p" "ok p' = ok p" "coder_reads p' = coder_reads p"
    using todo_cong [of p' p] ok_cong [of p' p] q m by (simp_all add: view_def coder_reads_def)
  with assms q show ?thesis using ip_at_quiet [of t i p p'] by (simp add: coder_at_def)
qed

end

lemma ip_enqueueIPReq_frame:
  assumes "ip_enqueueIPReq c a z r n ft k p g = (b, p', g')"
  shows "ip_type p' = ip_type p" "ip_id p' = ip_id p" "m_isRead p' = (if b then r else m_isRead p)"
    "gd_config g' = gd_config g" "b = (\<not> is_busy p)" "is_busy p'"
  using assms by (auto simp: ip_enqueueIPReq_def ip_start_or_wake_def ip_accept_def Let_def split: if_splits)

interpretation enc_pl: platform_coder enc_requestData "\<lambda>p. snd (enc_process p)" enc_work coder_todo enc_ok enc_enqueueIPReq line_sizes
  by unfold_locales (erule (1) balanced_enc_work, auto simp: enc_enqueueIPReq_def coder_start_def Let_def split: prod.splits if_splits dest: ip_enqueueIPReq_frame)

interpretation noc_pl: platform_coder noc_requestData "\<lambda>p. snd (noc_process p)" noc_work coder_todo noc_ok noc_enqueueIPReq line_sizes
  by unfold_locales (erule (1) balanced_noc_work, auto simp: noc_enqueueIPReq_def coder_start_def Let_def split: prod.splits if_splits dest: ip_enqueueIPReq_frame)

interpretation dec_pl: platform_coder dec_request "\<lambda>p. snd (dec_process p)" dec_work dec_todo dec_ok dec_enqueueIPReq dec_sizes
  by unfold_locales (erule (1) balanced_dec_work, auto simp: dec_enqueueIPReq_def coder_start_def Let_def split: prod.splits if_splits dest: ip_enqueueIPReq_frame)

lemma coder_at_cong: "rd' t i = rd t i \<Longrightarrow> coder_at todo ok rd' t i p = coder_at todo ok rd t i p"
  by (simp add: coder_at_def)

lemma ip_at_tick: "ip_at t i p \<Longrightarrow> ip_tick p u = Inr (p', u') \<Longrightarrow> ip_at t i p' \<and> sa_issues t i u u'"
  using issues_by_ip_tick [of p u p' u'] ip_inv_ip_tick [of p u p' u'] by (auto simp: ip_at_def issues_by_def)

subsection \<open>The invariant of the platform\<close>

text \<open>
  \<open>I\<close> are the instances every array has initialised, \<open>J\<close> those of the display, which has one more when the
  GPU is enabled. An accelerator's outstanding reads are exactly its reads in flight.
\<close>

definition insts_ok :: "(IP_TYPE \<Rightarrow> int \<Rightarrow> int) \<Rightarrow> int \<Rightarrow> 'd world \<Rightarrow> bool" where
  "insts_ok rd i w \<longleftrightarrow> ip_at IP_TYPE_NW i (gemdroid_ip_nw w i) \<and>
     ip_at IP_TYPE_SND i (gemdroid_ip_snd w i) \<and> ip_at IP_TYPE_MIC i (gemdroid_ip_mic w i) \<and>
     ip_at IP_TYPE_CAM i (gemdroid_ip_cam w i) \<and> ip_at IP_TYPE_MMC_IN i (gemdroid_ip_mmc_in w i) \<and>
     ip_at IP_TYPE_MMC_OUT i (gemdroid_ip_mmc_out w i) \<and>
     coder_at dec_todo dec_ok rd IP_TYPE_VD i (gemdroid_ip_vd w i) \<and>
     coder_at coder_todo enc_ok rd IP_TYPE_VE i (gemdroid_ip_ve w i) \<and>
     coder_at dec_todo dec_ok rd IP_TYPE_AD i (gemdroid_ip_ad w i) \<and>
     coder_at coder_todo enc_ok rd IP_TYPE_AE i (gemdroid_ip_ae w i) \<and>
     coder_at coder_todo noc_ok rd IP_TYPE_IMG i (gemdroid_ip_img w i) \<and>
     gpu_inv (gemdroid_ip_gpu w i) \<and> ip_id (gemdroid_ip_gpu w i) = i"

definition resp_ok :: "GemDroidSA \<Rightarrow> bool" where
  "resp_ok s \<longleftrightarrow> (\<forall>m\<in>set (memCoreResp s). mm_ip_type m = IP_TYPE_CPU) \<and>
     (\<forall>m\<in>set (memIpResp s). mm_ip_type m \<noteq> IP_TYPE_CPU)"

definition sender_ok :: "int set \<Rightarrow> int set \<Rightarrow> nat \<Rightarrow> completion \<Rightarrow> bool" where
  "sender_ok I J n k \<longleftrightarrow> (case k of (r, a, t, i) \<Rightarrow>
     if t = IP_TYPE_CPU then 0 \<le> i \<and> i < int n else if t = IP_TYPE_DC then i \<in> J else i \<in> I)"

definition cores_ok :: "'d world \<Rightarrow> bool" where
  "cores_ok w \<longleftrightarrow> (\<forall>c<num_cpus (gd (un w)). core_inv (gemdroid_core w c) \<and> c_id (gemdroid_core w c) = int c)"

definition uncore_ok :: "('d \<Rightarrow> completion multiset) \<Rightarrow> int set \<Rightarrow> int set \<Rightarrow> 'd uncore \<Rightarrow> bool" where
  "uncore_ok pend I J u \<longleftrightarrow> sa_inv (sa u) \<and> calls_ok (sa u) \<and> resp_ok (sa u) \<and> wf_flowTable (flowTable (gd u)) \<and>
     (\<forall>k\<in>#in_flight pend u. sender_ok I J (num_cpus (gd u)) k) \<and> num_cpus (gd u) \<le> 4"

definition plat_inv :: "('d \<Rightarrow> completion multiset) \<Rightarrow> int set \<Rightarrow> int set \<Rightarrow> 'd world \<Rightarrow> bool" where
  "plat_inv pend I J w \<longleftrightarrow> 0 \<in> I \<and> I \<subseteq> {0..<4} \<and> J \<subseteq> {0..<4} \<and> uncore_ok pend I J (un w) \<and> cores_ok w \<and>
     (\<forall>j\<in>J. ip_at IP_TYPE_DC j (gemdroid_ip_dc w j)) \<and> (\<forall>i\<in>I. insts_ok (reads_in_flight pend (un w)) i w)"

lemma insts_ok_cong:
  "(\<And>t. t \<in> {IP_TYPE_VD, IP_TYPE_VE, IP_TYPE_AD, IP_TYPE_AE, IP_TYPE_IMG} \<Longrightarrow> rd' t i = rd t i) \<Longrightarrow>
   insts_ok rd' i w = insts_ok rd i w"
  unfolding insts_ok_def by (simp add: coder_at_def)

lemma uncore_ok_issues:
  assumes "uncore_ok pend I J u" "sa_issues t i u u'"
    and "if t = IP_TYPE_CPU then 0 \<le> i \<and> i < int (num_cpus (gd u)) else if t = IP_TYPE_DC then i \<in> J else i \<in> I"
  shows "uncore_ok pend I J u'"
proof -
  from in_flight_issues [OF assms(2), of pend] obtain new where "in_flight pend u' = in_flight pend u + new"
    "\<forall>k\<in>#new. fst (snd (snd k)) = t \<and> snd (snd (snd k)) = i" by blast
  then have "\<forall>k\<in>#in_flight pend u'. sender_ok I J (num_cpus (gd u)) k"
    using assms(1,3) by (auto simp: uncore_ok_def sender_ok_def)
  then show ?thesis
    using assms(1,2) by (simp add: uncore_ok_def sa_issues_def gd_config_def resp_ok_def)
qed

lemma coder_at_other:
  "coder_at todo ok (reads_in_flight pend u) t' i' p \<Longrightarrow> sa_issues t i u u' \<Longrightarrow> t' \<noteq> t \<or> i' \<noteq> i \<Longrightarrow>
   coder_at todo ok (reads_in_flight pend u') t' i' p"
  using reads_other [of t i u u' t' i' pend] by (simp add: coder_at_def)

lemmas coder_at_ticks =
  dec_pl.at_tick [folded dec_tick_def] enc_pl.at_tick [folded enc_tick_def] noc_pl.at_tick [folded noc_tick_def]

lemma gpu_at_tick:
  "gpu_tick p u = Inr (p', u') \<Longrightarrow> gpu_inv p \<Longrightarrow> ip_id p = i \<Longrightarrow>
   gpu_inv p' \<and> ip_id p' = i \<and> sa_issues IP_TYPE_GPU i u u'"
  using issues_by_gpu_tick [of p u p' u'] gpu_inv_tick [of p u p' u'] by (auto simp: issues_by_def gpu_inv_def)

definition insts_same :: "int \<Rightarrow> 'd world \<Rightarrow> 'd world \<Rightarrow> bool" where
  "insts_same i w w' \<longleftrightarrow> gemdroid_ip_nw w' i = gemdroid_ip_nw w i \<and> gemdroid_ip_snd w' i = gemdroid_ip_snd w i \<and>
     gemdroid_ip_mic w' i = gemdroid_ip_mic w i \<and> gemdroid_ip_cam w' i = gemdroid_ip_cam w i \<and>
     gemdroid_ip_mmc_in w' i = gemdroid_ip_mmc_in w i \<and> gemdroid_ip_mmc_out w' i = gemdroid_ip_mmc_out w i \<and>
     gemdroid_ip_vd w' i = gemdroid_ip_vd w i \<and> gemdroid_ip_ve w' i = gemdroid_ip_ve w i \<and>
     gemdroid_ip_ad w' i = gemdroid_ip_ad w i \<and> gemdroid_ip_ae w' i = gemdroid_ip_ae w i \<and>
     gemdroid_ip_img w' i = gemdroid_ip_img w i \<and> gemdroid_ip_gpu w' i = gemdroid_ip_gpu w i"

lemma insts_same_ok: "insts_same i w w' \<Longrightarrow> insts_ok rd i w' = insts_ok rd i w"
  by (simp add: insts_same_def insts_ok_def)

lemma tickIP_frame:
  assumes "tickIP t i w = Inr w'"
  shows "gemdroid_core w' = gemdroid_core w" "t \<noteq> IP_TYPE_DC \<or> j \<noteq> i \<Longrightarrow> gemdroid_ip_dc w' j = gemdroid_ip_dc w j"
    "t = IP_TYPE_DC \<or> i' \<noteq> i \<Longrightarrow> insts_same i' w w'"
  using assms by (cases t; auto simp: tickIP_def inst_def insts_same_def)+

lemma insts_ok_issues:
  "sa_issues t i u u' \<Longrightarrow> t \<notin> {IP_TYPE_VD, IP_TYPE_VE, IP_TYPE_AD, IP_TYPE_AE, IP_TYPE_IMG} \<or> i' \<noteq> i \<Longrightarrow>
   insts_ok (reads_in_flight pend u') i' w = insts_ok (reads_in_flight pend u) i' w"
  by (rule insts_ok_cong, rule reads_other) auto

lemma tickIP_plain:
  assumes "insts_ok rd i w" "tickIP t i w = Inr w'" "t \<noteq> IP_TYPE_DC"
    and "t \<notin> {IP_TYPE_VD, IP_TYPE_VE, IP_TYPE_AD, IP_TYPE_AE, IP_TYPE_IMG}"
  shows "insts_ok rd i w' \<and> sa_issues t i (un w) (un w')"
proof (cases t)
  case IP_TYPE_NW
  with assms(2) obtain p u' where u: "ip_tick (gemdroid_ip_nw w i) (un w) = Inr (p, u')"
      "w' = w\<lparr>gemdroid_ip_nw := (gemdroid_ip_nw w)(i := p), un := u'\<rparr>" by (auto simp: tickIP_def inst_def)
  with IP_TYPE_NW assms(1) ip_at_tick [OF _ u(1), of t i] show ?thesis by (simp add: insts_ok_def)
next
  case IP_TYPE_SND
  with assms(2) obtain p u' where u: "ip_tick (gemdroid_ip_snd w i) (un w) = Inr (p, u')"
      "w' = w\<lparr>gemdroid_ip_snd := (gemdroid_ip_snd w)(i := p), un := u'\<rparr>" by (auto simp: tickIP_def inst_def)
  with IP_TYPE_SND assms(1) ip_at_tick [OF _ u(1), of t i] show ?thesis by (simp add: insts_ok_def)
next
  case IP_TYPE_MIC
  with assms(2) obtain p u' where u: "ip_tick (gemdroid_ip_mic w i) (un w) = Inr (p, u')"
      "w' = w\<lparr>gemdroid_ip_mic := (gemdroid_ip_mic w)(i := p), un := u'\<rparr>" by (auto simp: tickIP_def inst_def)
  with IP_TYPE_MIC assms(1) ip_at_tick [OF _ u(1), of t i] show ?thesis by (simp add: insts_ok_def)
next
  case IP_TYPE_CAM
  with assms(2) obtain p u' where u: "ip_tick (gemdroid_ip_cam w i) (un w) = Inr (p, u')"
      "w' = w\<lparr>gemdroid_ip_cam := (gemdroid_ip_cam w)(i := p), un := u'\<rparr>" by (auto simp: tickIP_def inst_def)
  with IP_TYPE_CAM assms(1) ip_at_tick [OF _ u(1), of t i] show ?thesis by (simp add: insts_ok_def)
next
  case IP_TYPE_MMC_IN
  with assms(2) obtain p u' where u: "ip_tick (gemdroid_ip_mmc_in w i) (un w) = Inr (p, u')"
      "w' = w\<lparr>gemdroid_ip_mmc_in := (gemdroid_ip_mmc_in w)(i := p), un := u'\<rparr>" by (auto simp: tickIP_def inst_def)
  with IP_TYPE_MMC_IN assms(1) ip_at_tick [OF _ u(1), of t i] show ?thesis by (simp add: insts_ok_def)
next
  case IP_TYPE_MMC_OUT
  with assms(2) obtain p u' where u: "ip_tick (gemdroid_ip_mmc_out w i) (un w) = Inr (p, u')"
      "w' = w\<lparr>gemdroid_ip_mmc_out := (gemdroid_ip_mmc_out w)(i := p), un := u'\<rparr>" by (auto simp: tickIP_def inst_def)
  with IP_TYPE_MMC_OUT assms(1) ip_at_tick [OF _ u(1), of t i] show ?thesis by (simp add: insts_ok_def)
next
  case IP_TYPE_GPU
  with assms(2) obtain p u' where u: "gpu_tick (gemdroid_ip_gpu w i) (un w) = Inr (p, u')"
      "w' = w\<lparr>gemdroid_ip_gpu := (gemdroid_ip_gpu w)(i := p), un := u'\<rparr>" by (auto simp: tickIP_def inst_def)
  with IP_TYPE_GPU assms(1) gpu_at_tick [OF u(1), of i] show ?thesis by (simp add: insts_ok_def)
qed (use assms in \<open>auto simp: tickIP_def\<close>)

lemma insts_ok_set:
  assumes "insts_ok (reads_in_flight pend (un w)) i w" "sa_issues t i (un w) u'"
  shows "t = IP_TYPE_VD \<Longrightarrow> coder_at dec_todo dec_ok (reads_in_flight pend u') t i p \<Longrightarrow>
      insts_ok (reads_in_flight pend u') i (w\<lparr>gemdroid_ip_vd := (gemdroid_ip_vd w)(i := p), un := u'\<rparr>)"
    "t = IP_TYPE_AD \<Longrightarrow> coder_at dec_todo dec_ok (reads_in_flight pend u') t i p \<Longrightarrow>
      insts_ok (reads_in_flight pend u') i (w\<lparr>gemdroid_ip_ad := (gemdroid_ip_ad w)(i := p), un := u'\<rparr>)"
    "t = IP_TYPE_VE \<Longrightarrow> coder_at coder_todo enc_ok (reads_in_flight pend u') t i q \<Longrightarrow>
      insts_ok (reads_in_flight pend u') i (w\<lparr>gemdroid_ip_ve := (gemdroid_ip_ve w)(i := q), un := u'\<rparr>)"
    "t = IP_TYPE_AE \<Longrightarrow> coder_at coder_todo enc_ok (reads_in_flight pend u') t i q \<Longrightarrow>
      insts_ok (reads_in_flight pend u') i (w\<lparr>gemdroid_ip_ae := (gemdroid_ip_ae w)(i := q), un := u'\<rparr>)"
    "t = IP_TYPE_IMG \<Longrightarrow> coder_at coder_todo noc_ok (reads_in_flight pend u') t i q \<Longrightarrow>
      insts_ok (reads_in_flight pend u') i (w\<lparr>gemdroid_ip_img := (gemdroid_ip_img w)(i := q), un := u'\<rparr>)"
proof -
  note other = coder_at_cong [where rd' = "reads_in_flight pend u'" and rd = "reads_in_flight pend (un w)",
      OF reads_other [OF assms(2)]]
  show "t = IP_TYPE_VD \<Longrightarrow> coder_at dec_todo dec_ok (reads_in_flight pend u') t i p \<Longrightarrow>
      insts_ok (reads_in_flight pend u') i (w\<lparr>gemdroid_ip_vd := (gemdroid_ip_vd w)(i := p), un := u'\<rparr>)"
    "t = IP_TYPE_AD \<Longrightarrow> coder_at dec_todo dec_ok (reads_in_flight pend u') t i p \<Longrightarrow>
      insts_ok (reads_in_flight pend u') i (w\<lparr>gemdroid_ip_ad := (gemdroid_ip_ad w)(i := p), un := u'\<rparr>)"
    "t = IP_TYPE_VE \<Longrightarrow> coder_at coder_todo enc_ok (reads_in_flight pend u') t i q \<Longrightarrow>
      insts_ok (reads_in_flight pend u') i (w\<lparr>gemdroid_ip_ve := (gemdroid_ip_ve w)(i := q), un := u'\<rparr>)"
    "t = IP_TYPE_AE \<Longrightarrow> coder_at coder_todo enc_ok (reads_in_flight pend u') t i q \<Longrightarrow>
      insts_ok (reads_in_flight pend u') i (w\<lparr>gemdroid_ip_ae := (gemdroid_ip_ae w)(i := q), un := u'\<rparr>)"
    "t = IP_TYPE_IMG \<Longrightarrow> coder_at coder_todo noc_ok (reads_in_flight pend u') t i q \<Longrightarrow>
      insts_ok (reads_in_flight pend u') i (w\<lparr>gemdroid_ip_img := (gemdroid_ip_img w)(i := q), un := u'\<rparr>)"
    using assms(1) by (simp_all add: insts_ok_def other)
qed

lemma tickIP_coder:
  assumes "insts_ok (reads_in_flight pend (un w)) i w" "sa_inv (sa (un w))" "tickIP t i w = Inr w'"
    and "t \<in> {IP_TYPE_VD, IP_TYPE_VE, IP_TYPE_AD, IP_TYPE_AE, IP_TYPE_IMG}"
  shows "insts_ok (reads_in_flight pend (un w')) i w' \<and> sa_issues t i (un w) (un w')"
proof (cases t)
  case IP_TYPE_VD
  with assms(3) obtain p u' where u: "dec_tick (gemdroid_ip_vd w i) (un w) = Inr (p, u')"
      "w' = w\<lparr>gemdroid_ip_vd := (gemdroid_ip_vd w)(i := p), un := u'\<rparr>" by (auto simp: tickIP_def inst_def)
  have "coder_at dec_todo dec_ok (reads_in_flight pend (un w)) t i (gemdroid_ip_vd w i)"
    using assms(1) IP_TYPE_VD by (simp add: insts_ok_def)
  from coder_at_ticks(1) [OF this u(1) assms(2)] insts_ok_set(1) [OF assms(1), of t u' p] IP_TYPE_VD u(2)
  show ?thesis by simp
next
  case IP_TYPE_VE
  with assms(3) obtain p u' where u: "enc_tick (gemdroid_ip_ve w i) (un w) = Inr (p, u')"
      "w' = w\<lparr>gemdroid_ip_ve := (gemdroid_ip_ve w)(i := p), un := u'\<rparr>" by (auto simp: tickIP_def inst_def)
  have "coder_at coder_todo enc_ok (reads_in_flight pend (un w)) t i (gemdroid_ip_ve w i)"
    using assms(1) IP_TYPE_VE by (simp add: insts_ok_def)
  from coder_at_ticks(2) [OF this u(1) assms(2)] insts_ok_set(3) [OF assms(1), of t u' p] IP_TYPE_VE u(2)
  show ?thesis by simp
next
  case IP_TYPE_AD
  with assms(3) obtain p u' where u: "dec_tick (gemdroid_ip_ad w i) (un w) = Inr (p, u')"
      "w' = w\<lparr>gemdroid_ip_ad := (gemdroid_ip_ad w)(i := p), un := u'\<rparr>" by (auto simp: tickIP_def inst_def)
  have "coder_at dec_todo dec_ok (reads_in_flight pend (un w)) t i (gemdroid_ip_ad w i)"
    using assms(1) IP_TYPE_AD by (simp add: insts_ok_def)
  from coder_at_ticks(1) [OF this u(1) assms(2)] insts_ok_set(2) [OF assms(1), of t u' p] IP_TYPE_AD u(2)
  show ?thesis by simp
next
  case IP_TYPE_AE
  with assms(3) obtain p u' where u: "enc_tick (gemdroid_ip_ae w i) (un w) = Inr (p, u')"
      "w' = w\<lparr>gemdroid_ip_ae := (gemdroid_ip_ae w)(i := p), un := u'\<rparr>" by (auto simp: tickIP_def inst_def)
  have "coder_at coder_todo enc_ok (reads_in_flight pend (un w)) t i (gemdroid_ip_ae w i)"
    using assms(1) IP_TYPE_AE by (simp add: insts_ok_def)
  from coder_at_ticks(2) [OF this u(1) assms(2)] insts_ok_set(4) [OF assms(1), of t u' p] IP_TYPE_AE u(2)
  show ?thesis by simp
next
  case IP_TYPE_IMG
  with assms(3) obtain p u' where u: "noc_tick (gemdroid_ip_img w i) (un w) = Inr (p, u')"
      "w' = w\<lparr>gemdroid_ip_img := (gemdroid_ip_img w)(i := p), un := u'\<rparr>" by (auto simp: tickIP_def inst_def)
  have "coder_at coder_todo noc_ok (reads_in_flight pend (un w)) t i (gemdroid_ip_img w i)"
    using assms(1) IP_TYPE_IMG by (simp add: insts_ok_def)
  from coder_at_ticks(3) [OF this u(1) assms(2)] insts_ok_set(5) [OF assms(1), of t u' p] IP_TYPE_IMG u(2)
  show ?thesis by simp
qed (use assms(4) in auto)

subsection \<open>Ticks\<close>

lemma tickIP_own:
  assumes "plat_inv pend I J w" "tickIP t i w = Inr w'" "if t = IP_TYPE_DC then i \<in> J else i \<in> I" "t \<noteq> IP_TYPE_CPU"
  shows "sa_issues t i (un w) (un w') \<and> (t \<noteq> IP_TYPE_DC \<longrightarrow> insts_ok (reads_in_flight pend (un w')) i w') \<and>
      (t = IP_TYPE_DC \<longrightarrow> ip_at IP_TYPE_DC i (gemdroid_ip_dc w' i))"
proof -
  note inv = assms(1) [unfolded plat_inv_def]
  have sa: "sa_inv (sa (un w))" using inv by (simp add: uncore_ok_def)
  show ?thesis
  proof (cases "t = IP_TYPE_DC")
    case True
    with assms(2) obtain p u' where u: "ip_tick (gemdroid_ip_dc w i) (un w) = Inr (p, u')"
        "w' = w\<lparr>gemdroid_ip_dc := (gemdroid_ip_dc w)(i := p), un := u'\<rparr>" by (auto simp: tickIP_def inst_def)
    with True inv assms(3) ip_at_tick [OF _ u(1), of t i] show ?thesis by simp
  next
    case False
    with assms(3) inv have i: "insts_ok (reads_in_flight pend (un w)) i w" by simp
    show ?thesis
    proof (cases "t \<in> {IP_TYPE_VD, IP_TYPE_VE, IP_TYPE_AD, IP_TYPE_AE, IP_TYPE_IMG}")
      case True
      from tickIP_coder [OF i sa assms(2) True] False show ?thesis by simp
    next
      case not: False
      from tickIP_plain [OF i assms(2) False not] insts_ok_issues [of t i "un w" "un w'" i pend] not False show ?thesis
        by blast
    qed
  qed
qed

lemma plat_tickIP:
  assumes "plat_inv pend I J w" "tickIP t i w = Inr w'" "if t = IP_TYPE_DC then i \<in> J else i \<in> I" "t \<noteq> IP_TYPE_CPU"
  shows "plat_inv pend I J w'"
proof -
  note inv = assms(1) [unfolded plat_inv_def]
  note f = tickIP_frame [OF assms(2)]
  note own = tickIP_own [OF assms]
  have "insts_ok (reads_in_flight pend (un w')) i' w'" if "i' \<in> I" for i'
  proof (cases "i' = i \<and> t \<noteq> IP_TYPE_DC")
    case False
    then have d: "t = IP_TYPE_DC \<or> i' \<noteq> i" "t \<notin> {IP_TYPE_VD, IP_TYPE_VE, IP_TYPE_AD, IP_TYPE_AE, IP_TYPE_IMG} \<or> i' \<noteq> i"
      by auto
    have "insts_ok (reads_in_flight pend (un w')) i' w' = insts_ok (reads_in_flight pend (un w')) i' w"
      by (rule insts_same_ok [OF f(3) [OF d(1)]])
    also have "\<dots> = insts_ok (reads_in_flight pend (un w)) i' w"
      by (rule insts_ok_issues [OF _ d(2)]) (use own in blast)
    finally show ?thesis using inv that by blast
  qed (use own in simp)
  moreover have "ip_at IP_TYPE_DC j (gemdroid_ip_dc w' j)" if "j \<in> J" for j
    using f(2) [of j] own inv that by (cases "t = IP_TYPE_DC \<and> j = i") auto
  moreover have "uncore_ok pend I J (un w')"
    using uncore_ok_issues [of pend I J "un w" t i "un w'"] inv own assms(3,4) by auto
  moreover have "cores_ok w'"
    using inv f(1) own by (simp add: cores_ok_def sa_issues_def gd_config_def)
  ultimately show ?thesis using inv by (simp add: plat_inv_def)
qed

lemma plat_core:
  assumes "plat_inv pend I J w" "core_tick_at c w = Inr w'" "c < num_cpus (gd (un w))"
  shows "plat_inv pend I J w'"
proof -
  note inv = assms(1) [unfolded plat_inv_def]
  obtain c' u' where t: "core_tick (gemdroid_core w c) (un w) = Inr (c', u')"
      "w' = w\<lparr>gemdroid_core := (gemdroid_core w)(c := c'), un := u'\<rparr>"
    using assms(2) by (auto simp: core_tick_at_def)
  have c: "core_inv (gemdroid_core w c)" "c_id (gemdroid_core w c) = int c" "wf_flowTable (flowTable (gd (un w)))"
    using inv assms(3) by (simp_all add: cores_ok_def uncore_ok_def)
  have s: "sa_issues IP_TYPE_CPU (int c) (un w) u'" "c_id c' = int c"
    using core_tick_issues [OF t(1)] c(2) by (simp_all add: core_issues_def)
  have "core_inv c'" using core_tick_tick_ok [OF c(1,3)] t(1) by (simp add: tick_ok_def)
  then have "cores_ok w'"
    using inv s t(2) by (simp add: cores_ok_def sa_issues_def gd_config_def)
  moreover have "uncore_ok pend I J u'"
    using uncore_ok_issues [of pend I J "un w" IP_TYPE_CPU "int c" u'] inv s(1) assms(3) by simp
  moreover have "insts_ok (reads_in_flight pend u') i w' = insts_ok (reads_in_flight pend (un w)) i w" for i
    using insts_ok_issues [OF s(1), of i pend] t(2) by (simp add: insts_ok_def)
  ultimately show ?thesis using inv t(2) by (simp add: plat_inv_def)
qed

subsection \<open>The agent and the memory\<close>

lemma plat_uncore:
  assumes "plat_inv pend I J w" "uncore_ok pend I J u'" "in_flight pend u' = in_flight pend (un w)"
    and "num_cpus (gd u') = num_cpus (gd (un w))"
  shows "plat_inv pend I J (w\<lparr>un := u'\<rparr>)"
proof -
  have "reads_in_flight pend u' = reads_in_flight pend (un w)" by (simp add: reads_in_flight_def [abs_def] assms(3))
  then have "insts_ok (reads_in_flight pend u') i (w\<lparr>un := u'\<rparr>) = insts_ok (reads_in_flight pend (un w)) i w" for i
    by (simp add: insts_ok_def)
  then show ?thesis using assms by (simp add: plat_inv_def cores_ok_def)
qed

lemma resp_ok_memResponse: "sa_memResponse a r t i s = Inr s' \<Longrightarrow> resp_ok s \<Longrightarrow> resp_ok s'"
  by (auto simp: sa_memResponse_def Let_def resp_ok_def split: if_splits)

lemma resp_ok_complete_all: "complete_all cs s = Inr s' \<Longrightarrow> resp_ok s \<Longrightarrow> resp_ok s'"
  by (induction cs s rule: complete_all.induct)
    (auto simp: readComplete_def writeComplete_def split: if_splits dest: resp_ok_memResponse)

lemma enqueueMemReq_frame:
  "enqueueMemReq D t i c a r u = Inr (ok, u') \<Longrightarrow> gd_config (gd u') = gd_config (gd u) \<and> (resp_ok (sa u) \<longrightarrow> resp_ok (sa u'))"
  by (auto simp: enqueueMemReq_def Let_def gd_config_def split: if_splits dest: resp_ok_memResponse)

lemma resp_ok_popped [simp]:
  "resp_ok (updateActivityCountIn1Ms n s) = resp_ok s" "resp_ok (s\<lparr>coreMemReq := q\<rparr>) = resp_ok s"
  "resp_ok (s\<lparr>ipMemReq := q\<rparr>) = resp_ok s" "ipReq (updateActivityCountIn1Ms n s) = ipReq s"
  by (simp_all add: resp_ok_def updateActivityCountIn1Ms_def)

lemma uncore_ok_sendMemoryRequests:
  assumes "uncore_ok pend I J u" "dram_conserves D pend" "sendMemoryRequests D u = Inr u'"
  shows "uncore_ok pend I J u' \<and> in_flight pend u' = in_flight pend u \<and> gd_config (gd u') = gd_config (gd u)"
proof -
  have sa: "sa_inv (sa u)" using assms(1) by (simp add: uncore_ok_def)
  have f: "gd_config (gd u') = gd_config (gd u) \<and> ipReq (sa u') = ipReq (sa u) \<and> (resp_ok (sa u) \<longrightarrow> resp_ok (sa u'))"
    using assms(3)
  proof (cases rule: sendMemoryRequests_InrE)
    case (core q qs b u1)
    from enqueueMemReq_frame [OF core(2)] enqueueMemReq_queues [OF core(2)] show ?thesis
      unfolding core(3) by (cases b) simp_all
  next
    case (ip q qs b u1)
    from enqueueMemReq_frame [OF ip(3)] enqueueMemReq_queues [OF ip(3)] show ?thesis
      unfolding ip(4) by (cases b) simp_all
  qed simp
  with in_flight_sendMemoryRequests [OF assms(2) sa assms(3)] sa_inv_sendMemoryRequests [OF assms(3) sa] assms(1)
  show ?thesis by (simp add: uncore_ok_def calls_ok_def gd_config_def)
qed

lemma uncore_ok_mem_tick:
  assumes "uncore_ok pend I J u" "dram_conserves D pend" "mem_tick D u = Inr u'"
  shows "uncore_ok pend I J u' \<and> in_flight pend u' = in_flight pend u \<and> gd u' = gd u"
proof -
  have sa: "sa_inv (sa u)" using assms(1) by (simp add: uncore_ok_def)
  have f: "gd u' = gd u \<and> ipReq (sa u') = ipReq (sa u) \<and> (resp_ok (sa u) \<longrightarrow> resp_ok (sa u'))"
    using assms(3)
    by (cases rule: mem_tick_InrE) (auto dest: resp_ok_complete_all complete_all_responses)
  with in_flight_mem_tick [OF assms(2,3)] sa_inv_mem_tick [OF assms(3) sa] assms(1)
  show ?thesis by (simp add: uncore_ok_def calls_ok_def)
qed


lemma plat_gd: "plat_inv pend I J w \<Longrightarrow> gd_config g = gd_config (gd (un w)) \<Longrightarrow> plat_inv pend I J (w\<lparr>un := (un w)\<lparr>gd := g\<rparr>\<rparr>)"
  by (rule plat_uncore) (simp_all add: plat_inv_def uncore_ok_def in_flight_def gd_config_def)

lemma plat_sa:
  "plat_inv pend I J w \<Longrightarrow> sa_inv s \<Longrightarrow> calls_ok s \<Longrightarrow> resp_ok s \<Longrightarrow> sa_requests s = sa_requests (sa (un w)) \<Longrightarrow>
   sa_responses s = sa_responses (sa (un w)) \<Longrightarrow> plat_inv pend I J (w\<lparr>un := (un w)\<lparr>sa := s\<rparr>\<rparr>)"
  by (rule plat_uncore) (simp_all add: plat_inv_def uncore_ok_def in_flight_def)

subsection \<open>Handing a request over\<close>

text \<open>Replacing one component by another in the same state of its contract.\<close>

lemma plat_set_ip:
  assumes "plat_inv pend I J w"
  shows "(i \<in> J \<longrightarrow> ip_at IP_TYPE_DC i p) \<Longrightarrow> ps = gemdroid_ip_dc w \<Longrightarrow> plat_inv pend I J (w\<lparr>gemdroid_ip_dc := ps(i := p)\<rparr>)"
    "ip_at IP_TYPE_NW i p \<Longrightarrow> ps = gemdroid_ip_nw w \<Longrightarrow> plat_inv pend I J (w\<lparr>gemdroid_ip_nw := ps(i := p)\<rparr>)"
    "ip_at IP_TYPE_SND i p \<Longrightarrow> ps = gemdroid_ip_snd w \<Longrightarrow> plat_inv pend I J (w\<lparr>gemdroid_ip_snd := ps(i := p)\<rparr>)"
    "ip_at IP_TYPE_MIC i p \<Longrightarrow> ps = gemdroid_ip_mic w \<Longrightarrow> plat_inv pend I J (w\<lparr>gemdroid_ip_mic := ps(i := p)\<rparr>)"
    "ip_at IP_TYPE_CAM i p \<Longrightarrow> ps = gemdroid_ip_cam w \<Longrightarrow> plat_inv pend I J (w\<lparr>gemdroid_ip_cam := ps(i := p)\<rparr>)"
    "ip_at IP_TYPE_MMC_IN i p \<Longrightarrow> ps = gemdroid_ip_mmc_in w \<Longrightarrow> plat_inv pend I J (w\<lparr>gemdroid_ip_mmc_in := ps(i := p)\<rparr>)"
    "ip_at IP_TYPE_MMC_OUT i p \<Longrightarrow> ps = gemdroid_ip_mmc_out w \<Longrightarrow> plat_inv pend I J (w\<lparr>gemdroid_ip_mmc_out := ps(i := p)\<rparr>)"
  using assms unfolding plat_inv_def cores_ok_def insts_ok_def by simp_all

lemma reads_gd [simp]: "reads_in_flight pend (u\<lparr>gd := g\<rparr>) = reads_in_flight pend u"
  by (simp add: reads_in_flight_def [abs_def] in_flight_def)

lemma plat_set_coder:
  assumes "plat_inv pend I J w"
  shows "coder_at dec_todo dec_ok (reads_in_flight pend (un w)) IP_TYPE_VD i p \<Longrightarrow>
      ds = gemdroid_ip_vd w \<Longrightarrow> plat_inv pend I J (w\<lparr>gemdroid_ip_vd := ds(i := p)\<rparr>)"
    "coder_at dec_todo dec_ok (reads_in_flight pend (un w)) IP_TYPE_AD i p \<Longrightarrow>
      ds = gemdroid_ip_ad w \<Longrightarrow> plat_inv pend I J (w\<lparr>gemdroid_ip_ad := ds(i := p)\<rparr>)"
    "coder_at coder_todo enc_ok (reads_in_flight pend (un w)) IP_TYPE_VE i q \<Longrightarrow>
      cs = gemdroid_ip_ve w \<Longrightarrow> plat_inv pend I J (w\<lparr>gemdroid_ip_ve := cs(i := q)\<rparr>)"
    "coder_at coder_todo enc_ok (reads_in_flight pend (un w)) IP_TYPE_AE i q \<Longrightarrow>
      cs = gemdroid_ip_ae w \<Longrightarrow> plat_inv pend I J (w\<lparr>gemdroid_ip_ae := cs(i := q)\<rparr>)"
    "coder_at coder_todo noc_ok (reads_in_flight pend (un w)) IP_TYPE_IMG i q \<Longrightarrow>
      cs = gemdroid_ip_img w \<Longrightarrow> plat_inv pend I J (w\<lparr>gemdroid_ip_img := cs(i := q)\<rparr>)"
  using assms unfolding plat_inv_def cores_ok_def insts_ok_def by simp_all

lemma plat_set_gpu:
  "plat_inv pend I J w \<Longrightarrow> gpu_inv p \<Longrightarrow> ip_id p = i \<Longrightarrow> ps = gemdroid_ip_gpu w \<Longrightarrow> plat_inv pend I J (w\<lparr>gemdroid_ip_gpu := ps(i := p)\<rparr>)"
  unfolding plat_inv_def cores_ok_def insts_ok_def by simp

lemma plat_instD: "plat_inv pend I J w \<Longrightarrow> i \<in> I \<Longrightarrow> insts_ok (reads_in_flight pend (un w)) i w"
  by (simp add: plat_inv_def)

text \<open>The instance a request goes to.\<close>

definition slot :: "IP_TYPE \<Rightarrow> IP_TYPE \<Rightarrow> int" where
  "slot sender t = (if t = IP_TYPE_DC \<and> sender = IP_TYPE_GPU then 1 else 0)"

definition handed ::
  "('d \<Rightarrow> completion multiset) \<Rightarrow> int set \<Rightarrow> int set \<Rightarrow> IP_TYPE \<Rightarrow> IP_TYPE \<Rightarrow> 'd world \<Rightarrow> (bool \<times> 'd world) result \<Rightarrow> bool" where
  "handed pend I J sender t w r \<longleftrightarrow> (\<exists>ok w' p p'. r = Inr (ok, w') \<and> plat_inv pend I J w' \<and> sa (un w') = sa (un w) \<and>
     getIPInstance t (slot sender t) w = Inr p \<and> ok = (\<not> is_busy p) \<and>
     getIPInstance t (slot sender t) w' = Inr p' \<and> is_busy p' \<and>
     (\<forall>t' i. t' \<noteq> t \<longrightarrow> getIPInstance t' i w' = getIPInstance t' i w))"

lemma getIPInstance_un [simp]: "getIPInstance t i (w\<lparr>un := u\<rparr>) = getIPInstance t i w"
  by (cases t) (simp_all add: getIPInstance_def)

lemmas getIPInstance_at =
  getIPInstance_def [where type = IP_TYPE_DC, unfolded IP_TYPE.case]
  getIPInstance_def [where type = IP_TYPE_NW, unfolded IP_TYPE.case]
  getIPInstance_def [where type = IP_TYPE_SND, unfolded IP_TYPE.case]
  getIPInstance_def [where type = IP_TYPE_MIC, unfolded IP_TYPE.case]
  getIPInstance_def [where type = IP_TYPE_CAM, unfolded IP_TYPE.case]
  getIPInstance_def [where type = IP_TYPE_MMC_IN, unfolded IP_TYPE.case]
  getIPInstance_def [where type = IP_TYPE_MMC_OUT, unfolded IP_TYPE.case]
  getIPInstance_def [where type = IP_TYPE_VD, unfolded IP_TYPE.case]
  getIPInstance_def [where type = IP_TYPE_VE, unfolded IP_TYPE.case]
  getIPInstance_def [where type = IP_TYPE_AD, unfolded IP_TYPE.case]
  getIPInstance_def [where type = IP_TYPE_AE, unfolded IP_TYPE.case]
  getIPInstance_def [where type = IP_TYPE_IMG, unfolded IP_TYPE.case]

lemma getIPInstance_other [simp]:
  "t \<noteq> IP_TYPE_DC \<Longrightarrow> getIPInstance t i (w\<lparr>gemdroid_ip_dc := ps0\<rparr>) = getIPInstance t i w"
  "t \<noteq> IP_TYPE_NW \<Longrightarrow> getIPInstance t i (w\<lparr>gemdroid_ip_nw := ps1\<rparr>) = getIPInstance t i w"
  "t \<noteq> IP_TYPE_SND \<Longrightarrow> getIPInstance t i (w\<lparr>gemdroid_ip_snd := ps2\<rparr>) = getIPInstance t i w"
  "t \<noteq> IP_TYPE_MIC \<Longrightarrow> getIPInstance t i (w\<lparr>gemdroid_ip_mic := ps3\<rparr>) = getIPInstance t i w"
  "t \<noteq> IP_TYPE_CAM \<Longrightarrow> getIPInstance t i (w\<lparr>gemdroid_ip_cam := ps4\<rparr>) = getIPInstance t i w"
  "t \<noteq> IP_TYPE_MMC_IN \<Longrightarrow> getIPInstance t i (w\<lparr>gemdroid_ip_mmc_in := ps5\<rparr>) = getIPInstance t i w"
  "t \<noteq> IP_TYPE_MMC_OUT \<Longrightarrow> getIPInstance t i (w\<lparr>gemdroid_ip_mmc_out := ps6\<rparr>) = getIPInstance t i w"
  "t \<noteq> IP_TYPE_VD \<Longrightarrow> getIPInstance t i (w\<lparr>gemdroid_ip_vd := ps7\<rparr>) = getIPInstance t i w"
  "t \<noteq> IP_TYPE_VE \<Longrightarrow> getIPInstance t i (w\<lparr>gemdroid_ip_ve := ps8\<rparr>) = getIPInstance t i w"
  "t \<noteq> IP_TYPE_AD \<Longrightarrow> getIPInstance t i (w\<lparr>gemdroid_ip_ad := ps9\<rparr>) = getIPInstance t i w"
  "t \<noteq> IP_TYPE_AE \<Longrightarrow> getIPInstance t i (w\<lparr>gemdroid_ip_ae := ps10\<rparr>) = getIPInstance t i w"
  "t \<noteq> IP_TYPE_IMG \<Longrightarrow> getIPInstance t i (w\<lparr>gemdroid_ip_img := ps11\<rparr>) = getIPInstance t i w"
  "t \<noteq> IP_TYPE_GPU \<Longrightarrow> getIPInstance t i (w\<lparr>gemdroid_ip_gpu := ps12\<rparr>) = getIPInstance t i w"
  by (cases t; simp add: getIPInstance_def)+

lemma handed_to:
  assumes "\<exists>p' g'. enq (ps i) (gd (un w)) = Inr (\<not> busy, p', g') \<and> Q p' \<and> gd_config g' = gd_config (gd (un w))"
    and "\<And>p g. Q p \<Longrightarrow> plat_inv pend I J (w\<lparr>un := (un w)\<lparr>gd := g\<rparr>\<rparr>) \<Longrightarrow>
      plat_inv pend I J (put (ps(i := p)) (w\<lparr>un := (un w)\<lparr>gd := g\<rparr>\<rparr>)) \<and>
      sa (un (put (ps(i := p)) (w\<lparr>un := (un w)\<lparr>gd := g\<rparr>\<rparr>))) = sa (un w) \<and>
      (\<exists>b. getIPInstance t (slot sender t) (put (ps(i := p)) (w\<lparr>un := (un w)\<lparr>gd := g\<rparr>\<rparr>)) = Inr b \<and> is_busy b) \<and>
      (\<forall>t' i'. t' \<noteq> t \<longrightarrow> getIPInstance t' i' (put (ps(i := p)) (w\<lparr>un := (un w)\<lparr>gd := g\<rparr>\<rparr>)) = getIPInstance t' i' w)"
    and "\<exists>b. getIPInstance t (slot sender t) w = Inr b \<and> is_busy b = busy" "plat_inv pend I J w"
  shows "handed pend I J sender t w (hand_to i enq ps put w)"
proof -
  from assms(1) obtain p' g' where p: "enq (ps i) (gd (un w)) = Inr (\<not> busy, p', g')" "Q p'"
    "gd_config g' = gd_config (gd (un w))" by blast
  from assms(2) [OF p(2) plat_gd [OF assms(4) p(3)]] p(1) assms(3) show ?thesis
    by (auto simp: handed_def hand_to_def)
qed

lemma ip_at_enq:
  assumes "Q \<longrightarrow> ip_at t i p"
  shows "\<exists>p' g'. Inr (ip_enqueueIPReq c a z r n ft k p g) = Inr (\<not> is_busy p, p', g') \<and> ((Q \<longrightarrow> ip_at t i p') \<and> is_busy p') \<and>
    gd_config g' = gd_config g"
proof -
  obtain b p' g' where e: "ip_enqueueIPReq c a z r n ft k p g = (b, p', g')" by (cases "ip_enqueueIPReq c a z r n ft k p g")
  have "Q \<longrightarrow> ip_inv p'"
    using assms ip_inv_ip_enqueueIPReq [of p c a z r n ft k g] e by (simp add: ip_at_def)
  with e assms ip_enqueueIPReq_frame [OF e] show ?thesis by (simp add: ip_at_def)
qed

lemma coder_at_enqs:
  assumes "r" "call_fits t (ip_request st sid c t a z r n ft k)"
  shows "t \<in> {IP_TYPE_VD, IP_TYPE_AD} \<Longrightarrow> coder_at dec_todo dec_ok rd t i p \<Longrightarrow>
      \<exists>p' g'. dec_enqueueIPReq c a z r n ft k p g = Inr (\<not> is_busy p, p', g') \<and> coder_at dec_todo dec_ok rd t i p' \<and> is_busy p' \<and>
        gd_config g' = gd_config g"
    "t \<in> {IP_TYPE_VE, IP_TYPE_AE} \<Longrightarrow> coder_at coder_todo enc_ok rd t i q \<Longrightarrow>
      \<exists>p' g'. enc_enqueueIPReq c a z r n ft k q g = Inr (\<not> is_busy q, p', g') \<and> coder_at coder_todo enc_ok rd t i p' \<and> is_busy p' \<and>
        gd_config g' = gd_config g"
    "t = IP_TYPE_IMG \<Longrightarrow> coder_at coder_todo noc_ok rd t i q \<Longrightarrow>
      \<exists>p' g'. noc_enqueueIPReq c a z r n ft k q g = Inr (\<not> is_busy q, p', g') \<and> coder_at coder_todo noc_ok rd t i p' \<and> is_busy p' \<and>
        gd_config g' = gd_config g"
  using assms dec_pl.at_enq [of rd t i p z r c a n ft k g] enc_pl.at_enq [of rd t i q z r c a n ft k g]
    noc_pl.at_enq [of rd t i q z r c a n ft k g]
  by (auto simp: call_fits_def dec_sizes_def line_sizes_def coder_at_def ip_at_def split: if_splits)

lemma plat_enqueueIPReq:
  assumes inv: "plat_inv pend I J w" and fits: "call_fits t (ip_request st sid c t a z r n ft k)"
  shows "handed pend I J st t w (enqueueIPReq st c t a z r n ft k w)"
proof -
  have I: "insts_ok (reads_in_flight pend (un w)) 0 w" using inv by (simp add: plat_inv_def)
  note get = getIPInstance_at inst_def slot_def GemDroidIP.defs
  let ?rd = "reads_in_flight pend (un w)"
  have r: "r" if "t \<in> {IP_TYPE_VD, IP_TYPE_VE, IP_TYPE_AD, IP_TYPE_AE, IP_TYPE_IMG}"
    using fits that by (auto simp: call_fits_def ip_request_def)
  show ?thesis
  proof (cases t)
    case IP_TYPE_DC
    define s :: int where "s = (if st = IP_TYPE_GPU then 1 else 0)"
    let ?Q = "\<lambda>p. (s \<in> J \<longrightarrow> ip_at IP_TYPE_DC s p) \<and> is_busy p" and ?b = "is_busy (gemdroid_ip_dc w s)"
    have q: "s \<in> J \<longrightarrow> ip_at IP_TYPE_DC s (gemdroid_ip_dc w s)" and s: "slot st IP_TYPE_DC = s" "0 \<le> s" "s < 4"
      using inv by (simp_all add: plat_inv_def s_def slot_def)
    show ?thesis unfolding enqueueIPReq_def Let_def IP_TYPE_DC IP_TYPE.case s_def [symmetric]
      by (rule handed_to [where Q = ?Q and busy = ?b, OF _ _ _ inv])
        (use ip_at_enq [OF q] s in \<open>simp_all add: getIPInstance_at inst_def plat_set_ip(1)\<close>)
  next
    case IP_TYPE_NW
    let ?Q = "\<lambda>p. ip_at IP_TYPE_NW 0 p \<and> is_busy p" and ?b = "is_busy (gemdroid_ip_nw w 0)"
    have q: "True \<longrightarrow> ip_at IP_TYPE_NW 0 (gemdroid_ip_nw w 0)" using I by (simp add: insts_ok_def)
    show ?thesis unfolding enqueueIPReq_def Let_def IP_TYPE_NW IP_TYPE.case
      by (rule handed_to [where Q = ?Q and busy = ?b, OF _ _ _ inv])
        (use ip_at_enq [OF q] in \<open>simp_all add: get plat_set_ip(2)\<close>)
  next
    case IP_TYPE_SND
    let ?Q = "\<lambda>p. ip_at IP_TYPE_SND 0 p \<and> is_busy p" and ?b = "is_busy (gemdroid_ip_snd w 0)"
    have q: "True \<longrightarrow> ip_at IP_TYPE_SND 0 (gemdroid_ip_snd w 0)" using I by (simp add: insts_ok_def)
    show ?thesis unfolding enqueueIPReq_def Let_def IP_TYPE_SND IP_TYPE.case
      by (rule handed_to [where Q = ?Q and busy = ?b, OF _ _ _ inv])
        (use ip_at_enq [OF q] in \<open>simp_all add: get plat_set_ip(3)\<close>)
  next
    case IP_TYPE_MIC
    let ?Q = "\<lambda>p. ip_at IP_TYPE_MIC 0 p \<and> is_busy p" and ?b = "is_busy (gemdroid_ip_mic w 0)"
    have q: "True \<longrightarrow> ip_at IP_TYPE_MIC 0 (gemdroid_ip_mic w 0)" using I by (simp add: insts_ok_def)
    show ?thesis unfolding enqueueIPReq_def Let_def IP_TYPE_MIC IP_TYPE.case
      by (rule handed_to [where Q = ?Q and busy = ?b, OF _ _ _ inv])
        (use ip_at_enq [OF q] in \<open>simp_all add: get plat_set_ip(4)\<close>)
  next
    case IP_TYPE_CAM
    let ?Q = "\<lambda>p. ip_at IP_TYPE_CAM 0 p \<and> is_busy p" and ?b = "is_busy (gemdroid_ip_cam w 0)"
    have q: "True \<longrightarrow> ip_at IP_TYPE_CAM 0 (gemdroid_ip_cam w 0)" using I by (simp add: insts_ok_def)
    show ?thesis unfolding enqueueIPReq_def Let_def IP_TYPE_CAM IP_TYPE.case
      by (rule handed_to [where Q = ?Q and busy = ?b, OF _ _ _ inv])
        (use ip_at_enq [OF q] in \<open>simp_all add: get plat_set_ip(5)\<close>)
  next
    case IP_TYPE_MMC_IN
    let ?Q = "\<lambda>p. ip_at IP_TYPE_MMC_IN 0 p \<and> is_busy p" and ?b = "is_busy (gemdroid_ip_mmc_in w 0)"
    have q: "True \<longrightarrow> ip_at IP_TYPE_MMC_IN 0 (gemdroid_ip_mmc_in w 0)" using I by (simp add: insts_ok_def)
    show ?thesis unfolding enqueueIPReq_def Let_def IP_TYPE_MMC_IN IP_TYPE.case
      by (rule handed_to [where Q = ?Q and busy = ?b, OF _ _ _ inv])
        (use ip_at_enq [OF q] in \<open>simp_all add: get plat_set_ip(6)\<close>)
  next
    case IP_TYPE_MMC_OUT
    let ?Q = "\<lambda>p. ip_at IP_TYPE_MMC_OUT 0 p \<and> is_busy p" and ?b = "is_busy (gemdroid_ip_mmc_out w 0)"
    have q: "True \<longrightarrow> ip_at IP_TYPE_MMC_OUT 0 (gemdroid_ip_mmc_out w 0)" using I by (simp add: insts_ok_def)
    show ?thesis unfolding enqueueIPReq_def Let_def IP_TYPE_MMC_OUT IP_TYPE.case
      by (rule handed_to [where Q = ?Q and busy = ?b, OF _ _ _ inv])
        (use ip_at_enq [OF q] in \<open>simp_all add: get plat_set_ip(7)\<close>)
  next
    case IP_TYPE_VD
    have q: "coder_at dec_todo dec_ok ?rd IP_TYPE_VD 0 (gemdroid_ip_vd w 0)" using I by (simp add: insts_ok_def)
    show ?thesis unfolding enqueueIPReq_def Let_def IP_TYPE_VD IP_TYPE.case
      by (rule handed_to [where Q = "\<lambda>p. coder_at dec_todo dec_ok ?rd IP_TYPE_VD 0 p \<and> is_busy p" and busy = "is_busy (gemdroid_ip_vd w 0)", OF _ _ _ inv])
        (use coder_at_enqs(1) [OF r fits [unfolded IP_TYPE_VD] _ q] IP_TYPE_VD in \<open>simp_all add: get plat_set_coder(1)\<close>)
  next
    case IP_TYPE_VE
    have q: "coder_at coder_todo enc_ok ?rd IP_TYPE_VE 0 (gemdroid_ip_ve w 0)" using I by (simp add: insts_ok_def)
    show ?thesis unfolding enqueueIPReq_def Let_def IP_TYPE_VE IP_TYPE.case
      by (rule handed_to [where Q = "\<lambda>p. coder_at coder_todo enc_ok ?rd IP_TYPE_VE 0 p \<and> is_busy p" and busy = "is_busy (gemdroid_ip_ve w 0)", OF _ _ _ inv])
        (use coder_at_enqs(2) [OF r fits [unfolded IP_TYPE_VE] _ q] IP_TYPE_VE in \<open>simp_all add: get plat_set_coder(3)\<close>)
  next
    case IP_TYPE_AD
    have q: "coder_at dec_todo dec_ok ?rd IP_TYPE_AD 0 (gemdroid_ip_ad w 0)" using I by (simp add: insts_ok_def)
    show ?thesis unfolding enqueueIPReq_def Let_def IP_TYPE_AD IP_TYPE.case
      by (rule handed_to [where Q = "\<lambda>p. coder_at dec_todo dec_ok ?rd IP_TYPE_AD 0 p \<and> is_busy p" and busy = "is_busy (gemdroid_ip_ad w 0)", OF _ _ _ inv])
        (use coder_at_enqs(1) [OF r fits [unfolded IP_TYPE_AD] _ q] IP_TYPE_AD in \<open>simp_all add: get plat_set_coder(2)\<close>)
  next
    case IP_TYPE_AE
    have q: "coder_at coder_todo enc_ok ?rd IP_TYPE_AE 0 (gemdroid_ip_ae w 0)" using I by (simp add: insts_ok_def)
    show ?thesis unfolding enqueueIPReq_def Let_def IP_TYPE_AE IP_TYPE.case
      by (rule handed_to [where Q = "\<lambda>p. coder_at coder_todo enc_ok ?rd IP_TYPE_AE 0 p \<and> is_busy p" and busy = "is_busy (gemdroid_ip_ae w 0)", OF _ _ _ inv])
        (use coder_at_enqs(2) [OF r fits [unfolded IP_TYPE_AE] _ q] IP_TYPE_AE in \<open>simp_all add: get plat_set_coder(4)\<close>)
  next
    case IP_TYPE_IMG
    have q: "coder_at coder_todo noc_ok ?rd IP_TYPE_IMG 0 (gemdroid_ip_img w 0)" using I by (simp add: insts_ok_def)
    show ?thesis unfolding enqueueIPReq_def Let_def IP_TYPE_IMG IP_TYPE.case
      by (rule handed_to [where Q = "\<lambda>p. coder_at coder_todo noc_ok ?rd IP_TYPE_IMG 0 p \<and> is_busy p" and busy = "is_busy (gemdroid_ip_img w 0)", OF _ _ _ inv])
        (use coder_at_enqs(3) [OF r fits [unfolded IP_TYPE_IMG] _ q] IP_TYPE_IMG in \<open>simp_all add: get plat_set_coder(5)\<close>)
  qed (use fits in \<open>simp_all add: call_fits_def IP_TYPE_order\<close>)
qed


text \<open>
  What \<open>sendIPRequests\<close> is to do: the lowest type whose first request finds its receiver idle is
  served, and that request alone.
\<close>

definition ready :: "'d world \<Rightarrow> IP_TYPE \<Rightarrow> bool" where
  "ready w t \<longleftrightarrow> (case ipReq (sa (un w)) t of [] \<Rightarrow> False | q # qs \<Rightarrow>
     (case getIPInstance t (slot (rq_sendertype q) t) w of Inl e \<Rightarrow> False | Inr p \<Rightarrow> \<not> is_busy p))"

definition dispatched :: "'d world \<Rightarrow> IP_TYPE option \<Rightarrow> 'd world \<Rightarrow> bool" where
  "dispatched w ot w' \<longleftrightarrow> (case ot of None \<Rightarrow> sa (un w') = sa (un w) | Some t \<Rightarrow>
     ipReq (sa (un w')) = (ipReq (sa (un w)))(t := tl (ipReq (sa (un w)) t)) \<and>
     (\<exists>p. getIPInstance t (slot (rq_sendertype (hd (ipReq (sa (un w)) t))) t) w' = Inr p \<and> is_busy p))"

lemma in_set_tlD: "x \<in> set (tl xs) \<Longrightarrow> x \<in> set xs"
  by (cases xs) simp_all

lemma plat_pop_ipReq:
  assumes "plat_inv pend I J w"
  shows "plat_inv pend I J (w\<lparr>un := (un w)\<lparr>sa := updateActivityCountIn1Ms n
    ((sa (un w))\<lparr>ipReq := (ipReq (sa (un w)))(t := tl (ipReq (sa (un w)) t))\<rparr>)\<rparr>\<rparr>)"
proof (rule plat_sa [OF assms])
  let ?s = "updateActivityCountIn1Ms n ((sa (un w))\<lparr>ipReq := (ipReq (sa (un w)))(t := tl (ipReq (sa (un w)) t))\<rparr>)"
  have s: "sa_inv (sa (un w))" "calls_ok (sa (un w))" "resp_ok (sa (un w))" using assms by (simp_all add: plat_inv_def uncore_ok_def)
  then show "sa_inv ?s" using le_trans [OF diff_le_self, of "length (ipReq (sa (un w)) t)" 10]
    by (auto simp: sa_inv_def updateActivityCountIn1Ms_def dest: in_set_tlD)
  show "calls_ok ?s" using s(2) by (auto simp: calls_ok_def updateActivityCountIn1Ms_def dest: in_set_tlD)
  show "resp_ok ?s" using s(3) by (simp add: resp_ok_def updateActivityCountIn1Ms_def)
qed (simp_all add: sa_requests_def sa_responses_def updateActivityCountIn1Ms_def)

lemma plat_sendIPRequests_from:
  "plat_inv pend I J w \<Longrightarrow> distinct ts \<Longrightarrow>
   \<exists>w'. sendIPRequests_from ts w = Inr w' \<and> plat_inv pend I J w' \<and> dispatched w (find (ready w) ts) w'"
proof (induction ts arbitrary: w)
  case Nil
  then show ?case by (simp add: dispatched_def)
next
  case (Cons t ts)
  show ?case
  proof (cases "ipReq (sa (un w)) t")
    case Nil
    with Cons.IH [OF Cons.prems(1)] Cons.prems(2) show ?thesis by (simp add: ready_def)
  next
    case (Cons q qs)
    then have "call_fits t q" using \<open>plat_inv pend I J w\<close> by (simp add: plat_inv_def uncore_ok_def calls_ok_def)
    then have t: "rq_iptype q = t" and "call_fits t (ip_request (rq_sendertype q) 0 (rq_core_id q) t (rq_addr q) (rq_size q)
        (rq_isRead q) (rq_frameNum q) (rq_flowType q) (rq_flowId q))"
      by (simp_all add: call_fits_def ip_request_def)
    from plat_enqueueIPReq [OF \<open>plat_inv pend I J w\<close> this(2)] obtain ok w1 p p' where
      e: "enqueueIPReq (rq_sendertype q) (rq_core_id q) t (rq_addr q) (rq_size q) (rq_isRead q) (rq_frameNum q)
        (rq_flowType q) (rq_flowId q) w = Inr (ok, w1)" "plat_inv pend I J w1" "sa (un w1) = sa (un w)"
        "getIPInstance t (slot (rq_sendertype q) t) w = Inr p" "ok = (\<not> is_busy p)"
        "getIPInstance t (slot (rq_sendertype q) t) w1 = Inr p'" "is_busy p'"
        "\<And>t' i. t' \<noteq> t \<Longrightarrow> getIPInstance t' i w1 = getIPInstance t' i w"
      unfolding handed_def by blast
    show ?thesis
    proof (cases ok)
      case True
      with e Cons t plat_pop_ipReq [OF e(2), of 1 t] show ?thesis
        by (simp add: ready_def dispatched_def updateActivityCountIn1Ms_def)
    next
      case False
      have "ready w1 t' = ready w t'" if "t' \<in> set ts" for t'
      proof -
        have "t' \<noteq> t" using that \<open>distinct (t # ts)\<close> by auto
        then show ?thesis by (cases "ipReq (sa (un w)) t'") (simp_all add: ready_def e(3,8))
      qed
      then have "find (ready w1) ts = find (ready w) ts" by (intro find_cong) auto
      moreover have "dispatched w1 ot w' = dispatched w ot w'" for ot w' by (cases ot) (simp_all add: dispatched_def e(3))
      moreover have "\<not> ready w t" using False e(4,5) Cons by (simp add: ready_def)
      ultimately show ?thesis
        using Cons.IH [OF e(2)] False e(1) t Cons \<open>distinct (t # ts)\<close> by simp
    qed
  qed
qed


lemma plat_sendIPRequests:
  "plat_inv pend I J w \<Longrightarrow> \<exists>w'. sendIPRequests w = Inr w' \<and> plat_inv pend I J w' \<and>
     dispatched w (find (ready w) (tl (butlast IP_TYPES))) w'"
  unfolding sendIPRequests_def by (rule plat_sendIPRequests_from) (simp_all add: IP_TYPES_def)

subsection \<open>Answering\<close>

lemma reads_pop:
  assumes "popMemResponse pm (sa u) = (Some m, s)"
  shows "reads_in_flight pend (u\<lparr>sa := s\<rparr>) t i = reads_in_flight pend u t i - of_bool (mm_isRead m \<and> mm_ip_type m = t \<and> mm_id m = i)"
    "in_flight pend u = add_mset (msg_key m) (in_flight pend (u\<lparr>sa := s\<rparr>))"
proof -
  show *: "in_flight pend u = add_mset (msg_key m) (in_flight pend (u\<lparr>sa := s\<rparr>))"
    using in_flight_popMemResponse [OF assms] by (simp add: in_flight_def sa_requests_def)
  show "reads_in_flight pend (u\<lparr>sa := s\<rparr>) t i = reads_in_flight pend u t i - of_bool (mm_isRead m \<and> mm_ip_type m = t \<and> mm_id m = i)"
    unfolding reads_in_flight_def * by (simp add: msg_key_def)
qed

lemma popMemResponse_sub:
  "popMemResponse pm s = (Some m, s') \<Longrightarrow>
   set (memCoreResp s') \<subseteq> set (memCoreResp s) \<and> set (memIpResp s') \<subseteq> set (memIpResp s)"
  by (cases "memCoreResp s"; cases "memIpResp s")
    (auto simp: popMemResponse_def Let_def updateActivityCountIn1Ms_def split: if_splits)

lemma uncore_ok_pop:
  assumes "uncore_ok pend I J u" "popMemResponse pm (sa u) = (Some m, s)"
  shows "uncore_ok pend I J (u\<lparr>sa := s\<rparr>)" "sender_ok I J (num_cpus (gd u)) (msg_key m)"
    "memCoreResp (sa u) \<noteq> [] \<longleftrightarrow> mm_ip_type m = IP_TYPE_CPU"
proof -
  note p = in_flight_popMemResponse [OF assms(2)] reads_pop(2) [OF assms(2), of pend]
  show "sender_ok I J (num_cpus (gd u)) (msg_key m)" using assms(1) p(2) by (simp add: uncore_ok_def)
  show "memCoreResp (sa u) \<noteq> [] \<longleftrightarrow> mm_ip_type m = IP_TYPE_CPU"
    using assms by (auto simp: uncore_ok_def resp_ok_def popMemResponse_def Let_def split: if_splits)
  have "sa_inv s" "calls_ok s"
    using assms(1) p sa_inv_fields [of "sa u" s] by (simp_all add: uncore_ok_def calls_ok_def)
  moreover have "resp_ok s"
    using assms(1) popMemResponse_sub [OF assms(2)] by (auto simp: uncore_ok_def resp_ok_def)
  ultimately show "uncore_ok pend I J (u\<lparr>sa := s\<rparr>)" using assms(1) p(2) by (simp add: uncore_ok_def)
qed


lemma ip_at_memResponse: "ip_at t i p \<Longrightarrow> ip_at t i (ip_memResponse a r p)"
  using ip_inv_work [of p "ip_memResponse a r p"] by (simp add: ip_at_def ip_memResponse_def ip_inv_idle)

lemma insts_ok_response:
  assumes "insts_ok rd i w" "0 \<le> i" "i < 4"
    and "\<And>t'. rd' t' i = rd t' i - of_bool (r \<and> t' = t)" "r \<longrightarrow> 0 < rd t i" "t \<noteq> IP_TYPE_CPU" "t \<noteq> IP_TYPE_DC"
  shows "\<exists>w'. memIPResponse t i a r w = Inr w' \<and> insts_ok rd' i w' \<and> gemdroid_ip_dc w' = gemdroid_ip_dc w"
proof -
  note at = dec_pl.at_respond [of rd t i _ r rd' a] enc_pl.at_respond [of rd t i _ r rd' a] noc_pl.at_respond [of rd t i _ r rd' a]
  have other: "coder_at todo ok rd' t' i p = coder_at todo ok rd t' i p" if "t' \<noteq> t"
    for todo and ok :: "'x coder_scheme \<Rightarrow> bool" and t' p
    using that assms(4) [of t'] by (simp add: coder_at_def)
  show ?thesis
    using assms(1-3,5-7) assms(4) [of t] at other [of _ dec_todo dec_ok] other [of _ coder_todo enc_ok] other [of _ coder_todo noc_ok]
    by (cases t) (simp_all add: memIPResponse_def inst_def insts_ok_def ip_at_memResponse
        dec_memResponse_def enc_memResponse_def noc_memResponse_def)
qed


lemma memIPResponse_frame:
  assumes "memIPResponse t i a r w = Inr w'"
  shows "un w' = un w" "gemdroid_core w' = gemdroid_core w" "t = IP_TYPE_DC \<or> i' \<noteq> i \<Longrightarrow> insts_same i' w w'"
    "t \<noteq> IP_TYPE_DC \<or> j \<noteq> i \<Longrightarrow> gemdroid_ip_dc w' j = gemdroid_ip_dc w j"
  using assms by (cases t; auto simp: memIPResponse_def inst_def insts_same_def split: if_splits)+

lemma plat_memIPResponse:
  assumes inv: "plat_inv pend I J w" and pop: "popMemResponse pm (sa (un w)) = (Some m, s)"
    and m: "mm_ip_type m \<noteq> IP_TYPE_CPU"
  shows "\<exists>w'. memIPResponse (mm_ip_type m) (mm_id m) (mm_addr m) (mm_isRead m) w = Inr w' \<and> un w' = un w \<and>
    plat_inv pend I J (w'\<lparr>un := (un w)\<lparr>sa := s\<rparr>\<rparr>)"
proof -
  let ?t = "mm_ip_type m" and ?i = "mm_id m" and ?u = "(un w)\<lparr>sa := s\<rparr>"
  let ?rd = "reads_in_flight pend (un w)" and ?rd' = "reads_in_flight pend ?u"
  note inv' = inv [unfolded plat_inv_def]
  have u: "uncore_ok pend I J (un w)" using inv' by blast
  have i: "if ?t = IP_TYPE_DC then ?i \<in> J else ?i \<in> I"
    using uncore_ok_pop(2) [OF u pop] m by (simp add: sender_ok_def msg_key_def)
  then have i4: "0 \<le> ?i" "?i < 4" using inv' by (auto split: if_splits)
  have rd: "?rd' t i = ?rd t i - of_bool (mm_isRead m \<and> ?t = t \<and> ?i = i)" for t i by (rule reads_pop(1) [OF pop])
  have pos: "mm_isRead m \<longrightarrow> 0 < ?rd ?t ?i"
    using reads_pop(2) [OF pop, of pend] by (auto simp: reads_in_flight_def msg_key_def)
  have "\<exists>w'. memIPResponse ?t ?i (mm_addr m) (mm_isRead m) w = Inr w' \<and> (?t = IP_TYPE_DC \<longrightarrow> ip_at IP_TYPE_DC ?i (gemdroid_ip_dc w' ?i)) \<and>
    (?t \<noteq> IP_TYPE_DC \<longrightarrow> insts_ok ?rd' ?i w')"
  proof (cases "?t = IP_TYPE_DC")
    case True
    with i i4 inv' show ?thesis by (simp add: memIPResponse_def inst_def ip_at_memResponse)
  next
    case False
    then have "insts_ok ?rd ?i w" using i inv' by simp
    moreover have "?rd' t' ?i = ?rd t' ?i - of_bool (mm_isRead m \<and> t' = ?t)" for t' unfolding rd by auto
    ultimately have "\<exists>w'. memIPResponse ?t ?i (mm_addr m) (mm_isRead m) w = Inr w' \<and> insts_ok ?rd' ?i w' \<and>
        gemdroid_ip_dc w' = gemdroid_ip_dc w" using i4 pos m False by (intro insts_ok_response [where rd = ?rd]) simp_all
    with False show ?thesis by blast
  qed
  then obtain w' where w': "memIPResponse ?t ?i (mm_addr m) (mm_isRead m) w = Inr w'"
    "?t = IP_TYPE_DC \<longrightarrow> ip_at IP_TYPE_DC ?i (gemdroid_ip_dc w' ?i)" "?t \<noteq> IP_TYPE_DC \<longrightarrow> insts_ok ?rd' ?i w'" by blast
  note f = memIPResponse_frame [OF w'(1)]
  have "insts_ok ?rd' i' w'" if "i' \<in> I" for i'
  proof (cases "?t \<noteq> IP_TYPE_DC \<and> i' = ?i")
    case False
    then have "insts_ok ?rd' i' w' = insts_ok ?rd' i' w" by (intro insts_same_ok f(3)) blast
    also have "\<dots> = insts_ok ?rd i' w" using rd False by (intro insts_ok_cong) auto
    finally show ?thesis using inv' that by blast
  qed (use w'(3) in blast)
  then have "insts_ok ?rd' i' (w'\<lparr>un := ?u\<rparr>)" if "i' \<in> I" for i' using that by (simp add: insts_ok_def)
  moreover have "ip_at IP_TYPE_DC j (gemdroid_ip_dc w' j)" if "j \<in> J" for j
    using f(4) [of j] w'(2) inv' that by (cases "?t = IP_TYPE_DC \<and> j = ?i") auto
  moreover have "cores_ok (w'\<lparr>un := ?u\<rparr>)" using inv' f(2) by (simp add: cores_ok_def)
  ultimately have "plat_inv pend I J (w'\<lparr>un := ?u\<rparr>)"
    using inv' uncore_ok_pop(1) [OF u pop] by (simp add: plat_inv_def)
  with w'(1) f(1) show ?thesis by blast
qed

lemma markTransactionCompleted_id: "c_id (snd (markTransactionCompleted a c)) = c_id c"
  by (simp add: markTransactionCompleted_def Let_def split: option.split)

lemma plat_memCoreResponse:
  assumes inv: "plat_inv pend I J w" and pop: "popMemResponse pm (sa (un w)) = (Some m, s)"
    and m: "mm_ip_type m = IP_TYPE_CPU"
  shows "\<exists>ok w'. memCoreResponse (mm_id m) (mm_addr m) w = Inr (ok, w') \<and> un w' = un w \<and>
    plat_inv pend I J (w'\<lparr>un := (un w)\<lparr>sa := s\<rparr>\<rparr>)"
proof -
  let ?i = "mm_id m" and ?u = "(un w)\<lparr>sa := s\<rparr>"
  let ?rd = "reads_in_flight pend (un w)" and ?rd' = "reads_in_flight pend ?u"
  let ?w = "w\<lparr>gemdroid_core := (gemdroid_core w)(nat ?i := snd (markTransactionCompleted (mm_addr m) (gemdroid_core w (nat ?i))))\<rparr>"
  note inv' = inv [unfolded plat_inv_def]
  have u: "uncore_ok pend I J (un w)" using inv' by blast
  then have i: "0 \<le> ?i" "?i < int (num_cpus (gd (un w)))" "num_cpus (gd (un w)) \<le> 4"
    using uncore_ok_pop(2) [OF u pop] m by (simp_all add: sender_ok_def msg_key_def uncore_ok_def)
  have "?rd' t i = ?rd t i" if "t \<noteq> IP_TYPE_CPU" for t i using reads_pop(1) [OF pop, of pend t i] m that by simp
  then have "insts_ok ?rd' i' w = insts_ok ?rd i' w" for i' by (intro insts_ok_cong) auto
  moreover have "insts_ok ?rd' i' (?w\<lparr>un := ?u\<rparr>) = insts_ok ?rd' i' w" for i' by (simp add: insts_ok_def)
  moreover have "cores_ok (?w\<lparr>un := ?u\<rparr>)"
    using inv' i by (auto simp: cores_ok_def core_inv_markTransactionCompleted markTransactionCompleted_id)
  ultimately have "plat_inv pend I J (?w\<lparr>un := ?u\<rparr>)"
    using inv' uncore_ok_pop(1) [OF u pop] by (simp add: plat_inv_def)
  moreover have "\<exists>ok. memCoreResponse ?i (mm_addr m) w = Inr (ok, ?w)"
    using i by (simp add: memCoreResponse_def split_beta Let_def)
  ultimately show ?thesis by fastforce
qed

lemma plat_sendMemoryResponses:
  assumes "plat_inv pend I J w"
  shows "\<exists>w'. sendMemoryResponses w = Inr w' \<and> plat_inv pend I J w'"
proof (cases "popMemResponse (gd_perfectMemory (gd (un w))) (sa (un w))")
  case pop: (Pair r s)
  show ?thesis
  proof (cases r)
    case None
    with pop assms show ?thesis by (simp add: sendMemoryResponses_def)
  next
    case (Some m)
    have c: "memCoreResp (sa (un w)) \<noteq> [] \<longleftrightarrow> mm_ip_type m = IP_TYPE_CPU"
      by (rule uncore_ok_pop(3) [of pend I J]) (use pop Some assms in \<open>simp_all add: plat_inv_def\<close>)
    with plat_memCoreResponse [OF assms pop [unfolded Some]] plat_memIPResponse [OF assms pop [unfolded Some]] pop Some
    show ?thesis by (cases "mm_ip_type m = IP_TYPE_CPU") (auto simp: sendMemoryResponses_def)
  qed
qed


subsection \<open>A tick of the agent\<close>

lemma plat_repeatE:
  assumes "\<And>w. P w \<Longrightarrow> \<exists>w'. f w = Inr w' \<and> P w'" "P w"
  shows "\<exists>w'. repeatE n f w = Inr w' \<and> P w'"
  using assms(2)
proof (induction n arbitrary: w)
  case (Suc n)
  from assms(1) [OF Suc.prems] obtain w' where "f w = Inr w'" "P w'" by blast
  with Suc.IH [OF \<open>P w'\<close>] show ?case by simp
qed simp

lemma uncore_ok_channels:
  "repeatE n (sendMemoryRequests D) u = Inr u' \<Longrightarrow> dram_conserves D pend \<Longrightarrow> uncore_ok pend I J u \<Longrightarrow>
   uncore_ok pend I J u' \<and> in_flight pend u' = in_flight pend u \<and> gd_config (gd u') = gd_config (gd u)"
proof (induction n arbitrary: u)
  case (Suc n)
  then obtain v where v: "sendMemoryRequests D u = Inr v" "repeatE n (sendMemoryRequests D) v = Inr u'" by auto
  from uncore_ok_sendMemoryRequests [OF Suc.prems(3,2) v(1)] Suc.IH [OF v(2) Suc.prems(2)] show ?case by simp
qed simp

lemma plat_sa_books:
  assumes "plat_inv pend I J w" and "coreMemReq s = coreMemReq (sa (un w))" "ipMemReq s = ipMemReq (sa (un w))"
    and "memCoreResp s = memCoreResp (sa (un w))" "memIpResp s = memIpResp (sa (un w))" "ipReq s = ipReq (sa (un w))"
  shows "plat_inv pend I J (w\<lparr>un := (un w)\<lparr>sa := s\<rparr>\<rparr>)"
  using plat_sa [OF assms(1), of s] assms
  by (simp add: plat_inv_def uncore_ok_def calls_ok_def resp_ok_def sa_inv_def sa_requests_def sa_responses_def)

lemma plat_sa_tick:
  assumes "plat_inv pend I J w" "dram_conserves D pend" "sa_tick D w = Inr w'"
  shows "plat_inv pend I J w'"
proof -
  let ?s = "sa (un w)"
  define s where "s = sendIPResponses (?s\<lparr>sa_ticks := sa_ticks ?s + 1,
    totalQueueSize := totalQueueSize ?s + int (length (coreMemReq ?s)) + int (length (ipMemReq ?s))\<rparr>)"
  have w1: "plat_inv pend I J (w\<lparr>un := (un w)\<lparr>sa := s\<rparr>\<rparr>)"
    by (rule plat_sa_books [OF assms(1)]) (simp_all add: s_def sendIPResponses_def updateActivityCountIn1Ms_def)
  from assms(3) obtain u w2 where u: "repeatE (getNumChannels D) (sendMemoryRequests D) ((un w)\<lparr>sa := s\<rparr>) = Inr u"
    and w2: "sendIPRequests (w\<lparr>un := u\<rparr>) = Inr w2"
    and rest: "(if sa_cyclesToSkip (sa (un w2)) > 0
      then Inr (w2\<lparr>un := (un w2)\<lparr>sa := (sa (un w2))\<lparr>sa_cyclesToSkip := sa_cyclesToSkip (sa (un w2)) - 1\<rparr>\<rparr>\<rparr>)
      else repeatE (getNumChannels D) sendMemoryResponses w2) = Inr w'"
    by (auto simp: sa_tick_def sa_process_def Let_def s_def)
  have "uncore_ok pend I J ((un w)\<lparr>sa := s\<rparr>)" using w1 by (simp add: plat_inv_def)
  from uncore_ok_channels [OF u assms(2) this] plat_uncore [OF w1, of u]
  have "plat_inv pend I J (w\<lparr>un := u\<rparr>)" by (simp add: gd_config_def)
  from plat_sendIPRequests [OF this] w2 have "plat_inv pend I J w2" by auto
  then show ?thesis
    using rest plat_repeatE [of "plat_inv pend I J" sendMemoryResponses w2 "getNumChannels D"] plat_sendMemoryResponses
      plat_sa_books [of pend I J w2 "(sa (un w2))\<lparr>sa_cyclesToSkip := sa_cyclesToSkip (sa (un w2)) - 1\<rparr>"]
    by (force split: if_splits)
qed

lemma plat_mem_tick:
  assumes "plat_inv pend I J w" "dram_conserves D pend" "mem_tick D (un w) = Inr u'"
  shows "plat_inv pend I J (w\<lparr>un := u'\<rparr>)"
  using plat_uncore [OF assms(1), of u'] uncore_ok_mem_tick [OF _ assms(2,3), of I J] assms(1)
  by (simp add: plat_inv_def)

subsection \<open>Tuning\<close>

text \<open>
  What governors, power accounting and statistics may change: speeds, counters and books, but no
  queue, no state of a request in progress and nothing the flows depend on.
\<close>

definition core_quiet :: "GemDroidCore \<Rightarrow> GemDroidCore \<Rightarrow> bool" where
  "core_quiet c c' \<longleftrightarrow> (core_inv c \<longrightarrow> core_inv c') \<and> c_id c' = c_id c"

definition gpu_quiet :: "gpu \<Rightarrow> gpu \<Rightarrow> bool" where
  "gpu_quiet p p' \<longleftrightarrow> (gpu_inv p \<longrightarrow> gpu_inv p') \<and> ip_id p' = ip_id p"

definition uncore_quiet :: "('d \<Rightarrow> completion multiset) \<Rightarrow> 'd uncore \<Rightarrow> 'd uncore \<Rightarrow> bool" where
  "uncore_quiet pend u u' \<longleftrightarrow> coreMemReq (sa u') = coreMemReq (sa u) \<and> ipMemReq (sa u') = ipMemReq (sa u) \<and>
     memCoreResp (sa u') = memCoreResp (sa u) \<and> memIpResp (sa u') = memIpResp (sa u) \<and> ipReq (sa u') = ipReq (sa u) \<and>
     pend (dramWrapper (mem u')) = pend (dramWrapper (mem u)) \<and> num_cpus (gd u') = num_cpus (gd u) \<and>
     flowTable (gd u') = flowTable (gd u)"

definition tuned :: "('d \<Rightarrow> completion multiset) \<Rightarrow> 'd world \<Rightarrow> 'd world \<Rightarrow> bool" where
  "tuned pend w w' \<longleftrightarrow> uncore_quiet pend (un w) (un w') \<and> (\<forall>c. core_quiet (gemdroid_core w c) (gemdroid_core w' c)) \<and>
     (\<forall>i. quiet (gemdroid_ip_dc w i) (gemdroid_ip_dc w' i) \<and> quiet (gemdroid_ip_nw w i) (gemdroid_ip_nw w' i) \<and>
       quiet (gemdroid_ip_snd w i) (gemdroid_ip_snd w' i) \<and> quiet (gemdroid_ip_mic w i) (gemdroid_ip_mic w' i) \<and>
       quiet (gemdroid_ip_cam w i) (gemdroid_ip_cam w' i) \<and> quiet (gemdroid_ip_mmc_in w i) (gemdroid_ip_mmc_in w' i) \<and>
       quiet (gemdroid_ip_mmc_out w i) (gemdroid_ip_mmc_out w' i) \<and> quiet (gemdroid_ip_vd w i) (gemdroid_ip_vd w' i) \<and>
       quiet (gemdroid_ip_ve w i) (gemdroid_ip_ve w' i) \<and> quiet (gemdroid_ip_ad w i) (gemdroid_ip_ad w' i) \<and>
       quiet (gemdroid_ip_ae w i) (gemdroid_ip_ae w' i) \<and> quiet (gemdroid_ip_img w i) (gemdroid_ip_img w' i) \<and>
       gpu_quiet (gemdroid_ip_gpu w i) (gemdroid_ip_gpu w' i))"

lemma quiets [simp]: "core_quiet c c" "gpu_quiet p p" "uncore_quiet pend u u"
  by (simp_all add: core_quiet_def gpu_quiet_def uncore_quiet_def)

lemma core_quiet_trans: "core_quiet a b \<Longrightarrow> core_quiet b c \<Longrightarrow> core_quiet a c"
  by (simp add: core_quiet_def)

lemma gpu_quiet_trans: "gpu_quiet a b \<Longrightarrow> gpu_quiet b c \<Longrightarrow> gpu_quiet a c"
  by (simp add: gpu_quiet_def)

lemma quiet_gpu: "quiet p p' \<Longrightarrow> gpu_quiet p p'"
  by (simp add: quiet_def gpu_quiet_def gpu_inv_def)

lemma uncore_quiet_trans: "uncore_quiet pend a b \<Longrightarrow> uncore_quiet pend b c \<Longrightarrow> uncore_quiet pend a c"
  by (simp add: uncore_quiet_def)

lemma tuned_refl [simp]: "tuned pend w w"
  by (simp add: tuned_def)

lemma tuned_trans: "tuned pend a b \<Longrightarrow> tuned pend b c \<Longrightarrow> tuned pend a c"
  unfolding tuned_def by (blast intro: quiet_trans core_quiet_trans gpu_quiet_trans uncore_quiet_trans)

lemma uncore_ok_quiet:
  "uncore_quiet pend u u' \<Longrightarrow> in_flight pend u' = in_flight pend u \<and> (uncore_ok pend I J u \<longrightarrow> uncore_ok pend I J u')"
  by (simp add: uncore_quiet_def uncore_ok_def in_flight_def sa_requests_def sa_responses_def calls_ok_def resp_ok_def sa_inv_def)

theorem plat_tuned:
  assumes "tuned pend w w'" "plat_inv pend I J w"
  shows "plat_inv pend I J w'"
proof -
  note t = assms(1) [unfolded tuned_def]
  have u: "in_flight pend (un w') = in_flight pend (un w)" "uncore_ok pend I J (un w')" "num_cpus (gd (un w')) = num_cpus (gd (un w))"
    using t assms(2) uncore_ok_quiet [of pend "un w" "un w'" I J] by (simp_all add: plat_inv_def uncore_quiet_def)
  have "reads_in_flight pend (un w') = reads_in_flight pend (un w)" by (simp add: reads_in_flight_def [abs_def] u)
  then have "insts_ok (reads_in_flight pend (un w')) i w'" if "i \<in> I" for i
    using plat_instD [OF assms(2) that] t
    by (auto simp: insts_ok_def gpu_quiet_def intro: ip_at_quiet dec_pl.at_quiet enc_pl.at_quiet noc_pl.at_quiet)
  moreover have "cores_ok w'" using assms(2) t u(3) by (simp add: plat_inv_def cores_ok_def core_quiet_def)
  ultimately show ?thesis using assms(2) t u(2) by (auto simp: plat_inv_def intro: ip_at_quiet)
qed


subsection \<open>Runs of the platform\<close>

text \<open>
  A platform as its constructor leaves it: empty queues, nothing in the memory simulator, every IP
  initialised and idle. A run is any sequence of ticks of the components and of tuning.
\<close>

definition plat_fresh :: "('d \<Rightarrow> completion multiset) \<Rightarrow> int set \<Rightarrow> int set \<Rightarrow> 'd world \<Rightarrow> bool" where
  "plat_fresh pend I J w \<longleftrightarrow> 0 \<in> I \<and> I \<subseteq> {0..<4} \<and> J \<subseteq> {0..<4} \<and> in_flight pend (un w) = {#} \<and>
     (\<forall>t. ipReq (sa (un w)) t = []) \<and> wf_flowTable (flowTable (gd (un w))) \<and> num_cpus (gd (un w)) \<le> 4 \<and> cores_ok w \<and>
     (\<forall>j\<in>J. ip_at IP_TYPE_DC j (gemdroid_ip_dc w j)) \<and>
     (\<forall>i\<in>I. insts_ok (\<lambda>_ _. 0) i w)"

inductive plat_run ::
  "'d DRAMSim2Wrapper \<Rightarrow> ('d \<Rightarrow> completion multiset) \<Rightarrow> int set \<Rightarrow> int set \<Rightarrow> 'd world \<Rightarrow> bool" for D pend I J where
  boot: "plat_fresh pend I J w \<Longrightarrow> plat_run D pend I J w"
| ip: "plat_run D pend I J w \<Longrightarrow> t \<noteq> IP_TYPE_CPU \<Longrightarrow> i \<in> (if t = IP_TYPE_DC then J else I) \<Longrightarrow>
    tickIP t i w = Inr w' \<Longrightarrow> plat_run D pend I J w'"
| core: "plat_run D pend I J w \<Longrightarrow> c < num_cpus (gd (un w)) \<Longrightarrow> core_tick_at c w = Inr w' \<Longrightarrow> plat_run D pend I J w'"
| agent: "plat_run D pend I J w \<Longrightarrow> sa_tick D w = Inr w' \<Longrightarrow> plat_run D pend I J w'"
| memory: "plat_run D pend I J w \<Longrightarrow> mem_tick D (un w) = Inr u' \<Longrightarrow> plat_run D pend I J (w\<lparr>un := u'\<rparr>)"
| tune: "plat_run D pend I J w \<Longrightarrow> tuned pend w w' \<Longrightarrow> plat_run D pend I J w'"

lemma plat_fresh_inv:
  assumes "plat_fresh pend I J w"
  shows "plat_inv pend I J w"
proof -
  have e: "in_flight pend (un w) = {#}" using assms by (simp add: plat_fresh_def)
  then have q: "coreMemReq (sa (un w)) = []" "ipMemReq (sa (un w)) = []" "memCoreResp (sa (un w)) = []" "memIpResp (sa (un w)) = []"
    by (simp_all add: in_flight_def sa_requests_def sa_responses_def)
  have "reads_in_flight pend (un w) = (\<lambda>_ _. 0)" by (simp add: reads_in_flight_def [abs_def] e)
  moreover have "uncore_ok pend I J (un w)"
    using assms q by (simp add: plat_fresh_def uncore_ok_def sa_inv_def calls_ok_def resp_ok_def)
  ultimately show ?thesis using assms by (simp add: plat_fresh_def plat_inv_def)
qed

lemma plat_run_inv: "plat_run D pend I J w \<Longrightarrow> dram_conserves D pend \<Longrightarrow> plat_inv pend I J w"
  by (induction rule: plat_run.induct)
    (auto intro: plat_fresh_inv plat_core plat_sa_tick plat_mem_tick plat_tuned plat_tickIP split: if_splits)

definition coder_accounts :: "(IP_TYPE \<Rightarrow> int \<Rightarrow> int) \<Rightarrow> IP_TYPE \<Rightarrow> int \<Rightarrow> 'a coder_scheme \<Rightarrow> bool" where
  "coder_accounts rd t i p \<longleftrightarrow> reqSent p - currInBuffer p = rd t i \<and> 0 \<le> currInBuffer p \<and> currInBuffer p \<le> reqSent p \<and>
     reqSent p \<le> inBufferSize p \<and> 0 \<le> currOutBuffer p \<and> currOutBuffer p \<le> outBufferSize p"

lemma coder_at_accounts: "coder_at todo ok rd t i p \<Longrightarrow> coder_accounts rd t i p"
  by (simp add: coder_at_def coder_accounts_def cinv_def coder_reads_def)

text \<open>The platform of the witnesses: one core, one instance of every IP, the shipped flows.\<close>

definition w_demo :: "token list \<Rightarrow> completion list world" where
  "w_demo ts = \<lparr>un = \<lparr>gd = gd_demo, sa = sa_demo, mem = mem_demo\<rparr>, gemdroid_core = (\<lambda>_. core_demo ts),
     gemdroid_ip_dc = (\<lambda>_. dev_demo IP_TYPE_DC True), gemdroid_ip_nw = (\<lambda>_. dev_demo IP_TYPE_NW True),
     gemdroid_ip_snd = (\<lambda>_. dev_demo IP_TYPE_SND True), gemdroid_ip_mic = (\<lambda>_. dev_demo IP_TYPE_MIC True),
     gemdroid_ip_cam = (\<lambda>_. dev_demo IP_TYPE_CAM True), gemdroid_ip_mmc_in = (\<lambda>_. dev_demo IP_TYPE_MMC_IN True),
     gemdroid_ip_mmc_out = (\<lambda>_. dev_demo IP_TYPE_MMC_OUT True), gemdroid_ip_vd = (\<lambda>_. dec_demo),
     gemdroid_ip_ve = (\<lambda>_. coder_demo IP_TYPE_VE 18 16 16), gemdroid_ip_ad = (\<lambda>_. coder.extend (coder_demo IP_TYPE_AD 12 16 1) (decoder.fields I_Frame 0 0 0 0 0 0 IN_BUFFER_EMPTY)),
     gemdroid_ip_ae = (\<lambda>_. coder_demo IP_TYPE_AE 8 8 16), gemdroid_ip_img = (\<lambda>_. coder_demo IP_TYPE_IMG 16 1 16),
     gemdroid_ip_gpu = (\<lambda>_. gpu_demo)\<rparr>"

lemma dev_demo_at: "dev \<longrightarrow> \<not> t > IP_TYPE_VD \<Longrightarrow> ip_at t 0 (dev_demo t dev)"
  by (simp add: ip_at_def dev_demo_inv) (simp add: dev_demo_def ip_blank_def)

lemma coder_demo_at:
  "0 < ratio \<Longrightarrow> ratio \<le> lat \<Longrightarrow> 0 \<le> chunk \<Longrightarrow> coder_at coder_todo enc_ok (\<lambda>_ _. 0) t 0 (coder_demo t lat ratio chunk)"
  "0 < lat \<Longrightarrow> 0 \<le> chunk \<Longrightarrow> coder_at coder_todo noc_ok (\<lambda>_ _. 0) t 0 (coder_demo t lat ratio chunk)"
  by (simp_all add: coder_at_def ip_at_def coder_demo_inv enc_ok_def noc_ok_def cinv_def coder_todo_def coder_reads_def)
    (simp_all add: coder_demo_def dev_demo_def ip_blank_def GemDroidIP.extend_def coder.fields_def)

lemma dec_demo_at:
  "coder_at dec_todo dec_ok (\<lambda>_ _. 0) t 0 (coder.extend (coder_demo t 12 16 1) (decoder.fields I_Frame 0 0 0 0 0 0 IN_BUFFER_EMPTY))"
proof -
  let ?p = "coder.extend (coder_demo t 12 16 1) (decoder.fields I_Frame 0 0 0 0 0 0 IN_BUFFER_EMPTY)"
  have "ip_inv ?p"
    by (simp add: coder_demo_def dev_demo_def ip_blank_def GemDroidIP.extend_def coder.extend_def
        coder.fields_def decoder.fields_def ip_inv_def ip_power_inv_def ip_dvfs_inv_def ip_class_ok_def)
  then show ?thesis
    by (simp add: coder_at_def ip_at_def coder_demo_def dev_demo_def ip_blank_def GemDroidIP.extend_def coder_reads_def
        coder.extend_def coder.fields_def decoder.fields_def dec_ok_def cinv_def view_def dec_todo_def)
qed

lemma gpu_demo_inv: "gpu_inv gpu_demo" "ip_id gpu_demo = 0"
  by (simp_all add: gpu_inv_def gpu_demo_def GemDroidIP.extend_def gpu.fields_def dev_demo_def ip_blank_def
      ip_inv_def ip_power_inv_def ip_dvfs_inv_def ip_class_ok_def)

lemma w_demo_fresh: "plat_fresh mset {0} {0} (w_demo ts)"
  by (simp add: plat_fresh_def w_demo_def insts_ok_def cores_ok_def dev_demo_at IP_TYPE_order coder_demo_at dec_demo_at
      dec_demo_at [of IP_TYPE_VD, folded dec_demo_def] gpu_demo_inv core_demo_inv in_flight_def sa_requests_def
      sa_responses_def sa_demo_def mem_demo_def)
    (use wf_shipped_table in \<open>simp add: core_demo_def new_GemDroidCore_def gd_demo_def u_demo_def\<close>)


subsection \<open>Properties\<close>

text \<open>C1: in every state the platform reaches, however its components, its memory and its governors
  are interleaved, each accelerator waits for exactly as many lines as there are reads of it in the
  queues of the system agent, in the memory and among the answers; its buffers stay within their
  sizes; and handing out requests and answers never faults.\<close>

theorem platform_contract:
  assumes "dram_conserves D pend" "plat_run D pend I J w" "i \<in> I"
  shows "coder_accounts (reads_in_flight pend (un w)) IP_TYPE_VD i (gemdroid_ip_vd w i) \<and>
    coder_accounts (reads_in_flight pend (un w)) IP_TYPE_VE i (gemdroid_ip_ve w i) \<and>
    coder_accounts (reads_in_flight pend (un w)) IP_TYPE_AD i (gemdroid_ip_ad w i) \<and>
    coder_accounts (reads_in_flight pend (un w)) IP_TYPE_AE i (gemdroid_ip_ae w i) \<and>
    coder_accounts (reads_in_flight pend (un w)) IP_TYPE_IMG i (gemdroid_ip_img w i) \<and>
    (\<exists>w'. sendIPRequests w = Inr w') \<and> (\<exists>w'. sendMemoryResponses w = Inr w')"
proof -
  have inv: "plat_inv pend I J w" by (rule plat_run_inv [OF assms(2,1)])
  from plat_instD [OF this assms(3)] plat_sendIPRequests [OF this] plat_sendMemoryResponses [OF this]
  show ?thesis by (auto simp: insts_ok_def intro: coder_at_accounts)
qed

theorem platform_contract_witness:
  "coder_accounts (reads_in_flight mset (un (w_demo []))) IP_TYPE_VD 0 (gemdroid_ip_vd (w_demo []) 0)"
  using platform_contract [OF dram_conserves_fifo plat_run.boot [OF w_demo_fresh], of 0] by simp



end
