(* ===== verification/GD_Governors.thy ===== *)
theory GD_Governors
  imports GD_Contract
begin

section \<open>The DVFS governors\<close>

text \<open>
  \<open>gemdroid_dvfs.cc\<close>: the estimates of time and bandwidth, and the governors that set the
  frequencies of cores, IPs and memory at the end of an epoch. The record \<open>gov\<close> holds the members
  of class \<open>GemDroid\<close> that only the governors read.

  Frequencies and times are reals: steps of 0.1 GHz are exact. A division by zero that the code
  lets happen gives an infinity or a NaN in C++: where one decides a branch it is written out
  (\<open>core_load\<close>, \<open>ip_load\<close>, \<open>fp_div\<close>). Two functions nothing calls, \<open>dvfsCoScaleNew\<close> and \<open>dvfsCoScale\<close>, are
  left out.
\<close>

abbreviation (input) CPU_CORES :: "'d world \<Rightarrow> nat list" where "CPU_CORES w \<equiv> [0..<num_cpus (gd (un w))]"
abbreviation (input) AD_AE_RATIO_TO_VD :: real where "AD_AE_RATIO_TO_VD \<equiv> 12"
abbreviation (input) GOVERNOR_TIMING_FRAME_BOUNDARIES :: int where "GOVERNOR_TIMING_FRAME_BOUNDARIES \<equiv> 4"

record gov =
  enableDVFS :: bool
  governor_timing :: int
  doSlackDVFS :: bool
  dvfsPeriod :: int
  dvfs_core :: nat
  sweep_val1 :: real
  sweep_val2 :: real
  optimal_freqs :: "IP_TYPE \<Rightarrow> int"
  optimal_energy :: "IP_TYPE \<Rightarrow> real"
  ip_time_table :: "IP_TYPE \<Rightarrow> int \<Rightarrow> real"
  ip_energy_table :: "IP_TYPE \<Rightarrow> int \<Rightarrow> real"
  time_pred_coeffs :: "IP_TYPE \<Rightarrow> nat \<Rightarrow> real"

subsection \<open>Loops\<close>

text \<open>\<open>for_ips\<close> is \<open>while ((ip = ips[j++]) != -1)\<close>; a flow that fills the array has no terminator.\<close>

definition ip_of :: "int \<Rightarrow> IP_TYPE result" where
  "ip_of i = bindE (boundsE ''ip'' (0 \<le> i \<and> i < 16)) (\<lambda>_. Inr (IP_TYPES ! nat i))"

fun for_ips :: "(IP_TYPE \<Rightarrow> 's \<Rightarrow> 's result) \<Rightarrow> int list \<Rightarrow> 's \<Rightarrow> 's result" where
  "for_ips f [] s = Inl (OutOfBounds ''ips'')"
| "for_ips f (i # is) s = (if i = -1 then Inr s else bindE (ip_of i) (\<lambda>ip. bindE (f ip s) (for_ips f is)))"

definition flow_ips :: "'d world \<Rightarrow> int list" where
  "flow_ips w = snd (getIPsInFlow (flowTable (gd (un w))) (app_id (gd (un w)) 0) 0)"

definition ip_range :: "IP_TYPE \<Rightarrow> IP_TYPE \<Rightarrow> IP_TYPE list" where
  "ip_range a b = filter (\<lambda>t. a \<le> t \<and> t \<le> b) IP_TYPES"

definition each_inst :: "IP_TYPE \<Rightarrow> IP_TYPE \<Rightarrow> (IP_TYPE \<Rightarrow> int \<Rightarrow> 'd world \<Rightarrow> 'd world result) \<Rightarrow> 'd world \<Rightarrow> 'd world result" where
  "each_inst a b f w =
     foldE (\<lambda>t. foldE (f t) (map int [0..<num_ip_inst (gd (un w))])) (ip_range a b) w"

definition on_core :: "nat \<Rightarrow> (GemDroidCore \<Rightarrow> GemDroidCore result) \<Rightarrow> 'd world \<Rightarrow> 'd world result" where
  "on_core i f w =
     bindE (boundsE ''gemdroid_core'' (i < MAX_CPUS)) (\<lambda>_.
     bindE (f (gemdroid_core w i)) (\<lambda>c. Inr (w\<lparr>gemdroid_core := (gemdroid_core w)(i := c)\<rparr>)))"

definition on_mem :: "('d GemDroidMemory \<Rightarrow> 'd GemDroidMemory result) \<Rightarrow> 'd world \<Rightarrow> 'd world result" where
  "on_mem f w = bindE (f (mem (un w))) (\<lambda>m. Inr (w\<lparr>un := (un w)\<lparr>mem := m\<rparr>\<rparr>))"

subsection \<open>Searching an array\<close>

definition DBL_MAX :: real where
  "DBL_MAX = (2 - 1 / 2 ^ 52) * 2 ^ 1023"

definition findMax :: "real list \<Rightarrow> nat \<Rightarrow> int" where
  "findMax array n =
     snd (fold (\<lambda>i (max_val, max_ind). if array ! i > max_val then (array ! i, int i) else (max_val, max_ind))
       [0..<n] (- DBL_MAX, -99999))"

definition findMin :: "real list \<Rightarrow> nat \<Rightarrow> int" where
  "findMin array n =
     snd (fold (\<lambda>i (min_val, min_ind). if array ! i \<noteq> 0 \<and> array ! i < min_val then (array ! i, int i) else (min_val, min_ind))
       [0..<n] (DBL_MAX, -99999))"

definition isAllZeroes :: "real list \<Rightarrow> nat \<Rightarrow> bool" where
  "isAllZeroes array n = (\<forall>i\<in>set [0..<n]. array ! i = 0)"

definition isAtOptimal :: "gov \<Rightarrow> 'd world \<Rightarrow> IP_TYPE \<Rightarrow> bool result" where
  "isAtOptimal K w t =
     (if t = IP_TYPE_CPU then
        let c = gemdroid_core w (dvfs_core K) in Inr (c_dvfsState c = optDVFSState c)
      else if t \<le> IP_TYPE_MMC_OUT then Inr True
      else bindE (getIPInstance t 0 w) (\<lambda>p. Inr (dvfsState p = m_optDVFSState p)))"

subsection \<open>Estimates\<close>

definition getIPProcessingLatency :: "IP_TYPE \<Rightarrow> int" where
  "getIPProcessingLatency t =
     (case t of IP_TYPE_VD \<Rightarrow> 12 | IP_TYPE_VE \<Rightarrow> 18 | IP_TYPE_AE \<Rightarrow> 8 | IP_TYPE_AD \<Rightarrow> 12 | IP_TYPE_IMG \<Rightarrow> 16
      | IP_TYPE_CAM \<Rightarrow> 1 | IP_TYPE_MMC_OUT \<Rightarrow> 10 | IP_TYPE_MMC_IN \<Rightarrow> 10 | _ \<Rightarrow> 1)"

definition getIPProcessingSize :: "IP_TYPE \<Rightarrow> real" where
  "getIPProcessingSize t =
     (if t = IP_TYPE_VD \<or> t = IP_TYPE_VE then real_of_int VID_CODING_RATIO + 1
      else if t = IP_TYPE_AE \<or> t = IP_TYPE_AD then real_of_int AUD_CODING_RATIO + 1 else 1)"

definition getProfileFractionOfMemInst :: "GemDroidCore \<Rightarrow> real option" where
  "getProfileFractionOfMemInst c =
     (let stalls = m_profileMemFullStalls c + m_profileRobFullStalls c in
      if stalls = 0 \<and> m_profileActiveCycles c = 0 then None
      else Some (real_of_int stalls / real_of_int (m_profileActiveCycles c)))"

definition memScaledTimeCPU :: "'d world \<Rightarrow> nat \<Rightarrow> real \<Rightarrow> real \<Rightarrow> real" where
  "memScaledTimeCPU w core oldMemFreq newMemFreq =
     (let memFraction = (case getProfileFractionOfMemInst (gemdroid_core w core) of None \<Rightarrow> 20 / 100 | Some x \<Rightarrow> x);
          lastTime = lastTimeTook (gd (un w)) IP_TYPE_CPU;
          memTime = memFraction * lastTime;
          computeTime = lastTime - memTime
      in computeTime + memTime * (oldMemFreq / newMemFreq))"

definition memScaledTime :: "gov \<Rightarrow> 'd world \<Rightarrow> IP_TYPE \<Rightarrow> real \<Rightarrow> int \<Rightarrow> real result" where
  "memScaledTime K w t availableBW ipFreqIndex =
     bindE (assertE ''typeOfIP'' (t \<noteq> IP_TYPE_CPU)) (\<lambda>_.
     bindE (getIPInstance t 0 w) (\<lambda>p.
     let lastTime = lastTimeTook (gd (un w)) t; co = time_pred_coeffs K t in
     if t = IP_TYPE_DC \<or> t = IP_TYPE_CAM then
       Inr (co 0 * availableBW * availableBW * availableBW + co 1 * availableBW * availableBW + co 2 * availableBW + co 3)
     else if IP_TYPE_NW \<le> t \<and> t \<le> IP_TYPE_MMC_OUT then Inr lastTime
     else if t = IP_TYPE_GPU then
       let memTime = 30 / 100 * lastTime; computeTime = lastTime - memTime in
       Inr (computeTime + memTime * (m_freq (mem (un w)) / getFreqForBandwidth availableBW))
     else
       let baseTime = ip_getTimeEst lastTime (lastFrequency (gd (un w)) t) (getIPFreq_at p ipFreqIndex);
           ipBWRequirement = getIPProcessingSize t * 64 /
             (real_of_int (getIPProcessingLatency t) / getIPFreq_at p ipFreqIndex) in
       if availableBW > ipBWRequirement then Inr baseTime
       else Inr (ipBWRequirement / availableBW * baseTime)))"

definition getAvailBW :: "'d DRAMSim2Wrapper \<Rightarrow> gov \<Rightarrow> 'd world \<Rightarrow> int \<Rightarrow> real" where
  "getAvailBW D K w core =
     (let m = mem (un w) in
      if num_cpus (gd (un w)) = 1 then getMaxBandwidth m
      else
        let appBW = (real_of_int (appMemReqs (gd (un w)) core) * 64 / (real_of_int (dvfsPeriod K) * (1125 / 1000))) * 10;
            memBW = dram_bandwidth D (dramWrapper m)
        in (getMaxBandwidth m - memBW) + appBW)"

definition memScaledTime_app :: "'d DRAMSim2Wrapper \<Rightarrow> gov \<Rightarrow> 'd world \<Rightarrow> IP_TYPE \<Rightarrow> int \<Rightarrow> int \<Rightarrow> real result" where
  "memScaledTime_app D K w t core ipFreqIndex = memScaledTime K w t (getAvailBW D K w core) ipFreqIndex"

text \<open>The time of a component of the flow at memory frequency \<open>freq\<close>.\<close>

definition scaled_at :: "gov \<Rightarrow> 'd world \<Rightarrow> real \<Rightarrow> real \<Rightarrow> IP_TYPE \<Rightarrow> real result" where
  "scaled_at K w orig freq ip =
     (if ip = IP_TYPE_CPU then Inr (memScaledTimeCPU w 0 orig freq)
      else bindE (getIPInstance ip 0 w) (\<lambda>p. memScaledTime K w ip (getMaxBandwidth_at freq) (dvfsState p)))"

subsection \<open>Using slack\<close>

definition slack_core :: "nat \<Rightarrow> real \<times> 'd world \<Rightarrow> (real \<times> 'd world) result" where
  "slack_core i = (\<lambda>(slack, w).
     let g = gd (un w) in
     bindE (core_getFreqForSlackOptimal (memScaledTimeCPU w 0 (lastMemFreq g) (m_freq (mem (un w))))
              (lastTimeTook g IP_TYPE_CPU) slack (gemdroid_core w i)) (\<lambda>(newFreq, slack).
     bindE (on_core i (setCoreFreq newFreq) w) (\<lambda>w. Inr (slack, w))))"

definition slack_ip :: "'d DRAMSim2Wrapper \<Rightarrow> gov \<Rightarrow> IP_TYPE \<Rightarrow> real \<times> 'd world \<Rightarrow> (real \<times> 'd world) result" where
  "slack_ip D K t = (\<lambda>(slack, w).
     bindE (getIPInstance t 0 w) (\<lambda>p.
     bindE (memScaledTime_app D K w t 0 (dvfsState p)) (\<lambda>scaledTime.
     bindE (ip_getFreqForSlackOptimal scaledTime (lastTimeTook (gd (un w)) t) slack p) (\<lambda>(newFreq, slack).
     bindE (withIPInstance t 0 (setIPFreq newFreq) w) (\<lambda>w. Inr (slack, w))))))"

definition setDVFSSlackFrequencies ::
  "'d DRAMSim2Wrapper \<Rightarrow> gov \<Rightarrow> IP_TYPE \<Rightarrow> real \<times> 'd world \<Rightarrow> (real \<times> 'd world) result" where
  "setDVFSSlackFrequencies D K t = (\<lambda>(slack, w).
     if t = IP_TYPE_CPU then foldE slack_core (CPU_CORES w) (slack, w)
     else if IP_TYPE_VD \<le> t \<and> t \<le> IP_TYPE_GPU then
       bindE (assertE ''lastEnergyTook[ip_type] != 0'' (lastEnergyTook (gd (un w)) t \<noteq> 0)) (\<lambda>_.
       slack_ip D K t (slack, w))
     else Inr (slack, w))"


subsection \<open>Memory\<close>

text \<open>
  Raising: the test \<open>if (newTime > oldTime);\<close> ends in a semicolon, so that \<open>newTime = oldTime\<close> is always
  executed and a faster memory never gives slack back. Lowering: the estimate is not cleared
  between the steps.
\<close>

definition mem_raise_time :: "gov \<Rightarrow> 'd world \<Rightarrow> real \<Rightarrow> real \<Rightarrow> IP_TYPE \<Rightarrow> real \<Rightarrow> real result" where
  "mem_raise_time K w orig freq ip extra =
     bindE (scaled_at K w orig freq ip) (\<lambda>newTime.
     let oldTime = lastTimeTook (gd (un w)) ip; newTime = oldTime in Inr (extra + (newTime - oldTime)))"

definition mem_lower_time :: "gov \<Rightarrow> 'd world \<Rightarrow> real \<Rightarrow> real \<Rightarrow> IP_TYPE \<Rightarrow> real \<Rightarrow> real result" where
  "mem_lower_time K w orig freq ip extra =
     bindE (scaled_at K w orig freq ip) (\<lambda>newTime.
     let oldTime = lastTimeTook (gd (un w)) ip; newTime = (if newTime < oldTime then oldTime else newTime) in
     Inr (extra + (newTime - oldTime)))"

function (sequential) mem_lower ::
  "'d DRAMSim2Wrapper \<Rightarrow> gov \<Rightarrow> real \<Rightarrow> real \<Rightarrow> real \<Rightarrow> real \<Rightarrow> real \<Rightarrow> real \<Rightarrow> 'd world \<Rightarrow> (real \<times> 'd world) result" where
  "mem_lower D K slack min_mem orig freq extra correct w =
     (if \<bar>freq - min_mem\<bar> > EPSILON then
        let freq' = freq - 1 / 10 in
        bindE (for_ips (mem_lower_time K w orig freq') (flow_ips w) extra) (\<lambda>extra.
        if extra > slack then Inr (correct, w)
        else bindE (on_mem (setMemFreq D freq') w) (mem_lower D K slack min_mem orig freq' extra extra))
      else Inr (correct, w))"
  by pat_completeness auto
termination
proof (relation "measure (\<lambda>(D, K, slack, min_mem, orig, freq, extra, correct, w). nat \<lceil>10 * freq\<rceil>)", goal_cases)
  case (2 D K slack min_mem orig freq extra correct w freq' extra' w')
  then have "3 / 10 - EPSILON \<le> freq - 1 / 10" by (auto simp: on_mem_def setMemFreq_def)
  then have "0 < \<lceil>10 * freq\<rceil>" "\<lceil>10 * (freq - 1 / 10)\<rceil> = \<lceil>10 * freq\<rceil> - 1" by (auto simp: algebra_simps)
  with 2 show ?case by simp
qed simp

declare mem_lower.simps [simp del]

definition dvfsMemory :: "'d DRAMSim2Wrapper \<Rightarrow> gov \<Rightarrow> real \<times> 'd world \<Rightarrow> (bool \<times> real \<times> 'd world) result" where
  "dvfsMemory D K = (\<lambda>(slack, w).
     let orig = m_freq (mem (un w)); gov = governor (gd (un w)) in
     if slack < 0 then
       if orig < MAX_MEM_FREQ then
         let freq = orig + 1 / 10 in
         bindE (for_ips (mem_raise_time K w orig freq) (flow_ips w) 0) (\<lambda>extra.
         bindE (on_mem (setMemFreq D freq) w) (\<lambda>w. Inr (False, slack - extra, w)))
       else Inr (False, slack, w)
     else
       let min_mem = (if gov = GOVERNOR_TYPE_SLACK_MAXENERGY_CONSUMER \<or> gov = GOVERNOR_TYPE_SLACK_FAR_ENERGY
                      then MIN_MEM_FREQ + 1 / 10 else MIN_MEM_FREQ) in
       bindE (mem_lower D K slack min_mem orig orig 0 0 w) (\<lambda>(correct, w). Inr (True, slack - correct, w)))"

subsection \<open>Governors along the flow\<close>

definition dvfsCoreOracle :: "real \<Rightarrow> 'd world \<Rightarrow> 'd world result" where
  "dvfsCoreOracle slack w =
     bindE (for_ips (\<lambda>ip (slack, w). if lastEnergyTook (gd (un w)) ip \<noteq> 0 \<and> ip = IP_TYPE_CPU then slack_core 0 (slack, w)
                       else Inr (slack, w)) (flow_ips w) (slack, w)) (\<lambda>(slack, w). Inr w)"

definition dvfsFixedPriority :: "'d DRAMSim2Wrapper \<Rightarrow> gov \<Rightarrow> real \<Rightarrow> 'd world \<Rightarrow> 'd world result" where
  "dvfsFixedPriority D K slack w =
     bindE (dvfsMemory D K (slack, w)) (\<lambda>(doNextDVFS, slack, w).
     if slack > 0 \<and> \<not> doNextDVFS then Inr w
     else
       bindE (for_ips (\<lambda>ip (slack, w).
                if lastEnergyTook (gd (un w)) ip \<noteq> 0 \<and> ip = IP_TYPE_CPU then slack_core 0 (slack, w)
                else if lastEnergyTook (gd (un w)) ip \<noteq> 0 \<and> ip \<ge> IP_TYPE_VD then slack_ip D K ip (slack, w)
                else Inr (slack, w)) (flow_ips w) (slack, w)) (\<lambda>(slack, w). Inr w))"

subsection \<open>Governors by load\<close>

text \<open>
  A load is \<open>None\<close> where the code computes 0/0, which compares false with everything. A positive count
  over a zero time is an infinity: above every threshold for a core, and 0.99 for an IP, whose
  load is cut.
\<close>

definition core_load :: "GemDroid \<Rightarrow> GemDroidCore \<Rightarrow> real option \<times> GemDroidCore" where
  "core_load g c =
     (let (load, c') = core_getLoadInLastDVFSEpoch (lastTimeTook g) c in
      (if lastTimeTook g IP_TYPE_CPU = 0
       then (if m_thisDVFSEpochInstructionsCommitted c = 0 then None else Some 1)
       else Some load, c'))"

definition ip_load :: "GemDroid \<Rightarrow> 'a GemDroidIP_scheme \<Rightarrow> real option \<times> 'a GemDroidIP_scheme" where
  "ip_load g p =
     (let (load, p') = ip_getLoadInLastDVFSEpoch (lastTimeTook g) p in
      (if ip_type p \<in> {IP_TYPE_VD, IP_TYPE_VE, IP_TYPE_AD, IP_TYPE_AE, IP_TYPE_IMG} \<and> lastTimeTook g (ip_type p) = 0
       then (if m_IPActivityInDVFSEpoch p = 0 then None else Some (99 / 100))
       else Some load, p'))"

definition load_core_step :: "GemDroid \<Rightarrow> GemDroidCore \<Rightarrow> GemDroidCore result" where
  "load_core_step g c =
     (case core_load g c of (None, c) \<Rightarrow> Inr c
      | (Some load, c) \<Rightarrow>
          if load > 6 / 10 then
            if governor g = GOVERNOR_TYPE_ONDEMAND \<or> governor g = GOVERNOR_TYPE_INTERACTIVE
            then Inr (setMaxCoreFreq (governor g) c)
            else if governor g = GOVERNOR_TYPE_BUILDING then Inr (snd (core_incFreq 2 c))
            else if governor g = GOVERNOR_TYPE_POWERCAP then core_setMaxAllowedFreq g c
            else Inr c
          else if load < 2 / 10 then Inr (snd (core_decFreq (governor g) 1 c))
          else Inr c)"

definition load_ip_step :: "GemDroid \<Rightarrow> GemDroidIP \<Rightarrow> GemDroidIP result" where
  "load_ip_step g p =
     (case ip_load g p of (None, p) \<Rightarrow> Inr p
      | (Some load, p) \<Rightarrow>
          if load > 6 / 10 then
            if governor g = GOVERNOR_TYPE_ONDEMAND \<or> governor g = GOVERNOR_TYPE_INTERACTIVE then setMaxIPFreq p
            else if governor g = GOVERNOR_TYPE_BUILDING then bindE (ip_incFreq 1 p) (\<lambda>(ok, p). Inr p)
            else if governor g = GOVERNOR_TYPE_POWERCAP then ip_setMaxAllowedFreq g p
            else Inr p
          else if load < 3 / 10 then bindE (ip_decFreq (governor g) 1 p) (\<lambda>(ok, p). Inr p)
          else Inr p)"

definition dvfsLoadBased :: "'d world \<Rightarrow> 'd world result" where
  "dvfsLoadBased w =
     bindE (foldE (\<lambda>i w. on_core i (load_core_step (gd (un w))) w) (CPU_CORES w) w) (\<lambda>w.
     each_inst IP_TYPE_VD IP_TYPE_GPU (\<lambda>t j w.
       if lastEnergyTook (gd (un w)) t = 0 then Inr w
       else withIPInstance t j (load_ip_step (gd (un w))) w) w)"

definition scale_core_step :: "GemDroid \<Rightarrow> GemDroidCore \<Rightarrow> GemDroidCore result" where
  "scale_core_step g c =
     (case core_load g c of (None, c) \<Rightarrow> Inr c
      | (Some load, c) \<Rightarrow>
          if load \<ge> 1 / 10 then Inr (setMaxCoreFreq (governor g) c)
          else if load < 1 / 10 then Inr (setMinCoreFreq c) else Inr c)"

definition scale_ip_step :: "GemDroid \<Rightarrow> GemDroidIP \<Rightarrow> GemDroidIP result" where
  "scale_ip_step g p =
     (case ip_load g p of (None, p) \<Rightarrow> Inr p
      | (Some load, p) \<Rightarrow>
          if load > 5 / 10 then setMaxIPFreq p else if load < 1 / 10 then setMinIPFreq p else Inr p)"

definition dvfsMemScale :: "'d DRAMSim2Wrapper \<Rightarrow> gov \<Rightarrow> real \<Rightarrow> 'd world \<Rightarrow> 'd world result" where
  "dvfsMemScale D K slack w =
     bindE (foldE (\<lambda>i w. on_core i (scale_core_step (gd (un w))) w) (CPU_CORES w) w) (\<lambda>w.
     bindE (each_inst IP_TYPE_VD IP_TYPE_GPU (\<lambda>t j w. withIPInstance t j (scale_ip_step (gd (un w))) w) w) (\<lambda>w.
     bindE (dvfsMemory D K (slack, w)) (\<lambda>(ok, slack, w). Inr w)))"


subsection \<open>Governors by consumption\<close>

text \<open>
  The loops that serve the components in the order of an array: the highest entry first while
  there is slack, the lowest first while there is none. The thresholds the code uses, 0, 0.000005
  and \<open>EPSILON\<close>, are not negative, so that an entry above one is positive.
\<close>

definition entry_over :: "real \<Rightarrow> real list \<Rightarrow> int \<Rightarrow> bool" where
  "entry_over thr a i \<longleftrightarrow> i > -1 \<and> i < int (length a) \<and> a ! nat i > 0 \<and> a ! nat i > thr"

lemma zero_entry_shrinks:
  assumes "entry_over thr a i"
  shows "length (filter (\<lambda>x. x \<noteq> 0) (a[nat i := 0])) < length (filter (\<lambda>x. x \<noteq> 0) a)"
proof -
  have i: "nat i < length a" "a ! nat i \<noteq> 0" using assms by (auto simp: entry_over_def)
  then have a: "a = take (nat i) a @ a ! nat i # drop (Suc (nat i)) a" by (simp add: id_take_nth_drop [symmetric])
  have "a[nat i := 0] = take (nat i) a @ 0 # drop (Suc (nat i)) a" using i by (simp add: upd_conv_take_nth_drop)
  then show ?thesis using i by (subst (2) a) simp
qed

function (sequential) max_consumers ::
  "'d DRAMSim2Wrapper \<Rightarrow> gov \<Rightarrow> real \<Rightarrow> real list \<Rightarrow> real \<times> 'd world \<Rightarrow> (real \<times> 'd world) result" where
  "max_consumers D K thr a s =
     (let max_index = findMax a (length a) in
      if entry_over thr a max_index then
        bindE (setDVFSSlackFrequencies D K (IP_TYPES ! nat max_index) s) (max_consumers D K thr (a[nat max_index := 0]))
      else Inr s)"
  by pat_completeness auto
termination
  by (relation "measure (\<lambda>(D, K, thr, a, s). length (filter (\<lambda>x. x \<noteq> 0) a))") (use zero_entry_shrinks in auto)

function (sequential) min_consumers ::
  "'d DRAMSim2Wrapper \<Rightarrow> gov \<Rightarrow> real list \<Rightarrow> real \<times> 'd world \<Rightarrow> (real \<times> 'd world) result" where
  "min_consumers D K a s =
     (let min_index = findMin a (length a) in
      if entry_over 0 a min_index then
        bindE (setDVFSSlackFrequencies D K (IP_TYPES ! nat min_index) s) (\<lambda>(slack, w).
        if slack > 0 then Inr (slack, w) else min_consumers D K (a[nat min_index := 0]) (slack, w))
      else Inr s)"
  by pat_completeness auto
termination
  by (relation "measure (\<lambda>(D, K, a, s). length (filter (\<lambda>x. x \<noteq> 0) a))") (use zero_entry_shrinks in auto)

declare max_consumers.simps [simp del] min_consumers.simps [simp del]

definition serve_consumers ::
  "'d DRAMSim2Wrapper \<Rightarrow> gov \<Rightarrow> real \<Rightarrow> real list \<Rightarrow> real \<Rightarrow> 'd world \<Rightarrow> 'd world result" where
  "serve_consumers D K thr a slack w =
     bindE (dvfsMemory D K (slack, w)) (\<lambda>(doNextDVFS, slack, w).
     if slack > 0 \<and> \<not> doNextDVFS then Inr w
     else bindE (if slack > 0 then max_consumers D K thr a (slack, w) else min_consumers D K a (slack, w))
            (\<lambda>(slack, w). Inr w))"

text \<open>An array over the types, filled for the accelerators of the flow that have worked.\<close>

definition no_entries :: "real list" where
  "no_entries = replicate 16 0"

definition fill_accs ::
  "'d world \<Rightarrow> (IP_TYPE \<Rightarrow> GemDroidIP \<Rightarrow> real) \<Rightarrow> IP_TYPE \<Rightarrow> real list \<Rightarrow> real list result" where
  "fill_accs w v i a =
     (if lastEnergyTook (gd (un w)) i \<noteq> 0 \<and> i \<ge> IP_TYPE_VD then
        bindE (getIPInstance i 0 w) (\<lambda>p. Inr (a[ip_code i := v i p]))
      else Inr a)"

definition audio_scaled :: "IP_TYPE \<Rightarrow> real \<Rightarrow> real" where
  "audio_scaled i x = (if i = IP_TYPE_AD \<or> i = IP_TYPE_AE then x * AD_AE_RATIO_TO_VD else x)"

definition dvfsParetoEfficient :: "'d DRAMSim2Wrapper \<Rightarrow> gov \<Rightarrow> real \<Rightarrow> 'd world \<Rightarrow> 'd world result" where
  "dvfsParetoEfficient D K slack w =
     (let g = gd (un w) in
      bindE (foldE (\<lambda>i a.
               let c = gemdroid_core w i; optimalFreq = vf_freq (cvft c (optDVFSState c)) in
               bindE (core_getEnergyEst (lastTimeTook g IP_TYPE_CPU) (lastPowerTook g IP_TYPE_CPU) optimalFreq c) (\<lambda>optimalEnergy.
               let diff = lastEnergyTook g IP_TYPE_CPU - optimalEnergy in
               Inr (a[0 := (if diff \<le> 0 then 1 / 100 else diff)]))) (CPU_CORES w) no_entries) (\<lambda>a.
      bindE (for_ips (fill_accs w (\<lambda>i p.
               let diff = lastEnergyTook g i - optimal_energy K i in
               audio_scaled i (if diff \<le> 0 then 1 / 100 else diff))) (flow_ips w) a) (\<lambda>diffEnergy.
      serve_consumers D K 0 diffEnergy slack w)))"

definition dvfsMaxEnergyConsumer :: "'d DRAMSim2Wrapper \<Rightarrow> gov \<Rightarrow> real \<Rightarrow> 'd world \<Rightarrow> 'd world result" where
  "dvfsMaxEnergyConsumer D K slack w =
     (let g = gd (un w);
          cpu = (if lastEnergyTook g IP_TYPE_CPU \<le> 0 then 1 / 100 else lastEnergyTook g IP_TYPE_CPU);
          a = (if num_cpus g > 0 then no_entries[0 := cpu] else no_entries) in
      bindE (for_ips (fill_accs w (\<lambda>i p.
               let x = audio_scaled i (lastEnergyTook g i) in if x \<le> 0 then 1 / 100 else x)) (flow_ips w) a) (\<lambda>lastEnergy.
      serve_consumers D K (5 / 1000000) lastEnergy slack w))"

definition dvfsMaxPowerConsumer :: "'d DRAMSim2Wrapper \<Rightarrow> gov \<Rightarrow> real \<Rightarrow> 'd world \<Rightarrow> 'd world result" where
  "dvfsMaxPowerConsumer D K slack w =
     (let g = gd (un w);
          a = (if num_cpus g > 0 then no_entries[0 := lastPowerTook g IP_TYPE_CPU] else no_entries) in
      bindE (for_ips (fill_accs w (\<lambda>i p. lastPowerTook g i)) (flow_ips w) a) (\<lambda>lastPower.
      serve_consumers D K EPSILON lastPower slack w))"

text \<open>A quotient by zero is an infinity of the sign of the dividend, beyond every double; 0/0 is in no
  comparison different from 0.\<close>

definition fp_div :: "real \<Rightarrow> real \<Rightarrow> real" where
  "fp_div x y = (if y = 0 then (if x > 0 then 2 * DBL_MAX else if x < 0 then - 2 * DBL_MAX else 0) else x / y)"

definition energy_per_time :: "gov \<Rightarrow> 'd world \<Rightarrow> real list result" where
  "energy_per_time K w =
     (let g = gd (un w) in
      for_ips (\<lambda>i a.
        if lastEnergyTook g i \<noteq> 0 \<and> i = IP_TYPE_CPU then
          let c = gemdroid_core w 0; optimalFreq = vf_freq (cvft c (optDVFSState c)) in
          bindE (core_getEnergyEst (lastTimeTook g IP_TYPE_CPU) (lastPowerTook g IP_TYPE_CPU) optimalFreq c) (\<lambda>optimalEnergy.
          let optimalTime = core_getTimeEst (lastTimeTook g IP_TYPE_CPU) (getCoreFreq c) optimalFreq;
              dt = lastTimeTook g IP_TYPE_CPU - optimalTime;
              x = (lastEnergyTook g IP_TYPE_CPU - optimalEnergy) / dt in
          Inr (a[0 := (if dt = 0 then 100 else if x < 0 then - x else x)]))
        else fill_accs w (\<lambda>i p.
          let diffEnergy = lastEnergyTook g i - optimal_energy K i;
              diffTime = lastTimeTook g i - ip_time_table K i (m_optDVFSState p);
              diffEnergy = (if diffEnergy < 0 then 1 / 100 else diffEnergy);
              diffTime = (if diffTime < 0 then 1 / 100 else diffTime)
          in audio_scaled i (fp_div diffEnergy diffTime)) i a) (flow_ips w) no_entries)"

definition dvfsMaxEnergyPerTimeConsumer :: "'d DRAMSim2Wrapper \<Rightarrow> gov \<Rightarrow> real \<Rightarrow> 'd world \<Rightarrow> 'd world result" where
  "dvfsMaxEnergyPerTimeConsumer D K slack w =
     bindE (energy_per_time K w) (\<lambda>lastEnergyPerTime. serve_consumers D K 0 lastEnergyPerTime slack w)"


subsection \<open>The knapsack governor\<close>

text \<open>The first higher state whose time gained covers what a slower memory costs, for less energy.\<close>

fun knap_search :: "(int \<Rightarrow> (real \<times> real) result) \<Rightarrow> real \<Rightarrow> real \<Rightarrow> int list \<Rightarrow> int option result" where
  "knap_search cost saving extra [] = Inr None"
| "knap_search cost saving extra (i # is) =
     bindE (cost i) (\<lambda>(diffEnergy, diffTime).
     bindE (assertE ''diffTimeToNextStep'' (\<not> diffTime < 0)) (\<lambda>_.
     if diffEnergy > saving then Inr None
     else if diffTime > extra \<and> diffEnergy < saving then Inr (Some i)
     else knap_search cost saving extra is))"

definition knap_times :: "gov \<Rightarrow> 'd world \<Rightarrow> real \<Rightarrow> real \<Rightarrow> real \<Rightarrow> IP_TYPE \<Rightarrow> real \<times> real \<Rightarrow> (real \<times> real) result" where
  "knap_times K w lastMem cur nxt i = (\<lambda>(extra_cpu, extra_ip).
     bindE (scaled_at K w lastMem cur i) (\<lambda>curr_time.
     bindE (scaled_at K w lastMem nxt i) (\<lambda>next_time.
     if i = IP_TYPE_CPU then
       bindE (assertE ''extra_cpu_time >= 0'' (extra_cpu + (next_time - curr_time) \<ge> 0)) (\<lambda>_.
       Inr (extra_cpu + (next_time - curr_time), extra_ip))
     else
       bindE (assertE ''extra_ip_time >= 0'' (extra_ip + (next_time - curr_time) \<ge> 0)) (\<lambda>_.
       Inr (extra_cpu, extra_ip + (next_time - curr_time))))))"

definition knap_step ::
  "'d DRAMSim2Wrapper \<Rightarrow> gov \<Rightarrow> real \<Rightarrow> real list \<Rightarrow> real \<Rightarrow> 'd world \<Rightarrow> (bool \<times> 'd world) result" where
  "knap_step D K lastMem a slack w =
     (let (pw, m) = mem_powerIn1ms D (mem (un w));
          w = w\<lparr>un := (un w)\<lparr>mem := m\<rparr>\<rparr>; g = gd (un w); freq = m_freq m;
          last_memory_energy = real_of_int (FPS_DEADLINE + FPS_DEADLINE_SAFETYNET) * pw;
          saving = mem_getEnergyEst lastMem last_memory_energy freq - mem_getEnergyEst lastMem last_memory_energy (freq - 1 / 10) in
      bindE (for_ips (knap_times K w lastMem freq (freq - 1 / 10)) (flow_ips w) (0, 0)) (\<lambda>(extra_cpu, extra_ip).
      let extra = extra_cpu + extra_ip - slack; min_index = findMin a (length a) in
      if min_index = 0 then
        let c = gemdroid_core w (dvfs_core K); currTime = memScaledTimeCPU w 0 lastMem freq in
        bindE (knap_search (\<lambda>i.
                 bindE (core_getEnergyEst (lastTimeTook g IP_TYPE_CPU) (lastPowerTook g IP_TYPE_CPU) (getCoreFreq_at c i) c) (\<lambda>nextEnergy.
                 Inr (nextEnergy - lastEnergyTook g IP_TYPE_CPU,
                      currTime - core_getTimeEst currTime (lastFrequency g IP_TYPE_CPU) (getCoreFreq_at c i))))
               saving extra [c_dvfsState c + 1..CORE_DVFS_STATES - 1]) (\<lambda>found.
        case found of None \<Rightarrow> Inr (False, w)
        | Some i \<Rightarrow>
            bindE (on_mem (\<lambda>m. Inr (decMemFreq D 1 m)) w) (\<lambda>w.
            bindE (on_core (dvfs_core K) (setCoreFreqInd i) w) (\<lambda>w. Inr (True, w))))
      else if min_index \<noteq> -99999 then
        let t = IP_TYPES ! nat min_index in
        bindE (getIPInstance t 0 w) (\<lambda>p.
        bindE (memScaledTime K w t (getMaxBandwidth m) (dvfsState p)) (\<lambda>currTime.
        bindE (knap_search (\<lambda>i.
                 bindE (ip_getEnergyEst (lastTimeTook g t) (lastPowerTook g t) (getIPFreq_at p i) p) (\<lambda>nextEnergy.
                 Inr (nextEnergy - lastEnergyTook g t,
                      currTime - ip_getTimeEst currTime (lastFrequency g t) (getIPFreq_at p i))))
               saving extra [dvfsState p + 1..IP_DVFS_STATES - 1]) (\<lambda>found.
        case found of None \<Rightarrow> Inr (False, w)
        | Some i \<Rightarrow>
            bindE (on_mem (\<lambda>m. Inr (decMemFreq D 1 m)) w) (\<lambda>w.
            bindE (withIPInstance t 0 (setIPFreqInd i) w) (\<lambda>w. Inr (True, w))))))
      else Inr (False, w)))"

text \<open>A step that goes on has lowered the memory frequency.\<close>

lemma withIPInstance_un: "withIPInstance t i f w = Inr w' \<Longrightarrow> un w' = un w"
  by (cases t) (auto simp: withIPInstance_def setIPInstance_def)

lemma knap_step_lowers:
  "knap_step D K lastMem a slack w = Inr (True, w') \<Longrightarrow>
   m_freq (mem (un w')) = (if m_freq (mem (un w)) - 1 / 10 \<ge> MIN_MEM_FREQ then m_freq (mem (un w)) - 1 / 10 else MIN_MEM_FREQ)"
  by (auto simp: knap_step_def Let_def on_mem_def on_core_def decMemFreq_def mem_powerIn1ms_def split_beta
      split: if_splits option.splits dest!: withIPInstance_un)

function (sequential) knap_loop ::
  "'d DRAMSim2Wrapper \<Rightarrow> gov \<Rightarrow> real \<Rightarrow> real list \<Rightarrow> real \<Rightarrow> 'd world \<Rightarrow> 'd world result" where
  "knap_loop D K lastMem a slack w =
     (if m_freq (mem (un w)) > MIN_MEM_FREQ + EPSILON then
        bindE (knap_step D K lastMem a slack w) (\<lambda>(reducedMem, w).
        if reducedMem then knap_loop D K lastMem a slack w else Inr w)
      else Inr w)"
  by pat_completeness auto
termination
proof (relation "measure (\<lambda>(D, K, lastMem, a, slack, w). nat \<lceil>10 * (m_freq (mem (un w)) - MIN_MEM_FREQ)\<rceil>)", goal_cases)
  case (2 D K lastMem a slack w x red w')
  then have f: "m_freq (mem (un w')) = (if m_freq (mem (un w)) - 1 / 10 \<ge> 3 / 10 then m_freq (mem (un w)) - 1 / 10 else 3 / 10)"
    by (auto dest: knap_step_lowers)
  have "0 < \<lceil>10 * (m_freq (mem (un w)) - 3 / 10)\<rceil>" using 2(1) by (simp add: zero_less_ceiling)
  moreover have "\<lceil>10 * (m_freq (mem (un w)) - 1 / 10 - 3 / 10)\<rceil> = \<lceil>10 * (m_freq (mem (un w)) - 3 / 10)\<rceil> - 1"
    by (simp add: algebra_simps)
  ultimately show ?case using f by (simp del: ceiling_diff_numeral)
qed simp

declare knap_loop.simps [simp del]

definition dvfsGreedyKnapsack :: "'d DRAMSim2Wrapper \<Rightarrow> gov \<Rightarrow> real \<Rightarrow> 'd world \<Rightarrow> 'd world result" where
  "dvfsGreedyKnapsack D K slack w =
     bindE (energy_per_time K w) (\<lambda>a.
     let lastMem = m_freq (mem (un w)) in
     if slack < 0 then
       bindE (min_consumers D K a (slack, w)) (\<lambda>(slack, w).
       if slack < 0 then bindE (dvfsMemory D K (slack, w)) (\<lambda>(ok, slack, w). Inr w) else Inr w)
     else
       bindE (dvfsMemory D K (slack, w)) (\<lambda>(ok, slack, w).
       if \<bar>m_freq (mem (un w)) - MIN_MEM_FREQ\<bar> < EPSILON \<and> slack > 0 then
         bindE (max_consumers D K 0 a (slack, w)) (\<lambda>(slack, w). Inr w)
       else knap_loop D K lastMem a slack w))"


subsection \<open>The search over all frequencies\<close>

text \<open>The memory frequencies the loops try, from the highest down, and the indices of a table.\<close>

definition mem_steps :: "real \<Rightarrow> real list" where
  "mem_steps lo = takeWhile (\<lambda>m. m \<ge> lo) (map (\<lambda>k. MAX_MEM_FREQ - real k / 10) [0..<11])"

definition down_from :: "int \<Rightarrow> int \<Rightarrow> int list" where
  "down_from hi lo = rev [lo..hi]"

text \<open>The best point so far: its energy and its frequencies.\<close>

record best =
  minEnergy :: real
  b_mem :: real
  b_cpu :: int
  b_ip :: int

text \<open>\<open>better\<close> is \<open><=\<close> in the search over one accelerator and \<open><\<close> in the search over two.\<close>

fun dp_ips ::
  "(real \<Rightarrow> real \<Rightarrow> bool) \<Rightarrow> (int \<Rightarrow> (real \<times> real) result) \<Rightarrow> real \<Rightarrow> int \<Rightarrow> int list \<Rightarrow> best \<Rightarrow> best result" where
  "dp_ips better point m cpu [] b = Inr b"
| "dp_ips better point m cpu (ip # ips) b =
     bindE (point ip) (\<lambda>(time, energy).
     if time > real_of_int FPS_DEADLINE then Inr b
     else dp_ips better point m cpu ips
       (if better energy (minEnergy b) then \<lparr>minEnergy = energy, b_mem = m, b_cpu = cpu, b_ip = ip\<rparr> else b))"

definition dp_devs :: "gov \<Rightarrow> 'd world \<Rightarrow> real \<Rightarrow> int list \<Rightarrow> (real \<times> real) result" where
  "dp_devs K w m devs =
     foldE (\<lambda>i (dev_time, dev_energy).
       bindE (ip_of i) (\<lambda>t.
       bindE (memScaledTime K w t (getMaxBandwidth_at m) (dvfsState (gemdroid_ip_dc w 0))) (\<lambda>x.
       Inr (dev_time + x, dev_energy + lastEnergyTook (gd (un w)) t)))) devs (0, 0)"

definition dp_ip_base :: "gov \<Rightarrow> 'd world \<Rightarrow> IP_TYPE \<Rightarrow> GemDroidIP \<Rightarrow> real \<Rightarrow> real result" where
  "dp_ip_base K w t p m =
     bindE (memScaledTime K w t (getMaxBandwidth_at m) (dvfsState p)) (\<lambda>base.
     let lm = lastMemFreq (gd (un w)) in
     Inr (if m < lm then base + base * (1 / 10) * (lm - m) else base))"

definition dp_ip_point ::
  "GemDroid \<Rightarrow> IP_TYPE \<Rightarrow> GemDroidIP \<Rightarrow> real \<Rightarrow> real \<Rightarrow> real \<Rightarrow> int \<Rightarrow> (real \<times> real) result" where
  "dp_ip_point g t p base other_time other_energy ip =
     bindE (ip_getEnergyEst base (lastPowerTook g t) (getIPFreq_at p ip) p) (\<lambda>ip_energy.
     Inr (other_time + ip_getTimeEst base (lastFrequency g t) (getIPFreq_at p ip), other_energy + ip_energy))"

fun dp1_mems ::
  "'d DRAMSim2Wrapper \<Rightarrow> gov \<Rightarrow> IP_TYPE \<Rightarrow> GemDroidIP \<Rightarrow> int list \<Rightarrow> int list \<Rightarrow> real list \<Rightarrow> best \<times> 'd world \<Rightarrow> (best \<times> 'd world) result"
  where
  "dp1_mems D K t p devs ips [] s = Inr s"
| "dp1_mems D K t p devs ips (m # ms) s =
     (let (b, w) = s; (pw, me) = mem_powerIn1ms D (mem (un w)); w = w\<lparr>un := (un w)\<lparr>mem := me\<rparr>\<rparr>;
          memory_energy = mem_getEnergyEst (m_freq me) (real_of_int (FPS_DEADLINE + FPS_DEADLINE_SAFETYNET) * pw) m in
      bindE (dp_devs K w m devs) (\<lambda>(dev_time, dev_energy).
      if dev_time > real_of_int FPS_DEADLINE then Inr (b, w)
      else
        bindE (dp_ip_base K w t p m) (\<lambda>base.
        bindE (dp_ips (\<le>) (dp_ip_point (gd (un w)) t p base dev_time (memory_energy + dev_energy)) m 0 ips b) (\<lambda>b.
        dp1_mems D K t p devs ips ms (b, w)))))"

definition dvfsDynamicProg1 ::
  "'d DRAMSim2Wrapper \<Rightarrow> gov \<Rightarrow> int list \<Rightarrow> int list \<Rightarrow> 'd world \<Rightarrow> 'd world result" where
  "dvfsDynamicProg1 D K accs devs w =
     bindE (ip_of (accs ! 0)) (\<lambda>t.
     bindE (getIPInstance t 0 w) (\<lambda>p.
     if lastTimeTook (gd (un w)) t = 0 then Inr w
     else
       bindE (dp1_mems D K t p devs (down_from (IP_DVFS_STATES - 1) (dvfsState p - 2)) (mem_steps (MIN_MEM_FREQ + 3 / 10))
                (\<lparr>minEnergy = 9999, b_mem = MAX_MEM_FREQ, b_cpu = 0, b_ip = IP_DVFS_STATES - 1\<rparr>, w)) (\<lambda>(b, w).
       let app = app_id (gd (un w)) 0;
           b = (if app = APP_ID_ANGRYBIRDS \<or> app = APP_ID_MPGAME then b\<lparr>b_mem := 5 / 10, b_ip := trunc (3 / 10)\<rparr> else b) in
       bindE (on_mem (setMemFreq D (b_mem b)) w) (withIPInstance t 0 (setIPFreqInd (b_ip b))))))"

text \<open>The search over two accelerators, of which the first is the CPU.\<close>

fun dp2_cpus ::
  "gov \<Rightarrow> IP_TYPE \<Rightarrow> GemDroidIP \<Rightarrow> 'd world \<Rightarrow> real \<Rightarrow> real \<Rightarrow> real \<Rightarrow> real \<Rightarrow> int list \<Rightarrow> int list \<Rightarrow> best \<Rightarrow> best result" where
  "dp2_cpus K t p w m cpu_base dev_time other_energy ips [] b = Inr b"
| "dp2_cpus K t p w m cpu_base dev_time other_energy ips (cpu # cpus) b =
     (let g = gd (un w); c = gemdroid_core w 0;
          cpu_time = core_getTimeEst cpu_base (lastFrequency g IP_TYPE_CPU) (getCoreFreq_at c cpu) in
      bindE (core_getEnergyEst cpu_base (lastPowerTook g IP_TYPE_CPU) (getCoreFreq_at c cpu) c) (\<lambda>cpu_energy.
      if cpu_time + dev_time > real_of_int FPS_DEADLINE then Inr b
      else
        bindE (dp_ip_base K w t p m) (\<lambda>base.
        bindE (dp_ips (<) (dp_ip_point g t p base (dev_time + cpu_time) (other_energy + cpu_energy)) m cpu ips b) (\<lambda>b.
        dp2_cpus K t p w m cpu_base dev_time other_energy ips cpus b))))"

fun dp2_mems ::
  "'d DRAMSim2Wrapper \<Rightarrow> gov \<Rightarrow> IP_TYPE \<Rightarrow> GemDroidIP \<Rightarrow> int list \<Rightarrow> int list \<Rightarrow> int list \<Rightarrow> real list \<Rightarrow> best \<times> 'd world \<Rightarrow>
   (best \<times> 'd world) result" where
  "dp2_mems D K t p devs cpus ips [] s = Inr s"
| "dp2_mems D K t p devs cpus ips (m # ms) s =
     (let (b, w) = s; (pw, me) = mem_powerIn1ms D (mem (un w)); w = w\<lparr>un := (un w)\<lparr>mem := me\<rparr>\<rparr>;
          memory_energy = mem_getEnergyEst (m_freq me) (real_of_int (FPS_DEADLINE + FPS_DEADLINE_SAFETYNET) * pw) m in
      bindE (dp_devs K w m devs) (\<lambda>(dev_time, dev_energy).
      if dev_time > real_of_int FPS_DEADLINE then Inr (b, w)
      else
        bindE (dp2_cpus K t p w m (memScaledTimeCPU w 0 (m_freq me) m) dev_time (memory_energy + dev_energy) ips cpus b) (\<lambda>b.
        dp2_mems D K t p devs cpus ips ms (b, w))))"

definition dvfsDynamicProg2 ::
  "'d DRAMSim2Wrapper \<Rightarrow> gov \<Rightarrow> int list \<Rightarrow> int list \<Rightarrow> 'd world \<Rightarrow> 'd world result" where
  "dvfsDynamicProg2 D K accs devs w =
     bindE (ip_of (accs ! 1)) (\<lambda>t.
     bindE (getIPInstance t 0 w) (\<lambda>p.
     if lastTimeTook (gd (un w)) t = 0 \<or> lastTimeTook (gd (un w)) IP_TYPE_CPU = 0 then Inr w
     else
       bindE (dp2_mems D K t p devs (down_from (CORE_DVFS_STATES - 1) (c_dvfsState (gemdroid_core w 0) - 2))
                (down_from (IP_DVFS_STATES - 1) (dvfsState p - 2)) (mem_steps MIN_MEM_FREQ)
                (\<lparr>minEnergy = 9999, b_mem = MAX_MEM_FREQ, b_cpu = CORE_DVFS_STATES - 1, b_ip = IP_DVFS_STATES - 1\<rparr>, w)) (\<lambda>(b, w).
       bindE (on_mem (setMemFreq D (b_mem b)) w) (\<lambda>w.
       bindE (on_core 0 (setCoreFreqInd (b_cpu b)) w) (withIPInstance t 0 (setIPFreqInd (b_ip b)))))))"

definition dvfsDynamicProg :: "'d DRAMSim2Wrapper \<Rightarrow> gov \<Rightarrow> 'd world \<Rightarrow> 'd world result" where
  "dvfsDynamicProg D K w =
     (let g = gd (un w);
          (num_accs, accs) = getIPAccsInFlow (flowTable g) (app_id g 0) 0;
          (num_devs, devs) = getIPDevsInFlow (flowTable g) (app_id g 0) 0 in
      if num_accs = 1 then dvfsDynamicProg1 D K accs (take num_devs devs) w
      else if num_accs = 2 then dvfsDynamicProg2 D K accs (take num_devs devs) w
      else Inl (AssertFail ''0''))"


subsection \<open>The CoScale governor\<close>

text \<open>
  The loop that lowers the memory or a component, whichever saves more energy, as long as the time
  stays below \<open>limit\<close>. It ends when both are at their lowest, but only if the memory frequency meets
  its lowest value in steps of 0.1; \<open>fuel\<close> bounds it, and \<open>coscale_loop_enough\<close> shows how much is enough.
  \<open>mem\<close> and \<open>ind\<close> are the frequencies tried, \<open>freq\<close> and \<open>best_ind\<close> those chosen.
\<close>

record coscale =
  cs_mem :: real
  cs_ind :: int
  cs_freq :: real
  cs_best_ind :: int

text \<open>The reduced memory frequency and component state of one round, with their times and energies.\<close>

definition coscale_try ::
  "(real \<Rightarrow> (real \<times> real) result) \<Rightarrow> (real \<Rightarrow> int \<Rightarrow> (real \<times> real) result) \<Rightarrow> int \<Rightarrow> real \<Rightarrow> real \<Rightarrow> real \<Rightarrow> coscale \<Rightarrow>
   (bool \<times> (real \<times> real) \<times> (real \<times> real) \<times> coscale) result" where
  "coscale_try at_mem at_ind ind_min last_mem_energy last_energy min_time s =
     bindE (if \<bar>cs_mem s - MIN_MEM_FREQ\<bar> > EPSILON
            then bindE (at_mem (cs_mem s - 1 / 10)) (\<lambda>te. Inr (te, s\<lparr>cs_mem := cs_mem s - 1 / 10\<rparr>))
            else Inr ((min_time, last_mem_energy), s)) (\<lambda>((memory_time, memory_energy), s).
     if cs_ind s > ind_min then
       bindE (at_ind memory_time (cs_ind s - 1)) (\<lambda>te.
       Inr (True, (memory_time, memory_energy), te, s\<lparr>cs_ind := cs_ind s - 1\<rparr>))
     else
       Inr (\<not> \<bar>cs_mem s - MIN_MEM_FREQ\<bar> < EPSILON, (memory_time, memory_energy), (min_time, last_energy), s))"

definition coscale_choose ::
  "real \<Rightarrow> real \<Rightarrow> real \<Rightarrow> real \<times> real \<Rightarrow> real \<times> real \<Rightarrow> coscale \<Rightarrow> bool \<times> coscale" where
  "coscale_choose limit last_mem_energy last_energy = (\<lambda>(memory_time, memory_energy) (time, energy) s.
     let take_mem = s\<lparr>cs_freq := cs_mem s\<rparr>; take_ind = s\<lparr>cs_best_ind := cs_ind s\<rparr> in
     if last_mem_energy - memory_energy > last_energy - energy then
       if memory_time < limit then (True, take_mem) else if time < limit then (True, take_ind) else (False, s)
     else
       if time < limit then (True, take_ind) else if memory_time < limit then (True, take_mem) else (False, s))"

fun coscale_loop ::
  "nat \<Rightarrow> (real \<Rightarrow> (real \<times> real) result) \<Rightarrow> (real \<Rightarrow> int \<Rightarrow> (real \<times> real) result) \<Rightarrow> int \<Rightarrow> real \<Rightarrow> real \<Rightarrow> real \<Rightarrow> real \<Rightarrow>
   coscale \<Rightarrow> coscale result" where
  "coscale_loop 0 at_mem at_ind ind_min last_mem_energy last_energy min_time limit s = Inl (OutOfBounds ''fuel'')"
| "coscale_loop (Suc n) at_mem at_ind ind_min last_mem_energy last_energy min_time limit s =
     bindE (coscale_try at_mem at_ind ind_min last_mem_energy last_energy min_time s) (\<lambda>(goes_on, m, c, s).
     if \<not> goes_on then Inr s
     else
       let (chosen, s) = coscale_choose limit last_mem_energy last_energy m c s in
       if chosen then coscale_loop n at_mem at_ind ind_min last_mem_energy last_energy min_time limit s else Inr s)"

fun coscale_dev :: "nat \<Rightarrow> (real \<Rightarrow> real result) \<Rightarrow> real \<Rightarrow> real \<times> real \<Rightarrow> (real \<times> real) result" where
  "coscale_dev 0 at_mem limit s = Inl (OutOfBounds ''fuel'')"
| "coscale_dev (Suc n) at_mem limit (m, freq) =
     (if \<bar>m - MIN_MEM_FREQ\<bar> > EPSILON then
        bindE (at_mem (m - 1 / 10)) (\<lambda>memory_time.
        if memory_time < limit then coscale_dev n at_mem limit (m - 1 / 10, m - 1 / 10) else Inr (m - 1 / 10, freq))
      else Inr (m, freq))"

abbreviation (input) COSCALE_FUEL :: nat where "COSCALE_FUEL \<equiv> 32"

text \<open>What the loop over the flow carries: the highest memory frequency so far, and the variables of the loops.\<close>

record 'd coscale_run =
  cr_max :: real
  cr_mem_freq :: real
  cr_mem :: real
  cr_cpu_freq :: int
  cr_cpu :: int
  cr_world :: "'d world"

definition mem_epoch_energy :: "'d DRAMSim2Wrapper \<Rightarrow> 'd world \<Rightarrow> real \<times> 'd world" where
  "mem_epoch_energy D w =
     (let (pw, m) = mem_powerIn1ms D (mem (un w)) in
      (real_of_int (FPS_DEADLINE + FPS_DEADLINE_SAFETYNET) * pw, w\<lparr>un := (un w)\<lparr>mem := m\<rparr>\<rparr>))"

definition coscale_cpu :: "'d DRAMSim2Wrapper \<Rightarrow> gov \<Rightarrow> 'd coscale_run \<Rightarrow> 'd coscale_run result" where
  "coscale_cpu D K r =
     (let (last_mem_energy, w) = mem_epoch_energy D (cr_world r);
          g = gd (un w); c = gemdroid_core w 0; freq = m_freq (mem (un w));
          last_energy = lastEnergyTook g IP_TYPE_CPU;
          min_time = core_getTimeEst (memScaledTimeCPU w 0 freq MAX_MEM_FREQ) (getCoreFreq c) (vf_freq (cvft c (CORE_DVFS_STATES - 1))) in
      bindE (if lastTimeTook g IP_TYPE_CPU > sweep_val2 K * min_time then
               Inr \<lparr>cs_mem = cr_mem r, cs_ind = cr_cpu r,
                    cs_freq = (if cr_mem_freq r < MAX_MEM_FREQ then cr_mem_freq r + 1 / 10 else cr_mem_freq r),
                    cs_best_ind = (if cr_cpu_freq r < CORE_DVFS_STATES - 1 then cr_cpu_freq r + 1 else cr_cpu_freq r)\<rparr>
             else
               coscale_loop COSCALE_FUEL
                 (\<lambda>m. Inr (memScaledTimeCPU w 0 freq m, mem_getEnergyEst freq last_mem_energy m))
                 (\<lambda>memory_time k.
                    bindE (core_getEnergyEst memory_time (lastPowerTook g IP_TYPE_CPU) (getCoreFreq_at c k) c) (\<lambda>energy.
                    Inr (core_getTimeEst memory_time (lastFrequency g IP_TYPE_CPU) (getCoreFreq_at c k), energy)))
                 (optDVFSState c) last_mem_energy last_energy min_time (min_time * sweep_val1 K)
                 \<lparr>cs_mem = cr_mem r, cs_ind = cr_cpu r, cs_freq = cr_mem_freq r, cs_best_ind = cr_cpu_freq r\<rparr>) (\<lambda>s.
      bindE (on_core 0 (setCoreFreqInd (cs_best_ind s)) w) (\<lambda>w.
      Inr (r\<lparr>cr_max := max (cr_max r) (cs_freq s), cr_mem_freq := cs_freq s, cr_mem := cs_mem s,
             cr_cpu_freq := cs_best_ind s, cr_cpu := cs_ind s, cr_world := w\<rparr>))))"

definition coscale_ip :: "'d DRAMSim2Wrapper \<Rightarrow> gov \<Rightarrow> IP_TYPE \<Rightarrow> GemDroidIP \<Rightarrow> 'd coscale_run \<Rightarrow> 'd coscale_run result" where
  "coscale_ip D K t p r =
     (let w = cr_world r; g = gd (un w); freq = m_freq (mem (un w)); last_energy = lastEnergyTook g t in
      bindE (memScaledTime K w t (getMaxBandwidth_at MAX_MEM_FREQ) (dvfsState p)) (\<lambda>min_base.
      let min_time = ip_getTimeEst min_base (getIPFreq p) (vf_freq (vft p (IP_DVFS_STATES - 1)));
          (last_mem_energy, w) = mem_epoch_energy D w in
      bindE (if lastTimeTook g t > sweep_val2 K * min_time then
               Inr \<lparr>cs_mem = cr_mem r, cs_ind = dvfsState p,
                    cs_freq = (if cr_mem_freq r < MAX_MEM_FREQ then cr_mem_freq r + 1 / 10 else cr_mem_freq r),
                    cs_best_ind = (if 0 < IP_DVFS_STATES - 1 then 0 + 1 else 0)\<rparr>
             else
               coscale_loop COSCALE_FUEL
                 (\<lambda>m. bindE (memScaledTime K w t (getMaxBandwidth_at m) (dvfsState p)) (\<lambda>x.
                    let lm = lastMemFreq g in
                    Inr (if m < lm then x + x * (10 / 100) * (lm - m) else x, mem_getEnergyEst freq last_mem_energy m)))
                 (\<lambda>memory_time k.
                    bindE (ip_getEnergyEst memory_time (lastPowerTook g t) (getIPFreq_at p k) p) (\<lambda>energy.
                    Inr (ip_getTimeEst memory_time (lastFrequency g t) (getIPFreq_at p k), energy)))
                 (m_optDVFSState p) last_mem_energy last_energy min_time (min_time * sweep_val1 K)
                 \<lparr>cs_mem = cr_mem r, cs_ind = dvfsState p, cs_freq = cr_mem_freq r, cs_best_ind = 0\<rparr>) (\<lambda>s.
      bindE (withIPInstance t 0 (setIPFreqInd (cs_best_ind s)) w) (\<lambda>w.
      Inr (r\<lparr>cr_max := max (cr_max r) (cs_freq s), cr_mem_freq := cs_freq s, cr_mem := cs_mem s, cr_world := w\<rparr>)))))"

definition coscale_device :: "'d DRAMSim2Wrapper \<Rightarrow> gov \<Rightarrow> IP_TYPE \<Rightarrow> GemDroidIP \<Rightarrow> 'd coscale_run \<Rightarrow> 'd coscale_run result" where
  "coscale_device D K t p r =
     (let (last_mem_energy, w) = mem_epoch_energy D (cr_world r) in
      bindE (memScaledTime K w t (getMaxBandwidth_at MAX_MEM_FREQ) (dvfsState p)) (\<lambda>min_time.
      bindE (if lastTimeTook (gd (un w)) t > sweep_val2 K * min_time then
               Inr (cr_mem r, if cr_mem_freq r < MAX_MEM_FREQ then cr_mem_freq r + 1 / 10 else cr_mem_freq r)
             else
               coscale_dev COSCALE_FUEL (\<lambda>m. memScaledTime K w t (getMaxBandwidth_at m) (dvfsState p))
                 (min_time * sweep_val1 K) (cr_mem r, cr_mem_freq r)) (\<lambda>(m, freq).
      Inr (r\<lparr>cr_max := max (cr_max r) freq, cr_mem_freq := freq, cr_mem := m, cr_world := w\<rparr>))))"

definition dvfsCoScaleNewNew :: "'d DRAMSim2Wrapper \<Rightarrow> gov \<Rightarrow> 'd world \<Rightarrow> 'd world result" where
  "dvfsCoScaleNewNew D K w =
     (let freq = m_freq (mem (un w)); st = c_dvfsState (gemdroid_core w 0) in
      bindE (for_ips (\<lambda>ip r.
               let w = cr_world r in
               if ip = IP_TYPE_CPU then
                 if lastTimeTook (gd (un w)) ip > 0 \<and> cpu_pstate (gemdroid_core w 0) = CPU_PSTATE_ACTIVE
                 then coscale_cpu D K r else Inr r
               else if lastTimeTook (gd (un w)) ip > 0 then
                 bindE (getIPInstance ip 0 w) (\<lambda>p.
                 if power_state p \<noteq> ip_active then Inr r
                 else if ip \<ge> IP_TYPE_VD then coscale_ip D K ip p r
                 else coscale_device D K ip p r)
               else Inr r) (flow_ips w)
               \<lparr>cr_max = 0, cr_mem_freq = freq, cr_mem = freq, cr_cpu_freq = st, cr_cpu = st, cr_world = w\<rparr>) (\<lambda>r.
      if cr_max r \<noteq> 0 then on_mem (setMemFreq D (cr_max r)) (cr_world r) else Inr (cr_world r)))"

subsection \<open>At the end of an epoch\<close>

definition run_governor :: "'d DRAMSim2Wrapper \<Rightarrow> gov \<Rightarrow> bool \<Rightarrow> real \<Rightarrow> 'd world \<Rightarrow> 'd world result" where
  "run_governor D K doFrame slack w =
     (let when = (\<lambda>f. if doFrame then f w else Inr w) in
      case governor (gd (un w)) of
        GOVERNOR_TYPE_PERFORMANCE \<Rightarrow> Inr w
      | GOVERNOR_TYPE_POWERSAVE \<Rightarrow> Inr w
      | GOVERNOR_TYPE_OPTIMAL \<Rightarrow> Inr w
      | GOVERNOR_TYPE_SLACK \<Rightarrow> when (dvfsFixedPriority D K slack)
      | GOVERNOR_TYPE_CORE_ORACLE \<Rightarrow> when (dvfsCoreOracle slack)
      | GOVERNOR_TYPE_SLACK_FAR_ENERGY \<Rightarrow> when (dvfsParetoEfficient D K slack)
      | GOVERNOR_TYPE_SLACK_MAXENERGY_CONSUMER \<Rightarrow> when (dvfsMaxEnergyConsumer D K slack)
      | GOVERNOR_TYPE_SLACK_MAXPOWER_CONSUMER \<Rightarrow> when (dvfsMaxPowerConsumer D K slack)
      | GOVERNOR_TYPE_SLACK_MAXENERGYPERTIME_CONSUMER \<Rightarrow> when (dvfsMaxEnergyPerTimeConsumer D K slack)
      | GOVERNOR_TYPE_SLACK_KNAPSACK \<Rightarrow> when (dvfsGreedyKnapsack D K slack)
      | GOVERNOR_TYPE_COSCALE \<Rightarrow> when (dvfsCoScaleNewNew D K)
      | GOVERNOR_TYPE_MEMSCALE \<Rightarrow> when (dvfsMemScale D K slack)
      | GOVERNOR_TYPE_DYNAMICPROG \<Rightarrow> when (dvfsDynamicProg D K)
      | _ \<Rightarrow> dvfsLoadBased w)"

definition updateDVFS :: "'d DRAMSim2Wrapper \<Rightarrow> gov \<Rightarrow> 'd world \<Rightarrow> (gov \<times> 'd world) result" where
  "updateDVFS D K w =
     (let g = gd (un w); K = K\<lparr>dvfs_core := 0\<rparr> in
      bindE (assertE ''enableDVFS'' (enableDVFS K)) (\<lambda>_.
      bindE (getLastSlack (flowTable g) (\<lambda>i. lastTimeTook g (IP_TYPES ! nat i)) (app_id g 0) 0) (\<lambda>slack.
      if slack = real_of_int FPS_DEADLINE then Inr (K, w)
      else
        let doFrame = (if governor_timing K = GOVERNOR_TIMING_FRAME_BOUNDARIES then doSlackDVFS K else True) in
        bindE (foldE (\<lambda>i. on_core i (\<lambda>c. Inr (core_updateDVFS (governor g) c))) (CPU_CORES w) w) (\<lambda>w.
        bindE (each_inst IP_TYPE_DC IP_TYPE_GPU (\<lambda>t j. withIPInstance t j (\<lambda>p. Inr (ip_updateDVFS p))) w) (\<lambda>w.
        bindE (run_governor D K doFrame slack w) (\<lambda>w. Inr (K, w)))))))"

end
