(* ===== verification/GD_Choice.thy ===== *)
theory GD_Choice
  imports GD_Governors
begin

section \<open>What the governors choose\<close>

text \<open>
  The search functions of \<open>gemdroid_dvfs.cc\<close> against their specification, the order in which the
  consumption governors serve the components, what the memory governor does with the slack, and
  that the CoScale loops end.
\<close>

subsection \<open>Searching\<close>

text \<open>The loops of \<open>findMax\<close> and \<open>findMin\<close>, for any choice of entries and any order.\<close>

definition scan :: "(nat \<Rightarrow> bool) \<Rightarrow> (real \<Rightarrow> real \<Rightarrow> bool) \<Rightarrow> real list \<Rightarrow> nat \<Rightarrow> real \<times> int \<Rightarrow> real \<times> int" where
  "scan P lt a n s = fold (\<lambda>i (v, k). if P i \<and> lt (a ! i) v then (a ! i, int i) else (v, k)) [0..<n] s"

definition firstBest :: "(nat \<Rightarrow> bool) \<Rightarrow> (real \<Rightarrow> real \<Rightarrow> bool) \<Rightarrow> real list \<Rightarrow> nat \<Rightarrow> nat \<Rightarrow> bool" where
  "firstBest P lt a n i \<longleftrightarrow> i < n \<and> P i \<and> (\<forall>j<i. P j \<longrightarrow> lt (a ! i) (a ! j)) \<and> (\<forall>j<n. P j \<longrightarrow> \<not> lt (a ! j) (a ! i))"

lemma scan_spec:
  assumes lt: "\<And>x y z. lt x y \<Longrightarrow> \<not> lt z y \<Longrightarrow> lt x z" "\<And>x y. lt x y \<Longrightarrow> \<not> lt y x"
    and init: "\<And>i. i < n \<Longrightarrow> P i \<Longrightarrow> lt (a ! i) v"
  shows "if \<exists>i<n. P i then \<exists>i. firstBest P lt a n i \<and> scan P lt a n (v, k) = (a ! i, int i)
    else scan P lt a n (v, k) = (v, k)"
  using init
proof (induction n)
  case (Suc n)
  have step: "scan P lt a (Suc n) (v, k) =
      (let (u, j) = scan P lt a n (v, k) in if P n \<and> lt (a ! n) u then (a ! n, int n) else (u, j))"
    by (simp add: scan_def Let_def)
  show ?case
  proof (cases "\<exists>i<n. P i")
    case True
    then obtain i where i: "firstBest P lt a n i" "scan P lt a n (v, k) = (a ! i, int i)" using Suc by auto
    show ?thesis
    proof (cases "P n \<and> lt (a ! n) (a ! i)")
      case upd: True
      have b: "lt (a ! n) (a ! j)" if "j < n" "P j" for j
        using lt(1) [of "a ! n" "a ! i" "a ! j"] upd i(1) that by (simp add: firstBest_def)
      then have "firstBest P lt a (Suc n) n" using upd lt(2) by (auto simp: firstBest_def less_Suc_eq)
      with i(2) step True upd show ?thesis by (auto simp: less_Suc_eq)
    next
      case False
      then have "firstBest P lt a (Suc n) i" using i(1) by (auto simp: firstBest_def less_Suc_eq)
      with i(2) step True False show ?thesis by (auto simp: less_Suc_eq)
    qed
  next
    case False
    then have s: "scan P lt a n (v, k) = (v, k)" using Suc by auto
    show ?thesis
    proof (cases "P n")
      case True
      with False lt(2) have "firstBest P lt a (Suc n) n" by (auto simp: firstBest_def less_Suc_eq)
      with s step True Suc.prems [of n] show ?thesis by auto
    qed (use False s step in \<open>auto simp: less_Suc_eq\<close>)
  qed
qed (simp add: scan_def)

lemma firstBest_unique: "firstBest P lt a n i \<Longrightarrow> firstBest P lt a n j \<Longrightarrow> i = j"
  unfolding firstBest_def by (metis linorder_neqE_nat)

lemma findMax_scan: "findMax a n = snd (scan (\<lambda>_. True) (>) a n (- DBL_MAX, -99999))"
  by (simp add: findMax_def scan_def split_beta)

lemma findMin_scan: "findMin a n = snd (scan (\<lambda>i. a ! i \<noteq> 0) (<) a n (DBL_MAX, -99999))"
  by (simp add: findMin_def scan_def split_beta)

lemma findMax_cases:
  assumes "\<And>i. i < n \<Longrightarrow> - DBL_MAX < a ! i"
  obtains (none) "n = 0" "findMax a n = -99999"
  | (found) i where "firstBest (\<lambda>_. True) (>) a n i" "findMax a n = int i"
proof -
  have "if n \<noteq> 0 then \<exists>i. firstBest (\<lambda>_. True) (>) a n i \<and> scan (\<lambda>_. True) (>) a n (- DBL_MAX, -99999) = (a ! i, int i)
    else scan (\<lambda>_. True) (>) a n (- DBL_MAX, -99999) = (- DBL_MAX, -99999)"
    using scan_spec [of "(>)" n "\<lambda>_. True" a "- DBL_MAX" "-99999"] assms exI [of "\<lambda>i. i < n" 0] by (cases "n = 0") auto
  then show thesis using that by (cases "n = 0") (auto simp: findMax_scan)
qed

lemma findMin_cases:
  assumes "\<And>i. i < n \<Longrightarrow> a ! i < DBL_MAX"
  obtains (none) "\<forall>i<n. a ! i = 0" "findMin a n = -99999"
  | (found) i where "firstBest (\<lambda>i. a ! i \<noteq> 0) (<) a n i" "findMin a n = int i"
proof -
  have "if \<exists>i<n. a ! i \<noteq> 0 then \<exists>i. firstBest (\<lambda>i. a ! i \<noteq> 0) (<) a n i \<and> scan (\<lambda>i. a ! i \<noteq> 0) (<) a n (DBL_MAX, -99999) = (a ! i, int i)
    else scan (\<lambda>i. a ! i \<noteq> 0) (<) a n (DBL_MAX, -99999) = (DBL_MAX, -99999)"
    using scan_spec [of "(<)" n "\<lambda>i. a ! i \<noteq> 0" a DBL_MAX "-99999"] assms by auto
  then show thesis using that by (cases "\<exists>i<n. a ! i \<noteq> 0") (auto simp: findMin_scan)
qed

subsection \<open>The order of service\<close>

text \<open>A stable sort begins with the first of its least elements.\<close>

lemma sort_key_first:
  assumes "\<forall>x\<in>set l. f m < f x" "\<forall>x\<in>set r. f m \<le> f x"
  shows "sort_key f (l @ m # r) = m # sort_key f (l @ r)"
proof (rule properties_for_sort_key)
  show "mset (m # sort_key f (l @ r)) = mset (l @ m # r)" by simp
  show "sorted (map f (m # sort_key f (l @ r)))" using assms by (auto simp: less_imp_le)
  fix k
  have e: "filter (\<lambda>x. f k = f x) l = []" if "f k = f m" using assms(1) that by (auto simp: filter_empty_conv)
  have "filter (\<lambda>x. f k = f x) (sort_key f (l @ r)) = filter (\<lambda>x. f k = f x) (l @ r)"
    using sort_key_stable [of f "f k" "l @ r"] by (simp add: eq_commute)
  then show "filter (\<lambda>x. f k = f x) (m # sort_key f (l @ r)) = filter (\<lambda>x. f k = f x) (l @ m # r)"
    using e by (cases "f k = f m") simp_all
qed

lemma sort_key_agree: "(\<And>x. x \<in> set xs \<Longrightarrow> f x = g x) \<Longrightarrow> sort_key f xs = sort_key g xs"
proof -
  assume a: "\<And>x. x \<in> set xs \<Longrightarrow> f x = g x"
  show ?thesis
  proof (rule properties_for_sort_key)
    have "map f (sort_key g xs) = map g (sort_key g xs)" using a by simp
    then show "sorted (map f (sort_key g xs))" using sorted_sort_key [of g xs] by metis
    fix k assume k: "k \<in> set (sort_key g xs)"
    have "filter (\<lambda>x. f k = f x) (sort_key g xs) = filter (\<lambda>x. g x = g k) (sort_key g xs)"
      using a k by (intro filter_cong) auto
    also have "\<dots> = filter (\<lambda>x. f k = f x) xs" using a k by (subst sort_key_stable) (intro filter_cong, auto)
    finally show "filter (\<lambda>x. f k = f x) (sort_key g xs) = filter (\<lambda>x. f k = f x) xs" .
  qed simp
qed

definition served :: "real \<Rightarrow> real list \<Rightarrow> nat list" where
  "served thr a = filter (\<lambda>i. a ! i > thr) [0..<length a]"

lemma served_split:
  assumes "i < length a" "a ! i > thr" "0 \<le> thr"
  shows "served thr a = filter (\<lambda>i. a ! i > thr) [0..<i] @ i # filter (\<lambda>i. a ! i > thr) [Suc i..<length a]"
    "served thr (a[i := 0]) = filter (\<lambda>i. a ! i > thr) [0..<i] @ filter (\<lambda>i. a ! i > thr) [Suc i..<length a]"
proof -
  have u: "[0..<length a] = [0..<i] @ i # [Suc i..<length a]"
    using assms(1) upt_add_eq_append [of 0 i "length a - i"] by (simp add: upt_conv_Cons)
  from u assms show "served thr a = filter (\<lambda>i. a ! i > thr) [0..<i] @ i # filter (\<lambda>i. a ! i > thr) [Suc i..<length a]"
    by (simp add: served_def)
  have "filter (\<lambda>j. a[i := 0] ! j > thr) xs = filter (\<lambda>j. a ! j > thr) xs" if "i \<notin> set xs" for xs
    using that by (intro filter_cong refl) (metis nth_list_update_neq)
  with assms u show "served thr (a[i := 0]) = filter (\<lambda>i. a ! i > thr) [0..<i] @ filter (\<lambda>i. a ! i > thr) [Suc i..<length a]"
    by (simp add: served_def)
qed

lemma served_order:
  assumes "i < length a" "a ! i > thr" "0 \<le> thr"
    and "\<And>j. j < i \<Longrightarrow> a ! j > thr \<Longrightarrow> f (a ! i) < (f (a ! j) :: real)" "\<And>j. j < length a \<Longrightarrow> a ! j > thr \<Longrightarrow> f (a ! i) \<le> f (a ! j)"
  shows "sort_key (\<lambda>j. f (a ! j)) (served thr a) = i # sort_key (\<lambda>j. f (a[i := 0] ! j)) (served thr (a[i := 0]))"
proof -
  have "sort_key (\<lambda>j. f (a ! j)) (served thr a) = i # sort_key (\<lambda>j. f (a ! j)) (served thr (a[i := 0]))"
    unfolding served_split [OF assms(1-3)] by (rule sort_key_first) (use assms(4,5) in auto)
  also have "sort_key (\<lambda>j. f (a ! j)) (served thr (a[i := 0])) = sort_key (\<lambda>j. f (a[i := 0] ! j)) (served thr (a[i := 0]))"
    using assms(1,3) by (intro sort_key_agree) (auto simp: served_def nth_list_update)
  finally show ?thesis .
qed


text \<open>Serving stops early where the slack is used up the other way round: once there is some again.\<close>

fun serve_until :: "(nat \<Rightarrow> real \<times> 'w \<Rightarrow> (real \<times> 'w) result) \<Rightarrow> nat list \<Rightarrow> real \<times> 'w \<Rightarrow> (real \<times> 'w) result" where
  "serve_until f [] s = Inr s"
| "serve_until f (i # is) s = bindE (f i s) (\<lambda>s. if fst s > 0 then Inr s else serve_until f is s)"

lemma DBL_MAX_pos: "0 < DBL_MAX"
  by (simp add: DBL_MAX_def)

lemma max_consumers_order:
  assumes "0 \<le> thr" "\<forall>x\<in>set a. - DBL_MAX < x"
  shows "max_consumers D K thr a s =
    foldE (\<lambda>i. setDVFSSlackFrequencies D K (IP_TYPES ! i)) (sort_key (\<lambda>i. - (a ! i)) (served thr a)) s"
  using assms
proof (induction D K thr a s rule: max_consumers.induct)
  case (1 D K thr a s)
  have e: "served thr a = []" if "\<And>i. i < length a \<Longrightarrow> a ! i \<le> thr"
    using that by (auto simp: served_def filter_empty_conv not_less)
  from 1(3) have "\<And>i. i < length a \<Longrightarrow> - DBL_MAX < a ! i" by simp
  then consider (none) "length a = 0" "findMax a (length a) = -99999"
    | (found) i where "firstBest (\<lambda>_. True) (>) a (length a) i" "findMax a (length a) = int i"
    using findMax_cases [of "length a" a] by blast
  then show ?case
  proof cases
    case none
    then show ?thesis by (subst max_consumers.simps) (simp add: served_def entry_over_def)
  next
    case (found i)
    then have i: "i < length a" "\<And>j. j < i \<Longrightarrow> - (a ! i) < - (a ! j)" "\<And>j. j < length a \<Longrightarrow> - (a ! i) \<le> - (a ! j)"
      by (auto simp: firstBest_def not_less)
    show ?thesis
    proof (cases "a ! i > thr")
      case True
      with found(2) i(1) 1(2) have o: "entry_over thr a (findMax a (length a))" by (simp add: entry_over_def)
      have a': "\<forall>x\<in>set (a[i := 0]). - DBL_MAX < x" using 1(3) DBL_MAX_pos by (auto dest: set_update_subset_insert [THEN subsetD])
      have step: "max_consumers D K thr a s =
          bindE (setDVFSSlackFrequencies D K (IP_TYPES ! i) s) (max_consumers D K thr (a[i := 0]))"
        by (subst max_consumers.simps) (use o found(2) in simp)
      have "sort_key (\<lambda>j. - (a ! j)) (served thr a) = i # sort_key (\<lambda>j. - (a[i := 0] ! j)) (served thr (a[i := 0]))"
        using served_order [of i a thr uminus] i True 1(2) by simp
      then show ?thesis unfolding step using 1(1) [OF refl o _ 1(2)] a' found(2) by (auto intro: bindE_cong)
    next
      case False
      with i(3) have "\<And>j. j < length a \<Longrightarrow> a ! j \<le> thr" by force
      then show ?thesis by (subst max_consumers.simps) (use found(2) False in \<open>simp add: e entry_over_def\<close>)
    qed
  qed
qed

lemma min_consumers_order:
  assumes "\<forall>x\<in>set a. 0 \<le> x \<and> x < DBL_MAX"
  shows "min_consumers D K a s =
    serve_until (\<lambda>i. setDVFSSlackFrequencies D K (IP_TYPES ! i)) (sort_key (\<lambda>i. a ! i) (served 0 a)) s"
  using assms
proof (induction D K a s rule: min_consumers.induct)
  case (1 D K a s)
  from 1(2) have "\<And>i. i < length a \<Longrightarrow> a ! i < DBL_MAX" by simp
  then consider (none) "\<forall>i<length a. a ! i = 0" "findMin a (length a) = -99999"
    | (found) i where "firstBest (\<lambda>i. a ! i \<noteq> 0) (<) a (length a) i" "findMin a (length a) = int i"
    using findMin_cases [of "length a" a] by blast
  then show ?case
  proof cases
    case none
    then have "served 0 a = []" by (auto simp: served_def filter_empty_conv)
    with none show ?thesis by (subst min_consumers.simps) (simp add: entry_over_def)
  next
    case (found i)
    have nn: "0 \<le> a ! j" if "j < length a" for j using 1(2) that by simp
    have i: "i < length a" "0 < a ! i" "\<And>j. j < i \<Longrightarrow> 0 < a ! j \<Longrightarrow> a ! i < a ! j" "\<And>j. j < length a \<Longrightarrow> 0 < a ! j \<Longrightarrow> a ! i \<le> a ! j"
      using found(1) nn [of i] by (auto simp: firstBest_def not_less)
    with found(2) have o: "entry_over 0 a (findMin a (length a))" by (simp add: entry_over_def)
    have a': "\<forall>x\<in>set (a[i := 0]). 0 \<le> x \<and> x < DBL_MAX" using 1(2) DBL_MAX_pos by (auto dest: set_update_subset_insert [THEN subsetD])
    have step: "min_consumers D K a s =
        bindE (setDVFSSlackFrequencies D K (IP_TYPES ! i) s) (\<lambda>s. if fst s > 0 then Inr s else min_consumers D K (a[i := 0]) s)"
      by (subst min_consumers.simps) (use o found(2) in \<open>auto intro!: bindE_cong\<close>)
    have "sort_key (\<lambda>j. a ! j) (served 0 a) = i # sort_key (\<lambda>j. a[i := 0] ! j) (served 0 (a[i := 0]))"
      using served_order [of i a 0 "\<lambda>x. x"] i by simp
    moreover have "min_consumers D K (a[i := 0]) v =
        serve_until (\<lambda>i. setDVFSSlackFrequencies D K (IP_TYPES ! i)) (sort_key (\<lambda>j. a[i := 0] ! j) (served 0 (a[i := 0]))) v"
      if "setDVFSSlackFrequencies D K (IP_TYPES ! i) s = Inr v" "\<not> 0 < fst v" for v
      using 1(1) [OF refl o] that a' found(2) by (cases v) simp
    ultimately show ?thesis unfolding step by (auto intro!: bindE_cong)
  qed
qed


subsection \<open>Memory\<close>

lemma for_ips_inv:
  assumes "\<And>ip s s'. f ip s = Inr s' \<Longrightarrow> R s s'" "\<And>s. R s s" "\<And>a b c. R a b \<Longrightarrow> R b c \<Longrightarrow> R a c"
  shows "for_ips f ips s = Inr s' \<Longrightarrow> R s s'"
proof (induction ips arbitrary: s)
  case (Cons i ips)
  show ?case
  proof (cases "i = -1")
    case False
    with Cons.prems obtain ip t where t: "f ip s = Inr t" "for_ips f ips t = Inr s'" by auto
    from assms(3) [OF assms(1) [OF t(1)] Cons.IH [OF t(2)]] show ?thesis .
  qed (use Cons.prems assms(2) in simp)
qed simp

lemma mem_raise_gives_nothing: "for_ips (mem_raise_time K w orig freq) ips extra = Inr extra' \<Longrightarrow> extra' = extra"
  by (erule for_ips_inv [where R = "\<lambda>x y. y = x", rotated 3]) (auto simp: mem_raise_time_def)

lemma mem_lower_costs: "for_ips (mem_lower_time K w orig freq) ips extra = Inr extra' \<Longrightarrow> extra \<le> extra'"
  by (erule for_ips_inv [where R = "(\<le>)", rotated 3]) (auto simp: mem_lower_time_def Let_def split: if_splits)

lemma m_freq_on_mem: "on_mem (setMemFreq D f) w = Inr w' \<Longrightarrow>
  m_freq (mem (un w')) = f \<and> MIN_MEM_FREQ - EPSILON \<le> f \<and> f \<le> MAX_MEM_FREQ + EPSILON"
  by (auto simp: on_mem_def setMemFreq_def applyMemFreq_def)

lemma mem_lower_spec:
  "mem_lower D K slack min_mem orig freq extra correct w = Inr (c, w') \<Longrightarrow> m_freq (mem (un w)) = freq \<Longrightarrow> correct \<le> extra \<Longrightarrow>
   0 \<le> correct \<Longrightarrow> correct \<le> slack \<Longrightarrow>
   0 \<le> c \<and> c \<le> slack \<and> m_freq (mem (un w')) \<le> freq"
proof (induction D K slack min_mem orig freq extra correct w rule: mem_lower.induct)
  case (1 D K slack min_mem orig freq extra correct w)
  show ?case
  proof (cases "\<bar>freq - min_mem\<bar> > EPSILON")
    case True
    with 1(2) obtain x where x: "for_ips (mem_lower_time K w orig (freq - 1 / 10)) (flow_ips w) extra = Inr x"
      and rest: "if x > slack then (c, w') = (correct, w) else
        (\<exists>v. on_mem (setMemFreq D (freq - 1 / 10)) w = Inr v \<and> mem_lower D K slack min_mem orig (freq - 1 / 10) x x v = Inr (c, w'))"
      by (subst (asm) mem_lower.simps) (auto simp: Let_def split: if_splits)
    show ?thesis
    proof (cases "x > slack")
      case False
      with rest obtain v where v: "on_mem (setMemFreq D (freq - 1 / 10)) w = Inr v"
        "mem_lower D K slack min_mem orig (freq - 1 / 10) x x v = Inr (c, w')" by auto
      have "0 \<le> x" using mem_lower_costs [OF x] 1(4,5) by simp
      with 1(1) [OF True refl x False v] m_freq_on_mem [OF v(1)] False show ?thesis by auto
    qed (use 1 rest in simp)
  qed (use 1 in \<open>simp add: mem_lower.simps [of D K slack]\<close>)
qed

subsection \<open>The CoScale loops\<close>

lemma coscale_try_progress:
  assumes "coscale_try at_mem at_ind lo e1 e2 t s = Inr (on, m, c, s')" "cs_mem s = MIN_MEM_FREQ + real k / 10"
  shows "cs_mem s' = MIN_MEM_FREQ + real (k - 1) / 10 \<and> nat (cs_ind s' - lo) = nat (cs_ind s - lo) - 1 \<and>
    on = (cs_ind s > lo \<or> k > 1)"
proof (cases k)
  case 0
  with assms show ?thesis by (auto simp: coscale_try_def split: if_splits)
next
  case (Suc j)
  then have far: "\<bar>cs_mem s - MIN_MEM_FREQ\<bar> > EPSILON" "cs_mem s - 1 / 10 = MIN_MEM_FREQ + real j / 10"
    using assms(2) by (auto simp: field_simps)
  have near: "\<bar>real j / 10\<bar> < EPSILON \<longleftrightarrow> j = 0" by (cases j) auto
  show ?thesis
    using assms(1) far(1) near Suc unfolding coscale_try_def far(2) by (auto split: if_splits)
qed

lemma coscale_choose_keeps: "coscale_choose limit e1 e2 m c s = (b, s') \<Longrightarrow> cs_mem s' = cs_mem s \<and> cs_ind s' = cs_ind s"
  by (auto simp: coscale_choose_def Let_def split: prod.splits if_splits)

lemma coscale_loop_enough:
  "cs_mem s = MIN_MEM_FREQ + real k / 10 \<Longrightarrow> n > max k (nat (cs_ind s - lo)) \<Longrightarrow>
   coscale_loop n at_mem at_ind lo e1 e2 t limit s = coscale_loop (Suc (max k (nat (cs_ind s - lo)))) at_mem at_ind lo e1 e2 t limit s"
proof (induction "max k (nat (cs_ind s - lo))" arbitrary: k s n)
  case 0
  then obtain n' where "n = Suc n'" by (cases n) auto
  moreover have "\<not> on" if "coscale_try at_mem at_ind lo e1 e2 t s = Inr (on, m, c, s')" for on m c s'
    using coscale_try_progress [OF that 0(2)] 0(1) by auto
  ultimately show ?case using 0(1) by (auto intro!: bindE_cong)
next
  case (Suc d)
  then obtain n' where n: "n = Suc n'" by (cases n) auto
  have "coscale_loop n' at_mem at_ind lo e1 e2 t limit s2 = coscale_loop (Suc d) at_mem at_ind lo e1 e2 t limit s2"
    if t: "coscale_try at_mem at_ind lo e1 e2 t s = Inr (True, m, c, s1)" and c: "coscale_choose limit e1 e2 m c s1 = (True, s2)" for m c s1 s2
  proof -
    from coscale_try_progress [OF t Suc(3)] coscale_choose_keeps [OF c]
    have p: "cs_mem s2 = MIN_MEM_FREQ + real (k - 1) / 10" "nat (cs_ind s2 - lo) = nat (cs_ind s - lo) - 1" by auto
    have d: "d = max (k - 1) (nat (cs_ind s2 - lo))" using p(2) Suc(2) by linarith
    have "n' > max (k - 1) (nat (cs_ind s2 - lo))" using d n Suc(2,4) by linarith
    from Suc(1) [OF d p(1) this] show ?thesis unfolding d [symmetric] .
  qed
  then show ?case unfolding n Suc(2) [symmetric] by (auto intro!: bindE_cong split: prod.splits)
qed

lemma coscale_loop_returns:
  assumes "\<And>m. \<exists>x. at_mem m = Inr x" "\<And>m i. \<exists>x. at_ind m i = Inr x"
  shows "cs_mem s = MIN_MEM_FREQ + real k / 10 \<Longrightarrow> n > max k (nat (cs_ind s - lo)) \<Longrightarrow>
    \<exists>s'. coscale_loop n at_mem at_ind lo e1 e2 t limit s = Inr s'"
proof (induction n arbitrary: k s)
  case (Suc n)
  obtain on m c s1 where t: "coscale_try at_mem at_ind lo e1 e2 t s = Inr (on, m, c, s1)"
  proof -
    from assms(2) have "\<forall>z. \<exists>y. at_ind z (cs_ind s - 1) = Inr y" by blast
    from choice [OF this] obtain y where "\<And>z. at_ind z (cs_ind s - 1) = Inr (y z)" by blast
    moreover obtain x where "at_mem (cs_mem s - 1 / 10) = Inr x" using assms(1) by blast
    ultimately have "\<exists>r. coscale_try at_mem at_ind lo e1 e2 t s = Inr r"
      by (cases x; cases "\<bar>cs_mem s - MIN_MEM_FREQ\<bar> > EPSILON"; cases "cs_ind s > lo") (auto simp: coscale_try_def)
    then show thesis using that by (metis prod_cases4)
  qed
  obtain b s2 where c: "coscale_choose limit e1 e2 m c s1 = (b, s2)" by (cases "coscale_choose limit e1 e2 m c s1")
  from coscale_try_progress [OF t Suc(2)] coscale_choose_keeps [OF c]
  have p: "cs_mem s2 = MIN_MEM_FREQ + real (k - 1) / 10" "nat (cs_ind s2 - lo) = nat (cs_ind s - lo) - 1" "on = (cs_ind s > lo \<or> k > 1)" by auto
  show ?case
  proof (cases on)
    case True
    with p Suc(3) have "n > max (k - 1) (nat (cs_ind s2 - lo))" by auto
    from Suc(1) [OF p(1) this] t c show ?thesis by auto
  qed (use t in simp)
qed simp

lemma coscale_dev_returns:
  assumes "\<And>m. \<exists>x. at_mem m = Inr x"
  shows "m = MIN_MEM_FREQ + real k / 10 \<Longrightarrow> n > k \<Longrightarrow> \<exists>s'. coscale_dev n at_mem limit (m, freq) = Inr s'"
proof (induction n arbitrary: k m freq)
  case (Suc n)
  obtain x where x: "at_mem (m - 1 / 10) = Inr x" using assms by metis
  show ?case
  proof (cases k)
    case (Suc j)
    then have "m - 1 / 10 = MIN_MEM_FREQ + real j / 10" using Suc.prems by (simp add: field_simps)
    from Suc.IH [OF this] x show ?thesis using Suc Suc.prems(2) by auto
  qed (use Suc.prems in simp)
qed simp


text \<open>The governors' data of the witnesses.\<close>

definition gov_demo :: gov where
  "gov_demo = \<lparr>enableDVFS = True, governor_timing = 1, doSlackDVFS = False, dvfsPeriod = MILLISEC, dvfs_core = 0, sweep_val1 = 2, sweep_val2 = 2,
     optimal_freqs = (\<lambda>_. 1), optimal_energy = (\<lambda>_. 0), ip_time_table = (\<lambda>_ _. 0), ip_energy_table = (\<lambda>_ _. 0), time_pred_coeffs = (\<lambda>_ _. 0)\<rparr>"

subsection \<open>Properties\<close>

text \<open>C25: \<open>findMax\<close> returns the first index of the highest entry, \<open>findMin\<close> the first index of the lowest
  entry that is not zero, and both \<open>-99999\<close> where there is none.\<close>

theorem find_extremes:
  assumes "\<forall>x\<in>set a. - DBL_MAX < x \<and> x < DBL_MAX"
  shows "findMax a (length a) = (if a = [] then -99999 else int (LEAST i. i < length a \<and> a ! i = Max (set a))) \<and>
    findMin a (length a) = (let nz = filter (\<lambda>x. x \<noteq> 0) a in
      if nz = [] then -99999 else int (LEAST i. i < length a \<and> a ! i = Min (set nz)))"
proof
  have "\<And>i. i < length a \<Longrightarrow> - DBL_MAX < a ! i" using assms by simp
  then consider (none) "length a = 0" "findMax a (length a) = -99999"
    | (found) i where "firstBest (\<lambda>_. True) (>) a (length a) i" "findMax a (length a) = int i"
    using findMax_cases [of "length a" a] by blast
  then show "findMax a (length a) = (if a = [] then -99999 else int (LEAST i. i < length a \<and> a ! i = Max (set a)))"
  proof cases
    case (found i)
    then have i: "i < length a" "\<And>x. x \<in> set a \<Longrightarrow> x \<le> a ! i" "\<And>j. j < i \<Longrightarrow> a ! j < a ! i"
      by (auto simp: firstBest_def not_less in_set_conv_nth)
    from i have m: "Max (set a) = a ! i" by (intro Max_eqI) auto
    have "(LEAST i. i < length a \<and> a ! i = Max (set a)) = i"
      by (rule Least_equality) (use i m in \<open>auto simp: not_less [symmetric] dest: i(3)\<close>)
    with found(2) i(1) show ?thesis by auto
  qed simp
  have "\<And>i. i < length a \<Longrightarrow> a ! i < DBL_MAX" using assms by simp
  then consider (none) "\<forall>i<length a. a ! i = 0" "findMin a (length a) = -99999"
    | (found) i where "firstBest (\<lambda>i. a ! i \<noteq> 0) (<) a (length a) i" "findMin a (length a) = int i"
    using findMin_cases [of "length a" a] by blast
  then show "findMin a (length a) = (let nz = filter (\<lambda>x. x \<noteq> 0) a in
      if nz = [] then -99999 else int (LEAST i. i < length a \<and> a ! i = Min (set nz)))"
  proof cases
    case none
    then have "filter (\<lambda>x. x \<noteq> 0) a = []" by (auto simp: filter_empty_conv in_set_conv_nth)
    with none(2) show ?thesis by simp
  next
    case (found i)
    then have i: "i < length a" "a ! i \<noteq> 0" "\<And>x. x \<in> set a \<Longrightarrow> x \<noteq> 0 \<Longrightarrow> a ! i \<le> x" "\<And>j. j < i \<Longrightarrow> a ! j \<noteq> 0 \<Longrightarrow> a ! i < a ! j"
      by (auto simp: firstBest_def not_less in_set_conv_nth)
    from i have m: "Min (set (filter (\<lambda>x. x \<noteq> 0) a)) = a ! i" by (intro Min_eqI) auto
    have "(LEAST i. i < length a \<and> a ! i = Min (set (filter (\<lambda>x. x \<noteq> 0) a))) = i"
      unfolding m by (rule Least_equality) (use i in \<open>auto simp: not_less [symmetric], metis less_irrefl\<close>)
    moreover have "filter (\<lambda>x. x \<noteq> 0) a \<noteq> []" using i(1,2) by (auto simp: filter_empty_conv)
    ultimately show ?thesis using found(2) by (simp add: Let_def)
  qed
qed

theorem find_extremes_witness:
  "findMax [3, 0, 5, 5] 4 = 2 \<and> findMin [3, 0, 5, 5] 4 = 0 \<and> (LEAST i. i < length [3, 0, 5, 5 :: real] \<and> [3, 0, 5, 5] ! i = Max (set [3, 0, 5, 5 :: real])) = 2"
proof -
  have b: "\<forall>x\<in>set [3, 0, 5, 5 :: real]. - DBL_MAX < x \<and> x < DBL_MAX" by (simp add: DBL_MAX_def)
  have "findMax [3, 0, 5, 5] 4 = 2" "findMin [3, 0, 5, 5] 4 = 0"
    by (simp_all add: findMax_def findMin_def DBL_MAX_def upt_rec)
  with find_extremes [OF b] show ?thesis by (simp add: eval_nat_numeral)
qed

text \<open>C24: with slack, the consumption governors slow every component whose entry is above the
  threshold, once, the highest entry first and the lower type first among equals; without slack they
  speed components up from the lowest positive entry on, until there is slack again.\<close>

theorem consumers_order:
  assumes "0 \<le> thr" "\<forall>x\<in>set a. 0 \<le> x \<and> x < DBL_MAX"
  shows "max_consumers D K thr a s =
      foldE (\<lambda>i. setDVFSSlackFrequencies D K (IP_TYPES ! i)) (sort_key (\<lambda>i. - (a ! i)) (filter (\<lambda>i. a ! i > thr) [0..<length a])) s \<and>
    min_consumers D K a s =
      serve_until (\<lambda>i. setDVFSSlackFrequencies D K (IP_TYPES ! i)) (sort_key (\<lambda>i. a ! i) (filter (\<lambda>i. a ! i > 0) [0..<length a])) s"
proof -
  have "\<forall>x\<in>set a. - DBL_MAX < x" using assms(2) DBL_MAX_pos by force
  from max_consumers_order [OF assms(1) this, of D K s] min_consumers_order [OF assms(2), of D K s] show ?thesis
    by (simp add: served_def)
qed

theorem consumers_order_witness:
  "max_consumers fifo_dram gov_demo 0 [1, 0, 2] (1, w_demo []) =
     foldE (\<lambda>i. setDVFSSlackFrequencies fifo_dram gov_demo (IP_TYPES ! i)) [2, 0] (1, w_demo [])"
proof -
  have "\<forall>x\<in>set [1, 0, 2 :: real]. 0 \<le> x \<and> x < DBL_MAX" by (simp add: DBL_MAX_def)
  moreover have "sort_key (\<lambda>i. - ([1, 0, 2 :: real] ! i)) (filter (\<lambda>i. [1, 0, 2 :: real] ! i > 0) [0..<length [1, 0, 2 :: real]]) = [2, 0]"
    by (simp add: upt_rec)
  ultimately show ?thesis using consumers_order [of 0 "[1, 0, 2]" fifo_dram gov_demo "(1, w_demo [])"] by (simp add: numeral_2_eq_2)
qed

text \<open>C28: the memory governor. Without slack it raises the memory by one step of 0.1 GHz, or not at
  all, and the slack stays what it was: a faster memory is never credited. With slack it lowers the
  memory and charges a time that is not negative and not more than the slack.\<close>

theorem dvfsMemory_spec:
  assumes "dvfsMemory D K (slack, w) = Inr (ok, slack', w')"
  shows "if slack < 0 then \<not> ok \<and> slack' = slack \<and> m_freq (mem (un w')) \<in> {m_freq (mem (un w)), m_freq (mem (un w)) + 1 / 10}
    else ok \<and> 0 \<le> slack' \<and> slack' \<le> slack \<and> m_freq (mem (un w')) \<le> m_freq (mem (un w))"
proof (cases "slack < 0")
  case True
  with assms show ?thesis
    by (auto simp: dvfsMemory_def Let_def split: if_splits dest!: mem_raise_gives_nothing m_freq_on_mem)
next
  case False
  with assms obtain min_mem c where c: "mem_lower D K slack min_mem (m_freq (mem (un w))) (m_freq (mem (un w))) 0 0 w = Inr (c, w')"
    "ok" "slack' = slack - c"
    by (auto simp: dvfsMemory_def Let_def split del: if_split)
  from mem_lower_spec [OF c(1) refl] c False show ?thesis by auto
qed

theorem dvfsMemory_spec_witness:
  "case dvfsMemory fifo_dram gov_demo (-1, w_demo []) of Inl e \<Rightarrow> False | Inr (ok, slack', w') \<Rightarrow>
     \<not> ok \<and> slack' = -1 \<and> m_freq (mem (un w')) \<in> {m_freq (mem (un (w_demo []))), m_freq (mem (un (w_demo []))) + 1 / 10}"
proof -
  have "case dvfsMemory fifo_dram gov_demo (-1, w_demo []) of Inl e \<Rightarrow> False | Inr _ \<Rightarrow> True" by code_simp
  then obtain ok s w' where "dvfsMemory fifo_dram gov_demo (-1, w_demo []) = Inr (ok, s, w')" by (auto split: sum.splits)
  with dvfsMemory_spec [OF this] show ?thesis by simp
qed

text \<open>C27: the loops of the CoScale governor end. On the grid of 0.1 GHz between the lowest and the
  highest memory frequency, and from any state of a core or an IP, the bound of 32 rounds is never
  reached: with every larger bound the result is the same.\<close>

theorem coscale_loops_end:
  assumes "\<And>m. \<exists>x. at_mem m = Inr x" "\<And>m i. \<exists>x. at_ind m i = Inr x" "\<And>m. \<exists>x. dev_mem m = Inr x"
    and "cs_mem s = MIN_MEM_FREQ + real k / 10" "k \<le> 7" "cs_ind s - lo \<le> CORE_DVFS_STATES"
    and "n \<ge> COSCALE_FUEL"
  shows "(\<exists>s'. coscale_loop COSCALE_FUEL at_mem at_ind lo e1 e2 t limit s = Inr s' \<and>
      coscale_loop n at_mem at_ind lo e1 e2 t limit s = Inr s') \<and>
    (\<exists>r. coscale_dev COSCALE_FUEL dev_mem limit (cs_mem s, freq) = Inr r)"
proof -
  have m: "max k (nat (cs_ind s - lo)) < 32" using assms(5,6) by simp
  with assms(7) have "coscale_loop n at_mem at_ind lo e1 e2 t limit s = coscale_loop 32 at_mem at_ind lo e1 e2 t limit s"
    using coscale_loop_enough [OF assms(4), of lo n] coscale_loop_enough [OF assms(4), of lo 32] by (metis order.strict_trans2)
  with coscale_loop_returns [OF assms(1,2,4) m] coscale_dev_returns [OF assms(3,4), of 32] assms(5) show ?thesis by auto
qed

theorem coscale_loops_end_witness:
  "\<exists>s'. coscale_loop 32 (\<lambda>m. Inr (1 / m, m)) (\<lambda>t i. Inr (t, 1)) 6 1 1 1 10
     \<lparr>cs_mem = 8 / 10, cs_ind = 12, cs_freq = 8 / 10, cs_best_ind = 12\<rparr> = Inr s'"
  using coscale_loops_end [of "\<lambda>m. Inr (1 / m, m)" "\<lambda>t i. Inr (t, 1)" Inr
      "\<lparr>cs_mem = 8 / 10, cs_ind = 12, cs_freq = 8 / 10, cs_best_ind = 12\<rparr>" 5 6 32 1 1 1 10] by auto

end
