(* ===== verification/GD_Tuning.thy ===== *)
theory GD_Tuning
  imports GD_Choice
begin

section \<open>The governors only tune\<close>

text \<open>
  Every governor changes frequencies and epoch counters and nothing else (\<open>retuned\<close>): no queue, no
  request in progress, no table. The one exception is the step of two states that the governor
  BUILDING takes, which can leave a core's table (\<open>core_dvfs_steps\<close> in \<open>GD_Core\<close>).
\<close>

subsection \<open>Steps\<close>

definition retuned :: "('d \<Rightarrow> completion multiset) \<Rightarrow> 'd world \<Rightarrow> 'd world \<Rightarrow> bool" where
  "retuned pend w w' \<longleftrightarrow> tuned pend w w' \<and> gd (un w') = gd (un w) \<and> sa (un w') = sa (un w) \<and>
     (\<forall>i. m_enabled (gemdroid_ip_gpu w' i) = m_enabled (gemdroid_ip_gpu w i))"

definition keeps :: "('d \<Rightarrow> completion multiset) \<Rightarrow> ('s \<Rightarrow> 'd world) \<Rightarrow> ('s \<Rightarrow> 's result) \<Rightarrow> bool" where
  "keeps pend wo f \<longleftrightarrow> (\<forall>s s'. f s = Inr s' \<longrightarrow> retuned pend (wo s) (wo s'))"

lemma retuned_refl [simp]: "retuned pend w w"
  by (simp add: retuned_def)

lemma retuned_trans: "retuned pend a b \<Longrightarrow> retuned pend b c \<Longrightarrow> retuned pend a c"
  unfolding retuned_def using tuned_trans by metis

lemma keepsI: "(\<And>s s'. f s = Inr s' \<Longrightarrow> retuned pend (wo s) (wo s')) \<Longrightarrow> keeps pend wo f"
  by (simp add: keeps_def)

lemma keepsD: "keeps pend wo f \<Longrightarrow> f s = Inr s' \<Longrightarrow> retuned pend (wo s) (wo s')"
  by (simp add: keeps_def)

lemma keeps_foldE:
  assumes "\<And>x. x \<in> set xs \<Longrightarrow> keeps pend wo (f x)"
  shows "keeps pend wo (foldE f xs)"
proof -
  have "retuned pend (wo s) (wo s')" if "foldE f xs s = Inr s'" for s s'
    using assms that
  proof (induction xs arbitrary: s)
    case (Cons x xs)
    then obtain t where t: "f x s = Inr t" "foldE f xs t = Inr s'" by auto
    from Cons.prems(1) [of x] t(1) have "retuned pend (wo s) (wo t)" by (auto dest: keepsD)
    with Cons.IH [OF _ t(2)] Cons.prems(1) show ?case by (auto intro: retuned_trans)
  qed simp
  then show ?thesis by (simp add: keeps_def)
qed

lemma keeps_for_ips:
  assumes "\<And>ip. keeps pend wo (f ip)"
  shows "keeps pend wo (for_ips f ips)"
proof -
  have "retuned pend (wo s) (wo s')" if "for_ips f ips s = Inr s'" for s s'
    using that
  proof (induction ips arbitrary: s)
    case (Cons i ips)
    show ?case
    proof (cases "i = -1")
      case False
      with Cons.prems obtain ip t where t: "f ip s = Inr t" "for_ips f ips t = Inr s'" by auto
      from retuned_trans [OF keepsD [OF assms t(1)] Cons.IH [OF t(2)]] show ?thesis .
    qed (use Cons.prems in simp)
  qed simp
  then show ?thesis by (simp add: keeps_def)
qed

lemma keeps_each_inst:
  assumes "\<And>t j. keeps pend (\<lambda>w. w) (f t j)" "each_inst a b f w = Inr w'"
  shows "retuned pend w w'"
proof -
  have "keeps pend (\<lambda>w. w) (foldE (\<lambda>t. foldE (f t) js) ts)" for js ts by (intro keeps_foldE assms(1))
  from keepsD [OF this] assms(2) show ?thesis unfolding each_inst_def by blast
qed

lemma retuned_core:
  "core_quiet (gemdroid_core w i) c \<Longrightarrow> retuned pend w (w\<lparr>gemdroid_core := (gemdroid_core w)(i := c)\<rparr>)"
  by (simp add: retuned_def tuned_def)

lemma retuned_mem:
  "pend (dramWrapper m) = pend (dramWrapper (mem (un w))) \<Longrightarrow> retuned pend w (w\<lparr>un := (un w)\<lparr>mem := m\<rparr>\<rparr>)"
  by (simp add: retuned_def tuned_def uncore_quiet_def)

lemma retuned_on_core:
  "on_core i f w = Inr w' \<Longrightarrow> (\<And>c'. f (gemdroid_core w i) = Inr c' \<Longrightarrow> core_quiet (gemdroid_core w i) c') \<Longrightarrow> retuned pend w w'"
  by (auto simp: on_core_def intro: retuned_core)

lemma retuned_on_mem:
  "on_mem f w = Inr w' \<Longrightarrow> (\<And>m'. f (mem (un w)) = Inr m' \<Longrightarrow> pend (dramWrapper m') = pend (dramWrapper (mem (un w)))) \<Longrightarrow>
   retuned pend w w'"
  by (auto simp: on_mem_def intro: retuned_mem)

lemma quiet_rebase: "quiet (GemDroidIP.truncate p) b \<Longrightarrow> quiet p (GemDroidIP.extend b (GemDroidIP.more p))"
  by (simp add: quiet_def GemDroidIP.defs ip_inv_def ip_power_inv_def ip_dvfs_inv_def ip_class_ok_def)

lemma enabled_rebase [simp]: "m_enabled (GemDroidIP.extend b (GemDroidIP.more p)) = m_enabled (p :: gpu)"
  by (rule gpu_moreD) (simp add: GemDroidIP.defs)

lemma retuned_setIPInstance:
  assumes "getIPInstance t i w = Inr p" "quiet p p'"
  shows "retuned pend w (setIPInstance t i p' w)"
  using assms quiet_gpu
  by (cases t) (auto simp: getIPInstance_def inst_def setIPInstance_def retuned_def tuned_def intro!: quiet_rebase quiet_gpu)

lemma retuned_with:
  "withIPInstance t i f w = Inr w' \<Longrightarrow> (\<And>p p'. f p = Inr p' \<Longrightarrow> quiet p p') \<Longrightarrow> retuned pend w w'"
  by (auto simp: withIPInstance_def intro: retuned_setIPInstance)


subsection \<open>Operations\<close>

lemma quiet_scaled:
  "(ip_inv p \<Longrightarrow> ip_inv p') \<Longrightarrow> p' = p\<lparr>dvfsState := k, dvfsCounter := n, m_IPActivityInDVFSEpoch := a\<rparr> \<Longrightarrow> quiet p p'"
  by (simp add: quiet_def)

lemma ip_inv_epoch [simp]: "ip_inv (p\<lparr>m_IPActivityInDVFSEpoch := a\<rparr>) = ip_inv p"
  by (simp add: ip_inv_def ip_power_inv_def ip_dvfs_inv_def ip_class_ok_def)

lemma quiet_sets:
  "setMaxIPFreq p = Inr p' \<Longrightarrow> quiet p p'" "setMinIPFreq p = Inr p' \<Longrightarrow> quiet p p'" "setOptIPFreq p = Inr p' \<Longrightarrow> quiet p p'"
  "setIPFreqInd k p = Inr p' \<Longrightarrow> quiet p p'" "setIPFreq f p = Inr p' \<Longrightarrow> quiet p p'"
  "ip_incFreq 1 p = Inr (b, p') \<Longrightarrow> quiet p p'" "ip_decFreq gov 1 p = Inr (b, p') \<Longrightarrow> quiet p p'"
proof -
  show "setMaxIPFreq p = Inr p' \<Longrightarrow> quiet p p'" "setOptIPFreq p = Inr p' \<Longrightarrow> quiet p p'" "setIPFreq f p = Inr p' \<Longrightarrow> quiet p p'"
    using ip_inv_setMaxIPFreq [of p p'] ip_inv_setOptIPFreq [of p p'] ip_inv_setIPFreq [of f p p']
    by (auto simp: quiet_def setMaxIPFreq_def setOptIPFreq_def setIPFreq_def Let_def)
  show "ip_incFreq 1 p = Inr (b, p') \<Longrightarrow> quiet p p'" "ip_decFreq gov 1 p = Inr (b, p') \<Longrightarrow> quiet p p'"
    using ip_inv_ip_incFreq [of 1 p b p'] ip_inv_ip_decFreq [of gov 1 p b p']
    by (auto simp: quiet_def ip_incFreq_def ip_decFreq_def setMaxIPFreq_def split: if_splits)
  show "setMinIPFreq p = Inr p' \<Longrightarrow> quiet p p'" "setIPFreqInd k p = Inr p' \<Longrightarrow> quiet p p'"
    by (auto simp: quiet_def setMinIPFreq_def setIPFreqInd_def ip_inv_dvfsState)
qed

lemma quiet_load: "ip_load g p = (x, p') \<Longrightarrow> quiet p p'"
proof -
  assume "ip_load g p = (x, p')"
  then have "p' = p\<lparr>m_IPActivityInDVFSEpoch := 0\<rparr>" by (simp add: ip_load_def ip_getLoadInLastDVFSEpoch_def split_beta Let_def)
  then show ?thesis by (simp add: quiet_def)
qed

lemma quiet_load_steps:
  "load_ip_step g p = Inr p' \<Longrightarrow> quiet p p'" "scale_ip_step g p = Inr p' \<Longrightarrow> quiet p p'"
  by (auto simp: load_ip_step_def scale_ip_step_def ip_setMaxAllowedFreq_def Let_def split: prod.splits option.splits if_splits
      dest!: quiet_load quiet_sets intro: quiet_trans)

lemma quiet_updateDVFS: "quiet p (ip_updateDVFS p)"
  by (simp add: quiet_def ip_updateDVFS_def)

text \<open>Cores. Only \<open>incFreq(2)\<close> can leave the table.\<close>

lemma core_inv_scaled:
  "core_inv c \<Longrightarrow> 0 \<le> k \<Longrightarrow> k < CORE_DVFS_STATES \<Longrightarrow> core_inv (c\<lparr>c_dvfsState := k\<rparr>)"
  "core_inv (c\<lparr>c_dvfsCounter := n\<rparr>) = core_inv c" "core_inv (c\<lparr>m_thisDVFSEpochInstructionsCommitted := m\<rparr>) = core_inv c"
  by (simp_all add: core_inv_def rob_inv_def)

lemma core_quiet_sets:
  "core_quiet c (setMaxCoreFreq gov c)" "core_quiet c (setMinCoreFreq c)" "core_quiet c (setOptCoreFreq c)"
  "setCoreFreqInd k c = Inr c' \<Longrightarrow> core_quiet c c'" "setCoreFreq f c = Inr c' \<Longrightarrow> core_quiet c c'"
  "core_quiet c (snd (core_decFreq gov 1 c))" "core_setMaxAllowedFreq g c = Inr c' \<Longrightarrow> core_quiet c c'"
  "core_quiet c (core_updateDVFS gov c)"
proof -
  have s: "core_quiet c (c\<lparr>c_dvfsState := k\<rparr>)" if "core_inv c \<longrightarrow> 0 \<le> k \<and> k < CORE_DVFS_STATES" for k
    using that by (simp add: core_quiet_def core_inv_scaled)
  have n: "core_quiet (c\<lparr>c_dvfsState := k\<rparr>) (c\<lparr>c_dvfsState := k, c_dvfsCounter := n\<rparr>)" for k n
    by (simp add: core_quiet_def core_inv_scaled(2))
  show "core_quiet c (setMaxCoreFreq gov c)"
    using core_quiet_trans [OF s n, of 12] s [of 12] by (simp add: setMaxCoreFreq_def Let_def)
  show "core_quiet c (setMinCoreFreq c)" by (simp add: setMinCoreFreq_def s)
  show "core_quiet c (setOptCoreFreq c)" using s [of "optDVFSState c"] by (simp add: setOptCoreFreq_def core_inv_def)
  show "setCoreFreqInd k c = Inr c' \<Longrightarrow> core_quiet c c'" by (auto simp: setCoreFreqInd_def intro: s)
  show f: "setCoreFreq f c = Inr c' \<Longrightarrow> core_quiet c c'" for f by (auto simp: setCoreFreq_def Let_def intro: s)
  show "core_setMaxAllowedFreq g c = Inr c' \<Longrightarrow> core_quiet c c'" by (auto simp: core_setMaxAllowedFreq_def Let_def intro: f)
  show "core_quiet c (snd (core_decFreq gov 1 c))"
    using s [of "c_dvfsState c - 1"] by (auto simp: core_decFreq_def core_inv_def)
  show "core_quiet c (core_updateDVFS gov c)" by (simp add: core_updateDVFS_def core_quiet_def core_inv_scaled(2))
qed

lemma core_quiet_load: "core_load g c = (x, c') \<Longrightarrow> core_quiet c c'"
proof -
  assume "core_load g c = (x, c')"
  then have "c' = c\<lparr>m_thisDVFSEpochInstructionsCommitted := 0\<rparr>" by (simp add: core_load_def core_getLoadInLastDVFSEpoch_def split_beta Let_def)
  then show ?thesis by (simp add: core_quiet_def core_inv_scaled)
qed

lemma core_quiet_steps:
  "load_core_step g c = Inr c' \<Longrightarrow> governor g \<noteq> GOVERNOR_TYPE_BUILDING \<Longrightarrow> core_quiet c c'"
  "scale_core_step g c = Inr c' \<Longrightarrow> core_quiet c c'"
  by (auto simp: load_core_step_def scale_core_step_def split: prod.splits option.splits if_splits
      dest!: core_quiet_load dest: core_quiet_sets(7) intro: core_quiet_trans core_quiet_sets)

text \<open>Memory.\<close>

lemma pend_mem:
  assumes "dram_conserves D pend"
  shows "setMemFreq D f m = Inr m' \<Longrightarrow> pend (dramWrapper m') = pend (dramWrapper m)"
    "pend (dramWrapper (decMemFreq D n m)) = pend (dramWrapper m)"
    "mem_powerIn1ms D m = (x, m') \<Longrightarrow> pend (dramWrapper m') = pend (dramWrapper m)"
    "pend (dramWrapper (mem_printPeriodicStats D m)) = pend (dramWrapper m)"
  using assms
  by (auto simp: dram_conserves_def setMemFreq_def applyMemFreq_def decMemFreq_def mem_powerIn1ms_def mem_printPeriodicStats_def Let_def
      split_beta split: option.splits)


subsection \<open>Governors\<close>

lemma keeps_slack_core: "keeps pend snd (slack_core i)"
  by (rule keepsI) (auto simp: slack_core_def Let_def split_beta elim!: retuned_on_core intro: core_quiet_sets)

lemma keeps_slack_ip: "keeps pend snd (slack_ip D K t)"
  by (rule keepsI) (auto simp: slack_ip_def split_beta elim!: retuned_with intro: quiet_sets)

lemma keeps_setDVFSSlackFrequencies: "keeps pend snd (setDVFSSlackFrequencies D K t)"
proof (rule keepsI)
  fix s s' :: "real \<times> 'a world"
  assume "setDVFSSlackFrequencies D K t s = Inr s'"
  then show "retuned pend (snd s) (snd s')"
    using keepsD [OF keeps_foldE [OF keeps_slack_core]] keepsD [OF keeps_slack_ip]
    by (cases s) (auto simp: setDVFSSlackFrequencies_def split: if_splits dest!: keepsD [OF keeps_foldE [OF keeps_slack_core]]
        keepsD [OF keeps_slack_ip])
qed

lemma retuned_mem_lower:
  "mem_lower D K slack min_mem orig freq extra correct w = Inr (c, w') \<Longrightarrow> dram_conserves D pend \<Longrightarrow> retuned pend w w'"
proof (induction D K slack min_mem orig freq extra correct w rule: mem_lower.induct)
  case (1 D K slack min_mem orig freq extra correct w)
  show ?case
  proof (cases "\<bar>freq - min_mem\<bar> > EPSILON")
    case True
    with 1(2) obtain x where x: "for_ips (mem_lower_time K w orig (freq - 1 / 10)) (flow_ips w) extra = Inr x"
      "if x > slack then w' = w else
        (\<exists>v. on_mem (setMemFreq D (freq - 1 / 10)) w = Inr v \<and> mem_lower D K slack min_mem orig (freq - 1 / 10) x x v = Inr (c, w'))"
      by (subst (asm) mem_lower.simps) (auto simp: Let_def split: if_splits)
    show ?thesis
    proof (cases "x > slack")
      case False
      with x(2) obtain v where v: "on_mem (setMemFreq D (freq - 1 / 10)) w = Inr v"
        "mem_lower D K slack min_mem orig (freq - 1 / 10) x x v = Inr (c, w')" by auto
      have "retuned pend w v" using v(1) by (rule retuned_on_mem) (rule pend_mem(1) [OF 1(3)])
      moreover have "retuned pend v w'" using 1(1) [OF True refl x(1) False v(1,2) 1(3)] .
      ultimately show ?thesis by (rule retuned_trans)
    qed (use x in simp)
  qed (use 1(2) in \<open>simp add: mem_lower.simps [of D K slack]\<close>)
qed

lemma retuned_dvfsMemory:
  assumes "dvfsMemory D K (slack, w) = Inr (ok, slack', w')" "dram_conserves D pend"
  shows "retuned pend w w'"
proof (cases "slack < 0")
  case True
  with assms(1) have "w' = w \<or> (\<exists>f. on_mem (setMemFreq D f) w = Inr w')"
    by (auto simp: dvfsMemory_def Let_def split: if_splits)
  then show ?thesis by (auto elim!: retuned_on_mem intro: pend_mem(1) [OF assms(2)])
next
  case False
  with assms(1) show ?thesis
    by (auto simp: dvfsMemory_def Let_def dest!: retuned_mem_lower [OF _ assms(2)] split del: if_split)
qed

lemma keeps_if: "(b \<Longrightarrow> keeps pend wo f) \<Longrightarrow> (\<not> b \<Longrightarrow> keeps pend wo g) \<Longrightarrow> keeps pend wo (if b then f else g)"
  by simp

lemma retuned_dvfsCoreOracle: "dvfsCoreOracle slack w = Inr w' \<Longrightarrow> retuned pend w w'"
proof -
  assume r: "dvfsCoreOracle slack w = Inr w'"
  let ?f = "\<lambda>ip (slack, w :: 'a world). if lastEnergyTook (gd (un w)) ip \<noteq> 0 \<and> ip = IP_TYPE_CPU then slack_core 0 (slack, w) else Inr (slack, w)"
  have "keeps pend snd (?f ip)" for ip
    by (rule keepsI) (auto split: if_splits dest!: keepsD [OF keeps_slack_core])
  from keepsD [OF keeps_for_ips [of pend snd ?f, OF this], of "flow_ips w" "(slack, w)"] r show ?thesis
    by (auto simp: dvfsCoreOracle_def)
qed

lemma retuned_dvfsFixedPriority:
  assumes "dvfsFixedPriority D K slack w = Inr w'" "dram_conserves D pend"
  shows "retuned pend w w'"
proof -
  let ?f = "\<lambda>ip (slack, w :: 'a world). if lastEnergyTook (gd (un w)) ip \<noteq> 0 \<and> ip = IP_TYPE_CPU then slack_core 0 (slack, w)
    else if lastEnergyTook (gd (un w)) ip \<noteq> 0 \<and> ip \<ge> IP_TYPE_VD then slack_ip D K ip (slack, w) else Inr (slack, w)"
  have "keeps pend snd (?f ip)" for ip
    by (rule keepsI) (auto split: if_splits dest!: keepsD [OF keeps_slack_core] keepsD [OF keeps_slack_ip])
  note k = keepsD [OF keeps_for_ips [of pend snd ?f, OF this]]
  from assms(1) obtain ok x v where v: "dvfsMemory D K (slack, w) = Inr (ok, x, v)"
    and rest: "w' = v \<or> (\<exists>y. for_ips ?f (flow_ips v) (x, v) = Inr (y, w'))"
    by (auto simp: dvfsFixedPriority_def split: if_splits)
  from rest have "retuned pend v w'" by (auto dest: k)
  with retuned_dvfsMemory [OF v assms(2)] show ?thesis by (rule retuned_trans)
qed


lemma keeps_max_consumers: "keeps pend snd (max_consumers D K thr a)"
proof -
  have "max_consumers D K thr a s = Inr s' \<Longrightarrow> retuned pend (snd s) (snd s')" for s s'
  proof (induction D K thr a s rule: max_consumers.induct)
    case (1 D K thr a s)
    show ?case
    proof (cases "entry_over thr a (findMax a (length a))")
      case True
      with 1(2) obtain v where v: "setDVFSSlackFrequencies D K (IP_TYPES ! nat (findMax a (length a))) s = Inr v"
        "max_consumers D K thr (a[nat (findMax a (length a)) := 0]) v = Inr s'"
        by (subst (asm) max_consumers.simps) (auto simp: Let_def)
      from retuned_trans [OF keepsD [OF keeps_setDVFSSlackFrequencies v(1)] 1(1) [OF refl True v]] show ?thesis .
    qed (use 1(2) in \<open>simp add: max_consumers.simps [of D K thr a]\<close>)
  qed
  then show ?thesis by (rule keepsI)
qed

lemma keeps_min_consumers: "keeps pend snd (min_consumers D K a)"
proof -
  have "min_consumers D K a s = Inr s' \<Longrightarrow> retuned pend (snd s) (snd s')" for s s'
  proof (induction D K a s rule: min_consumers.induct)
    case (1 D K a s)
    show ?case
    proof (cases "entry_over 0 a (findMin a (length a))")
      case True
      with 1(2) obtain x v where v: "setDVFSSlackFrequencies D K (IP_TYPES ! nat (findMin a (length a))) s = Inr (x, v)"
        and rest: "if x > 0 then s' = (x, v) else min_consumers D K (a[nat (findMin a (length a)) := 0]) (x, v) = Inr s'"
        by (subst (asm) min_consumers.simps) (auto simp: Let_def split: if_splits)
      have "retuned pend v (snd s')"
        using rest 1(1) [OF refl True v refl] by (cases "x > 0") auto
      from retuned_trans [OF keepsD [OF keeps_setDVFSSlackFrequencies v, unfolded snd_conv] this] show ?thesis .
    qed (use 1(2) in \<open>simp add: min_consumers.simps [of D K a]\<close>)
  qed
  then show ?thesis by (rule keepsI)
qed

lemma retuned_consumers:
  "max_consumers D K thr a (x, w) = Inr (y, w') \<Longrightarrow> retuned pend w w'"
  "min_consumers D K a (x, w) = Inr (y, w') \<Longrightarrow> retuned pend w w'"
  using keepsD [OF keeps_max_consumers, of D K thr a "(x, w)"] keepsD [OF keeps_min_consumers, of D K a "(x, w)"] by auto

lemma retuned_serve_consumers:
  assumes "serve_consumers D K thr a slack w = Inr w'" "dram_conserves D pend"
  shows "retuned pend w w'"
proof -
  from assms(1) obtain ok x v where v: "dvfsMemory D K (slack, w) = Inr (ok, x, v)"
    and rest: "w' = v \<or> (\<exists>y. max_consumers D K thr a (x, v) = Inr (y, w')) \<or> (\<exists>y. min_consumers D K a (x, v) = Inr (y, w'))"
    by (auto simp: serve_consumers_def split: if_splits)
  from rest have "retuned pend v w'" by (auto intro: retuned_consumers)
  with retuned_dvfsMemory [OF v assms(2)] show ?thesis by (rule retuned_trans)
qed

lemma retuned_consumption:
  assumes "dram_conserves D pend"
  shows "dvfsParetoEfficient D K slack w = Inr w' \<Longrightarrow> retuned pend w w'"
    "dvfsMaxEnergyConsumer D K slack w = Inr w' \<Longrightarrow> retuned pend w w'"
    "dvfsMaxPowerConsumer D K slack w = Inr w' \<Longrightarrow> retuned pend w w'"
    "dvfsMaxEnergyPerTimeConsumer D K slack w = Inr w' \<Longrightarrow> retuned pend w w'"
  by (auto simp: dvfsParetoEfficient_def dvfsMaxEnergyConsumer_def dvfsMaxPowerConsumer_def dvfsMaxEnergyPerTimeConsumer_def
      Let_def intro: retuned_serve_consumers [OF _ assms])

lemma retuned_powerIn1ms:
  "mem_powerIn1ms D (mem (un w)) = (x, m) \<Longrightarrow> dram_conserves D pend \<Longrightarrow> retuned pend w (w\<lparr>un := (un w)\<lparr>mem := m\<rparr>\<rparr>)"
  by (rule retuned_mem) (rule pend_mem(3))

lemma retuned_moves:
  "on_core i (setCoreFreqInd k) w = Inr w' \<Longrightarrow> retuned pend w w'"
  "withIPInstance t j (setIPFreqInd k) w = Inr w' \<Longrightarrow> retuned pend w w'"
  "dram_conserves D pend \<Longrightarrow> on_mem (setMemFreq D f) w = Inr w' \<Longrightarrow> retuned pend w w'"
  "dram_conserves D pend \<Longrightarrow> on_mem (\<lambda>m. Inr (decMemFreq D n m)) w = Inr w' \<Longrightarrow> retuned pend w w'"
proof -
  show "on_core i (setCoreFreqInd k) w = Inr w' \<Longrightarrow> retuned pend w w'" by (erule retuned_on_core) (rule core_quiet_sets)
  show "withIPInstance t j (setIPFreqInd k) w = Inr w' \<Longrightarrow> retuned pend w w'" by (erule retuned_with) (rule quiet_sets)
  show "dram_conserves D pend \<Longrightarrow> on_mem (setMemFreq D f) w = Inr w' \<Longrightarrow> retuned pend w w'"
    by (erule retuned_on_mem) (rule pend_mem)
  show "dram_conserves D pend \<Longrightarrow> on_mem (\<lambda>m. Inr (decMemFreq D n m)) w = Inr w' \<Longrightarrow> retuned pend w w'"
    by (erule retuned_on_mem) (auto simp: pend_mem)
qed

text \<open>A step of the knapsack reads the memory's power, then lowers the memory and raises one component, or nothing.\<close>

lemma knap_step_moves:
  assumes "knap_step D K lastMem a slack w = Inr (b, w')"
  obtains x m where "mem_powerIn1ms D (mem (un w)) = (x, m)"
    "w' = w\<lparr>un := (un w)\<lparr>mem := m\<rparr>\<rparr> \<or>
     (\<exists>v. on_mem (\<lambda>m. Inr (decMemFreq D 1 m)) (w\<lparr>un := (un w)\<lparr>mem := m\<rparr>\<rparr>) = Inr v \<and>
        ((\<exists>i. on_core (dvfs_core K) (setCoreFreqInd i) v = Inr w') \<or> (\<exists>t i. withIPInstance t 0 (setIPFreqInd i) v = Inr w')))"
proof (cases "mem_powerIn1ms D (mem (un w))")
  case (Pair x m)
  with assms that show ?thesis
    by (fastforce simp: knap_step_def Let_def split: if_splits option.splits)
qed

lemma retuned_knap_step:
  assumes "knap_step D K lastMem a slack w = Inr (b, w')" "dram_conserves D pend"
  shows "retuned pend w w'"
  using assms(1)
proof (rule knap_step_moves)
  fix x m
  assume m: "mem_powerIn1ms D (mem (un w)) = (x, m)"
    and "w' = w\<lparr>un := (un w)\<lparr>mem := m\<rparr>\<rparr> \<or>
     (\<exists>v. on_mem (\<lambda>m. Inr (decMemFreq D 1 m)) (w\<lparr>un := (un w)\<lparr>mem := m\<rparr>\<rparr>) = Inr v \<and>
        ((\<exists>i. on_core (dvfs_core K) (setCoreFreqInd i) v = Inr w') \<or> (\<exists>t i. withIPInstance t 0 (setIPFreqInd i) v = Inr w')))"
  then have "retuned pend (w\<lparr>un := (un w)\<lparr>mem := m\<rparr>\<rparr>) w'"
    by (elim disjE exE conjE) (auto intro: retuned_trans retuned_moves(1,2) retuned_moves(4) [OF assms(2)])
  with retuned_powerIn1ms [OF m assms(2)] show ?thesis by (rule retuned_trans)
qed

lemma retuned_knap_loop: "knap_loop D K lastMem a slack w = Inr w' \<Longrightarrow> dram_conserves D pend \<Longrightarrow> retuned pend w w'"
proof (induction D K lastMem a slack w rule: knap_loop.induct)
  case (1 D K lastMem a slack w)
  show ?case
  proof (cases "m_freq (mem (un w)) > MIN_MEM_FREQ + EPSILON")
    case True
    with 1(2) obtain b v where v: "knap_step D K lastMem a slack w = Inr (b, v)"
      and rest: "if b then knap_loop D K lastMem a slack v = Inr w' else w' = v"
      by (subst (asm) knap_loop.simps) (auto split: if_splits)
    have "retuned pend v w'" using rest 1(1) [OF True v refl] 1(3) by (cases b) auto
    with retuned_knap_step [OF v 1(3)] show ?thesis by (rule retuned_trans)
  qed (use 1(2) in \<open>simp add: knap_loop.simps [of D K lastMem]\<close>)
qed

lemma retuned_dvfsGreedyKnapsack:
  assumes "dvfsGreedyKnapsack D K slack w = Inr w'" "dram_conserves D pend"
  shows "retuned pend w w'"
proof (cases "slack < 0")
  case True
  with assms(1) obtain a x v where v: "min_consumers D K a (slack, w) = Inr (x, v)"
    and rest: "w' = v \<or> (\<exists>ok y. dvfsMemory D K (x, v) = Inr (ok, y, w'))"
    by (auto simp: dvfsGreedyKnapsack_def Let_def split: if_splits)
  from rest have "retuned pend v w'" by (auto intro: retuned_dvfsMemory [OF _ assms(2)])
  with retuned_consumers(2) [OF v] show ?thesis by (rule retuned_trans)
next
  case False
  from assms(1) obtain a where a: "energy_per_time K w = Inr a" by (auto simp: dvfsGreedyKnapsack_def)
  with False assms(1) obtain ok x v where v: "dvfsMemory D K (slack, w) = Inr (ok, x, v)"
    and rest: "(\<exists>y. max_consumers D K 0 a (x, v) = Inr (y, w')) \<or> knap_loop D K (m_freq (mem (un w))) a x v = Inr w'"
    by (auto simp: dvfsGreedyKnapsack_def Let_def split: if_splits)
  from rest have "retuned pend v w'" by (auto intro: retuned_consumers retuned_knap_loop [OF _ assms(2)])
  with retuned_dvfsMemory [OF v assms(2)] show ?thesis by (rule retuned_trans)
qed


lemma retuned_dp_mems:
  assumes "dram_conserves D pend"
  shows "dp1_mems D K t p devs ips ms (b, w) = Inr (b', w') \<Longrightarrow> retuned pend w w'"
    "dp2_mems D K t p devs cpus ips ms (b, w) = Inr (b', w') \<Longrightarrow> retuned pend w w'"
proof -
  show "dp1_mems D K t p devs ips ms (b, w) = Inr (b', w') \<Longrightarrow> retuned pend w w'"
  proof (induction ms arbitrary: b w)
    case (Cons m ms)
    obtain x me where me: "mem_powerIn1ms D (mem (un w)) = (x, me)" by (cases "mem_powerIn1ms D (mem (un w))")
    with Cons.prems Cons.IH have "retuned pend (w\<lparr>un := (un w)\<lparr>mem := me\<rparr>\<rparr>) w'"
      by (auto simp: Let_def split: if_splits)
    with retuned_powerIn1ms [OF me assms] show ?case by (rule retuned_trans)
  qed simp
  show "dp2_mems D K t p devs cpus ips ms (b, w) = Inr (b', w') \<Longrightarrow> retuned pend w w'"
  proof (induction ms arbitrary: b w)
    case (Cons m ms)
    obtain x me where me: "mem_powerIn1ms D (mem (un w)) = (x, me)" by (cases "mem_powerIn1ms D (mem (un w))")
    with Cons.prems Cons.IH have "retuned pend (w\<lparr>un := (un w)\<lparr>mem := me\<rparr>\<rparr>) w'"
      by (auto simp: Let_def split: if_splits)
    with retuned_powerIn1ms [OF me assms] show ?case by (rule retuned_trans)
  qed simp
qed

lemma retuned_dvfsDynamicProg:
  assumes "dvfsDynamicProg D K w = Inr w'" "dram_conserves D pend"
  shows "retuned pend w w'"
proof -
  have p1: "retuned pend w w'" if r: "dvfsDynamicProg1 D K accs devs w = Inr w'" for accs devs
  proof -
    from r have "w' = w \<or> (\<exists>t p ips b v b' f k u. dp1_mems D K t p devs ips (mem_steps (MIN_MEM_FREQ + 3 / 10)) (b, w) = Inr (b', v) \<and>
        on_mem (setMemFreq D f) v = Inr u \<and> withIPInstance t 0 (setIPFreqInd k) u = Inr w')"
      unfolding dvfsDynamicProg1_def Let_def by (auto split: if_split_asm) blast+
    then show ?thesis
      by (elim disjE exE conjE) (simp, blast intro: retuned_trans [OF retuned_trans] retuned_dp_mems(1) [OF assms(2)]
          retuned_moves(2) retuned_moves(3) [OF assms(2)])
  qed
  have p2: "retuned pend w w'" if r: "dvfsDynamicProg2 D K accs devs w = Inr w'" for accs devs
  proof -
    from r have "w' = w \<or> (\<exists>t p cpus ips b v b' f k l u u'. dp2_mems D K t p devs cpus ips (mem_steps MIN_MEM_FREQ) (b, w) = Inr (b', v) \<and>
        on_mem (setMemFreq D f) v = Inr u \<and> on_core 0 (setCoreFreqInd k) u = Inr u' \<and> withIPInstance t 0 (setIPFreqInd l) u' = Inr w')"
      unfolding dvfsDynamicProg2_def by (auto split: if_split_asm) blast+
    then show ?thesis
      by (elim disjE exE conjE) (simp, blast intro: retuned_trans [OF retuned_trans [OF retuned_trans]] retuned_dp_mems(2) [OF assms(2)]
          retuned_moves(1,2) retuned_moves(3) [OF assms(2)])
  qed
  from assms(1) show ?thesis by (auto simp: dvfsDynamicProg_def Let_def split: prod.splits if_splits intro: p1 p2)
qed

lemma retuned_mem_epoch_energy: "mem_epoch_energy D w = (x, w') \<Longrightarrow> dram_conserves D pend \<Longrightarrow> retuned pend w w'"
  by (auto simp: mem_epoch_energy_def split: prod.splits intro: retuned_powerIn1ms)

lemma keeps_coscale:
  assumes "dram_conserves D pend"
  shows "keeps pend cr_world (coscale_cpu D K)" "keeps pend cr_world (coscale_ip D K t p)" "keeps pend cr_world (coscale_device D K t p)"
proof -
  show "keeps pend cr_world (coscale_cpu D K)"
  proof (rule keepsI)
    fix r r' assume r: "coscale_cpu D K r = Inr r'"
    obtain x v where v: "mem_epoch_energy D (cr_world r) = (x, v)" by fastforce
    with r obtain k where "on_core 0 (setCoreFreqInd k) v = Inr (cr_world r')" unfolding coscale_cpu_def Let_def by auto
    from retuned_trans [OF retuned_mem_epoch_energy [OF v assms] retuned_moves(1) [OF this]]
    show "retuned pend (cr_world r) (cr_world r')" .
  qed
  show "keeps pend cr_world (coscale_ip D K t p)"
  proof (rule keepsI)
    fix r r' assume r: "coscale_ip D K t p r = Inr r'"
    obtain x v where v: "mem_epoch_energy D (cr_world r) = (x, v)" by fastforce
    with r obtain k where "withIPInstance t 0 (setIPFreqInd k) v = Inr (cr_world r')" unfolding coscale_ip_def Let_def by auto
    from retuned_trans [OF retuned_mem_epoch_energy [OF v assms] retuned_moves(2) [OF this]]
    show "retuned pend (cr_world r) (cr_world r')" .
  qed
  show "keeps pend cr_world (coscale_device D K t p)"
  proof (rule keepsI)
    fix r r' assume r: "coscale_device D K t p r = Inr r'"
    obtain x v where v: "mem_epoch_energy D (cr_world r) = (x, v)" by fastforce
    with r have "cr_world r' = v" unfolding coscale_device_def by auto
    with retuned_mem_epoch_energy [OF v assms] show "retuned pend (cr_world r) (cr_world r')" by simp
  qed
qed

lemma retuned_dvfsCoScaleNewNew:
  assumes "dvfsCoScaleNewNew D K w = Inr w'" "dram_conserves D pend"
  shows "retuned pend w w'"
proof -
  let ?f = "\<lambda>ip r. let w = cr_world r in
      if ip = IP_TYPE_CPU then
        if lastTimeTook (gd (un w)) ip > 0 \<and> cpu_pstate (gemdroid_core w 0) = CPU_PSTATE_ACTIVE then coscale_cpu D K r else Inr r
      else if lastTimeTook (gd (un w)) ip > 0 then
        bindE (getIPInstance ip 0 w) (\<lambda>p.
        if power_state p \<noteq> ip_active then Inr r
        else if ip \<ge> IP_TYPE_VD then coscale_ip D K ip p r else coscale_device D K ip p r)
      else Inr r"
  have "keeps pend cr_world (?f ip)" for ip
    by (rule keepsI) (auto simp: Let_def split: if_split_asm dest: keepsD [OF keeps_coscale(1) [OF assms(2)]]
        keepsD [OF keeps_coscale(2) [OF assms(2)]] keepsD [OF keeps_coscale(3) [OF assms(2)]])
  note k = keepsD [OF keeps_for_ips [of pend cr_world ?f, OF this]]
  let ?r = "\<lparr>cr_max = 0, cr_mem_freq = m_freq (mem (un w)), cr_mem = m_freq (mem (un w)), cr_cpu_freq = c_dvfsState (gemdroid_core w 0),
    cr_cpu = c_dvfsState (gemdroid_core w 0), cr_world = w\<rparr>"
  from assms(1) obtain r' where r: "for_ips ?f (flow_ips w) ?r = Inr r'"
    and rest: "(if cr_max r' \<noteq> 0 then on_mem (setMemFreq D (cr_max r')) (cr_world r') else Inr (cr_world r')) = Inr w'"
    unfolding dvfsCoScaleNewNew_def Let_def by blast
  from rest have "retuned pend (cr_world r') w'" by (auto split: if_splits intro: retuned_moves(3) [OF assms(2)])
  from retuned_trans [OF k [OF r] this] show ?thesis by simp
qed


lemma retuned_cores:
  assumes "\<And>g c c'. f g c = Inr c' \<Longrightarrow> P g \<Longrightarrow> core_quiet c c'"
    and "foldE (\<lambda>i w. on_core i (f (gd (un w))) w) is w = Inr w'" "P (gd (un w))"
  shows "retuned pend w w'"
  using assms(2,3)
proof (induction "is" arbitrary: w)
  case (Cons i "is")
  then obtain v where v: "on_core i (f (gd (un w))) w = Inr v" "foldE (\<lambda>i w. on_core i (f (gd (un w))) w) is v = Inr w'" by auto
  have r: "retuned pend w v" using v(1) by (rule retuned_on_core) (rule assms(1) [OF _ Cons.prems(2)])
  then have "gd (un v) = gd (un w)" by (simp add: retuned_def)
  with Cons.IH [OF v(2)] Cons.prems(2) r show ?case by (auto intro: retuned_trans)
qed simp

lemma retuned_dvfsLoadBased:
  assumes "dvfsLoadBased w = Inr w'" "governor (gd (un w)) \<noteq> GOVERNOR_TYPE_BUILDING"
  shows "retuned pend w w'"
proof -
  from assms(1) obtain v where v: "foldE (\<lambda>i w. on_core i (load_core_step (gd (un w))) w) (CPU_CORES w) w = Inr v"
    and rest: "each_inst IP_TYPE_VD IP_TYPE_GPU (\<lambda>t j w. if lastEnergyTook (gd (un w)) t = 0 then Inr w
       else withIPInstance t j (load_ip_step (gd (un w))) w) v = Inr w'"
    unfolding dvfsLoadBased_def by blast
  have "retuned pend w v"
    by (rule retuned_cores [where P = "\<lambda>g. governor g \<noteq> GOVERNOR_TYPE_BUILDING", OF core_quiet_steps(1) v assms(2)])
  moreover have "retuned pend v w'"
    by (rule keeps_each_inst [OF keepsI rest]) (auto split: if_splits elim!: retuned_with intro: quiet_load_steps)
  ultimately show ?thesis by (rule retuned_trans)
qed

lemma retuned_dvfsMemScale:
  assumes "dvfsMemScale D K slack w = Inr w'" "dram_conserves D pend"
  shows "retuned pend w w'"
proof -
  from assms(1) obtain v u where v: "foldE (\<lambda>i w. on_core i (scale_core_step (gd (un w))) w) (CPU_CORES w) w = Inr v"
    and u: "each_inst IP_TYPE_VD IP_TYPE_GPU (\<lambda>t j w. withIPInstance t j (scale_ip_step (gd (un w))) w) v = Inr u"
    and rest: "\<exists>ok y. dvfsMemory D K (slack, u) = Inr (ok, y, w')"
    by (auto simp: dvfsMemScale_def)
  have "retuned pend w v"
    by (rule retuned_cores [where P = "\<lambda>g. True", OF core_quiet_steps(2) v TrueI])
  moreover have "retuned pend v u"
    by (rule keeps_each_inst [OF keepsI u]) (auto elim!: retuned_with intro: quiet_load_steps)
  moreover have "retuned pend u w'" using rest by (auto intro: retuned_dvfsMemory [OF _ assms(2)])
  ultimately show ?thesis by (blast intro: retuned_trans)
qed

text \<open>A governor is only run at a frame boundary where the timing says so; the governor is the one chosen.\<close>

lemmas retuned_governors =
  retuned_dvfsFixedPriority retuned_dvfsGreedyKnapsack
  retuned_dvfsCoScaleNewNew retuned_dvfsMemScale retuned_dvfsDynamicProg

lemma retuned_run_governor:
  assumes "run_governor D K doFrame slack w = Inr w'" "dram_conserves D pend" "governor (gd (un w)) \<noteq> GOVERNOR_TYPE_BUILDING"
  shows "retuned pend w w'"
  using assms(1,3) unfolding run_governor_def Let_def
  by (cases "governor (gd (un w))") (auto split: if_splits intro: retuned_governors [OF _ assms(2)] retuned_dvfsCoreOracle
      retuned_consumption [OF assms(2)] retuned_dvfsLoadBased)

lemma retuned_updateDVFS:
  assumes r: "updateDVFS D K w = Inr (K', w')" and D: "dram_conserves D pend"
    and gov: "governor (gd (un w)) \<noteq> GOVERNOR_TYPE_BUILDING"
  shows "retuned pend w w'"
proof -
  let ?g = "gd (un w)" and ?K = "K\<lparr>dvfs_core := 0\<rparr>"
  from r obtain slack where slack: "getLastSlack (flowTable ?g) (\<lambda>i. lastTimeTook ?g (IP_TYPES ! nat i)) (app_id ?g 0) 0 = Inr slack"
    by (auto simp: updateDVFS_def Let_def)
  show ?thesis
  proof (cases "slack = real_of_int FPS_DEADLINE")
    case False
    with r slack obtain b v u where
      v: "foldE (\<lambda>i. on_core i (\<lambda>c. Inr (core_updateDVFS (governor ?g) c))) (CPU_CORES w) w = Inr v"
      and u: "each_inst IP_TYPE_DC IP_TYPE_GPU (\<lambda>t j. withIPInstance t j (\<lambda>p. Inr (ip_updateDVFS p))) v = Inr u"
      and rest: "run_governor D ?K b slack u = Inr w'"
      unfolding updateDVFS_def Let_def by auto
    have "keeps pend (\<lambda>w. w) (foldE (\<lambda>i. on_core i (\<lambda>c. Inr (core_updateDVFS (governor ?g) c))) (CPU_CORES w))"
      by (intro keeps_foldE keepsI) (erule retuned_on_core, auto simp: core_quiet_sets(8))
    from keepsD [OF this v] have "retuned pend w v" .
    moreover have "retuned pend v u"
      by (rule keeps_each_inst [OF keepsI u]) (erule retuned_with, auto intro: quiet_updateDVFS)
    ultimately have wu: "retuned pend w u" by (rule retuned_trans)
    with gov have "governor (gd (un u)) \<noteq> GOVERNOR_TYPE_BUILDING" by (simp add: retuned_def)
    with retuned_run_governor [OF rest D] wu show ?thesis by (blast intro: retuned_trans)
  qed (use r slack in \<open>auto simp: updateDVFS_def Let_def\<close>)
qed


subsection \<open>Properties\<close>


text \<open>The loops over the instances return where the step does.\<close>

lemma each_inst_returns:
  assumes "\<And>t j w. a \<le> t \<Longrightarrow> t \<le> b \<Longrightarrow> 0 \<le> j \<Longrightarrow> j < int (num_ip_inst (gd (un w0))) \<Longrightarrow> P w \<Longrightarrow> \<exists>w'. f t j w = Inr w' \<and> P w'" "P w0"
  shows "\<exists>w'. each_inst a b f w0 = Inr w' \<and> P w'"
  unfolding each_inst_def
proof (rule foldE_returns [where P = P])
  fix t w assume "t \<in> set (ip_range a b)" "P w"
  then show "\<exists>w'. foldE (f t) (map int [0..<num_ip_inst (gd (un w0))]) w = Inr w' \<and> P w'"
    by (intro foldE_returns assms(1)) (auto simp: ip_range_def)
qed fact

lemma withIPInstance_returns:
  assumes "IP_TYPE_DC \<le> t" "t \<le> IP_TYPE_GPU" "0 \<le> j" "j < 4"
  shows "\<exists>w'. withIPInstance t j (\<lambda>p. Inr (g p)) w = Inr w' \<and> un w' = un w \<and> gemdroid_core w' = gemdroid_core w"
  using assms by (cases t) (auto simp: withIPInstance_def getIPInstance_def inst_def setIPInstance_def IP_TYPE_order)

definition w_load :: "completion list world" where
  "w_load = (w_demo [])\<lparr>un := (un (w_demo []))\<lparr>gd := gd_demo\<lparr>governor := GOVERNOR_TYPE_ONDEMAND, lastTimeTook := (\<lambda>_. 1)\<rparr>\<rparr>\<rparr>"

lemma w_load_run: "plat_run fifo_dram mset {0} {0} w_load"
proof (rule plat_run.tune [OF plat_run.boot [OF w_demo_fresh]])
  show "tuned mset (w_demo []) w_load" by (simp add: w_load_def tuned_def uncore_quiet_def) (simp add: w_demo_def)
qed


end
