(* ===== verification/GD_Sched.thy ===== *)
theory GD_Sched
  imports GD_Tuning
begin

section \<open>The platform scheduler\<close>

text \<open>
  Class \<open>GemDroid\<close> as the simulator runs it (\<open>gemdroid.cc\<close>): the constructor, the initial choice of
  frequencies, the tick that divides the platform clock among the components, and the accounting
  of power. The record \<open>sched\<close> holds the world of components, the governors' data and the members
  only these functions use. A frequency multiplier is the platform frequency over the frequency of
  the component, cut to an integer.

  Printing is left out, with the copies of counters that only printing reads. The numbers of
  \<open>ipchars.txt\<close> come in the order of the file, without the headings; a file that ends early is a
  fault here. \<open>isPrintPeriodicStatsPower\<close> is never set, so that \<open>powerCalculator\<close> is never called; it is
  modelled all the same.
\<close>

abbreviation (input) PERIODIC_STATS :: int where "PERIODIC_STATS \<equiv> 10000000"
abbreviation (input) PROCESSING_CHUNK :: int where "PROCESSING_CHUNK \<equiv> 16"

record 'd sched =
  wd :: "'d world"
  gv :: gov
  isPrintPeriodicStats :: bool
  isPrintPeriodicStatsPower :: bool
  powerCalcLastTick :: int
  periodicStatsLastTick :: int
  slackLastTick :: int
  dvfsLastTick :: int
  memLastTick :: int
  cpuLastTick :: "nat \<Rightarrow> int"
  ipLastTick :: "IP_TYPE \<Rightarrow> int \<Rightarrow> int"
  memFreqMultiplier :: int
  cpuFreqMultipliers :: "nat \<Rightarrow> int"
  ipFreqMultipliers :: "IP_TYPE \<Rightarrow> int \<Rightarrow> int"
  framesMissed :: int
  framesToBeShown :: int
  m_totalCoreEnergy :: "nat \<Rightarrow> real"
  m_totalIPEnergy :: "IP_TYPE \<Rightarrow> real"
  m_totalMemEnergy :: real
  m_totalPlatformEnergy :: real
  m_totalMilliSecs :: int

definition set_gd :: "GemDroid \<Rightarrow> 'd world \<Rightarrow> 'd world" where
  "set_gd g w = w\<lparr>un := (un w)\<lparr>gd := g\<rparr>\<rparr>"

abbreviation s_gd :: "'d sched \<Rightarrow> GemDroid" where "s_gd s \<equiv> gd (un (wd s))"
abbreviation s_ticks :: "'d sched \<Rightarrow> int" where "s_ticks s \<equiv> gd_ticks (s_gd s)"

text \<open>A step on the world, and the loop over the instances of a range of types.\<close>

definition on_wd :: "('d world \<Rightarrow> 'd world result) \<Rightarrow> 'd sched \<Rightarrow> 'd sched result" where
  "on_wd f s = bindE (f (wd s)) (\<lambda>w. Inr (s\<lparr>wd := w\<rparr>))"

definition for_inst :: "IP_TYPE list \<Rightarrow> (IP_TYPE \<Rightarrow> int \<Rightarrow> 'd sched \<Rightarrow> 'd sched result) \<Rightarrow> 'd sched \<Rightarrow> 'd sched result" where
  "for_inst ts f s = foldE (\<lambda>t. foldE (f t) (map int [0..<num_ip_inst (s_gd s)])) ts s"

abbreviation (input) S_CORES :: "'d sched \<Rightarrow> nat list" where "S_CORES s \<equiv> [0..<num_cpus (s_gd s)]"

subsection \<open>Power accounting\<close>

definition add_frame_power :: "IP_TYPE \<Rightarrow> int \<Rightarrow> real \<Rightarrow> GemDroid \<Rightarrow> GemDroid" where
  "add_frame_power t j pw g =
     g\<lparr>m_avgPowerInFrameSum := upd2 (m_avgPowerInFrameSum g) t j (m_avgPowerInFrameSum g t j + pw),
       m_avgPowerInFrameCount := upd2 (m_avgPowerInFrameCount g) t j (m_avgPowerInFrameCount g t j + 1)\<rparr>"

definition power1us_core :: "nat \<Rightarrow> 'd world \<Rightarrow> 'd world result" where
  "power1us_core i w =
     bindE (boundsE ''gemdroid_core'' (i < MAX_CPUS)) (\<lambda>_.
     let (pw, c) = core_powerIn1us (gemdroid_core w i);
         w = w\<lparr>gemdroid_core := (gemdroid_core w)(i := c)\<rparr>; g = gd (un w) in
     Inr (if frameStarted g IP_TYPE_CPU (int i) then set_gd (add_frame_power IP_TYPE_CPU (int i) pw g) w else w))"

text \<open>The call through the base pointer clears the counters of the last microsecond before the GPU reads them.\<close>

definition power1us_ip :: "IP_TYPE \<Rightarrow> int \<Rightarrow> 'd world \<Rightarrow> 'd world result" where
  "power1us_ip t j w =
     bindE (getIPInstance t j w) (\<lambda>p.
     let (pw, p) = ip_powerIn1us p; w = setIPInstance t j p w in
     Inr (if frameStarted (gd (un w)) t j then
            let (pw, w) =
                  (if t = IP_TYPE_GPU then
                     let (pw, q) = gpu_powerIn1us (gemdroid_ip_gpu w 0) in
                     (pw, w\<lparr>gemdroid_ip_gpu := (gemdroid_ip_gpu w)(0 := q)\<rparr>)
                   else (pw, w))
            in set_gd (add_frame_power t j pw (gd (un w))) w
          else w))"

definition powerCalculator1us :: "'d world \<Rightarrow> 'd world result" where
  "powerCalculator1us w =
     bindE (foldE power1us_core (CPU_CORES w) w) (\<lambda>w.
     bindE (each_inst IP_TYPE_DC IP_TYPE_GPU power1us_ip w) (\<lambda>w.
     if m_enabled (gemdroid_ip_gpu w 0) then
       let (pw, p) = ip_powerIn1us (gemdroid_ip_dc w 1); w = w\<lparr>gemdroid_ip_dc := (gemdroid_ip_dc w)(1 := p)\<rparr> in
       Inr (set_gd (add_frame_power IP_TYPE_DC 1 pw (gd (un w))) w)
     else Inr w))"

text \<open>The sums of power over the components: cores, devices, accelerators, GPU.\<close>

record power_sums =
  ps_core :: real
  ps_dev :: real
  ps_ip :: real
  ps_gpu :: real

definition power1ms_core :: "nat \<Rightarrow> power_sums \<times> 'd sched \<Rightarrow> (power_sums \<times> 'd sched) result" where
  "power1ms_core i = (\<lambda>(ps, s).
     bindE (boundsE ''gemdroid_core'' (i < MAX_CPUS)) (\<lambda>_.
     let w = wd s; (pw, c) = core_powerIn1ms (gemdroid_core w i) in
     Inr (ps\<lparr>ps_core := ps_core ps + pw\<rparr>,
          s\<lparr>wd := w\<lparr>gemdroid_core := (gemdroid_core w)(i := c)\<rparr>,
            m_totalCoreEnergy := (m_totalCoreEnergy s)(i := m_totalCoreEnergy s i + pw)\<rparr>)))"

definition power1ms_ip :: "IP_TYPE \<Rightarrow> int \<Rightarrow> power_sums \<times> 'd sched \<Rightarrow> (power_sums \<times> 'd sched) result" where
  "power1ms_ip t j = (\<lambda>(ps, s).
     bindE (getIPInstance t j (wd s)) (\<lambda>p.
     let (pw, p) = ip_powerIn1ms p;
         ps = (if t = IP_TYPE_GPU then ps\<lparr>ps_gpu := ps_gpu ps + pw\<rparr>
               else if t > IP_TYPE_MMC_OUT then ps\<lparr>ps_ip := ps_ip ps + pw\<rparr>
               else ps\<lparr>ps_dev := ps_dev ps + pw\<rparr>) in
     Inr (ps, s\<lparr>wd := setIPInstance t j p (wd s),
                m_totalIPEnergy := (m_totalIPEnergy s)(t := m_totalIPEnergy s t + pw)\<rparr>)))"

definition power1ms_totals :: "'d DRAMSim2Wrapper \<Rightarrow> real \<Rightarrow> power_sums \<times> 'd sched \<Rightarrow> 'd sched" where
  "power1ms_totals D black_box_platform_power = (\<lambda>(ps, s).
     let screen_power = 30 / 100;
         (ps, s) = (if m_enabled (gemdroid_ip_gpu (wd s) 0) then
                      let (pw, p) = ip_powerIn1ms (gemdroid_ip_dc (wd s) 1) in
                      (ps\<lparr>ps_ip := ps_ip ps + pw\<rparr>, s\<lparr>wd := (wd s)\<lparr>gemdroid_ip_dc := (gemdroid_ip_dc (wd s))(1 := p)\<rparr>\<rparr>)
                    else (ps, s));
         (sa_power, a) = sa_powerIn1ms (sa (un (wd s)));
         (memory_power, m) = mem_powerIn1ms D (mem (un (wd s)));
         total_power = ps_core ps + sa_power + memory_power + ps_dev ps + ps_ip ps + ps_gpu ps + screen_power + black_box_platform_power;
         u = (un (wd s))\<lparr>sa := a, mem := m, gd := (s_gd s)\<lparr>gd_powerInLastEpoch := total_power\<rparr>\<rparr> in
     s\<lparr>wd := (wd s)\<lparr>un := u\<rparr>,
       m_totalPlatformEnergy := m_totalPlatformEnergy s + (black_box_platform_power + screen_power + sa_power),
       m_totalMemEnergy := m_totalMemEnergy s + memory_power\<rparr>)"

definition powerCalculator :: "'d DRAMSim2Wrapper \<Rightarrow> 'd sched \<Rightarrow> 'd sched result" where
  "powerCalculator D s =
     (let black_box_platform_power = 3 / 10 + (2 / 10 * getActivity (sa (un (wd s))));
          insts = map int [0..<num_ip_inst (s_gd s)] in
      bindE (foldE power1ms_core (S_CORES s) (\<lparr>ps_core = 0, ps_dev = 0, ps_ip = 0, ps_gpu = 0\<rparr>, s)) (\<lambda>x.
      bindE (foldE (\<lambda>t. foldE (power1ms_ip t) insts) (ip_range IP_TYPE_DC IP_TYPE_GPU) x) (\<lambda>x.
      Inr (power1ms_totals D black_box_platform_power x))))"


subsection \<open>Clock division\<close>

definition freqMultiplier :: "real \<Rightarrow> int" where
  "freqMultiplier f = trunc (GEMDROID_FREQ / f)"

definition update_multipliers :: "'d sched \<Rightarrow> 'd sched result" where
  "update_multipliers s =
     bindE (foldE (\<lambda>i s.
              bindE (boundsE ''cpuFreqMultipliers'' (i < MAX_CPUS)) (\<lambda>_.
              Inr (s\<lparr>cpuFreqMultipliers := (cpuFreqMultipliers s)(i := freqMultiplier (getCoreFreq (gemdroid_core (wd s) i)))\<rparr>)))
            (S_CORES s) s) (\<lambda>s.
     bindE (for_inst (ip_range IP_TYPE_DC IP_TYPE_GPU) (\<lambda>t j s.
              bindE (getIPInstance t j (wd s)) (\<lambda>p.
              Inr (s\<lparr>ipFreqMultipliers := upd2 (ipFreqMultipliers s) t j (freqMultiplier (getIPFreq p))\<rparr>))) s) (\<lambda>s.
     Inr (s\<lparr>memFreqMultiplier := freqMultiplier (m_freq (mem (un (wd s))))\<rparr>)))"

definition initDVFS :: "'d DRAMSim2Wrapper \<Rightarrow> 'd sched \<Rightarrow> 'd sched result" where
  "initDVFS D s =
     (let K = (gv s)\<lparr>enableDVFS := True, doSlackDVFS := False\<rparr>; s = s\<lparr>gv := K, framesMissed := 0\<rparr>; gov = governor (s_gd s);
          cores = (\<lambda>f s. foldE (\<lambda>i. on_wd (on_core i f)) (S_CORES s) s);
          ips = (\<lambda>f. on_wd (each_inst IP_TYPE_VD IP_TYPE_GPU (\<lambda>t j. withIPInstance t j f)));
          off = (\<lambda>s. s\<lparr>gv := (gv s)\<lparr>enableDVFS := False\<rparr>\<rparr>) in
      bindE (assertE ''0'' (gov \<noteq> END_OF_GOVERNOR)) (\<lambda>_.
      bindE (if gov = GOVERNOR_TYPE_DISABLED then Inr (off s)
             else if gov = GOVERNOR_TYPE_OPTIMAL then
               bindE (cores (\<lambda>c. Inr (setOptCoreFreq c)) s) (\<lambda>s. bindE (ips setOptIPFreq s) (\<lambda>s.
               bindE (on_wd (on_mem (setMemFreq D (5 / 10))) s) (\<lambda>s. Inr (off s))))
             else if gov = GOVERNOR_TYPE_PERFORMANCE then
               bindE (cores (\<lambda>c. Inr (setMaxCoreFreq gov c)) s) (\<lambda>s. bindE (ips setMaxIPFreq s) (\<lambda>s.
               bindE (on_wd (on_mem (\<lambda>m. Inr (setMaxMemFreq D m))) s) (\<lambda>s. Inr (off s))))
             else if gov = GOVERNOR_TYPE_POWERSAVE then
               bindE (cores (setCoreFreq (5 / 10)) s) (\<lambda>s. bindE (ips (setIPFreq (2 / 10)) s) (\<lambda>s.
               bindE (on_wd (on_mem (setMemFreq D (5 / 10))) s) (\<lambda>s. Inr (off s))))
             else if gov = GOVERNOR_TYPE_ONDEMAND \<or> gov = GOVERNOR_TYPE_INTERACTIVE \<or> gov = GOVERNOR_TYPE_BUILDING \<or>
                     gov = GOVERNOR_TYPE_CORE_ORACLE then
               bindE (cores (\<lambda>c. Inr (setMaxCoreFreq gov c)) s) (\<lambda>s. bindE (ips setMaxIPFreq s)
                 (on_wd (on_mem (setMemFreq D (9 / 10)))))
             else if gov = GOVERNOR_TYPE_SLACK \<or> gov = GOVERNOR_TYPE_SLACK_FAR_ENERGY \<or> gov = GOVERNOR_TYPE_SLACK_KNAPSACK \<or>
                     gov = GOVERNOR_TYPE_DYNAMICPROG \<or> gov = GOVERNOR_TYPE_SLACK_MAXENERGY_CONSUMER \<or>
                     gov = GOVERNOR_TYPE_SLACK_MAXPOWER_CONSUMER \<or> gov = GOVERNOR_TYPE_SLACK_MAXENERGYPERTIME_CONSUMER then
               bindE (cores (\<lambda>c. Inr (setOptCoreFreq c)) s) (\<lambda>s. bindE (ips setOptIPFreq s)
                 (on_wd (on_mem (\<lambda>m. Inr (setOptMemFreq D m)))))
             else Inr s) (\<lambda>s.
      update_multipliers (s\<lparr>gv := (gv s)\<lparr>dvfsPeriod := governor_timing (gv s) * MILLISEC\<rparr>\<rparr>))))"

subsection \<open>Statistics\<close>

text \<open>What \<open>printPeriodicStats\<close> leaves behind: the frame rate of every core, and an empty sum of queue lengths.\<close>

definition core_printPeriodicStats :: "GemDroidCore \<Rightarrow> GemDroidCore" where
  "core_printPeriodicStats c =
     (let seconds = (1 / getCoreFreq c) * real_of_int (c_ticks c) / (1000 * 1000 * 1000) in
      c\<lparr>m_FPS := real_of_int (m_framesDisplayed c) / seconds\<rparr>)"

definition printPeriodicStats :: "'d world \<Rightarrow> 'd world result" where
  "printPeriodicStats w =
     bindE (foldE (\<lambda>i. on_core i (\<lambda>c. Inr (core_printPeriodicStats c))) (CPU_CORES w) w) (\<lambda>w.
     Inr (w\<lparr>un := (un w)\<lparr>sa := (sa (un w))\<lparr>totalQueueSize := 0\<rparr>\<rparr>\<rparr>))"

text \<open>The reset is not virtual: of a coder or the GPU it resets the counters of the base class.\<close>

definition resetStats :: "'d world \<Rightarrow> 'd world result" where
  "resetStats w =
     bindE (foldE (\<lambda>i. on_core i (\<lambda>c. Inr (core_resetStats c))) (CPU_CORES w) w) (\<lambda>w.
     let w = w\<lparr>un := (un w)\<lparr>sa := sa_resetStats (sa (un w)), mem := mem_resetStats (mem (un w))\<rparr>\<rparr> in
     bindE (each_inst IP_TYPE_DC IP_TYPE_GPU (\<lambda>t j. withIPInstance t j (\<lambda>p. Inr (ip_resetStats p))) w) (\<lambda>w.
     let w = (if m_enabled (gemdroid_ip_gpu w 0)
              then w\<lparr>gemdroid_ip_dc := (gemdroid_ip_dc w)(1 := ip_resetStats (gemdroid_ip_dc w 1))\<rparr> else w) in
     Inr (set_gd ((gd (un w))\<lparr>m_totalCommittedInsns := 0\<rparr>) w)))"

subsection \<open>The tick\<close>

definition tick_stats :: "'d DRAMSim2Wrapper \<Rightarrow> 'd sched \<Rightarrow> 'd sched result" where
  "tick_stats D s =
     (if s_ticks s - periodicStatsLastTick s \<ge> PERIODIC_STATS then
        bindE (if isPrintPeriodicStats s then on_wd printPeriodicStats s else Inr s) (\<lambda>s.
        bindE (on_wd (on_mem (\<lambda>m. Inr (mem_printPeriodicStats D m))) s) (\<lambda>s.
        let s = s\<lparr>m_totalMilliSecs := m_totalMilliSecs s + 1\<rparr> in
        bindE (if isPrintPeriodicStatsPower s then powerCalculator D s else Inr s) (\<lambda>s.
        let g = s_gd s; g = g\<lparr>appMemReqs := (\<lambda>i. if 0 \<le> i \<and> i < int (num_cpus g) then 0 else appMemReqs g i)\<rparr> in
        Inr (s\<lparr>wd := set_gd g (wd s), periodicStatsLastTick := s_ticks s\<rparr>))))
      else Inr s)"

definition tick_power :: "'d sched \<Rightarrow> 'd sched result" where
  "tick_power s =
     (if s_ticks s - powerCalcLastTick s \<ge> MICROSEC then
        bindE (on_wd powerCalculator1us s) (\<lambda>s. Inr (s\<lparr>powerCalcLastTick := s_ticks s\<rparr>))
      else Inr s)"

definition tick_frames :: "'d sched \<Rightarrow> 'd sched result" where
  "tick_frames s =
     (if s_ticks s - slackLastTick s \<ge> 16 * MILLISEC then
        let g = s_gd s; lastSlack = (\<lambda>flow. getLastSlack (flowTable g) (\<lambda>i. lastTimeTook g (IP_TYPES ! nat i)) (app_id g 0) flow) in
        bindE (lastSlack 0) (\<lambda>slack.
        bindE (if has2ndFlow (app_id g 0) then lastSlack 1 else Inr 0) (\<lambda>slack2.
        Inr (s\<lparr>framesToBeShown := framesToBeShown s + 1,
               framesMissed := (if slack < - real_of_int FPS_DEADLINE_SAFETYNET then framesMissed s + 1 else framesMissed s),
               slackLastTick := s_ticks s\<rparr>)))
      else Inr s)"

definition tick_dvfs :: "'d DRAMSim2Wrapper \<Rightarrow> 'd sched \<Rightarrow> 'd sched result" where
  "tick_dvfs D s =
     (if enableDVFS (gv s) \<and> s_ticks s - dvfsLastTick s \<ge> dvfsPeriod (gv s) then
        bindE (updateDVFS D (gv s) (wd s)) (\<lambda>(K, w).
        bindE (update_multipliers (s\<lparr>gv := K, wd := w\<rparr>)) (\<lambda>s.
        let g = s_gd s; g = g\<lparr>ipMemReqs := (\<lambda>t. if t \<le> IP_TYPE_GPU then 0 else ipMemReqs g t)\<rparr> in
        Inr (s\<lparr>wd := set_gd g (wd s), dvfsLastTick := s_ticks s\<rparr>)))
      else Inr s)"

definition tick_core :: "nat \<Rightarrow> 'd sched \<Rightarrow> 'd sched result" where
  "tick_core i s =
     bindE (boundsE ''cpuLastTick'' (i < MAX_CPUS)) (\<lambda>_.
     if s_ticks s - cpuLastTick s i \<ge> cpuFreqMultipliers s i then
       bindE (on_wd (core_tick_at i) s) (\<lambda>s. Inr (s\<lparr>cpuLastTick := (cpuLastTick s)(i := s_ticks s)\<rparr>))
     else Inr s)"

definition tick_ip :: "IP_TYPE \<Rightarrow> int \<Rightarrow> 'd sched \<Rightarrow> 'd sched result" where
  "tick_ip t j s =
     bindE (boundsE ''ipLastTick'' (j < int MAX_IPS)) (\<lambda>_.
     if s_ticks s - ipLastTick s t j \<ge> ipFreqMultipliers s t j then
       bindE (on_wd (tickIP t j) s) (\<lambda>s. Inr (s\<lparr>ipLastTick := upd2 (ipLastTick s) t j (s_ticks s)\<rparr>))
     else Inr s)"

definition tick_gpu :: "'d sched \<Rightarrow> 'd sched result" where
  "tick_gpu s =
     (if m_enabled (gemdroid_ip_gpu (wd s) 0) \<and>
         s_ticks s - ipLastTick s IP_TYPE_GPU 0 \<ge> ipFreqMultipliers s IP_TYPE_GPU 0 then
        bindE (on_wd (tickIP IP_TYPE_GPU 0) s) (\<lambda>s.
        bindE (on_wd (tickIP IP_TYPE_DC (int (num_ip_inst (s_gd s)))) s) (\<lambda>s.
        Inr (s\<lparr>ipLastTick := upd2 (ipLastTick s) IP_TYPE_GPU 0 (s_ticks s)\<rparr>)))
      else Inr s)"

definition tick_mem :: "'d DRAMSim2Wrapper \<Rightarrow> 'd sched \<Rightarrow> 'd sched result" where
  "tick_mem D s =
     (if s_ticks s - memLastTick s \<ge> memFreqMultiplier s then
        bindE (on_wd (sa_tick D) s) (\<lambda>s.
        bindE (on_wd (\<lambda>w. bindE (mem_tick D (un w)) (\<lambda>u. Inr (w\<lparr>un := u\<rparr>))) s) (\<lambda>s.
        Inr (s\<lparr>memLastTick := s_ticks s\<rparr>)))
      else Inr s)"

definition tick :: "'d DRAMSim2Wrapper \<Rightarrow> 'd sched \<Rightarrow> 'd sched result" where
  "tick D s =
     (let s = s\<lparr>wd := set_gd ((s_gd s)\<lparr>gd_ticks := s_ticks s + 1\<rparr>) (wd s)\<rparr> in
      bindE (tick_stats D s) (\<lambda>s.
      bindE (tick_power s) (\<lambda>s.
      bindE (tick_frames s) (\<lambda>s.
      bindE (tick_dvfs D s) (\<lambda>s.
      bindE (foldE tick_core (S_CORES s) s) (\<lambda>s.
      bindE (for_inst (ip_range IP_TYPE_DC IP_TYPE_IMG) tick_ip s) (\<lambda>s.
      bindE (tick_gpu s) (tick_mem D))))))))"


subsection \<open>Construction\<close>

text \<open>The parameters of \<open>GemDroid.py\<close> and the contents of the files; frequencies are in MHz.\<close>

record Params =
  p_num_cpu_traces :: nat
  p_governor :: GOVERNOR_TYPE
  p_governor_timing :: int
  p_core_freq :: int
  p_issue_width :: nat
  p_mem_freq :: int
  p_dev_freq :: int
  p_ip_freq :: int
  p_num_ip_instances :: nat
  p_cpu_trace :: "nat \<Rightarrow> string"
  p_gpu_trace :: string
  p_perfect_memory :: bool
  p_no_periodic_stats :: bool
  p_sweep_val1 :: real
  p_sweep_val2 :: real

record files =
  f_trace :: "string \<Rightarrow> token list option"
  f_ipchars :: "real list option"
  f_flows :: "int list list"

definition read_table :: "real list \<Rightarrow> IP_TYPE \<Rightarrow> (IP_TYPE \<Rightarrow> int \<Rightarrow> real) \<Rightarrow> ((IP_TYPE \<Rightarrow> int \<Rightarrow> real) \<times> real list) result" where
  "read_table xs t tbl =
     bindE (boundsE ''ipcharsFile'' (nat IP_DVFS_STATES \<le> length xs)) (\<lambda>_.
     Inr (tbl(t := (\<lambda>j. if 0 \<le> j \<and> j < IP_DVFS_STATES then xs ! nat j else tbl t j)), drop (nat IP_DVFS_STATES) xs))"

definition loadIPChars :: "real list option \<Rightarrow> gov \<Rightarrow> gov result" where
  "loadIPChars file K =
     (case file of None \<Rightarrow> Inl (AssertFail ''0'')
      | Some xs \<Rightarrow>
          let types = filter (\<lambda>t. t \<noteq> IP_TYPE_AD \<and> t \<noteq> IP_TYPE_AE) (ip_range IP_TYPE_VD IP_TYPE_GPU);
              tables = foldE (\<lambda>t (tbl, xs). read_table xs t tbl) types in
          bindE (tables (ip_time_table K, xs)) (\<lambda>(times, xs).
          bindE (tables (ip_energy_table K, xs)) (\<lambda>(energies, xs).
          let fit = (\<lambda>k. [- 115 / 10000, 3574 / 10000, - 38969 / 10000, 18473 / 1000] ! k);
              coeffs = (\<lambda>t k. if (t = IP_TYPE_DC \<or> t = IP_TYPE_CAM) \<and> k < 4 then fit k else time_pred_coeffs K t k);
              freqs = (\<lambda>t. if t = IP_TYPE_CPU then 6 else if t = IP_TYPE_VE \<or> t = IP_TYPE_AE \<or> t = IP_TYPE_IMG then 2 else 1);
              energy = (\<lambda>t. if t = IP_TYPE_CPU then 0
                            else if t = IP_TYPE_AE then energies IP_TYPE_AE (freqs IP_TYPE_IMG)
                            else if t \<in> {IP_TYPE_VD, IP_TYPE_VE, IP_TYPE_AD, IP_TYPE_IMG, IP_TYPE_GPU} then energies t (freqs t)
                            else optimal_energy K t) in
          Inr (K\<lparr>ip_time_table := upd2 times IP_TYPE_DC 2 (3167 / 1000), ip_energy_table := energies,
                 time_pred_coeffs := coeffs, optimal_freqs := freqs, optimal_energy := energy\<rparr>))))"

definition init_dev :: "Params \<Rightarrow> gov \<Rightarrow> IP_TYPE \<Rightarrow> int \<Rightarrow> int \<Rightarrow> 'd world \<Rightarrow> 'd world result" where
  "init_dev P K t latency i w =
     bindE (getIPInstance t i w) (\<lambda>p.
     bindE (ip_init t i True latency (p_dev_freq P) (optimal_freqs K t) p (gd (un w))) (\<lambda>(p, g).
     Inr (set_gd g (setIPInstance t i p w))))"

definition init_devs :: "Params \<Rightarrow> gov \<Rightarrow> int \<Rightarrow> 'd world \<Rightarrow> 'd world result" where
  "init_devs P K i =
     foldE (\<lambda>(t, latency). init_dev P K t latency i)
       [(IP_TYPE_DC, 1), (IP_TYPE_NW, 1), (IP_TYPE_SND, 1), (IP_TYPE_MIC, 1), (IP_TYPE_CAM, 1), (IP_TYPE_MMC_IN, 10), (IP_TYPE_MMC_OUT, 10)]"

definition init_accs :: "Params \<Rightarrow> gov \<Rightarrow> int \<Rightarrow> 'd world \<Rightarrow> 'd world result" where
  "init_accs P K i w =
     (let f = p_ip_freq P; opt = optimal_freqs K in
      bindE (dec_init IP_TYPE_VD i False 12 24 64 VID_CODING_RATIO 1 f (opt IP_TYPE_VD) (gemdroid_ip_vd w i) (gd (un w))) (\<lambda>(p, g).
      let w = set_gd g (w\<lparr>gemdroid_ip_vd := (gemdroid_ip_vd w)(i := p)\<rparr>) in
      bindE (coder_init IP_TYPE_VE i False 18 24 64 VID_CODING_RATIO PROCESSING_CHUNK f (opt IP_TYPE_VE) (gemdroid_ip_ve w i) (gd (un w))) (\<lambda>(p, g).
      let w = set_gd g (w\<lparr>gemdroid_ip_ve := (gemdroid_ip_ve w)(i := p)\<rparr>) in
      bindE (dec_init IP_TYPE_AD i False 12 24 64 AUD_CODING_RATIO 1 f (opt IP_TYPE_AD) (gemdroid_ip_ad w i) (gd (un w))) (\<lambda>(p, g).
      let w = set_gd g (w\<lparr>gemdroid_ip_ad := (gemdroid_ip_ad w)(i := p)\<rparr>) in
      bindE (coder_init IP_TYPE_AE i False 8 24 64 AUD_CODING_RATIO PROCESSING_CHUNK f (opt IP_TYPE_AE) (gemdroid_ip_ae w i) (gd (un w))) (\<lambda>(p, g).
      let w = set_gd g (w\<lparr>gemdroid_ip_ae := (gemdroid_ip_ae w)(i := p)\<rparr>) in
      bindE (coder_init IP_TYPE_IMG i False 16 16 (PROCESSING_CHUNK * 2) 1 PROCESSING_CHUNK f (opt IP_TYPE_IMG) (gemdroid_ip_img w i) (gd (un w))) (\<lambda>(p, g).
      Inr (set_gd g (w\<lparr>gemdroid_ip_img := (gemdroid_ip_img w)(i := p)\<rparr>))))))))"

definition init_gpu :: "Params \<Rightarrow> files \<Rightarrow> gov \<Rightarrow> 'd world \<Rightarrow> 'd world result" where
  "init_gpu P F K w =
     bindE (gpu_init IP_TYPE_GPU 0 False (p_gpu_trace P) (f_trace F (p_gpu_trace P)) (p_ip_freq P) (optimal_freqs K IP_TYPE_GPU)
              (gemdroid_ip_gpu w 0) (gd (un w))) (\<lambda>(p, g).
     let w = set_gd g (w\<lparr>gemdroid_ip_gpu := (gemdroid_ip_gpu w)(0 := p)\<rparr>) in
     if m_enabled p then init_dev P K IP_TYPE_DC 1 (int (num_ip_inst (gd (un w)))) w else Inr w)"

definition init_core :: "Params \<Rightarrow> files \<Rightarrow> gov \<Rightarrow> nat \<Rightarrow> 'd sched \<Rightarrow> 'd sched result" where
  "init_core P F K i s =
     bindE (boundsE ''cpuLastTick'' (i < MAX_CPUS)) (\<lambda>_.
     let nm = p_cpu_trace P i; g = (s_gd s)\<lparr>app_id := (app_id (s_gd s))(i := getAppIdWithName nm)\<rparr> in
     bindE (core_init (int i) nm (f_trace F nm) (p_core_freq P) (optimal_freqs K IP_TYPE_CPU) (p_issue_width P)
              (gemdroid_core (wd s) i) g) (\<lambda>(c, g).
     Inr (s\<lparr>cpuLastTick := (cpuLastTick s)(i := 0),
            wd := set_gd g ((wd s)\<lparr>gemdroid_core := (gemdroid_core (wd s))(i := c)\<rparr>)\<rparr>)))"

text \<open>
  The constructor with the functionality enabled. \<open>s\<close> is the memory the object is created in: what
  no statement assigns keeps its value. \<open>d\<close> is the memory simulator that the wrapper opens.
\<close>

definition new_GemDroid :: "'d DRAMSim2Wrapper \<Rightarrow> 'd \<Rightarrow> Params \<Rightarrow> files \<Rightarrow> 'd sched \<Rightarrow> 'd sched result" where
  "new_GemDroid D d P F s =
     (let w = wd s;
          g = (s_gd s)\<lparr>gd_ticks := 0, gd_perfectMemory := p_perfect_memory P, num_cpus := p_num_cpu_traces P, governor := p_governor P,
                num_ip_inst := p_num_ip_instances P, frameStarted := (\<lambda>_ _. False), m_avgPowerInFrameSum := (\<lambda>_ _. 0),
                m_avgPowerInFrameCount := (\<lambda>_ _. 0)\<rparr>;
          u = \<lparr>gd = g, sa = new_GemDroidSA (sa (un w)), mem = new_GemDroidMemory d (p_perfect_memory P) (mem (un w))\<rparr>;
          K = (gv s)\<lparr>governor_timing := p_governor_timing P, sweep_val1 := p_sweep_val1 P, sweep_val2 := p_sweep_val2 P\<rparr>;
          s = s\<lparr>wd := w\<lparr>un := u, gemdroid_core := (\<lambda>i. new_GemDroidCore (gemdroid_core w i))\<rparr>,
                isPrintPeriodicStats := \<not> p_no_periodic_stats P, isPrintPeriodicStatsPower := False,
                powerCalcLastTick := 0, periodicStatsLastTick := 0, slackLastTick := 0, dvfsLastTick := 0, memLastTick := 0,
                framesToBeShown := 0, ipLastTick := (\<lambda>_ _. 0)\<rparr> in
      bindE (on_wd (on_mem (setMemFreq D (real_of_int (p_mem_freq P) / 1000))) s) (\<lambda>s.
      bindE (loadIPChars (f_ipchars F) K) (\<lambda>K.
      bindE (loadFlows (f_flows F)) (\<lambda>tbl.
      let s = s\<lparr>gv := K, wd := set_gd ((s_gd s)\<lparr>flowTable := tbl\<rparr>) (wd s)\<rparr> in
      bindE (foldE (init_core P F K) (S_CORES s) s) (\<lambda>s.
      bindE (on_wd (foldE (\<lambda>i w. bindE (init_devs P K i w) (init_accs P K i)) (map int [0..<p_num_ip_instances P])) s) (\<lambda>s.
      bindE (on_wd (init_gpu P F K) s) (initDVFS D)))))))"

end
