(* ===== verification/GD_Clock.thy ===== *)
theory GD_Clock
  imports GD_Sched
begin

section \<open>What a tick leaves alone\<close>

text \<open>
  Frames for the steps of the scheduler of \<open>GD_Sched\<close>. The statistics and the accounting of power are
  tuning in the sense of \<open>GD_Contract\<close> (\<open>steady\<close>); the ticks of cores, IPs, agent and memory keep the
  configuration and the clock of the platform (\<open>conf\<close>); only the tick of the agent counts in \<open>sa_ticks\<close>.
  \<open>GD_Run\<close> puts them together.
\<close>

subsection \<open>What stays\<close>

text \<open>The configuration of the platform with its clock, and whether there is a GPU.\<close>

definition conf :: "'d world \<Rightarrow> (int \<times> GOVERNOR_TYPE \<times> bool \<times> nat \<times> nat \<times> (nat \<Rightarrow> APP_ID) \<times> flow_table) \<times> bool" where
  "conf w = (gd_config (gd (un w)), m_enabled (gemdroid_ip_gpu w 0))"

definition steady :: "('d \<Rightarrow> completion multiset) \<Rightarrow> 'd world \<Rightarrow> 'd world \<Rightarrow> bool" where
  "steady pend w w' \<longleftrightarrow> tuned pend w w' \<and> conf w' = conf w \<and> sa_ticks (sa (un w')) = sa_ticks (sa (un w))"

lemma steady_refl [simp]: "steady pend w w"
  by (simp add: steady_def)

lemma steady_trans: "steady pend a b \<Longrightarrow> steady pend b c \<Longrightarrow> steady pend a c"
  unfolding steady_def using tuned_trans by metis

lemma steady_retuned: "retuned pend w w' \<Longrightarrow> steady pend w w'"
  by (simp add: steady_def retuned_def conf_def)

lemma steady_set_gd: "gd_config g = gd_config (gd (un w)) \<Longrightarrow> steady pend w (set_gd g w)"
  by (simp add: steady_def tuned_def uncore_quiet_def set_gd_def conf_def gd_config_def)

lemma steady_core: "core_quiet (gemdroid_core w i) c \<Longrightarrow> steady pend w (w\<lparr>gemdroid_core := (gemdroid_core w)(i := c)\<rparr>)"
  by (rule steady_retuned [OF retuned_core])

lemma steady_setIPInstance: "getIPInstance t i w = Inr p \<Longrightarrow> quiet p p' \<Longrightarrow> steady pend w (setIPInstance t i p' w)"
  by (rule steady_retuned [OF retuned_setIPInstance])

lemma steady_dc: "quiet (gemdroid_ip_dc w i) p \<Longrightarrow> steady pend w (w\<lparr>gemdroid_ip_dc := (gemdroid_ip_dc w)(i := p)\<rparr>)"
  by (simp add: steady_def tuned_def conf_def)

lemma steady_gpu:
  "gpu_quiet (gemdroid_ip_gpu w i) p \<Longrightarrow> m_enabled p = m_enabled (gemdroid_ip_gpu w i) \<Longrightarrow>
   steady pend w (w\<lparr>gemdroid_ip_gpu := (gemdroid_ip_gpu w)(i := p)\<rparr>)"
  by (auto simp: steady_def tuned_def conf_def)

lemma steady_sa_mem:
  "coreMemReq a = coreMemReq (sa (un w)) \<Longrightarrow> ipMemReq a = ipMemReq (sa (un w)) \<Longrightarrow> memCoreResp a = memCoreResp (sa (un w)) \<Longrightarrow>
   memIpResp a = memIpResp (sa (un w)) \<Longrightarrow> sa_ticks a = sa_ticks (sa (un w)) \<Longrightarrow> ipReq a = ipReq (sa (un w)) \<Longrightarrow> pend (dramWrapper m) = pend (dramWrapper (mem (un w))) \<Longrightarrow>
   steady pend w (w\<lparr>un := (un w)\<lparr>sa := a, mem := m\<rparr>\<rparr>)"
  by (simp add: steady_def tuned_def uncore_quiet_def conf_def)

lemma gd_config_keeps [simp]:
  "gd_config (add_frame_power t j x g) = gd_config g" "gd_config (g\<lparr>m_totalCommittedInsns := n\<rparr>) = gd_config g"
  "gd_config (g\<lparr>gd_powerInLastEpoch := y\<rparr>) = gd_config g" "gd_config (g\<lparr>appMemReqs := a\<rparr>) = gd_config g"
  "gd_config (g\<lparr>ipMemReqs := b\<rparr>) = gd_config g"
  by (simp_all add: gd_config_def add_frame_power_def)

lemma quiet_power:
  "ip_powerIn1us p = (x, p') \<Longrightarrow> quiet p p'" "ip_powerIn1ms p = (x, p') \<Longrightarrow> quiet p p'" "quiet p (ip_resetStats p)"
  by (auto simp: ip_powerIn1us_def ip_powerIn1ms_def ip_resetStats_def Let_def quiet_def ip_inv_def ip_power_inv_def ip_dvfs_inv_def
      ip_class_ok_def)

lemma gpu_quiet_power: "gpu_powerIn1us p = (x, p') \<Longrightarrow> gpu_quiet p p' \<and> m_enabled p' = m_enabled p"
  by (auto simp: gpu_powerIn1us_def Let_def gpu_quiet_def gpu_inv_def ip_inv_def ip_power_inv_def ip_dvfs_inv_def ip_class_ok_def)

lemma core_quiet_power:
  "core_powerIn1us c = (x, c') \<Longrightarrow> core_quiet c c'" "core_powerIn1ms c = (x, c') \<Longrightarrow> core_quiet c c'"
  "core_quiet c (core_printPeriodicStats c)" "core_quiet c (core_resetStats c)"
  by (auto simp: core_powerIn1us_def core_powerIn1ms_def core_printPeriodicStats_def core_resetStats_def Let_def core_quiet_def
      core_inv_def rob_inv_def)

subsection \<open>Loops\<close>

lemma foldE_steady:
  assumes "\<And>x s s'. x \<in> set xs \<Longrightarrow> f x s = Inr s' \<Longrightarrow> steady pend (wo s) (wo s')"
  shows "foldE f xs s = Inr s' \<Longrightarrow> steady pend (wo s) (wo s')"
  using assms
proof (induction xs arbitrary: s)
  case (Cons x xs)
  then obtain t where t: "f x s = Inr t" "foldE f xs t = Inr s'" by auto
  have "steady pend (wo s) (wo t)" using Cons.prems(2) [OF _ t(1)] by simp
  moreover have "steady pend (wo t) (wo s')" by (rule Cons.IH [OF t(2)]) (use Cons.prems(2) in auto)
  ultimately show ?case by (rule steady_trans)
qed simp

lemma each_inst_steady:
  assumes "\<And>t j w w'. f t j w = Inr w' \<Longrightarrow> steady pend w w'"
  shows "each_inst a b f w = Inr w' \<Longrightarrow> steady pend w w'"
  unfolding each_inst_def by (erule foldE_steady [where wo = "\<lambda>w. w", rotated]) (erule foldE_steady [where wo = "\<lambda>w. w", rotated], rule assms)

subsection \<open>Accounting and statistics\<close>

lemma steady_power1us_core: "power1us_core i w = Inr w' \<Longrightarrow> steady pend w w'"
proof -
  obtain x c where c: "core_powerIn1us (gemdroid_core w i) = (x, c)" by fastforce
  let ?w = "w\<lparr>gemdroid_core := (gemdroid_core w)(i := c)\<rparr>"
  have s: "steady pend w ?w" by (rule steady_core [OF core_quiet_power(1) [OF c]])
  have "steady pend ?w (set_gd (add_frame_power IP_TYPE_CPU (int i) x (gd (un ?w))) ?w)" by (rule steady_set_gd) simp_all
  from steady_trans [OF s this] s show "power1us_core i w = Inr w' \<Longrightarrow> steady pend w w'"
    by (auto simp: power1us_core_def c Let_def split: if_splits)
qed

lemma steady_power1us_ip:
  assumes "power1us_ip t j w = Inr w'"
  shows "steady pend w w'"
proof -
  from assms obtain p x q where p: "getIPInstance t j w = Inr p" "ip_powerIn1us p = (x, q)"
    by (cases "ip_powerIn1us (projr (getIPInstance t j w))") (auto simp: power1us_ip_def)
  let ?w = "setIPInstance t j q w"
  have s: "steady pend w ?w" by (rule steady_setIPInstance [OF p(1) quiet_power(1) [OF p(2)]])
  let ?v = "?w\<lparr>gemdroid_ip_gpu := (gemdroid_ip_gpu ?w)(0 := snd (gpu_powerIn1us (gemdroid_ip_gpu ?w 0)))\<rparr>"
  have v: "steady pend ?w ?v" using gpu_quiet_power [OF surjective_pairing] by (intro steady_gpu) blast+
  have g: "steady pend a (set_gd (add_frame_power t j z (gd (un a))) a)" for a :: "'a world" and z by (rule steady_set_gd) simp_all
  from assms consider "w' = ?w" | z where "w' = set_gd (add_frame_power t j z (gd (un ?w))) ?w"
    | z where "w' = set_gd (add_frame_power t j z (gd (un ?v))) ?v"
    by (auto simp: power1us_ip_def p Let_def split_beta split: if_splits)
  then show ?thesis using s v g by cases (blast intro: steady_trans)+
qed

lemma steady_powerCalculator1us:
  assumes "powerCalculator1us w = Inr w'"
  shows "steady pend w w'"
proof -
  from assms obtain a b where a: "foldE power1us_core (CPU_CORES w) w = Inr a"
    and b: "each_inst IP_TYPE_DC IP_TYPE_GPU power1us_ip a = Inr b"
    and rest: "w' = b \<or> (\<exists>x p. ip_powerIn1us (gemdroid_ip_dc b 1) = (x, p) \<and>
      w' = set_gd (add_frame_power IP_TYPE_DC 1 x (gd (un b))) (b\<lparr>gemdroid_ip_dc := (gemdroid_ip_dc b)(1 := p)\<rparr>))"
    unfolding powerCalculator1us_def by (auto simp: Let_def split: if_splits prod.splits)
  have "steady pend w a" using a by (rule foldE_steady [where wo = "\<lambda>w. w", rotated]) (rule steady_power1us_core)
  moreover have "steady pend a b" using b by (rule each_inst_steady [rotated]) (rule steady_power1us_ip)
  moreover have "steady pend b w'"
    using rest by (auto intro!: steady_trans [OF steady_dc [OF quiet_power(1)] steady_set_gd])
  ultimately show ?thesis by (blast intro: steady_trans)
qed

lemma steady_printPeriodicStats:
  assumes "printPeriodicStats w = Inr w'"
  shows "steady pend w w'"
proof -
  from assms obtain a where a: "foldE (\<lambda>i. on_core i (\<lambda>c. Inr (core_printPeriodicStats c))) (CPU_CORES w) w = Inr a"
    and rest: "w' = a\<lparr>un := (un a)\<lparr>sa := (sa (un a))\<lparr>totalQueueSize := 0\<rparr>, mem := mem (un a)\<rparr>\<rparr>"
    by (auto simp: printPeriodicStats_def)
  have "steady pend w a"
    using a by (rule foldE_steady [where wo = "\<lambda>w. w", rotated]) (auto simp: on_core_def intro: steady_core core_quiet_power)
  moreover have "steady pend a w'" unfolding rest by (rule steady_sa_mem) simp_all
  ultimately show ?thesis by (rule steady_trans)
qed

lemma resetStats_tuned:
  assumes "resetStats w = Inr w'"
  shows "tuned pend w w' \<and> conf w' = conf w"
proof -
  let ?r = "\<lambda>a. a\<lparr>un := (un a)\<lparr>sa := sa_resetStats (sa (un a)), mem := mem_resetStats (mem (un a))\<rparr>\<rparr>"
  let ?d = "\<lambda>b. if m_enabled (gemdroid_ip_gpu b 0) then b\<lparr>gemdroid_ip_dc := (gemdroid_ip_dc b)(1 := ip_resetStats (gemdroid_ip_dc b 1))\<rparr> else b"
  from assms obtain a b where a: "foldE (\<lambda>i. on_core i (\<lambda>c. Inr (core_resetStats c))) (CPU_CORES w) w = Inr a"
    and b: "each_inst IP_TYPE_DC IP_TYPE_GPU (\<lambda>t j. withIPInstance t j (\<lambda>p. Inr (ip_resetStats p))) (?r a) = Inr b"
    and rest: "w' = set_gd ((gd (un (?d b)))\<lparr>m_totalCommittedInsns := 0\<rparr>) (?d b)"
    unfolding resetStats_def Let_def by blast
  have wa: "steady pend w a"
    using a by (rule foldE_steady [where wo = "\<lambda>w. w", rotated]) (auto simp: on_core_def intro: steady_core core_quiet_power)
  have "steady pend (?r a) b"
    using b by (rule each_inst_steady [rotated]) (auto simp: withIPInstance_def intro: steady_setIPInstance quiet_power)
  moreover have "steady pend b (?d b)" by (auto intro: steady_dc quiet_power)
  moreover have "steady pend (?d b) w'" unfolding rest by (rule steady_set_gd) simp_all
  ultimately have "steady pend (?r a) w'" by (blast intro: steady_trans)
  moreover have "tuned pend a (?r a)" "conf (?r a) = conf a"
    by (simp_all add: tuned_def uncore_quiet_def conf_def sa_resetStats_def mem_resetStats_def)
  ultimately show ?thesis using wa tuned_trans unfolding steady_def by metis
qed

lemma steady_power1ms_totals:
  assumes "dram_conserves D pend"
  shows "steady pend (wd b) (wd (power1ms_totals D x (ps, b)))"
proof -
  let ?p = "snd (ip_powerIn1ms (gemdroid_ip_dc (wd b) 1))"
  let ?e = "if m_enabled (gemdroid_ip_gpu (wd b) 0) then (wd b)\<lparr>gemdroid_ip_dc := (gemdroid_ip_dc (wd b))(1 := ?p)\<rparr> else wd b"
  let ?v = "?e\<lparr>un := (un ?e)\<lparr>sa := snd (sa_powerIn1ms (sa (un ?e))), mem := snd (mem_powerIn1ms D (mem (un ?e)))\<rparr>\<rparr>"
  have e: "steady pend (wd b) ?e" using steady_dc [OF quiet_power(2) [OF surjective_pairing]] by auto
  have v: "steady pend ?e ?v"
    by (rule steady_sa_mem) (simp_all add: sa_powerIn1ms_def Let_def pend_mem(3) [OF assms surjective_pairing])
  have g: "steady pend ?v (set_gd ((gd (un ?v))\<lparr>gd_powerInLastEpoch := y\<rparr>) ?v)" for y by (rule steady_set_gd) simp_all
  have "\<exists>y. wd (power1ms_totals D x (ps, b)) = set_gd ((gd (un ?v))\<lparr>gd_powerInLastEpoch := y\<rparr>) ?v"
    by (cases "m_enabled (gemdroid_ip_gpu (wd b) 0)") (auto simp: power1ms_totals_def Let_def set_gd_def split_beta)
  then obtain y where y: "wd (power1ms_totals D x (ps, b)) = set_gd ((gd (un ?v))\<lparr>gd_powerInLastEpoch := y\<rparr>) ?v" by blast
  from steady_trans [OF steady_trans [OF e v] g [of y]] show ?thesis unfolding y .
qed

lemma steady_powerCalculator:
  assumes "powerCalculator D s = Inr s'" "dram_conserves D pend"
  shows "steady pend (wd s) (wd s')"
proof -
  let ?i = "map int [0..<num_ip_inst (s_gd s)]" and ?wo = "\<lambda>p :: power_sums \<times> 'a sched. wd (snd p)"
  from assms(1) obtain z x y h where x: "foldE power1ms_core (S_CORES s) (z, s) = Inr x"
    and y: "foldE (\<lambda>t. foldE (power1ms_ip t) ?i) (ip_range IP_TYPE_DC IP_TYPE_GPU) x = Inr y" "s' = power1ms_totals D h y"
    unfolding powerCalculator_def Let_def by (elim bindE_InrE) blast
  have c: "steady pend (?wo a) (?wo a')" if "power1ms_core i a = Inr a'" for i a a'
    using that by (auto simp: power1ms_core_def Let_def split_beta intro!: steady_core core_quiet_power(2) [OF surjective_pairing])
  have p: "steady pend (?wo a) (?wo a')" if "power1ms_ip t j a = Inr a'" for t j a a'
    using that by (auto simp: power1ms_ip_def Let_def split_beta intro!: steady_setIPInstance quiet_power(2) [OF surjective_pairing])
  have "steady pend (wd s) (?wo x)" using foldE_steady [OF _ x, of pend ?wo] c by simp
  moreover have "steady pend (?wo x) (?wo y)"
  proof (rule foldE_steady [OF _ y(1)])
    fix t and a a' :: "power_sums \<times> 'a sched" assume "foldE (power1ms_ip t) ?i a = Inr a'"
    then show "steady pend (?wo a) (?wo a')" by (rule foldE_steady [where wo = ?wo, rotated]) (rule p)
  qed
  moreover have "steady pend (?wo y) (wd s')" using steady_power1ms_totals [OF assms(2), of "snd y" h "fst y"] y(2) by simp
  ultimately show ?thesis by (blast intro: steady_trans)
qed


subsection \<open>Components keep the configuration\<close>

lemma core_tick_at_conf: "core_tick_at i w = Inr w' \<Longrightarrow> conf w' = conf w \<and> sa_ticks (sa (un w')) = sa_ticks (sa (un w))"
  by (auto simp: core_tick_at_def conf_def core_issues_def sa_issues_def dest!: core_tick_issues)

lemma m_enabled_countPState [simp]: "m_enabled (countPState p) = m_enabled p"
  by (cases "power_state p") (simp_all add: countPState_def)

lemma m_enabled_setActive: "ip_setPStateActive p g = Inr (p', g') \<Longrightarrow> m_enabled p' = m_enabled p"
  by (auto simp: ip_setPStateActive_def setMaxIPFreq_def setOptIPFreq_def split: if_splits)

lemma m_enabled_updatePower: "gpu_updatePower p g = Inr (ok, p', g') \<Longrightarrow> m_enabled p' = m_enabled p"
  by (auto simp: gpu_updatePower_def Let_def setPStateLowPower_def setPStateIdle_def dest!: m_enabled_setActive split: if_splits)

lemma m_enabled_send: "ip_sendMemoryReq p u = (ok, p', u') \<Longrightarrow> m_enabled (p' :: gpu) = m_enabled p"
  by (drule ip_sendMemoryReq_ledger(7)) (rule gpu_moreD)

lemma m_enabled_mmu: "gpu_processMMURequest a r p u = (p', u') \<Longrightarrow> m_enabled p' = m_enabled p"
  unfolding gpu_processMMURequest_def
  by (cases "ip_sendMemoryReq (p\<lparr>m_reqCount := 1, m_reqAddr := a, m_isRead := r\<rparr>) u") (auto dest: m_enabled_send)

lemma m_enabled_rendered: "gpu_rendered p u = (p', u') \<Longrightarrow> m_enabled p' = m_enabled p"
  by (auto simp: gpu_rendered_def Let_def split: if_splits)

lemma m_enabled_readLine: "gpu_readLine p u = Inr (p', u') \<Longrightarrow> m_enabled p' = m_enabled p"
  unfolding gpu_readLine_def Let_def split_beta
  by (auto split: if_splits dest!: m_enabled_mmu m_enabled_rendered)

lemma m_enabled_stall: "gpu_stall p u = Inr (p', u') \<Longrightarrow> m_enabled p' = m_enabled p"
  by (auto simp: gpu_stall_def Let_def dest!: m_enabled_updatePower split: prod.splits if_splits ip_pstate.splits)

lemma m_enabled_writeLine: "gpu_writeLine p u = Inr (p', u') \<Longrightarrow> m_enabled p' = m_enabled p"
  by (cases "gpu_processMMURequest (m_addrToDC p) False p u")
    (auto simp: gpu_writeLine_def Let_def dest!: m_enabled_mmu split: if_splits)

lemma m_enabled_run: "gpu_run p u = Inr (p', u') \<Longrightarrow> m_enabled p' = m_enabled p"
  by (auto simp: gpu_run_def Let_def dest!: m_enabled_updatePower m_enabled_readLine m_enabled_stall m_enabled_writeLine split: if_splits)

lemma m_enabled_tick: "gpu_tick p u = Inr (p', u') \<Longrightarrow> m_enabled p' = m_enabled p"
  by (cases "ip_sendMemoryReq (p\<lparr>ip_ticks := ip_ticks p + 1\<rparr>) u")
    (auto simp: gpu_tick_def Let_def dest!: m_enabled_send m_enabled_run split: if_splits)

lemma tickIP_enabled: "tickIP t i w = Inr w' \<Longrightarrow> m_enabled (gemdroid_ip_gpu w' j) = m_enabled (gemdroid_ip_gpu w j)"
  by (cases t) (auto simp: tickIP_def inst_def split: if_splits dest!: m_enabled_tick)

lemma tickIP_conf:
  "plat_inv pend I J w \<Longrightarrow> i \<in> (if t = IP_TYPE_DC then J else I) \<Longrightarrow> t \<noteq> IP_TYPE_CPU \<Longrightarrow> tickIP t i w = Inr w' \<Longrightarrow>
   conf w' = conf w \<and> sa_ticks (sa (un w')) = sa_ticks (sa (un w))"
  using tickIP_own [of pend I J w t i w'] tickIP_enabled [of t i w w' 0] by (simp add: conf_def sa_issues_def split: if_splits)

text \<open>The agent: what it hands out changes neither the configuration nor the GPU's state of being enabled.\<close>

lemma sendMemoryRequests_config: "sendMemoryRequests D u = Inr u' \<Longrightarrow> gd_config (gd u') = gd_config (gd u)"
  by (erule sendMemoryRequests_InrE) (auto dest!: enqueueMemReq_frame)

lemma repeatE_inv: "repeatE n f s = Inr s' \<Longrightarrow> (\<And>s s'. f s = Inr s' \<Longrightarrow> P s' = P s) \<Longrightarrow> P s' = P s"
  by (induction n arbitrary: s) fastforce+

lemma enqueueIPReq_conf: "enqueueIPReq st c t a z r n ft k w = Inr (ok, w') \<Longrightarrow> conf w' = conf w"
proof -
  have g: "gd_config g' = gd_config g \<and> m_enabled q = m_enabled (p :: gpu)"
    if "ip_enqueueIPReq c a z r n ft k p g = (b, q, g')" for p q g g' b
    using that by (auto simp: ip_enqueueIPReq_def ip_start_or_wake_def ip_accept_def Let_def split: if_splits)
  have i: "gd_config g' = gd_config g" if "ip_enqueueIPReq c a z r n ft k p g = (b, q, g')" for p q :: GemDroidIP and g g' b
    using ip_enqueueIPReq_frame [OF that] by simp
  show "enqueueIPReq st c t a z r n ft k w = Inr (ok, w') \<Longrightarrow> conf w' = conf w"
    by (cases t) (auto simp: enqueueIPReq_def hand_to_def conf_def Let_def split: prod.splits if_splits dest!: g i enc_pl.enq_frame noc_pl.enq_frame dec_pl.enq_frame)
qed

lemma sendIPRequests_conf: "sendIPRequests_from ts w = Inr w' \<Longrightarrow> conf w' = conf w"
proof (induction ts arbitrary: w)
  case (Cons t ts)
  show ?case
  proof (cases "ipReq (sa (un w)) t")
    case (Cons q qs)
    with Cons.prems obtain ok v where v: "enqueueIPReq (rq_sendertype q) (rq_core_id q) (rq_iptype q) (rq_addr q) (rq_size q) (rq_isRead q)
      (rq_frameNum q) (rq_flowType q) (rq_flowId q) w = Inr (ok, v)" by auto
    with Cons.prems Cons Cons.IH [of v] enqueueIPReq_conf [OF v] show ?thesis by (cases ok) (auto simp: conf_def)
  qed (use Cons in simp)
qed simp

lemma sendMemoryResponses_conf: "sendMemoryResponses w = Inr w' \<Longrightarrow> conf w' = conf w"
proof -
  have c: "conf v' = conf v" if "memCoreResponse c a v = Inr (ok, v')" for c a ok and v v' :: "'a world"
    using that by (auto simp: memCoreResponse_def conf_def Let_def split: prod.splits)
  have i: "conf v' = conf v" if "memIPResponse t i a r v = Inr v'" for t i a r and v v' :: "'a world"
    using that by (cases t) (auto simp: memIPResponse_def inst_def conf_def)
  have s: "conf (v\<lparr>un := (un v)\<lparr>sa := a\<rparr>\<rparr>) = conf v" for a and v :: "'a world" by (simp add: conf_def)
  show "sendMemoryResponses w = Inr w' \<Longrightarrow> conf w' = conf w"
    unfolding sendMemoryResponses_def by (auto split: prod.splits option.splits if_splits simp: s dest!: c i)
qed

lemma sa_tick_conf: "sa_tick D w = Inr w' \<Longrightarrow> conf w' = conf w"
proof -
  have s: "conf (v\<lparr>un := (un v)\<lparr>sa := a\<rparr>\<rparr>) = conf v" for a and v :: "'a world" by (simp add: conf_def)
  have r: "gd_config (gd u') = gd_config (gd u)" if "repeatE n (sendMemoryRequests D) u = Inr u'" for n u u'
    using repeatE_inv [OF that, of "\<lambda>u. gd_config (gd u)"] sendMemoryRequests_config by blast
  have a: "conf v' = conf v" if "repeatE n sendMemoryResponses v = Inr v'" for n and v v' :: "'a world"
    using repeatE_inv [OF that, of conf] sendMemoryResponses_conf by blast
  have p: "conf v' = conf v" if "sa_process D v = Inr v'" for v v'
    using that unfolding sa_process_def sendIPRequests_def Let_def
    by (auto split: if_splits simp: conf_def dest!: r sendIPRequests_conf a)
  show "sa_tick D w = Inr w' \<Longrightarrow> conf w' = conf w" unfolding sa_tick_def Let_def by (drule p) (simp add: s)
qed


subsection \<open>The counter of the agent\<close>

lemma sa_ticks_memResponse: "sa_memResponse a r t i s = Inr s' \<Longrightarrow> sa_ticks s' = sa_ticks s"
  by (auto simp: sa_memResponse_def Let_def split: if_splits)

lemma sa_ticks_complete_all: "complete_all cs s = Inr s' \<Longrightarrow> sa_ticks s' = sa_ticks s"
proof (induction cs s rule: complete_all.induct)
  case (2 r a t i cs s)
  from "2.prems" obtain s1 where s1: "sa_memResponse a r t i s = Inr s1" and cs: "complete_all cs s1 = Inr s'"
    by (cases r) (auto simp: readComplete_def writeComplete_def)
  have "(if r then readComplete else writeComplete) a t i s = Inr s1"
    using s1 by (cases r) (simp_all add: readComplete_def writeComplete_def)
  from "2.IH" [OF this cs] sa_ticks_memResponse [OF s1] show ?case by simp
qed simp

lemma sa_ticks_mem_tick: "mem_tick D u = Inr u' \<Longrightarrow> sa_ticks (sa u') = sa_ticks (sa u)"
  by (erule mem_tick_InrE) (auto dest!: sa_ticks_complete_all)

lemma sa_ticks_activity [simp]: "sa_ticks (updateActivityCountIn1Ms n s) = sa_ticks s"
  by (simp add: updateActivityCountIn1Ms_def)

lemma sa_ticks_enqueueMemReq: "enqueueMemReq D t i c a r u = Inr (ok, u') \<Longrightarrow> sa_ticks (sa u') = sa_ticks (sa u)"
  by (auto simp: enqueueMemReq_def Let_def split: if_splits dest!: sa_ticks_memResponse)

lemma sa_ticks_sendMemoryRequests: "sendMemoryRequests D u = Inr u' \<Longrightarrow> sa_ticks (sa u') = sa_ticks (sa u)"
  by (erule sendMemoryRequests_InrE) (auto dest!: sa_ticks_enqueueMemReq)

lemma sa_enqueueIPReq: "enqueueIPReq st c t a z r n ft k w = Inr (ok, w') \<Longrightarrow> sa (un w') = sa (un w)"
  by (cases t) (auto simp: enqueueIPReq_def hand_to_def Let_def split: prod.splits if_splits)

lemma sa_ticks_sendIPRequests: "sendIPRequests_from ts w = Inr w' \<Longrightarrow> sa_ticks (sa (un w')) = sa_ticks (sa (un w))"
proof (induction ts arbitrary: w)
  case (Cons t ts)
  show ?case
  proof (cases "ipReq (sa (un w)) t")
    case (Cons q qs)
    with Cons.prems obtain ok v where v: "enqueueIPReq (rq_sendertype q) (rq_core_id q) (rq_iptype q) (rq_addr q) (rq_size q) (rq_isRead q)
      (rq_frameNum q) (rq_flowType q) (rq_flowId q) w = Inr (ok, v)" by auto
    with Cons.prems Cons Cons.IH [of v] sa_enqueueIPReq [OF v] show ?thesis by (cases ok) auto
  qed (use Cons in simp)
qed simp

lemma sa_ticks_popMemResponse: "popMemResponse pm s = (m, s') \<Longrightarrow> sa_ticks s' = sa_ticks s"
  by (auto simp: popMemResponse_def Let_def split: if_splits)

lemma sa_ticks_sendMemoryResponses: "sendMemoryResponses w = Inr w' \<Longrightarrow> sa_ticks (sa (un w')) = sa_ticks (sa (un w))"
  by (auto simp: sendMemoryResponses_def split: prod.splits option.splits dest!: sa_ticks_popMemResponse)

lemma sa_ticks_sa_tick:
  assumes "sa_tick D w = Inr w'"
  shows "sa_ticks (sa (un w')) = sa_ticks (sa (un w)) + 1"
proof -
  have r: "sa_ticks (sa u') = sa_ticks (sa u)" if "repeatE n (sendMemoryRequests D) u = Inr u'" for n u u'
    using repeatE_inv [OF that, of "\<lambda>u. sa_ticks (sa u)"] sa_ticks_sendMemoryRequests by blast
  have a: "sa_ticks (sa (un v')) = sa_ticks (sa (un v))" if "repeatE n sendMemoryResponses v = Inr v'" for n and v v' :: "'a world"
    using repeatE_inv [OF that, of "\<lambda>v. sa_ticks (sa (un v))"] sa_ticks_sendMemoryResponses by blast
  have s: "sa_ticks (sendIPResponses s) = sa_ticks s" for s by (simp add: sendIPResponses_def)
  from assms show ?thesis unfolding sa_tick_def sa_process_def sendIPRequests_def Let_def
    by (auto split: if_splits simp: s dest!: r sa_ticks_sendIPRequests a)
qed

end
