(* ===== verification/GD_Run.thy ===== *)
theory GD_Run
  imports GD_Clock
begin

section \<open>Runs of the scheduler\<close>

text \<open>
  A tick of the platform (\<open>GemDroid::tick\<close>) is a sequence of the steps of \<open>plat_run\<close>: ticks of the
  components at the rates the clock division gives, and tuning by the statistics, the accounting of
  power and the governors. So what \<open>GD_Contract\<close> shows of runs holds of every state the scheduler
  reaches. With fixed frequencies each component runs exactly at the multiples of its multiplier.
\<close>

subsection \<open>Loops over components\<close>

lemma foldE_product: "foldE (\<lambda>t. foldE (f t) js) ts s = foldE (\<lambda>(t, j). f t j) (List.product ts js) s"
proof (induction ts arbitrary: s)
  case (Cons t ts)
  have "foldE (\<lambda>(t, j). f t j) (map (Pair t) js) s = foldE (f t) js s" for s
    by (simp add: foldE_map)
  with Cons show ?case by (auto simp: foldE_append intro!: bindE_cong)
qed simp

text \<open>A loop whose every step updates the entry of its own element in a table.\<close>

lemma foldE_pointwise:
  assumes "\<And>x s s'. x \<in> set xs \<Longrightarrow> f x s = Inr s' \<Longrightarrow> P s \<Longrightarrow> P s' \<and> L s' = (L s)(x := h x (L s x))"
    and "distinct xs" "foldE f xs s = Inr s'" "P s"
  shows "P s' \<and> L s' = (\<lambda>y. if y \<in> set xs then h y (L s y) else L s y)"
  using assms
proof (induction xs arbitrary: s)
  case (Cons x xs)
  from Cons.prems(3) obtain t where t: "f x s = Inr t" "foldE f xs t = Inr s'" by auto
  have xt: "P t \<and> L t = (L s)(x := h x (L s x))" by (rule Cons.prems(1) [OF _ t(1) Cons.prems(4)]) simp
  have "P s' \<and> L s' = (\<lambda>y. if y \<in> set xs then h y (L t y) else L t y)"
    by (rule Cons.IH [OF Cons.prems(1) _ t(2)]) (use Cons.prems(2) xt in simp_all)
  with xt Cons.prems(2) show ?case by (auto simp: fun_eq_iff)
qed simp

subsection \<open>The invariant of a tick\<close>

text \<open>The instances the scheduler runs are those the contract is about: the display controller after the last one
  only if there is a GPU.\<close>

definition scheduled :: "int set \<Rightarrow> int set \<Rightarrow> 'd world \<Rightarrow> bool" where
  "scheduled I J w \<longleftrightarrow> int ` {..<num_ip_inst (gd (un w))} \<subseteq> I \<inter> J \<and>
     (m_enabled (gemdroid_ip_gpu w 0) \<longrightarrow> int (num_ip_inst (gd (un w))) \<in> J)"

definition clocked ::
  "'d DRAMSim2Wrapper \<Rightarrow> ('d \<Rightarrow> completion multiset) \<Rightarrow> int set \<Rightarrow> int set \<Rightarrow> 'd world \<Rightarrow> int \<Rightarrow> 'd sched \<Rightarrow> bool" where
  "clocked D pend I J v k s \<longleftrightarrow> dram_conserves D pend \<and> scheduled I J v \<and> governor (gd (un v)) \<noteq> GOVERNOR_TYPE_BUILDING \<and>
     plat_run D pend I J (wd s) \<and> conf (wd s) = conf v \<and> sa_ticks (sa (un (wd s))) = k"

text \<open>The members that say when a component runs.\<close>

definition dial :: "'d sched \<Rightarrow> gov \<times> int \<times> (nat \<Rightarrow> int) \<times> (IP_TYPE \<Rightarrow> int \<Rightarrow> int)" where
  "dial s = (gv s, memFreqMultiplier s, cpuFreqMultipliers s, ipFreqMultipliers s)"

definition lasts :: "'d sched \<Rightarrow> int \<times> (nat \<Rightarrow> int) \<times> (IP_TYPE \<Rightarrow> int \<Rightarrow> int)" where
  "lasts s = (memLastTick s, cpuLastTick s, ipLastTick s)"

lemma clockedD:
  assumes "clocked D pend I J v k s"
  shows "plat_inv pend I J (wd s)" "num_cpus (s_gd s) = num_cpus (gd (un v))" "num_ip_inst (s_gd s) = num_ip_inst (gd (un v))"
    "s_ticks s = gd_ticks (gd (un v))" "governor (s_gd s) \<noteq> GOVERNOR_TYPE_BUILDING"
    "m_enabled (gemdroid_ip_gpu (wd s) 0) = m_enabled (gemdroid_ip_gpu v 0)"
  using assms plat_run_inv by (auto simp: clocked_def conf_def gd_config_def)

lemma clocked_wd: "clocked D pend I J v k s \<Longrightarrow> wd s' = wd s \<Longrightarrow> clocked D pend I J v k s'"
  by (simp add: clocked_def)

lemma clocked_steady: "clocked D pend I J v k s \<Longrightarrow> steady pend (wd s) (wd s') \<Longrightarrow> clocked D pend I J v k s'"
  by (auto simp: clocked_def steady_def intro: plat_run.tune)

lemma on_wd_InrE:
  assumes "on_wd f s = Inr s'"
  obtains w where "f (wd s) = Inr w" "s' = s\<lparr>wd := w\<rparr>"
  using assms by (auto simp: on_wd_def)

lemma clocked_core:
  assumes "clocked D pend I J v k s" "i < num_cpus (gd (un v))" "core_tick_at i (wd s) = Inr w"
  shows "clocked D pend I J v k (s\<lparr>wd := w\<rparr>)"
proof -
  have "plat_run D pend I J w"
    using plat_run.core [OF _ _ assms(3)] clockedD(2) [OF assms(1)] assms(1,2) by (simp add: clocked_def)
  with assms(1) core_tick_at_conf [OF assms(3)] show ?thesis by (simp add: clocked_def)
qed

lemma clocked_ip:
  assumes "clocked D pend I J v k s" "t \<noteq> IP_TYPE_CPU" "i \<in> (if t = IP_TYPE_DC then J else I)" "tickIP t i (wd s) = Inr w"
  shows "clocked D pend I J v k (s\<lparr>wd := w\<rparr>)"
proof -
  have "plat_run D pend I J w" using plat_run.ip [OF _ assms(2,3,4)] assms(1) by (simp add: clocked_def)
  with assms(1) tickIP_conf [OF clockedD(1) [OF assms(1)] assms(3,2,4)] show ?thesis by (simp add: clocked_def)
qed

lemma clocked_agent:
  assumes "clocked D pend I J v k s" "sa_tick D (wd s) = Inr w"
  shows "clocked D pend I J v (k + 1) (s\<lparr>wd := w\<rparr>)"
proof -
  have "plat_run D pend I J w" using plat_run.agent [OF _ assms(2)] assms(1) by (simp add: clocked_def)
  with assms(1) sa_tick_conf [OF assms(2)] sa_ticks_sa_tick [OF assms(2)] show ?thesis by (simp add: clocked_def)
qed

lemma clocked_memory:
  assumes "clocked D pend I J v k s" "mem_tick D (un (wd s)) = Inr u"
  shows "clocked D pend I J v k (s\<lparr>wd := (wd s)\<lparr>un := u\<rparr>\<rparr>)"
proof -
  have "plat_run D pend I J ((wd s)\<lparr>un := u\<rparr>)" using plat_run.memory [OF _ assms(2)] assms(1) by (simp add: clocked_def)
  moreover have "gd u = gd (un (wd s))"
    using uncore_ok_mem_tick [OF _ _ assms(2)] clockedD(1) [OF assms(1)] assms(1) by (auto simp: clocked_def plat_inv_def)
  ultimately show ?thesis using assms(1) sa_ticks_mem_tick [OF assms(2)] by (simp add: clocked_def conf_def)
qed

subsection \<open>The phases\<close>

text \<open>The three phases that only measure leave the clock division alone.\<close>

lemma powerCalculator_dial: "powerCalculator D s = Inr s' \<Longrightarrow> dial s' = dial s \<and> lasts s' = lasts s"
proof -
  let ?P = "\<lambda>x :: power_sums \<times> 'a sched. dial (snd x) = dial s \<and> lasts (snd x) = lasts s"
  have c: "?P b" if "power1ms_core i a = Inr b" "?P a" for i a b
    using that by (auto simp: power1ms_core_def Let_def dial_def lasts_def split_beta)
  have p: "?P b" if "power1ms_ip t j a = Inr b" "?P a" for t j a b
    using that by (auto simp: power1ms_ip_def Let_def dial_def lasts_def split_beta)
  have w: "dial (power1ms_totals D h x) = dial (snd x) \<and> lasts (power1ms_totals D h x) = lasts (snd x)" for h x
    by (cases "m_enabled (gemdroid_ip_gpu (wd (snd x)) 0)") (simp_all add: power1ms_totals_def Let_def dial_def lasts_def split_beta)
  assume "powerCalculator D s = Inr s'"
  then obtain z x y h where x: "foldE power1ms_core (S_CORES s) (z, s) = Inr x" and s': "s' = power1ms_totals D h y"
    and y: "foldE (\<lambda>(t, j). power1ms_ip t j) (List.product (ip_range IP_TYPE_DC IP_TYPE_GPU) (map int [0..<num_ip_inst (s_gd s)])) x = Inr y"
    unfolding powerCalculator_def Let_def foldE_product by (elim bindE_InrE) blast
  have "?P x" by (rule foldE_inv [OF c x]) simp_all
  then have "?P y" by (rule foldE_inv [OF _ y, rotated]) (use p in auto)
  with w s' show ?thesis by simp
qed

lemma phase_stats:
  assumes "clocked D pend I J v k s" "tick_stats D s = Inr s'"
  shows "clocked D pend I J v k s' \<and> dial s' = dial s \<and> lasts s' = lasts s"
proof (cases "s_ticks s - periodicStatsLastTick s \<ge> PERIODIC_STATS")
  case True
  let ?g = "\<lambda>g. g\<lparr>appMemReqs := (\<lambda>i. if 0 \<le> i \<and> i < int (num_cpus g) then 0 else appMemReqs g i)\<rparr>"
  let ?m = "\<lambda>a. a\<lparr>m_totalMilliSecs := m_totalMilliSecs a + 1\<rparr>"
  from assms(2) True obtain z a b where z: "(if isPrintPeriodicStats s then on_wd printPeriodicStats s else Inr s) = Inr z"
    and a: "on_wd (on_mem (\<lambda>m. Inr (mem_printPeriodicStats D m))) z = Inr a" and b: "(if isPrintPeriodicStatsPower a then powerCalculator D (?m a) else Inr (?m a)) = Inr b"
    and s': "s' = b\<lparr>wd := set_gd (?g (s_gd b)) (wd b), periodicStatsLastTick := s_ticks b\<rparr>"
    by (auto simp: tick_stats_def Let_def)
  have "steady pend (wd s) (wd z) \<and> dial z = dial s \<and> lasts z = lasts s"
    using z by (auto split: if_splits elim!: on_wd_InrE intro: steady_printPeriodicStats simp: dial_def lasts_def)
  moreover have "steady pend (wd z) (wd a) \<and> dial a = dial z \<and> lasts a = lasts z"
  proof -
    from a obtain w where w: "on_mem (\<lambda>m. Inr (mem_printPeriodicStats D m)) (wd z) = Inr w" "a = z\<lparr>wd := w\<rparr>" by (rule on_wd_InrE)
    have "steady pend (wd z) w"
      by (rule steady_retuned, rule retuned_on_mem [OF w(1)]) (use assms(1) in \<open>auto simp: clocked_def pend_mem(4)\<close>)
    with w(2) show ?thesis by (simp add: dial_def lasts_def)
  qed
  moreover have "steady pend (wd a) (wd b) \<and> dial b = dial (?m a) \<and> lasts b = lasts (?m a)"
    using b assms(1) steady_powerCalculator [of D "?m a" b pend] powerCalculator_dial [of D "?m a" b]
    by (auto simp: clocked_def split: if_splits)
  moreover have "steady pend (wd b) (wd s')" unfolding s' by (simp add: steady_set_gd)
  moreover have "dial s' = dial b \<and> lasts s' = lasts b \<and> dial (?m a) = dial a \<and> lasts (?m a) = lasts a"
    by (simp add: s' dial_def lasts_def)
  ultimately show ?thesis using assms(1) by (metis clocked_steady steady_trans)
qed (use assms in \<open>simp add: tick_stats_def\<close>)

lemma phase_power:
  assumes "clocked D pend I J v k s" "tick_power s = Inr s'"
  shows "clocked D pend I J v k s' \<and> dial s' = dial s \<and> lasts s' = lasts s"
  using assms clocked_steady [OF assms(1), of s']
  by (auto simp: tick_power_def dial_def lasts_def split: if_splits elim!: on_wd_InrE dest: steady_powerCalculator1us [of _ _ pend])

lemma phase_frames:
  assumes "clocked D pend I J v k s" "tick_frames s = Inr s'"
  shows "clocked D pend I J v k s' \<and> dial s' = dial s \<and> lasts s' = lasts s"
  using assms(2) clocked_wd [OF assms(1), of s'] by (auto simp: tick_frames_def Let_def dial_def lasts_def split: if_splits)

text \<open>The governor's phase only changes the multipliers, and nothing while the governor is off.\<close>

lemma update_multipliers_keeps:
  assumes "update_multipliers s = Inr s'"
  shows "wd s' = wd s \<and> lasts s' = lasts s"
proof -
  let ?P = "\<lambda>x. wd x = wd s \<and> lasts x = lasts s"
  from assms obtain a b js where a: "foldE (\<lambda>i s. bindE (boundsE ''cpuFreqMultipliers'' (i < MAX_CPUS)) (\<lambda>_.
      Inr (s\<lparr>cpuFreqMultipliers := (cpuFreqMultipliers s)(i := freqMultiplier (getCoreFreq (gemdroid_core (wd s) i)))\<rparr>))) (S_CORES s) s = Inr a"
    and b: "foldE (\<lambda>(t, j) s. bindE (getIPInstance t j (wd s)) (\<lambda>p.
      Inr (s\<lparr>ipFreqMultipliers := upd2 (ipFreqMultipliers s) t j (freqMultiplier (getIPFreq p))\<rparr>))) js a = Inr b"
    and s': "s' = b\<lparr>memFreqMultiplier := freqMultiplier (m_freq (mem (un (wd b))))\<rparr>"
    unfolding update_multipliers_def for_inst_def foldE_product by (elim bindE_InrE) blast
  have "?P a" by (rule foldE_inv [OF _ a]) (auto simp: lasts_def)
  then have "?P b" by (rule foldE_inv [OF _ b, rotated]) (auto simp: lasts_def)
  then show ?thesis by (simp add: s' lasts_def)
qed

lemma phase_dvfs:
  assumes "clocked D pend I J v k s" "tick_dvfs D s = Inr s'"
  shows "clocked D pend I J v k s' \<and> lasts s' = lasts s \<and> (\<not> enableDVFS (gv s) \<longrightarrow> dial s' = dial s)"
proof (cases "enableDVFS (gv s) \<and> s_ticks s - dvfsLastTick s \<ge> dvfsPeriod (gv s)")
  case True
  let ?g = "\<lambda>g. g\<lparr>ipMemReqs := (\<lambda>t. if t \<le> IP_TYPE_GPU then 0 else ipMemReqs g t)\<rparr>"
  from True assms(2) obtain K w a where K: "updateDVFS D (gv s) (wd s) = Inr (K, w)" and a: "update_multipliers (s\<lparr>gv := K, wd := w\<rparr>) = Inr a"
    and s': "s' = a\<lparr>wd := set_gd (?g (s_gd a)) (wd a), dvfsLastTick := s_ticks a\<rparr>"
    by (auto simp: tick_dvfs_def Let_def)
  have "steady pend (wd s) w"
    using retuned_updateDVFS [OF K] assms(1) clockedD(5) [OF assms(1)] by (auto simp: clocked_def intro: steady_retuned)
  moreover have "steady pend w (wd s')" using update_multipliers_keeps [OF a] by (simp add: s' steady_set_gd)
  ultimately have "clocked D pend I J v k s'" using assms(1) by (meson clocked_steady steady_trans)
  with update_multipliers_keeps [OF a] True show ?thesis by (simp add: s' lasts_def)
next
  case False
  then have "tick_dvfs D s = Inr s" unfolding tick_dvfs_def by (rule if_not_P)
  with assms show ?thesis by simp
qed

text \<open>The moment a component runs next.\<close>

definition last_run :: "int \<Rightarrow> int \<Rightarrow> int \<Rightarrow> int" where
  "last_run T m l = (if T - l \<ge> m then T else l)"

lemma phase_core:
  assumes "clocked D pend I J v k s" "i < num_cpus (gd (un v))" "tick_core i s = Inr s'"
  shows "clocked D pend I J v k s' \<and> dial s' = dial s \<and>
    lasts s' = (memLastTick s, (cpuLastTick s)(i := last_run (s_ticks s) (cpuFreqMultipliers s i) (cpuLastTick s i)), ipLastTick s)"
proof (cases "s_ticks s - cpuLastTick s i \<ge> cpuFreqMultipliers s i")
  case True
  with assms(3) obtain w where w: "core_tick_at i (wd s) = Inr w" and s': "s' = s\<lparr>wd := w, cpuLastTick := (cpuLastTick s)(i := gd_ticks (gd (un w)))\<rparr>"
    by (auto simp: tick_core_def elim!: on_wd_InrE)
  note c = clocked_core [OF assms(1,2) w]
  have "gd_ticks (gd (un w)) = s_ticks s" using clockedD(4) [OF c] clockedD(4) [OF assms(1)] by simp
  with clocked_wd [OF c, of s'] True show ?thesis by (simp add: s' dial_def lasts_def last_run_def)
qed (use assms in \<open>auto simp: tick_core_def lasts_def last_run_def\<close>)

lemma phase_ip:
  assumes "clocked D pend I J v k s" "t \<noteq> IP_TYPE_CPU" "j \<in> int ` {..<num_ip_inst (gd (un v))}" "tick_ip t j s = Inr s'"
  shows "clocked D pend I J v k s' \<and> dial s' = dial s \<and>
    lasts s' = (memLastTick s, cpuLastTick s, upd2 (ipLastTick s) t j (last_run (s_ticks s) (ipFreqMultipliers s t j) (ipLastTick s t j)))"
proof (cases "s_ticks s - ipLastTick s t j \<ge> ipFreqMultipliers s t j")
  case True
  with assms(4) obtain w where w: "tickIP t j (wd s) = Inr w" and s': "s' = s\<lparr>wd := w, ipLastTick := upd2 (ipLastTick s) t j (gd_ticks (gd (un w)))\<rparr>"
    by (auto simp: tick_ip_def elim!: on_wd_InrE)
  have j: "j \<in> (if t = IP_TYPE_DC then J else I)" using assms(1,3) by (auto simp: clocked_def scheduled_def)
  note c = clocked_ip [OF assms(1,2) j w]
  have "gd_ticks (gd (un w)) = s_ticks s" using clockedD(4) [OF c] clockedD(4) [OF assms(1)] by simp
  with clocked_wd [OF c, of s'] True show ?thesis by (simp add: s' dial_def lasts_def last_run_def)
qed (use assms in \<open>auto simp: tick_ip_def lasts_def last_run_def upd2_def\<close>)

text \<open>The loops over the cores and over the instances of all types.\<close>

lemma phase_cores:
  assumes "clocked D pend I J v k s" "foldE tick_core (S_CORES s) s = Inr s'"
  shows "clocked D pend I J v k s' \<and> dial s' = dial s \<and>
    lasts s' = (memLastTick s, \<lambda>i. if i < num_cpus (gd (un v)) then last_run (s_ticks s) (cpuFreqMultipliers s i) (cpuLastTick s i)
      else cpuLastTick s i, ipLastTick s)"
proof -
  let ?P = "\<lambda>x. clocked D pend I J v k x \<and> dial x = dial s \<and> memLastTick x = memLastTick s \<and> ipLastTick x = ipLastTick s"
  let ?h = "\<lambda>i. last_run (s_ticks s) (cpuFreqMultipliers s i)"
  have step: "?P b \<and> cpuLastTick b = (cpuLastTick a)(i := ?h i (cpuLastTick a i))"
    if i: "i \<in> set (S_CORES s)" and b: "tick_core i a = Inr b" and a: "?P a" for i a b
  proof -
    have "i < num_cpus (gd (un v))" using i clockedD(2) [OF assms(1)] by simp
    from phase_core [OF conjunct1 [OF a] this b] a clockedD(4) [OF conjunct1 [OF a]] clockedD(4) [OF assms(1)]
    show ?thesis by (simp add: lasts_def dial_def)
  qed
  have "?P s' \<and> cpuLastTick s' = (\<lambda>i. if i \<in> set (S_CORES s) then ?h i (cpuLastTick s i) else cpuLastTick s i)"
    by (rule foldE_pointwise [where P = ?P and L = cpuLastTick and h = ?h, OF step _ assms(2)]) (use assms(1) in simp_all)
  with clockedD(2) [OF assms(1)] show ?thesis by (simp add: lasts_def)
qed

lemma phase_ips:
  assumes "clocked D pend I J v k s" "for_inst (ip_range IP_TYPE_DC IP_TYPE_IMG) tick_ip s = Inr s'"
  shows "clocked D pend I J v k s' \<and> dial s' = dial s \<and>
    lasts s' = (memLastTick s, cpuLastTick s, \<lambda>t j. if t \<in> set (ip_range IP_TYPE_DC IP_TYPE_IMG) \<and> j \<in> int ` {..<num_ip_inst (gd (un v))}
      then last_run (s_ticks s) (ipFreqMultipliers s t j) (ipLastTick s t j) else ipLastTick s t j)"
proof -
  let ?P = "\<lambda>x. clocked D pend I J v k x \<and> dial x = dial s \<and> memLastTick x = memLastTick s \<and> cpuLastTick x = cpuLastTick s"
  let ?L = "\<lambda>x (t, j). ipLastTick x t j" and ?h = "\<lambda>(t, j). last_run (s_ticks s) (ipFreqMultipliers s t j)"
  let ?xs = "List.product (ip_range IP_TYPE_DC IP_TYPE_IMG) (map int [0..<num_ip_inst (s_gd s)])"
  have n: "set (map int [0..<num_ip_inst (s_gd s)]) = int ` {..<num_ip_inst (gd (un v))}"
    using clockedD(3) [OF assms(1)] by auto
  have cpu: "t \<noteq> IP_TYPE_CPU" if "t \<in> set (ip_range IP_TYPE_DC IP_TYPE_IMG)" for t
    using that by (auto simp: ip_range_def IP_TYPE_order)
  have step: "?P b \<and> ?L b = (?L a)(x := ?h x (?L a x))"
    if x: "x \<in> set ?xs" and b: "(\<lambda>(t, j). tick_ip t j) x a = Inr b" and a: "?P a" for x a b
  proof -
    obtain t j where tj: "x = (t, j)" by fastforce
    have "t \<noteq> IP_TYPE_CPU" "j \<in> int ` {..<num_ip_inst (gd (un v))}" "tick_ip t j a = Inr b" using x b cpu n tj by auto
    from phase_ip [OF conjunct1 [OF a] this] a clockedD(4) [OF conjunct1 [OF a]] clockedD(4) [OF assms(1)]
    show ?thesis by (simp add: lasts_def dial_def upd2_def tj fun_eq_iff)
  qed
  have "distinct (ip_range IP_TYPE_DC IP_TYPE_IMG)" unfolding ip_range_def by (rule distinct_filter) (simp add: IP_TYPES_def)
  then have d: "distinct ?xs" by (rule distinct_product) (simp add: distinct_map inj_on_def)
  have f: "foldE (\<lambda>(t, j). tick_ip t j) ?xs s = Inr s'" using assms(2) by (simp add: for_inst_def foldE_product)
  have PL: "?P s' \<and> ?L s' = (\<lambda>x. if x \<in> set ?xs then ?h x (?L s x) else ?L s x)"
  proof (rule foldE_pointwise [where P = ?P and L = ?L and h = ?h, OF _ d f])
    fix x a b assume "x \<in> set ?xs" "(\<lambda>(t, j). tick_ip t j) x a = Inr b" "?P a"
    then show "?P b \<and> ?L b = (?L a)(x := ?h x (?L a x))" by (rule step)
  qed (use assms(1) in simp)
  have L: "ipLastTick s' t j = (if (t, j) \<in> set ?xs then last_run (s_ticks s) (ipFreqMultipliers s t j) (ipLastTick s t j) else ipLastTick s t j)"
    for t j using fun_cong [OF conjunct2 [OF PL], of "(t, j)"] by simp
  have "ipLastTick s' = (\<lambda>t j. if t \<in> set (ip_range IP_TYPE_DC IP_TYPE_IMG) \<and> j \<in> int ` {..<num_ip_inst (gd (un v))}
      then last_run (s_ticks s) (ipFreqMultipliers s t j) (ipLastTick s t j) else ipLastTick s t j)"
    by (intro ext) (simp only: L set_product n mem_Times_iff fst_conv snd_conv)
  with conjunct1 [OF PL] show ?thesis unfolding lasts_def by blast
qed

lemma phase_gpu:
  assumes "clocked D pend I J v k s" "tick_gpu s = Inr s'"
  shows "clocked D pend I J v k s' \<and> dial s' = dial s \<and> memLastTick s' = memLastTick s \<and> cpuLastTick s' = cpuLastTick s \<and>
    (\<forall>t j. t \<noteq> IP_TYPE_GPU \<longrightarrow> ipLastTick s' t j = ipLastTick s t j)"
proof (cases "m_enabled (gemdroid_ip_gpu (wd s) 0) \<and> s_ticks s - ipLastTick s IP_TYPE_GPU 0 \<ge> ipFreqMultipliers s IP_TYPE_GPU 0")
  case True
  with assms(2) obtain a b where a: "tickIP IP_TYPE_GPU 0 (wd s) = Inr a"
    and b: "tickIP IP_TYPE_DC (int (num_ip_inst (gd (un a)))) a = Inr b"
    and s': "s' = s\<lparr>wd := b, ipLastTick := upd2 (ipLastTick s) IP_TYPE_GPU 0 (gd_ticks (gd (un b)))\<rparr>"
    by (auto simp: tick_gpu_def elim!: on_wd_InrE)
  have "0 \<in> I" using clockedD(1) [OF assms(1)] by (simp add: plat_inv_def)
  then have c: "clocked D pend I J v k (s\<lparr>wd := a\<rparr>)" using clocked_ip [OF assms(1) _ _ a] by simp
  have "int (num_ip_inst (gd (un a))) \<in> J"
    using assms(1) True clockedD(6) [OF assms(1)] clockedD(3) [OF c] by (simp add: clocked_def scheduled_def)
  then have "clocked D pend I J v k (s\<lparr>wd := b\<rparr>)" using clocked_ip [OF c, of IP_TYPE_DC] b by simp
  from clocked_wd [OF this, of s'] show ?thesis by (simp add: s' dial_def upd2_def)
qed (use assms in \<open>auto simp: tick_gpu_def\<close>)

lemma phase_mem:
  assumes "clocked D pend I J v k s" "tick_mem D s = Inr s'"
  shows "clocked D pend I J v (if s_ticks s - memLastTick s \<ge> memFreqMultiplier s then k + 1 else k) s' \<and> dial s' = dial s \<and>
    lasts s' = (last_run (s_ticks s) (memFreqMultiplier s) (memLastTick s), cpuLastTick s, ipLastTick s)"
proof (cases "s_ticks s - memLastTick s \<ge> memFreqMultiplier s")
  case True
  with assms(2) obtain a u where a: "sa_tick D (wd s) = Inr a" and u: "mem_tick D (un a) = Inr u"
    and s': "s' = s\<lparr>wd := a\<lparr>un := u\<rparr>, memLastTick := gd_ticks (gd u)\<rparr>"
    by (auto simp: tick_mem_def elim!: on_wd_InrE)
  have c: "clocked D pend I J v (k + 1) (s\<lparr>wd := a\<lparr>un := u\<rparr>\<rparr>)"
    using clocked_memory [OF clocked_agent [OF assms(1) a], of u] u by simp
  have "gd_ticks (gd u) = s_ticks s" using clockedD(4) [OF c] clockedD(4) [OF assms(1)] by simp
  with clocked_wd [OF c, of s'] True show ?thesis by (simp add: s' dial_def lasts_def last_run_def)
qed (use assms in \<open>auto simp: tick_mem_def lasts_def last_run_def\<close>)

subsection \<open>The tick\<close>

lemma tick_clocked:
  assumes "clocked D pend I J (wd s) k s" "tick D s = Inr s'"
  shows "\<exists>v k'. clocked D pend I J v k' s' \<and> gd_ticks (gd (un v)) = s_ticks s + 1 \<and> scheduled I J v \<and>
    num_cpus (gd (un v)) = num_cpus (s_gd s) \<and> num_ip_inst (gd (un v)) = num_ip_inst (s_gd s) \<and>
    (\<not> enableDVFS (gv s) \<longrightarrow> dial s' = dial s \<and>
      k' = (if s_ticks s + 1 - memLastTick s \<ge> memFreqMultiplier s then k + 1 else k) \<and>
      memLastTick s' = last_run (s_ticks s + 1) (memFreqMultiplier s) (memLastTick s) \<and>
      (\<forall>i<num_cpus (s_gd s). cpuLastTick s' i = last_run (s_ticks s + 1) (cpuFreqMultipliers s i) (cpuLastTick s i)) \<and>
      (\<forall>t\<in>set (ip_range IP_TYPE_DC IP_TYPE_IMG). \<forall>j<num_ip_inst (s_gd s).
        ipLastTick s' t (int j) = last_run (s_ticks s + 1) (ipFreqMultipliers s t (int j)) (ipLastTick s t (int j))))"
proof -
  let ?s = "s\<lparr>wd := set_gd ((s_gd s)\<lparr>gd_ticks := s_ticks s + 1\<rparr>) (wd s)\<rparr>"
  let ?v = "wd ?s" and ?T = "s_ticks s + 1" and ?r = "ip_range IP_TYPE_DC IP_TYPE_IMG"
  have c: "clocked D pend I J ?v k ?s"
    using assms(1) plat_run.tune [of D pend I J "wd s" ?v]
    by (auto simp: clocked_def scheduled_def set_gd_def tuned_def uncore_quiet_def)
  have v: "gd_ticks (gd (un ?v)) = ?T" "num_cpus (gd (un ?v)) = num_cpus (s_gd s)" "num_ip_inst (gd (un ?v)) = num_ip_inst (s_gd s)"
    and s: "dial ?s = dial s" "lasts ?s = lasts s" "gv ?s = gv s"
    by (simp_all add: set_gd_def dial_def lasts_def)
  from assms(2) obtain s1 s2 s3 s4 s5 s6 s7 where r: "tick_stats D ?s = Inr s1" "tick_power s1 = Inr s2" "tick_frames s2 = Inr s3"
    "tick_dvfs D s3 = Inr s4" "foldE tick_core (S_CORES s4) s4 = Inr s5" "for_inst ?r tick_ip s5 = Inr s6" "tick_gpu s6 = Inr s7"
    "tick_mem D s7 = Inr s'"
    unfolding tick_def Let_def by (elim bindE_InrE) blast
  have p1: "clocked D pend I J ?v k s1 \<and> dial s1 = dial ?s \<and> lasts s1 = lasts ?s" by (rule phase_stats [OF c r(1)])
  have p2: "clocked D pend I J ?v k s2 \<and> dial s2 = dial s1 \<and> lasts s2 = lasts s1" by (rule phase_power [OF conjunct1 [OF p1] r(2)])
  have p3: "clocked D pend I J ?v k s3 \<and> dial s3 = dial s2 \<and> lasts s3 = lasts s2" by (rule phase_frames [OF conjunct1 [OF p2] r(3)])
  note p4 = phase_dvfs [OF conjunct1 [OF p3] r(4)]
  note p5 = phase_cores [OF conjunct1 [OF p4] r(5)]
  note p6 = phase_ips [OF conjunct1 [OF p5] r(6)]
  note p7 = phase_gpu [OF conjunct1 [OF p6] r(7)]
  note p8 = phase_mem [OF conjunct1 [OF p7] r(8)]
  have T: "s_ticks x = ?T" if "clocked D pend I J ?v k x" for x using clockedD(4) [OF that] v(1) by simp
  let ?k = "if s_ticks s7 - memLastTick s7 \<ge> memFreqMultiplier s7 then k + 1 else k"
  have main: "dial s' = dial s \<and> ?k = (if ?T - memLastTick s \<ge> memFreqMultiplier s then k + 1 else k) \<and>
      memLastTick s' = last_run ?T (memFreqMultiplier s) (memLastTick s) \<and>
      (\<forall>i<num_cpus (s_gd s). cpuLastTick s' i = last_run ?T (cpuFreqMultipliers s i) (cpuLastTick s i)) \<and>
      (\<forall>t\<in>set ?r. \<forall>j<num_ip_inst (s_gd s). ipLastTick s' t (int j) = last_run ?T (ipFreqMultipliers s t (int j)) (ipLastTick s t (int j)))"
    if off: "\<not> enableDVFS (gv s)"
  proof -
    have "gv s3 = gv s" using p1 p2 p3 s by (simp add: dial_def)
    then have d4: "dial s4 = dial s" and l4: "lasts s4 = lasts s" using p1 p2 p3 p4 s off by simp_all
    have d: "dial s5 = dial s" "dial s6 = dial s" "dial s7 = dial s" "dial s' = dial s" using d4 p5 p6 p7 p8 by simp_all
    have gpu: "t \<noteq> IP_TYPE_GPU" if "t \<in> set ?r" for t using that by (auto simp: ip_range_def IP_TYPE_order)
    have t: "s_ticks s4 = ?T" "s_ticks s5 = ?T" "s_ticks s7 = ?T" using p4 p5 p7 T by blast+
    note eqs = d4 d l4 [unfolded lasts_def] t conjunct2 [OF p5, unfolded lasts_def] conjunct2 [OF p6, unfolded lasts_def] conjunct2 [OF p7]
      conjunct2 [OF p8, unfolded lasts_def]
    have mem: "memLastTick s7 = memLastTick s" "memFreqMultiplier s7 = memFreqMultiplier s" using eqs by (simp_all add: dial_def)
    have "cpuLastTick s' i = last_run ?T (cpuFreqMultipliers s i) (cpuLastTick s i)" if "i < num_cpus (s_gd s)" for i
      using eqs that v by (simp add: dial_def)
    moreover have "ipLastTick s' t (int j) = last_run ?T (ipFreqMultipliers s t (int j)) (ipLastTick s t (int j))"
      if "t \<in> set ?r" "j < num_ip_inst (s_gd s)" for t j
      using eqs that gpu v by (simp add: dial_def)
    ultimately show ?thesis using eqs mem by simp
  qed
  show ?thesis
    by (rule exI [of _ ?v], rule exI [of _ ?k]) (use p8 main v c in \<open>simp add: clocked_def\<close>)
qed

lemma clocked_self: "clocked D pend I J v k s \<Longrightarrow> clocked D pend I J (wd s) k s"
  using clockedD(3,5,6) [of D pend I J v k s] by (simp add: clocked_def scheduled_def)

lemma repeatE_count:
  assumes "\<And>t s s'. P t s \<Longrightarrow> f s = Inr s' \<Longrightarrow> P (t + 1) s'"
  shows "repeatE n f s = Inr s' \<Longrightarrow> P t s \<Longrightarrow> P (t + int n) s'"
proof (induction n arbitrary: s t)
  case (Suc n)
  then obtain a where "f s = Inr a" "repeatE n f a = Inr s'" by auto
  with Suc.IH [of a "t + 1"] assms [OF Suc.prems(2)] show ?case by (simp add: ac_simps)
qed simp

lemma last_run_step:
  assumes "0 < m" "l = m * (T div m)"
  shows "last_run (T + 1) m l = m * ((T + 1) div m)" "(T + 1) div m = (if T + 1 - l \<ge> m then T div m + 1 else T div m)"
proof -
  have l: "T - l = T mod m" using assms(2) by (simp add: minus_mult_div_eq_mod)
  have r: "0 \<le> T mod m" "T mod m < m" using assms(1) by simp_all
  have q: "m * (T div m + 1) = l + m" using assms(2) by (simp add: algebra_simps)
  show d: "(T + 1) div m = (if T + 1 - l \<ge> m then T div m + 1 else T div m)"
  proof (cases "T + 1 - l \<ge> m")
    case True
    then have "T + 1 = m * (T div m + 1)" using l r q by linarith
    then have "(T + 1) div m = T div m + 1" using assms(1) by (metis nonzero_mult_div_cancel_left order_less_imp_not_eq2)
    with True show ?thesis by simp
  next
    case False
    then have "T + 1 - l < m" "0 \<le> T + 1 - l" using l r by linarith+
    then have "(l + (T + 1 - l)) div m = T div m" unfolding assms(2) using assms(1) by (subst div_mult_self4) simp_all
    with False show ?thesis by simp
  qed
  show "last_run (T + 1) m l = m * ((T + 1) div m)"
    unfolding d last_run_def using l r q assms(2) by auto
qed

text \<open>\<open>T\<close> ticks after \<open>s\<close>, with fixed frequencies: when every component ran last.\<close>

definition paced ::
  "'d DRAMSim2Wrapper \<Rightarrow> ('d \<Rightarrow> completion multiset) \<Rightarrow> int set \<Rightarrow> int set \<Rightarrow> 'd sched \<Rightarrow> int \<Rightarrow> 'd sched \<Rightarrow> bool" where
  "paced D pend I J s T x \<longleftrightarrow> clocked D pend I J (wd x) (sa_ticks (sa (un (wd s))) + T div memFreqMultiplier s) x \<and> s_ticks x = T \<and>
     dial x = dial s \<and> num_cpus (s_gd x) = num_cpus (s_gd s) \<and> num_ip_inst (s_gd x) = num_ip_inst (s_gd s) \<and>
     memLastTick x = memFreqMultiplier s * (T div memFreqMultiplier s) \<and>
     (\<forall>i<num_cpus (s_gd s). cpuLastTick x i = cpuFreqMultipliers s i * (T div cpuFreqMultipliers s i)) \<and>
     (\<forall>t\<in>set (ip_range IP_TYPE_DC IP_TYPE_IMG). \<forall>j<num_ip_inst (s_gd s).
        ipLastTick x t (int j) = ipFreqMultipliers s t (int j) * (T div ipFreqMultipliers s t (int j)))"

lemma tick_paced:
  assumes a: "paced D pend I J s T a" and b: "tick D a = Inr b" and off: "\<not> enableDVFS (gv s)" and pos: "0 < memFreqMultiplier s"
    "\<forall>i<num_cpus (s_gd s). cpuLastTick s i = 0 \<and> 0 < cpuFreqMultipliers s i"
    "\<forall>t\<in>set (ip_range IP_TYPE_DC IP_TYPE_IMG). \<forall>j<num_ip_inst (s_gd s). ipLastTick s t (int j) = 0 \<and> 0 < ipFreqMultipliers s t (int j)"
  shows "paced D pend I J s (T + 1) b"
proof -
  let ?m = "memFreqMultiplier s" and ?k = "sa_ticks (sa (un (wd s)))" and ?r = "set (ip_range IP_TYPE_DC IP_TYPE_IMG)"
  let ?C = "num_cpus (s_gd s)" and ?N = "num_ip_inst (s_gd s)"
  note p = a [unfolded paced_def]
  have d: "gv a = gv s" "memFreqMultiplier a = ?m" "cpuFreqMultipliers a = cpuFreqMultipliers s" "ipFreqMultipliers a = ipFreqMultipliers s"
    "num_cpus (s_gd a) = ?C" "num_ip_inst (s_gd a) = ?N" "s_ticks a = T"
    using p by (simp_all add: dial_def)
  from tick_clocked [OF conjunct1 [OF p] b, unfolded d] off obtain v k where
    c: "clocked D pend I J v k b" "gd_ticks (gd (un v)) = T + 1" "num_cpus (gd (un v)) = ?C" "num_ip_inst (gd (un v)) = ?N" "dial b = dial a"
    and k: "k = (if T + 1 - memLastTick a \<ge> ?m then ?k + T div ?m + 1 else ?k + T div ?m)"
    and m: "memLastTick b = last_run (T + 1) ?m (memLastTick a)"
    and cpu: "\<forall>i<?C. cpuLastTick b i = last_run (T + 1) (cpuFreqMultipliers s i) (cpuLastTick a i)"
    and ip: "\<forall>t\<in>?r. \<forall>j<?N. ipLastTick b t (int j) = last_run (T + 1) (ipFreqMultipliers s t (int j)) (ipLastTick a t (int j))"
    by (elim exE conjE) (rule that, assumption+, blast+)
  have "k = ?k + (T + 1) div ?m" unfolding k using last_run_step(2) [OF pos(1), of "memLastTick a" T] p by simp
  then have "clocked D pend I J (wd b) (?k + (T + 1) div ?m) b" using clocked_self [OF c(1)] by simp
  moreover have "memLastTick b = ?m * ((T + 1) div ?m)" using m p last_run_step(1) [OF pos(1)] by simp
  moreover have "\<forall>i<?C. cpuLastTick b i = cpuFreqMultipliers s i * ((T + 1) div cpuFreqMultipliers s i)"
    using cpu p pos(2) last_run_step(1) by simp
  moreover have "\<forall>t\<in>?r. \<forall>j<?N. ipLastTick b t (int j) = ipFreqMultipliers s t (int j) * ((T + 1) div ipFreqMultipliers s t (int j))"
    using ip p pos(3) last_run_step(1) by simp
  ultimately show ?thesis unfolding paced_def using p c clockedD(2-4) [OF c(1)] by simp
qed

text \<open>Any number of ticks.\<close>

lemma clocked_ticks:
  assumes "clocked D pend I J (wd s) k s" "repeatE n (tick D) s = Inr s'"
  shows "(\<exists>k. clocked D pend I J (wd s') k s') \<and> s_ticks s' = s_ticks s + int n"
proof -
  let ?P = "\<lambda>t x. (\<exists>k. clocked D pend I J (wd x) k x) \<and> s_ticks x = t"
  show ?thesis
  proof (rule repeatE_count [where P = ?P, OF _ assms(2)])
    fix t a b assume "?P t a" and b: "tick D a = Inr b"
    then obtain k where "clocked D pend I J (wd a) k a" "s_ticks a = t" by blast
    with tick_clocked [OF this(1) b] clockedD(4) clocked_self show "?P (t + 1) b" by metis
  qed (use assms(1) in blast)
qed

text \<open>The scheduler of the witnesses, with fixed frequencies and no GPU.\<close>

definition s_demo :: "completion list sched" where
  "s_demo = \<lparr>wd = (w_demo [Token ''NW'' 0 0, Token ''0'' 0 0, Token ''0'' 0 0])\<lparr>gemdroid_ip_gpu := (\<lambda>_. gpu_demo\<lparr>m_enabled := False\<rparr>)\<rparr>,
     gv = gov_demo\<lparr>enableDVFS := False\<rparr>, isPrintPeriodicStats = False, isPrintPeriodicStatsPower = False, powerCalcLastTick = 0,
     periodicStatsLastTick = 0, slackLastTick = 0, dvfsLastTick = 0, memLastTick = 0, cpuLastTick = (\<lambda>_. 0), ipLastTick = (\<lambda>_ _. 0),
     memFreqMultiplier = 2, cpuFreqMultipliers = (\<lambda>_. 3), ipFreqMultipliers = (\<lambda>_ _. 3), framesMissed = 0, framesToBeShown = 0,
     m_totalCoreEnergy = (\<lambda>_. 0), m_totalIPEnergy = (\<lambda>_. 0), m_totalMemEnergy = 0, m_totalPlatformEnergy = 0, m_totalMilliSecs = 0\<rparr>"

lemma s_demo_run: "plat_run fifo_dram mset {0} {0} (wd s_demo)"
proof (rule plat_run.tune [OF plat_run.boot [OF w_demo_fresh]])
  show "tuned mset (w_demo [Token ''NW'' 0 0, Token ''0'' 0 0, Token ''0'' 0 0]) (wd s_demo)"
    by (simp add: s_demo_def tuned_def uncore_quiet_def gpu_quiet_def gpu_inv_def ip_inv_def ip_power_inv_def ip_dvfs_inv_def ip_class_ok_def) (simp add: w_demo_def)
qed

lemma s_demo_scheduled: "scheduled {0} {0} (wd s_demo)" "governor (s_gd s_demo) \<noteq> GOVERNOR_TYPE_BUILDING" "\<not> enableDVFS (gv s_demo)"
  by (auto simp: scheduled_def s_demo_def w_demo_def gd_demo_def)

text \<open>A tick at which only the agent and the memory may be due.\<close>

lemma tick_only_mem:
  assumes "s_ticks s + 1 - periodicStatsLastTick s < PERIODIC_STATS" "s_ticks s + 1 - powerCalcLastTick s < MICROSEC"
    and "s_ticks s + 1 - slackLastTick s < 16 * MILLISEC" "\<not> enableDVFS (gv s)" "num_cpus (s_gd s) \<le> MAX_CPUS" "num_ip_inst (s_gd s) \<le> MAX_IPS"
    and "\<And>i. i < num_cpus (s_gd s) \<Longrightarrow> s_ticks s + 1 - cpuLastTick s i < cpuFreqMultipliers s i"
    and "\<And>t j. s_ticks s + 1 - ipLastTick s t j < ipFreqMultipliers s t j" "\<not> m_enabled (gemdroid_ip_gpu (wd s) 0)"
  shows "tick D s = tick_mem D (s\<lparr>wd := set_gd ((s_gd s)\<lparr>gd_ticks := s_ticks s + 1\<rparr>) (wd s)\<rparr>)"
proof -
  let ?s = "s\<lparr>wd := set_gd ((s_gd s)\<lparr>gd_ticks := s_ticks s + 1\<rparr>) (wd s)\<rparr>"
  have stay: "foldE f xs a = Inr a" if "\<And>x. x \<in> set xs \<Longrightarrow> f x a = Inr a" for f :: "'c \<Rightarrow> 'd \<Rightarrow> 'd result" and xs a
    using that by (induction xs) simp_all
  have "foldE tick_core (S_CORES ?s) ?s = Inr ?s" using assms(5,7) by (intro stay) (auto simp: tick_core_def set_gd_def not_le [symmetric])
  moreover have "for_inst (ip_range IP_TYPE_DC IP_TYPE_IMG) tick_ip ?s = Inr ?s"
    unfolding for_inst_def using assms(6,8) by (intro stay) (auto simp: tick_ip_def set_gd_def not_le [symmetric])
  ultimately show ?thesis using assms(1-4,9)
    by (simp add: tick_def Let_def tick_stats_def tick_power_def tick_frames_def tick_dvfs_def tick_gpu_def set_gd_def)
qed

lemma s_demo_ticks:
  "\<exists>s. repeatE 2 (tick fifo_dram) s_demo = Inr s"
proof -
  let ?a = "\<lambda>s. s\<lparr>wd := set_gd ((s_gd s)\<lparr>gd_ticks := s_ticks s + 1\<rparr>) (wd s)\<rparr>"
  have 1: "tick fifo_dram s_demo = Inr (?a s_demo)"
    by (subst tick_only_mem) (simp_all add: s_demo_def w_demo_def gd_demo_def gov_demo_def tick_mem_def set_gd_def)
  have "case tick_mem fifo_dram (?a (?a s_demo)) of Inl e \<Rightarrow> False | Inr s \<Rightarrow> True" by code_simp
  then obtain s where s: "tick_mem fifo_dram (?a (?a s_demo)) = Inr s" by (auto split: sum.splits)
  have "tick fifo_dram (?a s_demo) = tick_mem fifo_dram (?a (?a s_demo))"
    by (rule tick_only_mem) (simp_all add: s_demo_def w_demo_def gd_demo_def gov_demo_def set_gd_def)
  with 1 s show ?thesis by (simp add: numeral_2_eq_2)
qed

subsection \<open>Properties\<close>

text \<open>C2: the scheduler refines the contract. Every number of platform ticks, with any governor other
  than BUILDING, is a run of the platform in which the components, the agent and the memory tick and
  are tuned: the clock advances by one per tick, the configuration stays, and the contract of the
  platform holds in the state reached.\<close>

theorem scheduler_refines:
  assumes "dram_conserves D pend" "plat_run D pend I J (wd s)" "scheduled I J (wd s)" "governor (s_gd s) \<noteq> GOVERNOR_TYPE_BUILDING"
    and "repeatE n (tick D) s = Inr s'"
  shows "plat_run D pend I J (wd s') \<and> plat_inv pend I J (wd s') \<and> scheduled I J (wd s') \<and> s_ticks s' = s_ticks s + int n"
proof -
  have "clocked D pend I J (wd s) (sa_ticks (sa (un (wd s)))) s" using assms(1-4) by (simp add: clocked_def)
  from clocked_ticks [OF this assms(5)] show ?thesis by (auto simp: clocked_def intro: plat_run_inv)
qed

theorem scheduler_refines_witness:
  "\<exists>s. repeatE 2 (tick fifo_dram) s_demo = Inr s \<and> plat_inv mset {0} {0} (wd s) \<and> s_ticks s = 2"
proof -
  obtain s where s: "repeatE 2 (tick fifo_dram) s_demo = Inr s" using s_demo_ticks by blast
  have "s_ticks s_demo = 0" by (simp add: s_demo_def w_demo_def gd_demo_def)
  with s scheduler_refines [OF dram_conserves_fifo s_demo_run s_demo_scheduled(1,2) s] show ?thesis by auto
qed



end
