(* ===== verification/GD_Boot.thy ===== *)
theory GD_Boot
  imports GD_Run
begin

section \<open>Construction of the platform\<close>

text \<open>
  The constructor of \<open>GD_Sched\<close> (\<open>GemDroid::GemDroid\<close>) builds a platform that satisfies the contract, so
  that everything \<open>GD_Contract\<close> and \<open>GD_Run\<close> show holds from the first tick on. It is about one instance
  of every IP, the default: with more, the second GPU would be used without having been initialised.
  Some members no constructor assigns (\<open>is_busy\<close>, \<open>reqSent\<close>, \<open>m_dependenceCount\<close>); the platform
  relies on the memory it is created in being zero there (\<open>blank\<close>).
\<close>

subsection \<open>Components\<close>

lemma load_ips_length: "load_ips row pos ip toks = Inr (row', ip') \<Longrightarrow> length row' = length row"
  by (induction row pos ip toks rule: load_ips.induct) (subst (asm) (2) load_ips.simps, auto simp: Let_def split: if_splits)

lemma loadFlows_loop_wf: "loadFlows_loop tbl k a ip lines = Inr tbl' \<Longrightarrow> wf_flowTable tbl \<Longrightarrow> wf_flowTable tbl'"
proof (induction tbl k a ip lines rule: loadFlows_loop.induct)
  case (3 tbl flowId last_app_id ip_id app_id toks lines)
  let ?k = "if app_id \<noteq> last_app_id then 0 else flowId"
  from "3.prems"(1) obtain row ip where b: "0 \<le> app_id" "app_id < int APP_ID_END" "?k < MAX_FLOWS_IN_APP"
    and row: "load_ips (tbl ! nat app_id ! ?k) 0 ip_id toks = Inr (row, ip)"
    and rest: "loadFlows_loop (tbl[nat app_id := (tbl ! nat app_id)[?k := row]]) (Suc ?k) app_id ip lines = Inr tbl'"
    by (auto simp: Let_def)
  have n: "nat app_id < length tbl" using b "3.prems"(2) by (simp add: wf_flowTable_def)
  then have r: "length (tbl ! nat app_id) = MAX_FLOWS_IN_APP" "\<forall>x\<in>set (tbl ! nat app_id). length x = MAX_IPS_IN_FLOW"
    using "3.prems"(2) nth_mem [OF n] unfolding wf_flowTable_def by blast+
  have "length row = MAX_IPS_IN_FLOW" using load_ips_length [OF row] r b(3) by simp
  then have "wf_flowTable (tbl[nat app_id := (tbl ! nat app_id)[?k := row]])"
    using "3.prems"(2) r by (auto simp: wf_flowTable_def dest!: set_update_subset_insert [THEN subsetD])
  with "3.IH" b row rest show ?case by (auto simp: Let_def)
qed simp_all

lemma loadFlows_wf: "loadFlows lines = Inr tbl \<Longrightarrow> wf_flowTable tbl"
  unfolding loadFlows_def by (erule loadFlows_loop_wf) (simp add: wf_flowTable_def empty_flowTable_def)

lemma ip_init_ok:
  assumes "ip_init t i dev lat f opt p g = Inr (p', g')" "dev \<longrightarrow> t < IP_TYPE_VD" "capacitance_of t \<noteq> None" "0 \<le> opt" "opt < IP_DVFS_STATES"
  shows "ip_at t i p' \<and> is_busy p' = is_busy p \<and> reqSent p' = reqSent p \<and> m_reqCount p' = -1 \<and> m_cyclesToSkip p' = 0 \<and> ioLatency p' = lat \<and>
    isDev p' = dev \<and> cyclesToWake p' = 0 \<and> GemDroidIP.more p' = GemDroidIP.more p \<and> gd_config g' = gd_config g"
proof -
  let ?q = "p\<lparr>ip_type := t, isDev := dev, ip_id := i, ioLatency := lat\<rparr>"
  have ok: "ip_class_ok ?q" using assms(2) by (auto simp: ip_class_ok_def)
  have cap: "(case capacitance_of t of None \<Rightarrow> x | Some y \<Rightarrow> y) = ip_cap t" for x
    using assms(3) by (auto simp: ip_cap_def)
  let ?w = "dvfs_on_wake (governor g) ?q"
  have "?w = ?q\<lparr>dvfsState := dvfsState ?w, dvfsCounter := dvfsCounter ?w\<rparr>" by (simp add: dvfs_on_wake_def)
  then obtain k n where "?w = ?q\<lparr>dvfsState := k, dvfsCounter := n\<rparr>" by blast
  with assms(1,4,5) ok show ?thesis
    by (auto simp: ip_init_def ip_setPStateActive_eq cap setIPFreq_def Let_def ip_at_def
        ip_inv_def ip_power_inv_def ip_dvfs_inv_def ip_class_ok_def)
qed

lemma coder_init_ok:
  assumes "coder_init t i False lat ins outs ratio chunk f opt p g = Inr (p', g')" "capacitance_of t \<noteq> None" "0 \<le> opt" "opt < IP_DVFS_STATES"
    and "\<not> is_busy p" "reqSent p = 0" "0 \<le> ins" "0 \<le> outs"
  shows "ip_at t i p' \<and> cinv (view coder_todo p') \<and> coder_reads p' = 0 \<and> \<not> is_busy p' \<and> ioLatency p' = 0 \<and> computeLatency p' = lat \<and>
    coding_ratio p' = ratio \<and> targetOutputChunkSizeInCL p' = chunk \<and> coder.more p' = coder.more p \<and> gd_config g' = gd_config g"
proof -
  from assms(1) obtain q where q: "ip_init t i False 0 f opt p g = Inr (q, g')"
    and p': "p' = q\<lparr>computeLatency := lat, inBufferSize := ins, outBufferSize := outs, coding_ratio := ratio, targetOutputChunkSizeInCL := chunk,
      currInBuffer := 0, currOutBuffer := 0\<rparr>"
    by (auto simp: coder_init_def)
  have i: "ip_at t i q \<and> is_busy q = is_busy p \<and> reqSent q = reqSent p \<and> m_reqCount q = -1 \<and> m_cyclesToSkip q = 0 \<and> ioLatency q = 0 \<and>
    isDev q = False \<and> cyclesToWake q = 0 \<and> GemDroidIP.more q = GemDroidIP.more p \<and> gd_config g' = gd_config g"
    by (rule ip_init_ok [OF q _ assms(2-4)]) simp
  have "coder.more q = coder.more p" using i by (cases q; cases p) simp
  moreover have "ip_inv p'" using i by (simp add: p' ip_at_def ip_inv_def ip_power_inv_def ip_dvfs_inv_def ip_class_ok_def)
  ultimately show ?thesis using i assms(5-8)
    by (simp add: p' ip_at_def cinv_def view_def coder_todo_def coder_reads_def)
qed

lemma dec_init_ok:
  assumes "dec_init t i False lat ins outs ratio chunk f opt p g = Inr (p', g')" "capacitance_of t \<noteq> None" "0 \<le> opt" "opt < IP_DVFS_STATES"
    and "\<not> is_busy p" "reqSent p = 0" "m_dependenceCount p \<le> 0" "0 \<le> ins" "0 \<le> outs" "0 < lat" "0 \<le> ratio"
  shows "coder_at dec_todo dec_ok (\<lambda>_ _. 0) t i p' \<and> gd_config g' = gd_config g"
proof -
  from assms(1) obtain q where q: "coder_init t i False lat ins outs ratio chunk f opt p g = Inr (q, g')"
    and p': "p' = q\<lparr>m_IPMemOutStall := 0, m_IPMemInStalls := 0, m_IPDataReadIntoIP := 0, m_IPTrueProcessCycles := 0\<rparr>"
    by (auto simp: dec_init_def)
  note i = coder_init_ok [OF q assms(2-6,8,9)]
  have "m_dependenceCount q = m_dependenceCount p" using i by (cases q; cases p) simp
  moreover have "ip_inv p'" using i by (auto simp: p' ip_at_def ip_inv_def ip_power_inv_def ip_dvfs_inv_def ip_class_ok_def)
  ultimately show ?thesis using i assms(7,10,11)
    by (auto simp: p' coder_at_def ip_at_def dec_ok_def cinv_def view_def dec_todo_def coder_todo_def coder_reads_def split: if_splits)
qed

lemma gpu_init_ok:
  assumes "gpu_init IP_TYPE_GPU i False nm tr f opt p g = Inr (p', g')" "0 \<le> opt" "opt < IP_DVFS_STATES"
  shows "gpu_inv p' \<and> ip_id p' = i \<and> gd_config g' = gd_config g"
proof -
  from assms(1) obtain q where q: "ip_init IP_TYPE_GPU i False 0 f opt p g = Inr (q, g')"
    by (auto simp: gpu_init_def split: if_splits option.splits)
  have i: "ip_at IP_TYPE_GPU i q \<and> is_busy q = is_busy p \<and> reqSent q = reqSent p \<and> m_reqCount q = -1 \<and> m_cyclesToSkip q = 0 \<and> ioLatency q = 0 \<and>
    isDev q = False \<and> cyclesToWake q = 0 \<and> GemDroidIP.more q = GemDroidIP.more p \<and> gd_config g' = gd_config g"
    by (rule ip_init_ok [OF q _ _ assms(2,3)]) simp_all
  then have "gpu_inv q" "cyclesToWake q = 0" "ip_id q = i" by (simp_all add: gpu_inv_def ip_at_def)
  then show ?thesis using assms(1) i
    by (auto simp: gpu_init_def q gpu_inv_def ip_inv_def ip_power_inv_def ip_dvfs_inv_def ip_class_ok_def split: if_splits option.splits)
qed

lemma core_init_id: "core_init cid nm tr f opt iw c g = Inr (c', g') \<Longrightarrow> c_id c' = cid \<and> gd_config g' = gd_config g"
  by (auto simp: core_init_def Let_def split_beta setCoreFreq_def core_clock_config split: option.splits if_splits)

subsection \<open>The platform\<close>

definition blank :: "'d world \<Rightarrow> bool" where
  "blank w \<longleftrightarrow> \<not> is_busy (gemdroid_ip_vd w 0) \<and> reqSent (gemdroid_ip_vd w 0) = 0 \<and> m_dependenceCount (gemdroid_ip_vd w 0) = 0 \<and>
     \<not> is_busy (gemdroid_ip_ve w 0) \<and> reqSent (gemdroid_ip_ve w 0) = 0 \<and>
     \<not> is_busy (gemdroid_ip_ad w 0) \<and> reqSent (gemdroid_ip_ad w 0) = 0 \<and> m_dependenceCount (gemdroid_ip_ad w 0) = 0 \<and>
     \<not> is_busy (gemdroid_ip_ae w 0) \<and> reqSent (gemdroid_ip_ae w 0) = 0 \<and>
     \<not> is_busy (gemdroid_ip_img w 0) \<and> reqSent (gemdroid_ip_img w 0) = 0"

text \<open>The optimal states that \<open>loadIPChars\<close> sets.\<close>

definition states_ok :: "gov \<Rightarrow> bool" where
  "states_ok K \<longleftrightarrow> (\<forall>t. 0 \<le> optimal_freqs K t \<and> optimal_freqs K t < IP_DVFS_STATES)"

lemma loadIPChars_states: "loadIPChars file K = Inr K' \<Longrightarrow> states_ok K'"
  by (auto simp: loadIPChars_def states_ok_def Let_def split: option.splits)

lemma init_dev_ok:
  assumes "init_dev P K t lat i w = Inr w'" "states_ok K" "IP_TYPE_DC \<le> t" "t < IP_TYPE_VD"
  shows "\<exists>p g. w' = set_gd g (setIPInstance t i p w) \<and> ip_at t i p \<and> gd_config g = gd_config (gd (un w))"
proof -
  have "capacitance_of t \<noteq> None" using assms(3,4) by (cases t) (simp_all add: IP_TYPE_order)
  then show ?thesis using assms(1,2,4) unfolding states_ok_def init_dev_def
    by (auto dest!: ip_init_ok)
qed

lemma init_devs_ok:
  assumes "init_devs P K i w = Inr w'" "states_ok K"
  shows "\<exists>dc nw snd mic cam mi mo g. w' = set_gd g (w\<lparr>gemdroid_ip_dc := (gemdroid_ip_dc w)(i := dc), gemdroid_ip_nw := (gemdroid_ip_nw w)(i := nw),
      gemdroid_ip_snd := (gemdroid_ip_snd w)(i := snd), gemdroid_ip_mic := (gemdroid_ip_mic w)(i := mic), gemdroid_ip_cam := (gemdroid_ip_cam w)(i := cam),
      gemdroid_ip_mmc_in := (gemdroid_ip_mmc_in w)(i := mi), gemdroid_ip_mmc_out := (gemdroid_ip_mmc_out w)(i := mo)\<rparr>) \<and>
    gd_config g = gd_config (gd (un w)) \<and> ip_at IP_TYPE_DC i dc \<and> ip_at IP_TYPE_NW i nw \<and> ip_at IP_TYPE_SND i snd \<and> ip_at IP_TYPE_MIC i mic \<and>
    ip_at IP_TYPE_CAM i cam \<and> ip_at IP_TYPE_MMC_IN i mi \<and> ip_at IP_TYPE_MMC_OUT i mo"
proof -
  from assms(1) obtain w1 w2 w3 w4 w5 w6 where r: "init_dev P K IP_TYPE_DC 1 i w = Inr w1" "init_dev P K IP_TYPE_NW 1 i w1 = Inr w2"
    "init_dev P K IP_TYPE_SND 1 i w2 = Inr w3" "init_dev P K IP_TYPE_MIC 1 i w3 = Inr w4" "init_dev P K IP_TYPE_CAM 1 i w4 = Inr w5"
    "init_dev P K IP_TYPE_MMC_IN 10 i w5 = Inr w6" "init_dev P K IP_TYPE_MMC_OUT 10 i w6 = Inr w'"
    by (auto simp: init_devs_def)
  from init_dev_ok [OF r(1) assms(2)] obtain dc g1 where 1: "w1 = set_gd g1 (setIPInstance IP_TYPE_DC i dc w)" "ip_at IP_TYPE_DC i dc" "gd_config g1 = gd_config (gd (un w))" by (auto simp: IP_TYPE_order)
  from init_dev_ok [OF r(2) assms(2)] obtain nw g2 where 2: "w2 = set_gd g2 (setIPInstance IP_TYPE_NW i nw w1)" "ip_at IP_TYPE_NW i nw" "gd_config g2 = gd_config (gd (un w1))" by (auto simp: IP_TYPE_order)
  from init_dev_ok [OF r(3) assms(2)] obtain snd g3 where 3: "w3 = set_gd g3 (setIPInstance IP_TYPE_SND i snd w2)" "ip_at IP_TYPE_SND i snd" "gd_config g3 = gd_config (gd (un w2))" by (auto simp: IP_TYPE_order)
  from init_dev_ok [OF r(4) assms(2)] obtain mic g4 where 4: "w4 = set_gd g4 (setIPInstance IP_TYPE_MIC i mic w3)" "ip_at IP_TYPE_MIC i mic" "gd_config g4 = gd_config (gd (un w3))" by (auto simp: IP_TYPE_order)
  from init_dev_ok [OF r(5) assms(2)] obtain cam g5 where 5: "w5 = set_gd g5 (setIPInstance IP_TYPE_CAM i cam w4)" "ip_at IP_TYPE_CAM i cam" "gd_config g5 = gd_config (gd (un w4))" by (auto simp: IP_TYPE_order)
  from init_dev_ok [OF r(6) assms(2)] obtain mi g6 where 6: "w6 = set_gd g6 (setIPInstance IP_TYPE_MMC_IN i mi w5)" "ip_at IP_TYPE_MMC_IN i mi" "gd_config g6 = gd_config (gd (un w5))" by (auto simp: IP_TYPE_order)
  from init_dev_ok [OF r(7) assms(2)] obtain mo g7 where 7: "w' = set_gd g7 (setIPInstance IP_TYPE_MMC_OUT i mo w6)" "ip_at IP_TYPE_MMC_OUT i mo" "gd_config g7 = gd_config (gd (un w6))" by (auto simp: IP_TYPE_order)
  show ?thesis
    by (rule exI [of _ dc], rule exI [of _ nw], rule exI [of _ snd], rule exI [of _ mic], rule exI [of _ cam], rule exI [of _ mi], rule exI [of _ mo], rule exI [of _ g7])
      (use 1 2 3 4 5 6 7 in \<open>simp add: setIPInstance_def set_gd_def\<close>)
qed

lemma init_accs_ok:
  assumes "init_accs P K 0 w = Inr w'" "states_ok K" "blank w"
  shows "\<exists>vd ve ad ae im g. w' = set_gd g (w\<lparr>gemdroid_ip_vd := (gemdroid_ip_vd w)(0 := vd), gemdroid_ip_ve := (gemdroid_ip_ve w)(0 := ve),
      gemdroid_ip_ad := (gemdroid_ip_ad w)(0 := ad), gemdroid_ip_ae := (gemdroid_ip_ae w)(0 := ae), gemdroid_ip_img := (gemdroid_ip_img w)(0 := im)\<rparr>) \<and>
    gd_config g = gd_config (gd (un w)) \<and> coder_at dec_todo dec_ok (\<lambda>_ _. 0) IP_TYPE_VD 0 vd \<and> coder_at coder_todo enc_ok (\<lambda>_ _. 0) IP_TYPE_VE 0 ve \<and>
    coder_at dec_todo dec_ok (\<lambda>_ _. 0) IP_TYPE_AD 0 ad \<and> coder_at coder_todo enc_ok (\<lambda>_ _. 0) IP_TYPE_AE 0 ae \<and>
    coder_at coder_todo noc_ok (\<lambda>_ _. 0) IP_TYPE_IMG 0 im"
proof -
  let ?f = "p_ip_freq P" and ?o = "optimal_freqs K"
  from assms(1) obtain vd g1 ve g2 ad g3 ae g4 im g5 where
    r: "dec_init IP_TYPE_VD 0 False 12 24 64 VID_CODING_RATIO 1 ?f (?o IP_TYPE_VD) (gemdroid_ip_vd w 0) (gd (un w)) = Inr (vd, g1)"
      "coder_init IP_TYPE_VE 0 False 18 24 64 VID_CODING_RATIO PROCESSING_CHUNK ?f (?o IP_TYPE_VE) (gemdroid_ip_ve w 0) g1 = Inr (ve, g2)"
      "dec_init IP_TYPE_AD 0 False 12 24 64 AUD_CODING_RATIO 1 ?f (?o IP_TYPE_AD) (gemdroid_ip_ad w 0) g2 = Inr (ad, g3)"
      "coder_init IP_TYPE_AE 0 False 8 24 64 AUD_CODING_RATIO PROCESSING_CHUNK ?f (?o IP_TYPE_AE) (gemdroid_ip_ae w 0) g3 = Inr (ae, g4)"
      "coder_init IP_TYPE_IMG 0 False 16 16 (PROCESSING_CHUNK * 2) 1 PROCESSING_CHUNK ?f (?o IP_TYPE_IMG) (gemdroid_ip_img w 0) g4 = Inr (im, g5)"
    and w': "w' = set_gd g5 (w\<lparr>gemdroid_ip_vd := (gemdroid_ip_vd w)(0 := vd), gemdroid_ip_ve := (gemdroid_ip_ve w)(0 := ve),
      gemdroid_ip_ad := (gemdroid_ip_ad w)(0 := ad), gemdroid_ip_ae := (gemdroid_ip_ae w)(0 := ae), gemdroid_ip_img := (gemdroid_ip_img w)(0 := im)\<rparr>)"
    by (auto simp: init_accs_def Let_def set_gd_def)
  note o = assms(2) [unfolded states_ok_def, rule_format] and b = assms(3) [unfolded blank_def]
  have vd: "coder_at dec_todo dec_ok (\<lambda>_ _. 0) IP_TYPE_VD 0 vd \<and> gd_config g1 = gd_config (gd (un w))"
    by (rule dec_init_ok [OF r(1)]) (use o b in simp_all)
  have ad: "coder_at dec_todo dec_ok (\<lambda>_ _. 0) IP_TYPE_AD 0 ad \<and> gd_config g3 = gd_config g2"
    by (rule dec_init_ok [OF r(3)]) (use o b in simp_all)
  note ve = coder_init_ok [OF r(2)] and ae = coder_init_ok [OF r(4)] and im = coder_init_ok [OF r(5)]
  show ?thesis
    by (rule exI [of _ vd], rule exI [of _ ve], rule exI [of _ ad], rule exI [of _ ae], rule exI [of _ im], rule exI [of _ g5])
      (use w' vd ad ve ae im o b in \<open>simp add: coder_at_def enc_ok_def noc_ok_def\<close>)
qed

lemma init_core_ok:
  assumes "init_core P F K i s = Inr s'" "states_ok K" "gemdroid_core (wd s) i = new_GemDroidCore c0"
  shows "i < MAX_CPUS \<and> (\<exists>c g. s' = s\<lparr>cpuLastTick := (cpuLastTick s)(i := 0), wd := set_gd g ((wd s)\<lparr>gemdroid_core := (gemdroid_core (wd s))(i := c)\<rparr>)\<rparr> \<and>
    core_inv c \<and> c_id c = int i \<and> gd_config g = gd_config ((s_gd s)\<lparr>app_id := (app_id (s_gd s))(i := getAppIdWithName (p_cpu_trace P i))\<rparr>))"
proof -
  let ?g = "(s_gd s)\<lparr>app_id := (app_id (s_gd s))(i := getAppIdWithName (p_cpu_trace P i))\<rparr>" and ?n = "p_cpu_trace P i"
  from assms(1,3) obtain c g where i: "i < MAX_CPUS"
    and c: "core_init (int i) ?n (f_trace F ?n) (p_core_freq P) (optimal_freqs K IP_TYPE_CPU) (p_issue_width P) (new_GemDroidCore c0) ?g = Inr (c, g)"
    and s': "s' = s\<lparr>cpuLastTick := (cpuLastTick s)(i := 0), wd := set_gd g ((wd s)\<lparr>gemdroid_core := (gemdroid_core (wd s))(i := c)\<rparr>)\<rparr>"
    by (auto simp: init_core_def Let_def)
  have "0 \<le> optimal_freqs K IP_TYPE_CPU \<and> optimal_freqs K IP_TYPE_CPU < IP_DVFS_STATES" using assms(2) unfolding states_ok_def by blast
  then have "core_inv c" by (intro core_init_ok [OF c]) simp_all
  with i s' core_init_id [OF c] show ?thesis by blast
qed

text \<open>The cores, initialised one after the other.\<close>

lemma init_cores_ok:
  assumes "foldE (init_core P F K) [0..<N] s = Inr s'" "states_ok K" "\<And>i. gemdroid_core (wd s) i = new_GemDroidCore (c0 i)"
  shows "N \<le> MAX_CPUS \<and> (\<exists>l C g. s' = s\<lparr>cpuLastTick := l, wd := set_gd g ((wd s)\<lparr>gemdroid_core := C\<rparr>)\<rparr> \<and>
    (\<forall>i<N. l i = 0 \<and> core_inv (C i) \<and> c_id (C i) = int i) \<and> (\<forall>i\<ge>N. C i = gemdroid_core (wd s) i) \<and>
    (\<exists>a. gd_config g = gd_config ((s_gd s)\<lparr>app_id := a\<rparr>)))"
  using assms(1)
proof (induction N arbitrary: s')
  case 0
  then have "s' = s\<lparr>cpuLastTick := cpuLastTick s, wd := set_gd (s_gd s) ((wd s)\<lparr>gemdroid_core := gemdroid_core (wd s)\<rparr>)\<rparr>" by (simp add: set_gd_def)
  then show ?case
    by (intro conjI exI [of _ "cpuLastTick s"] exI [of _ "gemdroid_core (wd s)"] exI [of _ "s_gd s"] exI [of _ "app_id (s_gd s)"]) simp_all
next
  case (Suc N)
  from Suc.prems obtain x where x: "foldE (init_core P F K) [0..<N] s = Inr x" and n: "init_core P F K N x = Inr s'"
    by (auto simp: foldE_append)
  from Suc.IH [OF x] obtain l C g a where N: "N \<le> MAX_CPUS" and xs: "x = s\<lparr>cpuLastTick := l, wd := set_gd g ((wd s)\<lparr>gemdroid_core := C\<rparr>)\<rparr>"
    and C: "\<forall>i<N. l i = 0 \<and> core_inv (C i) \<and> c_id (C i) = int i" "\<forall>i\<ge>N. C i = gemdroid_core (wd s) i" and g: "gd_config g = gd_config ((s_gd s)\<lparr>app_id := a\<rparr>)"
    by blast
  have "gemdroid_core (wd x) N = new_GemDroidCore (c0 N)" using C(2) assms(3) by (simp add: xs set_gd_def)
  from init_core_ok [OF n assms(2) this] obtain c h where h: "N < MAX_CPUS" "core_inv c" "c_id c = int N"
    "s' = x\<lparr>cpuLastTick := (cpuLastTick x)(N := 0), wd := set_gd h ((wd x)\<lparr>gemdroid_core := (gemdroid_core (wd x))(N := c)\<rparr>)\<rparr>"
    "gd_config h = gd_config ((s_gd x)\<lparr>app_id := (app_id (s_gd x))(N := getAppIdWithName (p_cpu_trace P N))\<rparr>)"
    by blast
  have a: "\<exists>b. gd_config h = gd_config ((s_gd s)\<lparr>app_id := b\<rparr>)" using h(5) g by (auto simp: xs set_gd_def gd_config_def)
  have s': "s' = s\<lparr>cpuLastTick := l(N := 0), wd := set_gd h ((wd s)\<lparr>gemdroid_core := C(N := c)\<rparr>)\<rparr>" by (simp add: h(4) xs set_gd_def)
  have "\<forall>i<Suc N. (l(N := 0)) i = 0 \<and> core_inv ((C(N := c)) i) \<and> c_id ((C(N := c)) i) = int i" using C(1) h(2,3) by (simp add: less_Suc_eq)
  moreover have "\<forall>i\<ge>Suc N. (C(N := c)) i = gemdroid_core (wd s) i" using C(2) by simp
  ultimately have "\<exists>l C g. s' = s\<lparr>cpuLastTick := l, wd := set_gd g ((wd s)\<lparr>gemdroid_core := C\<rparr>)\<rparr> \<and>
      (\<forall>i<Suc N. l i = 0 \<and> core_inv (C i) \<and> c_id (C i) = int i) \<and> (\<forall>i\<ge>Suc N. C i = gemdroid_core (wd s) i) \<and>
      (\<exists>a. gd_config g = gd_config ((s_gd s)\<lparr>app_id := a\<rparr>))"
    using a s' by blast
  with h(1) show ?case by simp
qed

text \<open>The display controllers of a platform with one instance of every IP.\<close>

definition boot_dcs :: "'d world \<Rightarrow> int set" where
  "boot_dcs w = (if m_enabled (gemdroid_ip_gpu w 0) then {0, 1} else {0})"

lemma init_gpu_ok:
  assumes "init_gpu P F K w = Inr w'" "states_ok K" "num_ip_inst (gd (un w)) = 1"
  shows "\<exists>p dc g. w' = set_gd g (w\<lparr>gemdroid_ip_gpu := (gemdroid_ip_gpu w)(0 := p), gemdroid_ip_dc := (gemdroid_ip_dc w)(1 := dc)\<rparr>) \<and>
    gpu_inv p \<and> ip_id p = 0 \<and> (m_enabled p \<longrightarrow> ip_at IP_TYPE_DC 1 dc) \<and> gd_config g = gd_config (gd (un w))"
proof -
  from assms(1) obtain p g where p: "gpu_init IP_TYPE_GPU 0 False (p_gpu_trace P) (f_trace F (p_gpu_trace P)) (p_ip_freq P) (optimal_freqs K IP_TYPE_GPU)
      (gemdroid_ip_gpu w 0) (gd (un w)) = Inr (p, g)"
    and r: "(let w = set_gd g (w\<lparr>gemdroid_ip_gpu := (gemdroid_ip_gpu w)(0 := p)\<rparr>) in
      if m_enabled p then init_dev P K IP_TYPE_DC 1 (int (num_ip_inst (gd (un w)))) w else Inr w) = Inr w'"
    by (auto simp: init_gpu_def)
  have g: "gpu_inv p \<and> ip_id p = 0 \<and> gd_config g = gd_config (gd (un w))"
    by (rule gpu_init_ok [OF p]) (use assms(2) in \<open>simp_all add: states_ok_def\<close>)
  let ?w = "set_gd g (w\<lparr>gemdroid_ip_gpu := (gemdroid_ip_gpu w)(0 := p)\<rparr>)"
  have n: "num_ip_inst (gd (un ?w)) = 1" using g assms(3) by (simp add: set_gd_def gd_config_def)
  show ?thesis
  proof (cases "m_enabled p")
    case True
    then have "init_dev P K IP_TYPE_DC 1 1 ?w = Inr w'" using r n by simp
    from init_dev_ok [OF this assms(2)] obtain dc h where "w' = set_gd h (setIPInstance IP_TYPE_DC 1 dc ?w)" "ip_at IP_TYPE_DC 1 dc"
      "gd_config h = gd_config (gd (un ?w))" by (auto simp: IP_TYPE_order)
    with g show ?thesis by (intro exI [of _ p] exI [of _ dc] exI [of _ h]) (simp add: setIPInstance_def set_gd_def)
  next
    case False
    with r g show ?thesis by (intro exI [of _ p] exI [of _ "gemdroid_ip_dc w 1"] exI [of _ g]) (simp add: set_gd_def)
  qed
qed

subsection \<open>The first choice of frequencies\<close>

lemma foldE_on_wd:
  assumes "foldE (\<lambda>x. on_wd (f x)) xs s = Inr s'"
  obtains w where "foldE f xs (wd s) = Inr w" "s' = s\<lparr>wd := w\<rparr>"
proof -
  have "\<exists>w. foldE f xs (wd s) = Inr w \<and> s' = s\<lparr>wd := w\<rparr>"
    using assms by (induction xs arbitrary: s) (fastforce simp: on_wd_def)+
  with that show thesis by blast
qed

lemma steady_cores:
  assumes "foldE (\<lambda>i. on_wd (on_core i f)) is s = Inr s'" "\<And>c c'. f c = Inr c' \<Longrightarrow> core_quiet c c'"
  shows "steady pend (wd s) (wd s') \<and> s' = s\<lparr>wd := wd s'\<rparr>"
proof -
  from assms(1) obtain w where w: "foldE (\<lambda>i. on_core i f) is (wd s) = Inr w" "s' = s\<lparr>wd := w\<rparr>" by (rule foldE_on_wd)
  have "steady pend (wd s) w"
    by (rule foldE_steady [where wo = "\<lambda>w. w", OF _ w(1)]) (auto simp: on_core_def intro: steady_core assms(2))
  with w(2) show ?thesis by simp
qed

lemma steady_ips:
  assumes "on_wd (each_inst a b (\<lambda>t j. withIPInstance t j f)) s = Inr s'" "\<And>p p'. f p = Inr p' \<Longrightarrow> quiet p p'"
  shows "steady pend (wd s) (wd s') \<and> s' = s\<lparr>wd := wd s'\<rparr>"
  using assms(1)
proof (rule on_wd_InrE)
  fix w assume w: "each_inst a b (\<lambda>t j. withIPInstance t j f) (wd s) = Inr w" "s' = s\<lparr>wd := w\<rparr>"
  have "steady pend (wd s) w"
    using w(1) by (rule each_inst_steady [rotated]) (auto intro: steady_retuned retuned_with assms(2))
  with w(2) show ?thesis by simp
qed

lemma steady_on_mem:
  assumes "on_wd (on_mem f) s = Inr s'" "\<And>m m'. f m = Inr m' \<Longrightarrow> pend (dramWrapper m') = pend (dramWrapper m)"
  shows "steady pend (wd s) (wd s') \<and> s' = s\<lparr>wd := wd s'\<rparr>"
  using assms(1) by (rule on_wd_InrE) (auto intro!: steady_retuned elim!: retuned_on_mem intro: assms(2))

lemma initDVFS_steady:
  assumes "initDVFS D s = Inr s'" "dram_conserves D pend"
  shows "steady pend (wd s) (wd s') \<and> lasts s' = lasts s"
proof -
  define Q where "Q x \<longleftrightarrow> steady pend (wd s) (wd x) \<and> lasts x = lasts s" for x
  have Q: "Q y" if "steady pend (wd x) (wd y) \<and> y = x\<lparr>wd := wd y\<rparr>" "Q x" for x y
    using that steady_trans unfolding Q_def lasts_def by (metis (no_types, lifting) sched.select_convs(9-11) sched.surjective sched.update_convs(1))
  have c: "Q y" if "foldE (\<lambda>i. on_wd (on_core i f)) xs x = Inr y" "Q x" "\<And>c c'. f c = Inr c' \<Longrightarrow> core_quiet c c'" for f xs x y
    by (rule Q [OF steady_cores [OF that(1,3)] that(2)])
  have i: "Q y" if "on_wd (each_inst a b (\<lambda>t j. withIPInstance t j f)) x = Inr y" "Q x" "\<And>p p'. f p = Inr p' \<Longrightarrow> quiet p p'" for a b f x y
    by (rule Q [OF steady_ips [OF that(1,3)] that(2)])
  have m: "Q y" if "on_wd (on_mem f) x = Inr y" "Q x" "\<And>m m'. f m = Inr m' \<Longrightarrow> pend (dramWrapper m') = pend (dramWrapper m)" for f x y
    by (rule Q [OF steady_on_mem [where pend = pend, OF that(1,3)] that(2)])
  have u: "Q y" if "update_multipliers (x\<lparr>gv := K\<rparr>) = Inr y" "Q x" for x y K
    using update_multipliers_keeps [OF that(1)] that(2) by (simp add: Q_def lasts_def)
  have off: "Q (x\<lparr>gv := K\<rparr>)" if "Q x" for x K using that by (simp add: Q_def lasts_def)
  have c1: "Q y" if "foldE (\<lambda>i. on_wd (on_core i (\<lambda>c. Inr (setOptCoreFreq c)))) xs x = Inr y" "Q x" for xs x y
    by (rule c [OF that]) (use core_quiet_sets in auto)
  have c2: "Q y" if "foldE (\<lambda>i. on_wd (on_core i (\<lambda>c. Inr (setMaxCoreFreq v c)))) xs x = Inr y" "Q x" for v xs x y
    by (rule c [OF that]) (use core_quiet_sets in auto)
  have c3: "Q y" if "foldE (\<lambda>i. on_wd (on_core i (setCoreFreq f))) xs x = Inr y" "Q x" for f xs x y
    by (rule c [OF that]) (use core_quiet_sets in auto)
  note ips = i [where f = setOptIPFreq, OF _ _ quiet_sets(3)] i [where f = setMaxIPFreq, OF _ _ quiet_sets(1)] i [where f = "setIPFreq f" for f, OF _ _ quiet_sets(5)]
  have m1: "Q y" if "on_wd (on_mem (setMemFreq D f)) x = Inr y" "Q x" for f x y
    by (rule m [OF that]) (rule pend_mem(1) [OF assms(2)])
  have m2: "Q y" if "on_wd (on_mem (\<lambda>m. Inr (setMaxMemFreq D m))) x = Inr y" "Q x" for x y
    by (rule m [OF that]) (use assms(2) in \<open>auto simp: setMaxMemFreq_def applyMemFreq_def dram_conserves_def\<close>)
  have m3: "Q y" if "on_wd (on_mem (\<lambda>m. Inr (setOptMemFreq D m))) x = Inr y" "Q x" for x y
    by (rule m [OF that]) (use assms(2) in \<open>auto simp: setOptMemFreq_def applyMemFreq_def dram_conserves_def\<close>)
  define v where "v = s\<lparr>gv := (gv s)\<lparr>enableDVFS := True, doSlackDVFS := False\<rparr>, framesMissed := 0\<rparr>"
  have v: "Q v" by (simp add: v_def Q_def lasts_def)
  from assms(1) have "Q s'" unfolding initDVFS_def Let_def v_def [symmetric]
    by (auto split: if_split_asm intro!: u [of _ _ s'] v) (metis v c1 c2 c3 ips m1 m2 m3)+
  then show ?thesis by (simp add: Q_def)
qed

subsection \<open>The constructor\<close>

lemma new_GemDroid_steps:
  assumes "new_GemDroid D d P F s0 = Inr s" "p_num_ip_instances P = 1" "dram_conserves D pend"
  obtains a K tbl b v x y where "loadIPChars (f_ipchars F) K = Inr (gv a)" "loadFlows (f_flows F) = Inr tbl" "flowTable (s_gd a) = tbl"
    "num_cpus (s_gd a) = p_num_cpu_traces P" "num_ip_inst (s_gd a) = 1" "gd_ticks (s_gd a) = 0" "governor (s_gd a) = p_governor P"
    "sa (un (wd a)) = new_GemDroidSA (sa (un (wd s0)))" "pend (dramWrapper (mem (un (wd a)))) = pend d" "blank (wd a) = blank (wd s0)"
    "\<And>i. gemdroid_core (wd a) i = new_GemDroidCore (gemdroid_core (wd s0) i)" "memLastTick a = 0" "ipLastTick a = (\<lambda>_ _. 0)"
    "foldE (init_core P F (gv a)) [0..<p_num_cpu_traces P] a = Inr b" "init_devs P (gv a) 0 (wd b) = Inr v" "init_accs P (gv a) 0 v = Inr x"
    "init_gpu P F (gv a) x = Inr y" "initDVFS D (b\<lparr>wd := y\<rparr>) = Inr s"
proof -
  let ?w = "wd s0"
  let ?g = "(s_gd s0)\<lparr>gd_ticks := 0, gd_perfectMemory := p_perfect_memory P, num_cpus := p_num_cpu_traces P, governor := p_governor P,
    num_ip_inst := p_num_ip_instances P, frameStarted := (\<lambda>_ _. False), m_avgPowerInFrameSum := (\<lambda>_ _. 0), m_avgPowerInFrameCount := (\<lambda>_ _. 0)\<rparr>"
  let ?u = "\<lparr>gd = ?g, sa = new_GemDroidSA (sa (un ?w)), mem = new_GemDroidMemory d (p_perfect_memory P) (mem (un ?w))\<rparr>"
  let ?K = "(gv s0)\<lparr>governor_timing := p_governor_timing P, sweep_val1 := p_sweep_val1 P, sweep_val2 := p_sweep_val2 P\<rparr>"
  let ?s = "s0\<lparr>wd := ?w\<lparr>un := ?u, gemdroid_core := (\<lambda>i. new_GemDroidCore (gemdroid_core ?w i))\<rparr>,
    isPrintPeriodicStats := \<not> p_no_periodic_stats P, isPrintPeriodicStatsPower := False,
    powerCalcLastTick := 0, periodicStatsLastTick := 0, slackLastTick := 0, dvfsLastTick := 0, memLastTick := 0,
    framesToBeShown := 0, ipLastTick := (\<lambda>_ _. 0)\<rparr>"
  from assms(1) obtain z K tbl b c e where z: "on_wd (on_mem (setMemFreq D (real_of_int (p_mem_freq P) / 1000))) ?s = Inr z"
    and K: "loadIPChars (f_ipchars F) ?K = Inr K" and tbl: "loadFlows (f_flows F) = Inr tbl"
    and b: "foldE (init_core P F K) (S_CORES (z\<lparr>gv := K, wd := set_gd ((s_gd z)\<lparr>flowTable := tbl\<rparr>) (wd z)\<rparr>)) (z\<lparr>gv := K, wd := set_gd ((s_gd z)\<lparr>flowTable := tbl\<rparr>) (wd z)\<rparr>) = Inr b"
    and c: "on_wd (foldE (\<lambda>i w. bindE (init_devs P K i w) (init_accs P K i)) (map int [0..<p_num_ip_instances P])) b = Inr c"
    and e: "on_wd (init_gpu P F K) c = Inr e" and s: "initDVFS D e = Inr s"
    unfolding new_GemDroid_def Let_def by (elim bindE_InrE) blast
  from z obtain m where m: "setMemFreq D (real_of_int (p_mem_freq P) / 1000) (mem ?u) = Inr m" and zs: "z = ?s\<lparr>wd := (wd ?s)\<lparr>un := ?u\<lparr>mem := m\<rparr>\<rparr>\<rparr>"
    by (auto simp: on_wd_def on_mem_def)
  let ?a = "z\<lparr>gv := K, wd := set_gd ((s_gd z)\<lparr>flowTable := tbl\<rparr>) (wd z)\<rparr>"
  have "pend (dramWrapper m) = pend d" using pend_mem(1) [OF assms(3) m] by (simp add: new_GemDroidMemory_def)
  moreover from c assms(2) obtain v x where "init_devs P K 0 (wd b) = Inr v" "init_accs P K 0 v = Inr x" "c = b\<lparr>wd := x\<rparr>"
    by (auto simp: on_wd_def)
  moreover from e this(3) obtain y where "init_gpu P F K x = Inr y" "e = b\<lparr>wd := y\<rparr>" by (auto simp: on_wd_def)
  ultimately show thesis
    by (intro that [of ?K ?a tbl b v x y]) (use K tbl b s assms(2) in \<open>simp_all add: zs set_gd_def blank_def\<close>)
qed

text \<open>All devices, accelerators and the GPU.\<close>

lemma init_ips_ok:
  assumes r: "init_devs P K 0 w = Inr v" "init_accs P K 0 v = Inr x" "init_gpu P F K x = Inr y"
    and ok: "states_ok K" "blank w" "num_ip_inst (gd (un w)) = 1"
  shows "insts_ok (\<lambda>_ _. 0) 0 y \<and> (\<forall>j\<in>boot_dcs y. ip_at IP_TYPE_DC j (gemdroid_ip_dc y j)) \<and> gd_config (gd (un y)) = gd_config (gd (un w)) \<and>
    sa (un y) = sa (un w) \<and> mem (un y) = mem (un w) \<and> gemdroid_core y = gemdroid_core w"
proof -
  from init_devs_ok [OF r(1) ok(1)] obtain dc nw snd mic cam mi mo gv where v: "v = set_gd gv (w\<lparr>gemdroid_ip_dc := (gemdroid_ip_dc w)(0 := dc),
      gemdroid_ip_nw := (gemdroid_ip_nw w)(0 := nw), gemdroid_ip_snd := (gemdroid_ip_snd w)(0 := snd), gemdroid_ip_mic := (gemdroid_ip_mic w)(0 := mic),
      gemdroid_ip_cam := (gemdroid_ip_cam w)(0 := cam), gemdroid_ip_mmc_in := (gemdroid_ip_mmc_in w)(0 := mi), gemdroid_ip_mmc_out := (gemdroid_ip_mmc_out w)(0 := mo)\<rparr>)"
    and dev: "gd_config gv = gd_config (gd (un w))" "ip_at IP_TYPE_DC 0 dc" "ip_at IP_TYPE_NW 0 nw" "ip_at IP_TYPE_SND 0 snd" "ip_at IP_TYPE_MIC 0 mic"
      "ip_at IP_TYPE_CAM 0 cam" "ip_at IP_TYPE_MMC_IN 0 mi" "ip_at IP_TYPE_MMC_OUT 0 mo"
    by blast
  have "blank v" using ok(2) by (simp add: v set_gd_def blank_def)
  from init_accs_ok [OF r(2) ok(1) this] obtain vd ve ad ae im gx where x: "x = set_gd gx (v\<lparr>gemdroid_ip_vd := (gemdroid_ip_vd v)(0 := vd),
      gemdroid_ip_ve := (gemdroid_ip_ve v)(0 := ve), gemdroid_ip_ad := (gemdroid_ip_ad v)(0 := ad), gemdroid_ip_ae := (gemdroid_ip_ae v)(0 := ae),
      gemdroid_ip_img := (gemdroid_ip_img v)(0 := im)\<rparr>)"
    and acc: "gd_config gx = gd_config (gd (un v))" "coder_at dec_todo dec_ok (\<lambda>_ _. 0) IP_TYPE_VD 0 vd" "coder_at coder_todo enc_ok (\<lambda>_ _. 0) IP_TYPE_VE 0 ve"
      "coder_at dec_todo dec_ok (\<lambda>_ _. 0) IP_TYPE_AD 0 ad" "coder_at coder_todo enc_ok (\<lambda>_ _. 0) IP_TYPE_AE 0 ae" "coder_at coder_todo noc_ok (\<lambda>_ _. 0) IP_TYPE_IMG 0 im"
    by blast
  have cx: "gd_config gx = gd_config (gd (un w))" using acc(1) dev(1) by (simp add: v set_gd_def)
  then have "num_ip_inst (gd (un x)) = 1" using ok(3) by (simp add: x set_gd_def gd_config_def)
  from init_gpu_ok [OF r(3) ok(1) this] obtain p dc1 gy where y: "y = set_gd gy (x\<lparr>gemdroid_ip_gpu := (gemdroid_ip_gpu x)(0 := p),
      gemdroid_ip_dc := (gemdroid_ip_dc x)(1 := dc1)\<rparr>)"
    and gpu: "gpu_inv p" "ip_id p = 0" "m_enabled p \<longrightarrow> ip_at IP_TYPE_DC 1 dc1" "gd_config gy = gd_config (gd (un x))"
    by blast
  have "insts_ok (\<lambda>_ _. 0) 0 y" using dev acc gpu by (simp add: insts_ok_def y x v set_gd_def)
  moreover have "\<forall>j\<in>boot_dcs y. ip_at IP_TYPE_DC j (gemdroid_ip_dc y j)"
    using dev(2) gpu(3) by (auto simp: boot_dcs_def y x v set_gd_def split: if_splits)
  ultimately show ?thesis using gpu(4) cx by (simp add: y x v set_gd_def)
qed

lemma boot_fresh:
  assumes "new_GemDroid D d P F s0 = Inr s" "p_num_ip_instances P = 1" "dram_conserves D pend" "pend d = {#}" "blank (wd s0)"
  shows "\<exists>w. plat_fresh pend {0} (boot_dcs w) w \<and> steady pend w (wd s) \<and> num_ip_inst (gd (un w)) = 1 \<and> gd_ticks (gd (un w)) = 0 \<and>
    governor (gd (un w)) = p_governor P \<and> num_cpus (gd (un w)) = p_num_cpu_traces P \<and>
    memLastTick s = 0 \<and> (\<forall>i<p_num_cpu_traces P. cpuLastTick s i = 0) \<and> ipLastTick s = (\<lambda>_ _. 0)"
  using assms(1-3)
proof (rule new_GemDroid_steps)
  fix a K tbl b v x y
  assume K: "loadIPChars (f_ipchars F) K = Inr (gv a)" and tbl: "loadFlows (f_flows F) = Inr tbl" "flowTable (s_gd a) = tbl"
    and g: "num_cpus (s_gd a) = p_num_cpu_traces P" "num_ip_inst (s_gd a) = 1" "gd_ticks (s_gd a) = 0" "governor (s_gd a) = p_governor P"
    and u: "sa (un (wd a)) = new_GemDroidSA (sa (un (wd s0)))" "pend (dramWrapper (mem (un (wd a)))) = pend d" "blank (wd a) = blank (wd s0)"
    and c: "\<And>i. gemdroid_core (wd a) i = new_GemDroidCore (gemdroid_core (wd s0) i)" and l: "memLastTick a = 0" "ipLastTick a = (\<lambda>_ _. 0)"
    and r: "foldE (init_core P F (gv a)) [0..<p_num_cpu_traces P] a = Inr b" "init_devs P (gv a) 0 (wd b) = Inr v" "init_accs P (gv a) 0 v = Inr x"
    "init_gpu P F (gv a) x = Inr y" "initDVFS D (b\<lparr>wd := y\<rparr>) = Inr s"
  let ?N = "p_num_cpu_traces P"
  note ok = loadIPChars_states [OF K]
  from init_cores_ok [OF r(1) ok c] obtain l' C gb ap where N: "?N \<le> MAX_CPUS" and b: "b = a\<lparr>cpuLastTick := l', wd := set_gd gb ((wd a)\<lparr>gemdroid_core := C\<rparr>)\<rparr>"
    and C: "\<forall>i<?N. l' i = 0 \<and> core_inv (C i) \<and> c_id (C i) = int i" and gb: "gd_config gb = gd_config ((s_gd a)\<lparr>app_id := ap\<rparr>)"
    by blast
  have "blank (wd b)" "num_ip_inst (gd (un (wd b))) = 1" using u(3) assms(5) g(2) gb by (simp_all add: b set_gd_def blank_def gd_config_def)
  note y = init_ips_ok [OF r(2-4) ok this]
  have gy: "gd_config (gd (un y)) = gd_config ((s_gd a)\<lparr>app_id := ap\<rparr>)" using y gb by (simp add: b set_gd_def)
  then have y_gd: "num_ip_inst (gd (un y)) = 1" "gd_ticks (gd (un y)) = 0" "governor (gd (un y)) = p_governor P" "num_cpus (gd (un y)) = ?N" "flowTable (gd (un y)) = tbl"
    using g tbl by (simp_all add: gd_config_def)
  have q: "sa (un y) = new_GemDroidSA (sa (un (wd s0)))" "pend (dramWrapper (mem (un y))) = {#}" "gemdroid_core y = C"
    using y u assms(4) by (simp_all add: b set_gd_def)
  have "cores_ok y" using C by (simp add: cores_ok_def q y_gd)
  moreover have "boot_dcs y \<subseteq> {0..<4}" by (simp add: boot_dcs_def)
  moreover have "in_flight pend (un y) = {#}" "\<forall>t. ipReq (sa (un y)) t = []"
    using q(2) by (simp_all add: in_flight_def sa_requests_def sa_responses_def q(1) new_GemDroidSA_def)
  ultimately have "plat_fresh pend {0} (boot_dcs y) y" using y loadFlows_wf [OF tbl(1)] N by (simp add: plat_fresh_def y_gd)
  moreover have "steady pend y (wd s)" and ls: "lasts s = lasts b" using initDVFS_steady [OF r(5) assms(3)] by (simp_all add: lasts_def)
  moreover have "memLastTick s = 0 \<and> (\<forall>i<?N. cpuLastTick s i = 0) \<and> ipLastTick s = (\<lambda>_ _. 0)" using ls l C by (simp add: lasts_def b)
  ultimately show ?thesis using y_gd by blast
qed

end
