(* ===== verification/GD_Start.thy ===== *)
theory GD_Start
  imports GD_Boot
begin

section \<open>The constructor returns\<close>

text \<open>
  With parameters in their ranges and files that can be read, no assertion of the constructor fails,
  whatever the governor: \<open>GemDroid::GemDroid\<close> returns a platform, and \<open>GD_Boot\<close> says which.
\<close>

definition valid_params :: "Params \<Rightarrow> files \<Rightarrow> bool" where
  "valid_params P F \<longleftrightarrow> p_num_ip_instances P = 1 \<and> p_num_cpu_traces P \<le> MAX_CPUS \<and> p_governor P \<noteq> END_OF_GOVERNOR \<and>
     p_dev_freq P \<in> {200, 300, 400, 500, 600, 700, 800} \<and> p_ip_freq P \<in> {200, 300, 400, 500, 600, 700, 800} \<and>
     p_core_freq P \<in> {300, 400, 500, 600, 700, 800, 900, 1000, 1100, 1200, 1400, 1600, 1800} \<and> 300 \<le> p_mem_freq P \<and> p_mem_freq P \<le> 1000 \<and>
     (\<exists>xs. f_ipchars F = Some xs \<and> 56 \<le> length xs) \<and> (\<exists>tbl. loadFlows (f_flows F) = Inr tbl) \<and>
     (\<forall>i<p_num_cpu_traces P. f_trace F (p_cpu_trace P i) \<noteq> None) \<and>
     (p_gpu_trace P = ''none.txt'' \<or> f_trace F (p_gpu_trace P) \<noteq> None)"

subsection \<open>Files\<close>

lemma loadIPChars_returns:
  assumes "56 \<le> length xs"
  shows "\<exists>K'. loadIPChars (Some xs) K = Inr K'"
proof -
  have types: "filter (\<lambda>t. t \<noteq> IP_TYPE_AD \<and> t \<noteq> IP_TYPE_AE) (ip_range IP_TYPE_VD IP_TYPE_GPU) = [IP_TYPE_VD, IP_TYPE_VE, IP_TYPE_IMG, IP_TYPE_GPU]"
    by (simp add: ip_range_def IP_TYPES_def IP_TYPE_order)
  have r: "read_table ys t tbl = Inr (tbl(t := (\<lambda>j. if 0 \<le> j \<and> j < IP_DVFS_STATES then ys ! nat j else tbl t j)), drop 7 ys)" if "7 \<le> length ys" for ys t tbl
    using that by (simp add: read_table_def)
  have tab: "\<exists>tbl' ys'. foldE (\<lambda>t (tbl, xs). read_table xs t tbl) [IP_TYPE_VD, IP_TYPE_VE, IP_TYPE_IMG, IP_TYPE_GPU] (tbl, ys) = Inr (tbl', ys') \<and> length ys' + 28 = length ys"
    if "28 \<le> length ys" for tbl ys using that by (simp add: r)
  from tab [of xs "ip_time_table K"] obtain t1 y1 where 1: "foldE (\<lambda>t (tbl, xs). read_table xs t tbl) [IP_TYPE_VD, IP_TYPE_VE, IP_TYPE_IMG, IP_TYPE_GPU] (ip_time_table K, xs) = Inr (t1, y1)"
    "length y1 + 28 = length xs" using assms by auto
  from tab [of y1 "ip_energy_table K"] 1(2) assms obtain t2 y2 where
    "foldE (\<lambda>t (tbl, xs). read_table xs t tbl) [IP_TYPE_VD, IP_TYPE_VE, IP_TYPE_IMG, IP_TYPE_GPU] (ip_energy_table K, y1) = Inr (t2, y2)" by auto
  with 1(1) show ?thesis unfolding loadIPChars_def Let_def types by (simp del: foldE.simps)
qed

subsection \<open>Components\<close>

lemma ip_init_returns:
  assumes "dev \<longrightarrow> t < IP_TYPE_VD" "capacitance_of t \<noteq> None" "f \<in> {200, 300, 400, 500, 600, 700, 800}"
  shows "\<exists>p' g'. ip_init t i dev lat f opt p g = Inr (p', g')"
proof -
  let ?q = "p\<lparr>ip_type := t, isDev := dev, ip_id := i, ioLatency := lat\<rparr>"
  have ok: "ip_class_ok ?q" using assms(1) by (auto simp: ip_class_ok_def)
  have cap: "(case capacitance_of t of None \<Rightarrow> x | Some y \<Rightarrow> y) = ip_cap t" for x using assms(2) by (auto simp: ip_cap_def)
  obtain k where k: "k < 7" "real_of_int f / 1000 = vf_freq (ip_table (ip_cap t) ! k)"
    using assms(3) ip_table_freqs [of f "ip_cap t"] by auto
  then have ind: "table_index (ip_table (ip_cap t)) (vf_freq (ip_table (ip_cap t) ! k)) = int k"
    using ip_vf.table_index_freq [of k t] by simp
  show ?thesis using ok k(1) by (simp add: k(2) ip_init_def ip_setPStateActive_eq cap setIPFreq_def ip_getIndexInTable_def ind Let_def)
qed

lemma init_dev_returns:
  assumes "p_dev_freq P \<in> {200, 300, 400, 500, 600, 700, 800}" "IP_TYPE_DC \<le> t" "t < IP_TYPE_VD" "0 \<le> i" "i < int MAX_IPS"
  shows "\<exists>w'. init_dev P K t lat i w = Inr w'"
proof -
  have "capacitance_of t \<noteq> None" using assms(2,3) by (cases t) (simp_all add: IP_TYPE_order)
  then have r: "\<exists>p' g'. ip_init t i True lat (p_dev_freq P) (optimal_freqs K t) p g = Inr (p', g')" for p :: GemDroidIP and g
    using assms(1,3) by (intro ip_init_returns) simp_all
  have "\<exists>p. getIPInstance t i w = Inr p" using assms(2-5) by (cases t) (simp_all add: IP_TYPE_order getIPInstance_def inst_def)
  then obtain p where p: "getIPInstance t i w = Inr p" by blast
  from r [of p "gd (un w)"] p show ?thesis by (auto simp: init_dev_def)
qed

lemma init_devs_returns:
  assumes "p_dev_freq P \<in> {200, 300, 400, 500, 600, 700, 800}"
  shows "\<exists>w'. init_devs P K 0 w = Inr w'"
proof -
  have "\<exists>w'. init_devs P K 0 w = Inr w' \<and> True" unfolding init_devs_def
    by (rule foldE_returns [where P = "\<lambda>_. True"]) (use assms in \<open>auto simp: IP_TYPE_order intro!: init_dev_returns\<close>)
  then show ?thesis by simp
qed

lemma coder_init_returns:
  assumes "capacitance_of t \<noteq> None" "f \<in> {200, 300, 400, 500, 600, 700, 800}"
  shows "\<exists>p' g'. coder_init t i False lat ins outs ratio chunk f opt p g = Inr (p', g')"
    "\<exists>p' g'. dec_init t i False lat ins outs ratio chunk f opt q g = Inr (p', g')"
proof -
  show *: "\<exists>p' g'. coder_init t i False lat ins outs ratio chunk f opt p g = Inr (p', g')" for p :: "'a coder_scheme"
    using ip_init_returns [OF _ assms, of False i 0 opt p g] by (auto simp: coder_init_def)
  show "\<exists>p' g'. dec_init t i False lat ins outs ratio chunk f opt q g = Inr (p', g')"
    using ip_init_returns [OF _ assms, of False i 0 opt q g] by (auto simp: dec_init_def coder_init_def)
qed

lemma init_accs_returns:
  assumes "p_ip_freq P \<in> {200, 300, 400, 500, 600, 700, 800}"
  shows "\<exists>w'. init_accs P K i w = Inr w'"
proof -
  note c = coder_init_returns(1) [OF _ assms] coder_init_returns(2) [OF _ assms]
  have s: "bindE m f = Inr x \<longleftrightarrow> (\<exists>y. m = Inr y \<and> f y = Inr x)" for m :: "('x) result" and f :: "'x \<Rightarrow> 'y result" and x by (rule bindE_Inr_iff)
  have returns: "(\<exists>p g. m = Inr (p, g)) \<Longrightarrow> (\<And>p g. \<exists>w'. f (p, g) = Inr w') \<Longrightarrow> \<exists>w'. bindE m f = Inr w'" for m :: "('p \<times> GemDroid) result" and f :: "'p \<times> GemDroid \<Rightarrow> 'w result"
    by auto
  show ?thesis unfolding init_accs_def Let_def
    by (intro returns; (rule c)?; simp?) (intro returns; (rule c)?; simp?)+
qed

lemma init_gpu_returns:
  assumes "p_ip_freq P \<in> {200, 300, 400, 500, 600, 700, 800}" "p_dev_freq P \<in> {200, 300, 400, 500, 600, 700, 800}"
    and "p_gpu_trace P = ''none.txt'' \<or> f_trace F (p_gpu_trace P) \<noteq> None" "num_ip_inst (gd (un w)) = 1" "states_ok K"
  shows "\<exists>w'. init_gpu P F K w = Inr w'"
proof -
  obtain q g where q: "ip_init IP_TYPE_GPU 0 False 0 (p_ip_freq P) (optimal_freqs K IP_TYPE_GPU) (gemdroid_ip_gpu w 0) (gd (un w)) = Inr (q, g)"
    using ip_init_returns [of False IP_TYPE_GPU "p_ip_freq P"] assms(1) by fastforce
  then obtain p where p: "gpu_init IP_TYPE_GPU 0 False (p_gpu_trace P) (f_trace F (p_gpu_trace P)) (p_ip_freq P) (optimal_freqs K IP_TYPE_GPU)
      (gemdroid_ip_gpu w 0) (gd (un w)) = Inr (p, g)"
    using assms(3) by (cases "p_gpu_trace P = ''none.txt''") (auto simp: gpu_init_def)
  have "gd_config g = gd_config (gd (un w))" using gpu_init_ok [OF p] assms(5) unfolding states_ok_def by blast
  then have "num_ip_inst g = 1" using assms(4) by (simp add: gd_config_def)
  moreover have "\<exists>w'. init_dev P K IP_TYPE_DC 1 1 v = Inr w'" for v :: "'a world"
    by (rule init_dev_returns) (use assms(2) in \<open>simp_all add: IP_TYPE_order\<close>)
  ultimately show ?thesis using p by (simp add: init_gpu_def Let_def set_gd_def)
qed

lemma core_freqs:
  "f \<in> {300, 400, 500, 600, 700, 800, 900, 1000, 1100, 1200, 1400, 1600, 1800} \<Longrightarrow>
   - 1 < table_index core_table (real_of_int f / 1000) \<and> table_index core_table (real_of_int f / 1000) < CORE_DVFS_STATES"
proof -
  have "list_all (\<lambda>f. - 1 < table_index core_table (real_of_int f / 1000) \<and> table_index core_table (real_of_int f / 1000) < CORE_DVFS_STATES)
    [300, 400, 500, 600, 700, 800, 900, 1000, 1100, 1200, 1400, 1600, 1800]" by code_simp
  then show "f \<in> {300, 400, 500, 600, 700, 800, 900, 1000, 1100, 1200, 1400, 1600, 1800} \<Longrightarrow> ?thesis" by (auto simp: list_all_iff)
qed

lemma init_core_returns:
  assumes "i < MAX_CPUS" "f_trace F (p_cpu_trace P i) \<noteq> None" "gemdroid_core (wd s) i = new_GemDroidCore c0"
    and "p_core_freq P \<in> {300, 400, 500, 600, 700, 800, 900, 1000, 1100, 1200, 1400, 1600, 1800}"
  shows "\<exists>s'. init_core P F K i s = Inr s'"
proof -
  have t: "c_table (fst (core_setPStateActive c g)) = c_table c" for c g
    by (simp add: core_setPStateActive_def setMaxCoreFreq_def setOptCoreFreq_def Let_def)
  have r: "c_table (setIdleRatio c) = c_table c" for c using rob_view_setIdleRatio [of c] by (simp add: rob_view_def)
  obtain ts where ts: "f_trace F (p_cpu_trace P i) = Some ts" using assms(2) by blast
  let ?c = "(new_GemDroidCore c0)\<lparr>c_id := int i, issue_width := p_issue_width P,
    type_of_application := core_app_type (p_cpu_trace P i) (type_of_application (new_GemDroidCore c0)), em_trace_file := ts, lookahead_trace_file := ts\<rparr>"
  let ?d = "if type_of_application ?c \<noteq> CORE_BOUND then setIdleRatio ?c else ?c"
  have "c_table ?d = core_table" using r [of ?c] by (simp add: new_GemDroidCore_def)
  then obtain x where "setCoreFreq (real_of_int (p_core_freq P) / 1000)
      (fst (core_setPStateActive ?d ((s_gd s)\<lparr>app_id := (app_id (s_gd s))(i := getAppIdWithName (p_cpu_trace P i))\<rparr>))) = Inr x"
    using core_freqs [OF assms(4)] by (simp add: setCoreFreq_def core_getIndexInTable_def t Let_def)
  then show ?thesis using assms(1,3)
    by (cases "type_of_application ?c \<noteq> CORE_BOUND") (simp_all add: init_core_def core_init_def ts Let_def split_beta)
qed

subsection \<open>Frequencies\<close>

text \<open>What the first choice of frequencies relies on: initialised cores, and accelerators that are not devices.\<close>

definition primed :: "nat \<Rightarrow> 'd world \<Rightarrow> bool" where
  "primed n w \<longleftrightarrow> n \<le> MAX_CPUS \<and> num_cpus (gd (un w)) = n \<and> num_ip_inst (gd (un w)) = 1 \<and> (\<forall>i<n. core_inv (gemdroid_core w i)) \<and>
     (\<forall>t. IP_TYPE_VD \<le> t \<and> t \<le> IP_TYPE_GPU \<longrightarrow> (\<exists>p. getIPInstance t 0 w = Inr p \<and> ip_inv p \<and> \<not> isDev p))"

lemma truncate_extend: "GemDroidIP.truncate (GemDroidIP.extend b m) = b"
  by (cases b) (simp add: GemDroidIP.defs)

lemma truncate_inv [simp]: "ip_inv (GemDroidIP.truncate p) = ip_inv p" "isDev (GemDroidIP.truncate p) = isDev p"
  by (simp_all add: GemDroidIP.defs ip_inv_def ip_power_inv_def ip_dvfs_inv_def ip_class_ok_def)

lemma getIPInstance_set:
  assumes "getIPInstance t i w = Inr p"
  shows "getIPInstance t' i (setIPInstance t i b w) = (if t' = t then Inr b else getIPInstance t' i w)"
proof -
  have "getIPInstance t i (setIPInstance t i b w) = Inr b"
    using assms by (cases "0 \<le> i \<and> i < 4"; cases t) (simp_all add: getIPInstance_def setIPInstance_def inst_def truncate_extend)
  moreover have "t' \<noteq> t \<Longrightarrow> getIPInstance t' i (setIPInstance t i b w) = getIPInstance t' i w"
    by (cases t) (simp_all add: getIPInstance_def setIPInstance_def split: IP_TYPE.split)
  ultimately show ?thesis by simp
qed

lemma setIPInstance_keeps [simp]: "un (setIPInstance t i b w) = un w" "gemdroid_core (setIPInstance t i b w) = gemdroid_core w"
  by (cases t; simp add: setIPInstance_def)+

lemma getIPInstance_frame [simp]:
  "getIPInstance t i (w\<lparr>gemdroid_core := c\<rparr>) = getIPInstance t i w" "getIPInstance t i (w\<lparr>un := u\<rparr>) = getIPInstance t i w"
  by (cases t; simp add: getIPInstance_def)+

lemma primed_ips:
  assumes "\<And>p. ip_inv p \<Longrightarrow> \<not> isDev p \<Longrightarrow> \<exists>p'. f p = Inr p'" "\<And>p p'. f p = Inr p' \<Longrightarrow> quiet p p'" "primed n w"
  shows "\<exists>w'. each_inst IP_TYPE_VD IP_TYPE_GPU (\<lambda>t j. withIPInstance t j f) w = Inr w' \<and> primed n w'"
proof (rule each_inst_returns)
  fix t j and v :: "'a world"
  assume t: "IP_TYPE_VD \<le> t" "t \<le> IP_TYPE_GPU" "0 \<le> j" "j < int (num_ip_inst (gd (un w)))" and r: "primed n v"
  have j: "j = 0" using t(3,4) assms(3) by (simp add: primed_def)
  obtain p where p: "getIPInstance t 0 v = Inr p" "ip_inv p" "\<not> isDev p" using r t(1,2) unfolding primed_def by blast
  obtain p' where f: "f p = Inr p'" using assms(1) p by blast
  with assms(2) p have "ip_inv p'" "\<not> isDev p'" by (auto simp: quiet_def)
  with r have "primed n (setIPInstance t 0 p' v)" by (auto simp: primed_def getIPInstance_set [OF p(1)])
  then show "\<exists>w'. withIPInstance t j f v = Inr w' \<and> primed n w'" using p(1) f by (simp add: withIPInstance_def j)
qed fact

lemma primed_cores:
  assumes "\<And>c. core_inv c \<Longrightarrow> \<exists>c'. f c = Inr c'" "\<And>c c'. f c = Inr c' \<Longrightarrow> core_quiet c c'" "primed n (wd s)"
  shows "\<exists>s'. foldE (\<lambda>i. on_wd (on_core i f)) (S_CORES s) s = Inr s' \<and> primed n (wd s')"
proof (rule foldE_returns [where P = "\<lambda>s. primed n (wd s)"])
  fix i and x :: "'a sched" assume i: "i \<in> set (S_CORES s)" and x: "primed n (wd x)"
  have n: "i < n" using i assms(3) by (simp add: primed_def)
  with x have c: "core_inv (gemdroid_core (wd x) i)" "i < MAX_CPUS" by (simp_all add: primed_def)
  then obtain c' where f: "f (gemdroid_core (wd x) i) = Inr c'" using assms(1) by blast
  with assms(2) c(1) have "core_inv c'" unfolding core_quiet_def by blast
  with x have "primed n ((wd x)\<lparr>gemdroid_core := (gemdroid_core (wd x))(i := c')\<rparr>)" by (simp add: primed_def)
  then show "\<exists>s'. on_wd (on_core i f) x = Inr s' \<and> primed n (wd s')" using f c(2) by (simp add: on_wd_def on_core_def)
qed fact

lemma primed_mem:
  assumes "primed n (wd s)" "\<exists>m'. f (mem (un (wd s))) = Inr m'"
  shows "\<exists>s'. on_wd (on_mem f) s = Inr s' \<and> primed n (wd s')"
  using assms by (auto simp: on_wd_def on_mem_def primed_def)

lemma primed_freqs:
  "core_inv c \<Longrightarrow> \<exists>c'. setCoreFreq (5 / 10) c = Inr c'" "ip_inv p \<Longrightarrow> \<exists>p'. setIPFreq (2 / 10) p = Inr p'"
proof -
  show "core_inv c \<Longrightarrow> \<exists>c'. setCoreFreq (5 / 10) c = Inr c'"
    using core_freqs [of 500] by (simp add: setCoreFreq_def core_getIndexInTable_def core_inv_def Let_def)
  obtain k where k: "k < 7" "2 / 10 = vf_freq (ip_table (ip_cap (ip_type p)) ! k)" using ip_table_freqs [of 200 "ip_cap (ip_type p)"] by auto
  have "table_index (ip_table (ip_cap (ip_type p))) (2 / 10) = int k"
    unfolding k(2) using ip_vf.table_index_freq [of k "ip_type p"] k(1) by simp
  with k(1) show "ip_inv p \<Longrightarrow> \<exists>p'. setIPFreq (2 / 10) p = Inr p'"
    by (simp add: setIPFreq_def ip_getIndexInTable_def ip_inv_def ip_dvfs_inv_def Let_def)
qed

lemma update_multipliers_returns:
  assumes "primed n (wd s)"
  shows "\<exists>s'. update_multipliers s = Inr s'"
proof -
  have inst: "\<exists>p. getIPInstance t j w = Inr p" if "IP_TYPE_DC \<le> t" "t \<le> IP_TYPE_GPU" "j = 0" for t j and w :: "'a world"
    using that by (cases t) (simp_all add: getIPInstance_def inst_def IP_TYPE_order)
  let ?Q = "\<lambda>x :: 'a sched. primed n (wd x)"
  define f where "f = (\<lambda>i s :: 'a sched. bindE (boundsE ''cpuFreqMultipliers'' (i < MAX_CPUS)) (\<lambda>_.
      Inr (s\<lparr>cpuFreqMultipliers := (cpuFreqMultipliers s)(i := freqMultiplier (getCoreFreq (gemdroid_core (wd s) i)))\<rparr>)))"
  define h where "h = (\<lambda>t j s :: 'a sched. bindE (getIPInstance t j (wd s)) (\<lambda>p.
      Inr (s\<lparr>ipFreqMultipliers := upd2 (ipFreqMultipliers s) t j (freqMultiplier (getIPFreq p))\<rparr>)))"
  have "\<exists>x. foldE f (S_CORES s) s = Inr x \<and> ?Q x"
    by (rule foldE_returns [where P = ?Q]) (use assms in \<open>auto simp: f_def primed_def\<close>)
  then obtain x where x: "foldE f (S_CORES s) s = Inr x" "?Q x" by blast
  have h: "\<exists>z. h t j y = Inr z \<and> ?Q z" if "IP_TYPE_DC \<le> t" "t \<le> IP_TYPE_GPU" "j = 0" "?Q y" for t j y
    using inst [OF that(1-3), of "wd y"] that(4) by (auto simp: h_def)
  have "\<exists>y. for_inst (ip_range IP_TYPE_DC IP_TYPE_GPU) h x = Inr y \<and> ?Q y" unfolding for_inst_def
  proof (rule foldE_returns [where P = ?Q])
    fix t and y :: "'a sched" assume "t \<in> set (ip_range IP_TYPE_DC IP_TYPE_GPU)" "?Q y"
    then show "\<exists>z. foldE (h t) (map int [0..<num_ip_inst (s_gd x)]) y = Inr z \<and> ?Q z"
      by (intro foldE_returns h) (use x(2) in \<open>auto simp: ip_range_def primed_def\<close>)
  qed (rule x(2))
  with x(1) show ?thesis unfolding update_multipliers_def f_def [symmetric] h_def [symmetric] by auto
qed

lemma bindE_returns:
  "\<exists>x. m = Inr x \<and> Q x \<Longrightarrow> (\<And>x. Q x \<Longrightarrow> \<exists>y. f x = Inr y \<and> R y) \<Longrightarrow> \<exists>y. bindE m f = Inr y \<and> R y"
  by auto

lemma initDVFS_returns:
  assumes "primed n (wd s)" "governor (s_gd s) \<noteq> END_OF_GOVERNOR"
  shows "\<exists>s'. initDVFS D s = Inr s'"
proof -
  let ?Q = "\<lambda>x :: 'a sched. primed n (wd x)"
  have c1: "\<exists>y. foldE (\<lambda>i. on_wd (on_core i (\<lambda>c. Inr (setOptCoreFreq c)))) (S_CORES x) x = Inr y \<and> ?Q y" if "?Q x" for x
    by (rule primed_cores) (use that core_quiet_sets in auto)
  have c2: "\<exists>y. foldE (\<lambda>i. on_wd (on_core i (\<lambda>c. Inr (setMaxCoreFreq v c)))) (S_CORES x) x = Inr y \<and> ?Q y" if "?Q x" for v x
    by (rule primed_cores) (use that core_quiet_sets in auto)
  have c3: "\<exists>y. foldE (\<lambda>i. on_wd (on_core i (setCoreFreq (5 / 10)))) (S_CORES x) x = Inr y \<and> ?Q y" if "?Q x" for x
    by (rule primed_cores) (use that core_quiet_sets primed_freqs(1) in auto)
  have on: "\<exists>y. on_wd f x = Inr y \<and> ?Q y" if "\<exists>w. f (wd x) = Inr w \<and> primed n w" for f x using that by (auto simp: on_wd_def)
  have i1: "\<exists>y. on_wd (each_inst IP_TYPE_VD IP_TYPE_GPU (\<lambda>t j. withIPInstance t j setOptIPFreq)) x = Inr y \<and> ?Q y" if "?Q x" for x
    by (rule on, rule primed_ips [OF _ quiet_sets(3) that]) (simp add: setOptIPFreq_def)
  have i2: "\<exists>y. on_wd (each_inst IP_TYPE_VD IP_TYPE_GPU (\<lambda>t j. withIPInstance t j setMaxIPFreq)) x = Inr y \<and> ?Q y" if "?Q x" for x
    by (rule on, rule primed_ips [OF _ quiet_sets(1) that]) (simp add: setMaxIPFreq_def)
  have i3: "\<exists>y. on_wd (each_inst IP_TYPE_VD IP_TYPE_GPU (\<lambda>t j. withIPInstance t j (setIPFreq (2 / 10)))) x = Inr y \<and> ?Q y" if "?Q x" for x
    by (rule on, rule primed_ips [OF primed_freqs(2) quiet_sets(5) that])
  have m1: "\<exists>y. on_wd (on_mem (setMemFreq D (5 / 10))) x = Inr y \<and> ?Q y" "\<exists>y. on_wd (on_mem (setMemFreq D (9 / 10))) x = Inr y \<and> ?Q y"
    "\<exists>y. on_wd (on_mem (\<lambda>m. Inr (setMaxMemFreq D m))) x = Inr y \<and> ?Q y" "\<exists>y. on_wd (on_mem (\<lambda>m. Inr (setOptMemFreq D m))) x = Inr y \<and> ?Q y"
    if "?Q x" for x
    by (rule primed_mem [OF that]; simp add: setMemFreq_def)+
  have off: "\<exists>y. Inr (x\<lparr>gv := K x\<rparr>) = Inr y \<and> ?Q y" "\<exists>y. Inr x = Inr y \<and> ?Q y" if "?Q x" for x K using that by simp_all
  define v where "v = s\<lparr>gv := (gv s)\<lparr>enableDVFS := True, doSlackDVFS := False\<rparr>, framesMissed := 0\<rparr>"
  have v: "?Q v" "governor (s_gd v) \<noteq> END_OF_GOVERNOR" using assms by (simp_all add: v_def)
  have u: "\<exists>y. update_multipliers (x\<lparr>gv := K x\<rparr>) = Inr y \<and> True" if "?Q x" for x K
    using update_multipliers_returns [of n "x\<lparr>gv := K x\<rparr>"] that by simp
  have "\<exists>s'. initDVFS D s = Inr s' \<and> True" unfolding initDVFS_def Let_def v_def [symmetric]
    apply (rule bindE_returns [where Q = "\<lambda>_. True"])
     apply (use v(2) in simp)
    apply (rule bindE_returns [where Q = ?Q, OF _ u], (simp only: split: if_split, intro conjI impI; (rule off v(1) | rule bindE_returns [where Q = ?Q] | rule c1 c2 c3 i1 i2 i3 m1 | assumption)+), assumption)
    done
  then show ?thesis by simp
qed

subsection \<open>The constructor\<close>

lemma init_cores_returns:
  assumes "valid_params P F" "states_ok K" "\<And>i. gemdroid_core (wd s) i = new_GemDroidCore (c0 i)" "N \<le> p_num_cpu_traces P"
  shows "\<exists>s'. foldE (init_core P F K) [0..<N] s = Inr s'"
  using assms(4)
proof (induction N)
  case (Suc N)
  then obtain x where x: "foldE (init_core P F K) [0..<N] s = Inr x" by auto
  have "\<forall>i\<ge>N. gemdroid_core (wd x) i = gemdroid_core (wd s) i" using init_cores_ok [OF x assms(2,3)] by (auto simp: set_gd_def)
  then have "\<exists>s'. init_core P F K N x = Inr s'"
    by (intro init_core_returns [where ?c0.0 = "c0 N"]) (use Suc.prems assms(1,3) in \<open>auto simp: valid_params_def\<close>)
  with x show ?case by (auto simp: foldE_append)
qed simp

lemma init_accs_vd:
  assumes "init_accs P K 0 w = Inr w'" "states_ok K"
  shows "\<not> isDev (gemdroid_ip_vd w' 0)"
proof -
  from assms(1) obtain p g where "dec_init IP_TYPE_VD 0 False 12 24 64 VID_CODING_RATIO 1 (p_ip_freq P) (optimal_freqs K IP_TYPE_VD) (gemdroid_ip_vd w 0) (gd (un w)) = Inr (p, g)"
    "gemdroid_ip_vd w' 0 = p"
    by (auto simp: init_accs_def Let_def set_gd_def)
  moreover from this(1) obtain q where q: "ip_init IP_TYPE_VD 0 False 0 (p_ip_freq P) (optimal_freqs K IP_TYPE_VD) (gemdroid_ip_vd w 0) (gd (un w)) = Inr (q, g)" "isDev p = isDev q"
    by (auto simp: dec_init_def coder_init_def)
  moreover have "isDev q = False" using ip_init_ok [OF q(1)] assms(2) unfolding states_ok_def by simp
  ultimately show ?thesis by simp
qed

lemma init_gpu_vd: "init_gpu P F K w = Inr w' \<Longrightarrow> gemdroid_ip_vd w' = gemdroid_ip_vd w"
  by (auto simp: init_gpu_def init_dev_def Let_def set_gd_def setIPInstance_def split: if_splits)

lemma primed_insts:
  assumes "insts_ok rd 0 w" "cores_ok w" "num_cpus (gd (un w)) \<le> MAX_CPUS" "num_ip_inst (gd (un w)) = 1" "\<not> isDev (gemdroid_ip_vd w 0)"
  shows "primed (num_cpus (gd (un w))) w"
proof -
  have after: "ip_inv p \<and> \<not> isDev p" if "coder_at todo ok rd t 0 p" "t > IP_TYPE_VD" for todo ok t and p :: "'b coder_scheme"
    using that by (auto simp: coder_at_def ip_at_def ip_inv_def ip_class_ok_def)
  from assms(1) have acc: "coder_at coder_todo enc_ok rd IP_TYPE_VE 0 (gemdroid_ip_ve w 0)" "coder_at dec_todo dec_ok rd IP_TYPE_AD 0 (gemdroid_ip_ad w 0)"
      "coder_at coder_todo enc_ok rd IP_TYPE_AE 0 (gemdroid_ip_ae w 0)" "coder_at coder_todo noc_ok rd IP_TYPE_IMG 0 (gemdroid_ip_img w 0)"
    and gpu: "ip_inv (gemdroid_ip_gpu w 0) \<and> \<not> isDev (gemdroid_ip_gpu w 0)" and vd: "ip_inv (gemdroid_ip_vd w 0)"
    by (simp_all add: insts_ok_def gpu_inv_def coder_at_def [of dec_todo dec_ok rd IP_TYPE_VD] ip_at_def)
  note ips = acc(1) [THEN after] acc(2) [THEN after] acc(3) [THEN after] acc(4) [THEN after]
  have "\<exists>p. getIPInstance t 0 w = Inr p \<and> ip_inv p \<and> \<not> isDev p" if "IP_TYPE_VD \<le> t" "t \<le> IP_TYPE_GPU" for t
    using that ips gpu vd assms(5) by (cases t) (simp_all add: getIPInstance_def inst_def IP_TYPE_order)
  with assms(2-4) show ?thesis by (simp add: primed_def cores_ok_def)
qed

lemma new_GemDroid_returns:
  assumes "valid_params P F" "blank (wd s0)"
  shows "\<exists>s. new_GemDroid D d P F s0 = Inr s"
proof -
  note V = assms(1) [unfolded valid_params_def]
  let ?w = "wd s0"
  let ?g = "(s_gd s0)\<lparr>gd_ticks := 0, gd_perfectMemory := p_perfect_memory P, num_cpus := p_num_cpu_traces P, governor := p_governor P,
    num_ip_inst := p_num_ip_instances P, frameStarted := (\<lambda>_ _. False), m_avgPowerInFrameSum := (\<lambda>_ _. 0), m_avgPowerInFrameCount := (\<lambda>_ _. 0)\<rparr>"
  let ?u = "\<lparr>gd = ?g, sa = new_GemDroidSA (sa (un ?w)), mem = new_GemDroidMemory d (p_perfect_memory P) (mem (un ?w))\<rparr>"
  let ?K = "(gv s0)\<lparr>governor_timing := p_governor_timing P, sweep_val1 := p_sweep_val1 P, sweep_val2 := p_sweep_val2 P\<rparr>"
  let ?s = "s0\<lparr>wd := ?w\<lparr>un := ?u, gemdroid_core := (\<lambda>i. new_GemDroidCore (gemdroid_core ?w i))\<rparr>,
    isPrintPeriodicStats := \<not> p_no_periodic_stats P, isPrintPeriodicStatsPower := False,
    powerCalcLastTick := 0, periodicStatsLastTick := 0, slackLastTick := 0, dvfsLastTick := 0, memLastTick := 0,
    framesToBeShown := 0, ipLastTick := (\<lambda>_ _. 0)\<rparr>"
  let ?f = "real_of_int (p_mem_freq P) / 1000"
  have "3 / 10 \<le> ?f" "?f \<le> 1" using V by simp_all
  then obtain m where m: "setMemFreq D ?f (mem ?u) = Inr m" by (simp add: setMemFreq_def)
  define z where "z = ?s\<lparr>wd := (wd ?s)\<lparr>un := ?u\<lparr>mem := m\<rparr>\<rparr>\<rparr>"
  have z: "on_wd (on_mem (setMemFreq D ?f)) ?s = Inr z" using m by (simp add: on_wd_def on_mem_def z_def)
  obtain K where K: "loadIPChars (f_ipchars F) ?K = Inr K" using V loadIPChars_returns by metis
  note ok = loadIPChars_states [OF K]
  obtain tbl where tbl: "loadFlows (f_flows F) = Inr tbl" using V by blast
  define a where "a = z\<lparr>gv := K, wd := set_gd ((s_gd z)\<lparr>flowTable := tbl\<rparr>) (wd z)\<rparr>"
  have a: "num_cpus (s_gd a) = p_num_cpu_traces P" "num_ip_inst (s_gd a) = 1" "governor (s_gd a) = p_governor P" "blank (wd a)"
    "gemdroid_core (wd a) i = new_GemDroidCore (gemdroid_core ?w i)" for i
    using V assms(2) by (simp_all add: a_def z_def set_gd_def blank_def)
  obtain b where b: "foldE (init_core P F K) (S_CORES a) a = Inr b" using init_cores_returns [OF assms(1) ok a(5)] a(1) by auto
  obtain l C gb ap where bs: "b = a\<lparr>cpuLastTick := l, wd := set_gd gb ((wd a)\<lparr>gemdroid_core := C\<rparr>)\<rparr>"
    and C: "\<forall>i<p_num_cpu_traces P. core_inv (C i) \<and> c_id (C i) = int i" and gb: "gd_config gb = gd_config ((s_gd a)\<lparr>app_id := ap\<rparr>)"
    using init_cores_ok [OF b ok a(5)] unfolding a(1) by blast
  have wb: "blank (wd b)" "num_ip_inst (gd (un (wd b))) = 1" using a gb by (simp_all add: bs set_gd_def blank_def gd_config_def)
  obtain v where v: "init_devs P K 0 (wd b) = Inr v" using init_devs_returns V by blast
  obtain x where x: "init_accs P K 0 v = Inr x" using init_accs_returns V by blast
  have gv: "gd_config (gd (un v)) = gd_config (gd (un (wd b)))" and "blank v"
    using init_devs_ok [OF v ok] wb(1) by (auto simp: set_gd_def blank_def)
  from init_accs_ok [OF x ok this(2)] have "gd_config (gd (un x)) = gd_config (gd (un v))" by (auto simp: set_gd_def)
  with gv wb(2) have "num_ip_inst (gd (un x)) = 1" by (simp add: gd_config_def)
  then obtain y where y: "init_gpu P F K x = Inr y" using init_gpu_returns [of P F x K] V ok by blast
  note Y = init_ips_ok [OF v x y ok wb]
  have gy: "gd_config (gd (un y)) = gd_config ((s_gd a)\<lparr>app_id := ap\<rparr>)" using Y gb by (simp add: bs set_gd_def)
  have "p_num_cpu_traces P \<le> MAX_CPUS" "p_governor P \<noteq> END_OF_GOVERNOR" using V by blast+
  with gy a(1-3) have n: "num_cpus (gd (un y)) \<le> MAX_CPUS" "num_ip_inst (gd (un y)) = 1" "governor (gd (un y)) \<noteq> END_OF_GOVERNOR"
    by (simp_all add: gd_config_def)
  have "primed (num_cpus (gd (un y))) y"
  proof (rule primed_insts)
    show "cores_ok y" using Y C gy a(1) by (simp add: cores_ok_def gd_config_def bs set_gd_def)
    show "\<not> isDev (gemdroid_ip_vd y 0)" using init_accs_vd [OF x ok] init_gpu_vd [OF y] by simp
  qed (use Y n in blast)+
  then obtain s where s: "initDVFS D (b\<lparr>wd := y\<rparr>) = Inr s"
    using initDVFS_returns [of _ "b\<lparr>wd := y\<rparr>" D] n(3) by auto
  have "on_wd (foldE (\<lambda>i w. bindE (init_devs P K i w) (init_accs P K i)) (map int [0..<p_num_ip_instances P])) b = Inr (b\<lparr>wd := x\<rparr>)"
    using V v x by (simp add: on_wd_def)
  moreover have "on_wd (init_gpu P F K) (b\<lparr>wd := x\<rparr>) = Inr (b\<lparr>wd := y\<rparr>)" using y by (simp add: on_wd_def)
  ultimately show ?thesis using s b unfolding new_GemDroid_def Let_def z bindE_simps K tbl a_def [symmetric] by simp
qed

subsection \<open>Properties\<close>

definition params_demo :: Params where
  "params_demo = \<lparr>p_num_cpu_traces = 1, p_governor = GOVERNOR_TYPE_POWERSAVE, p_governor_timing = 1, p_core_freq = 1000, p_issue_width = 2,
     p_mem_freq = 800, p_dev_freq = 400, p_ip_freq = 400, p_num_ip_instances = 1, p_cpu_trace = (\<lambda>_. ''video''), p_gpu_trace = ''gpu'',
     p_perfect_memory = False, p_no_periodic_stats = True, p_sweep_val1 = 0, p_sweep_val2 = 0\<rparr>"

definition files_demo :: files where
  "files_demo = \<lparr>f_trace = (\<lambda>_. Some [Token ''NW'' 0 0, Token ''0'' 0 0, Token ''0'' 0 0]), f_ipchars = Some (replicate 56 1),
     f_flows = take 26 shipped_flows\<rparr>"

lemma valid_params_demo: "valid_params params_demo files_demo"
proof -
  have "case loadFlows (f_flows files_demo) of Inl e \<Rightarrow> False | Inr _ \<Rightarrow> True" by code_simp
  then have "\<exists>tbl. loadFlows (f_flows files_demo) = Inr tbl" by (auto split: sum.splits)
  then show ?thesis by (simp add: valid_params_def params_demo_def files_demo_def)
qed

lemma blank_s_demo: "blank (wd s_demo)"
  by (simp add: blank_def s_demo_def w_demo_def dec_demo_def coder_demo_def coder.defs decoder.defs GemDroidIP.defs dev_demo_def ip_blank_def)

text \<open>The state the constructor builds, with any simulator behind the memory.\<close>

lemma boot_contract:
  assumes "valid_params P F" "dram_conserves D pend" "pend d = {#}" "blank (wd s0)"
  shows "\<exists>s. new_GemDroid D d P F s0 = Inr s \<and> plat_run D pend {0} (boot_dcs (wd s)) (wd s) \<and> scheduled {0} (boot_dcs (wd s)) (wd s) \<and>
    governor (s_gd s) = p_governor P \<and> num_cpus (s_gd s) = p_num_cpu_traces P \<and> s_ticks s = 0 \<and>
    memLastTick s = 0 \<and> (\<forall>i<p_num_cpu_traces P. cpuLastTick s i = 0) \<and> ipLastTick s = (\<lambda>_ _. 0) \<and>
    (\<forall>n s'. p_governor P \<noteq> GOVERNOR_TYPE_BUILDING \<longrightarrow> repeatE n (tick D) s = Inr s' \<longrightarrow>
      plat_inv pend {0} (boot_dcs (wd s)) (wd s') \<and> s_ticks s' = int n)"
proof -
  obtain s where s: "new_GemDroid D d P F s0 = Inr s" using new_GemDroid_returns [OF assms(1,4)] by blast
  have "p_num_ip_instances P = 1" using assms(1) by (simp add: valid_params_def)
  from boot_fresh [OF s this assms(2-4)] obtain w where w: "plat_fresh pend {0} (boot_dcs w) w" "steady pend w (wd s)" "num_ip_inst (gd (un w)) = 1"
      "gd_ticks (gd (un w)) = 0" "governor (gd (un w)) = p_governor P" "num_cpus (gd (un w)) = p_num_cpu_traces P"
    and l: "memLastTick s = 0 \<and> (\<forall>i<p_num_cpu_traces P. cpuLastTick s i = 0) \<and> ipLastTick s = (\<lambda>_ _. 0)"
    by blast
  have c: "gd_config (s_gd s) = gd_config (gd (un w))" and J: "boot_dcs (wd s) = boot_dcs w" using w(2) by (simp_all add: steady_def conf_def boot_dcs_def)
  have g: "governor (s_gd s) = p_governor P" "num_cpus (s_gd s) = p_num_cpu_traces P" "s_ticks s = 0" "num_ip_inst (s_gd s) = 1"
    using c w(3-6) by (simp_all add: gd_config_def)
  have run: "plat_run D pend {0} (boot_dcs (wd s)) (wd s)"
    using plat_run.tune [OF plat_run.boot [OF w(1)]] w(2) by (simp add: steady_def J)
  have sched: "scheduled {0} (boot_dcs (wd s)) (wd s)" using g(4) by (auto simp: scheduled_def boot_dcs_def)
  have "plat_inv pend {0} (boot_dcs (wd s)) (wd s') \<and> s_ticks s' = int n"
    if "p_governor P \<noteq> GOVERNOR_TYPE_BUILDING" "repeatE n (tick D) s = Inr s'" for n s'
  proof -
    have "clocked D pend {0} (boot_dcs (wd s)) (wd s) (sa_ticks (sa (un (wd s)))) s" using that(1) g(1) run sched assms(2) by (simp add: clocked_def)
    from clocked_ticks [OF this that(2)] g(3) show ?thesis using clockedD(1) by auto
  qed
  with s run sched g l show ?thesis by blast
qed



end
