(* ===== verification/DS_Config.thy ===== *)
theory DS_Config
  imports GD_Prelude
begin

section \<open>DRAMSim2: configuration, packets and addresses\<close>

text \<open>
  The copy of DRAMSim2 in the repository (\<open>gemdroid.dramsim2/DRAMSim2\<close>) is changed for GemDroid: requests
  carry their sender, the frequency can be set, and the controller has a scheduler of its own. This
  theory holds the parameters of the two ini files (\<open>SystemConfiguration.h\<close>), transactions and packets
  (\<open>Transaction.h\<close>, \<open>BusPacket.h\<close>), the state of a bank (\<open>BankState.h\<close>) and the mapping of addresses
  (\<open>AddressMapping.cpp\<close>). Clocks are \<open>nat\<close>; \<open>unsigned\<close> arithmetic that can wrap is written out.
\<close>

unbundle bit_operations_syntax

subsection \<open>Unsigned arithmetic\<close>

definition u32 :: "int \<Rightarrow> nat" where
  "u32 x = nat (x mod 2 ^ 32)"

definition dec32 :: "nat \<Rightarrow> nat" where
  "dec32 n = (if n = 0 then 2 ^ 32 - 1 else n - 1)"

text \<open>A \<open>uint64_t\<close> assigned to an \<open>unsigned\<close>.\<close>

definition to_unsigned :: "addr \<Rightarrow> nat" where
  "to_unsigned a = unat (ucast a :: 32 word)"

lemma dec32_simps [simp]: "0 < n \<Longrightarrow> dec32 n = n - 1" "dec32 (Suc n) = n"
  by (simp_all add: dec32_def)

subsection \<open>Parameters\<close>

datatype AddressMappingScheme = Scheme1 | Scheme2 | Scheme3 | Scheme4 | Scheme5 | Scheme6 | Scheme7
datatype RowBufferPolicy = OpenPage | ClosePage
datatype QueuingStructure = PerRank | PerRankPerBank
datatype SchedulingPolicy = RankThenBankRoundRobin | BankThenRankRoundRobin

record dram_config =
  NUM_CHANS :: nat
  NUM_RANKS :: nat
  NUM_BANKS :: nat
  NUM_ROWS :: nat
  NUM_COLS :: nat
  DEVICE_WIDTH :: nat
  JEDEC_DATA_BUS_BITS :: nat
  REFRESH_PERIOD :: nat
  CL :: nat
  AL :: nat
  BL :: nat
  tRAS :: nat
  tRCD :: nat
  tRRD :: nat
  tRC :: nat
  tRP :: nat
  tCCD :: nat
  tRTP :: nat
  tWTR :: nat
  tWR :: nat
  tRTRS :: nat
  tRFC :: nat
  tFAW :: nat
  tCKE :: nat
  tXP :: nat
  tCMD :: nat
  IDD0 :: nat
  IDD2P :: nat
  IDD2N :: nat
  IDD3N :: nat
  IDD4W :: nat
  IDD4R :: nat
  IDD5 :: nat
  TRANS_QUEUE_DEPTH :: nat
  CMD_QUEUE_DEPTH :: nat
  FRFCFS :: bool
  USE_LOW_POWER :: bool
  TOTAL_ROW_ACCESSES :: nat
  rowBufferPolicy :: RowBufferPolicy
  schedulingPolicy :: SchedulingPolicy
  addressMappingScheme :: AddressMappingScheme
  queuingStructure :: QueuingStructure

definition RL :: "dram_config \<Rightarrow> nat" where "RL C = CL C + AL C"
definition WL :: "dram_config \<Rightarrow> nat" where "WL C = u32 (int (RL C) - 1)"
definition READ_TO_PRE_DELAY :: "dram_config \<Rightarrow> nat" where
  "READ_TO_PRE_DELAY C = AL C + BL C div 2 + max (tRTP C) (tCCD C) - tCCD C"
definition WRITE_TO_PRE_DELAY :: "dram_config \<Rightarrow> nat" where
  "WRITE_TO_PRE_DELAY C = WL C + BL C div 2 + tWR C"
definition READ_TO_WRITE_DELAY :: "dram_config \<Rightarrow> nat" where
  "READ_TO_WRITE_DELAY C = u32 (int (RL C + BL C div 2 + tRTRS C) - int (WL C))"
definition READ_AUTOPRE_DELAY :: "dram_config \<Rightarrow> nat" where
  "READ_AUTOPRE_DELAY C = AL C + tRTP C + tRP C"
definition WRITE_AUTOPRE_DELAY :: "dram_config \<Rightarrow> nat" where
  "WRITE_AUTOPRE_DELAY C = WL C + BL C div 2 + tWR C + tRP C"
definition WRITE_TO_READ_DELAY_B :: "dram_config \<Rightarrow> nat" where
  "WRITE_TO_READ_DELAY_B C = WL C + BL C div 2 + tWTR C"
definition WRITE_TO_READ_DELAY_R :: "dram_config \<Rightarrow> nat" where
  "WRITE_TO_READ_DELAY_R C = u32 (int (WL C + BL C div 2 + tRTRS C) - int (RL C))"

text \<open>The time from an activation to the column access, with posted CAS.\<close>

definition ACT_TO_COL_DELAY :: "dram_config \<Rightarrow> nat" where
  "ACT_TO_COL_DELAY C = u32 (int (tRCD C) - int (AL C))"

function shift_count :: "nat \<Rightarrow> nat" where
  "shift_count value = (if value > 0 then Suc (shift_count (value div 2)) else 0)"
  by pat_completeness auto
termination by (relation "measure id") auto

declare shift_count.simps [simp del]

definition dramsim_log2 :: "nat \<Rightarrow> nat" where
  "dramsim_log2 value = (let logbase2 = shift_count (value div 2) in if 2 ^ logbase2 < value then Suc logbase2 else logbase2)"

definition isPowerOfTwo :: "nat \<Rightarrow> bool" where
  "isPowerOfTwo x \<longleftrightarrow> 2 ^ dramsim_log2 x = x"

definition NUM_DEVICES :: "dram_config \<Rightarrow> nat" where
  "NUM_DEVICES C = JEDEC_DATA_BUS_BITS C div DEVICE_WIDTH C"

text \<open>The megabytes of a rank and the number of ranks that give a channel its size (\<open>MemorySystem::MemorySystem\<close>).\<close>

definition megsOfStoragePerRank :: "dram_config \<Rightarrow> nat" where
  "megsOfStoragePerRank C =
     (NUM_ROWS C * (NUM_COLS C * DEVICE_WIDTH C) * NUM_BANKS C * (JEDEC_DATA_BUS_BITS C div DEVICE_WIDTH C)) div 8 div 2 ^ 20"

definition ranks_of :: "dram_config \<Rightarrow> nat \<Rightarrow> nat" where
  "ranks_of C megsOfMemory =
     (if megsOfMemory \<noteq> 0 then max 1 (megsOfMemory div megsOfStoragePerRank C) else NUM_RANKS C)"

subsection \<open>Transactions and packets\<close>

datatype TransactionType = DATA_READ | DATA_WRITE | RETURN_DATA

record Transaction =
  transactionType :: TransactionType
  t_address :: addr
  timeAdded :: nat
  t_sender_type :: int
  t_sender_id :: int

datatype BusPacketType = READ | READ_P | WRITE | WRITE_P | ACTIVATE | PRECHARGE | REFRESH | DATA

record BusPacket =
  busPacketType :: BusPacketType
  bp_column :: nat
  bp_row :: nat
  bp_bank :: nat
  bp_rank :: nat
  physicalAddress :: addr
  bp_sender_type :: int
  bp_sender_id :: int

definition new_BusPacket :: "BusPacketType \<Rightarrow> addr \<Rightarrow> nat \<Rightarrow> nat \<Rightarrow> nat \<Rightarrow> nat \<Rightarrow> BusPacket" where
  "new_BusPacket packtype physicalAddr col rw r b =
     \<lparr>busPacketType = packtype, bp_column = col, bp_row = rw, bp_bank = b, bp_rank = r, physicalAddress = physicalAddr,
      bp_sender_type = -1, bp_sender_id = -1\<rparr>"

definition bp_setSender :: "int \<Rightarrow> int \<Rightarrow> BusPacket \<Rightarrow> BusPacket" where
  "bp_setSender t i p = p\<lparr>bp_sender_type := t, bp_sender_id := i\<rparr>"

definition getBusPacketType :: "dram_config \<Rightarrow> Transaction \<Rightarrow> BusPacketType result" where
  "getBusPacketType C t =
     (case transactionType t of
        DATA_READ \<Rightarrow> Inr (if rowBufferPolicy C = ClosePage then READ_P else READ)
      | DATA_WRITE \<Rightarrow> Inr (if rowBufferPolicy C = ClosePage then WRITE_P else WRITE)
      | RETURN_DATA \<Rightarrow> Inl (AssertFail ''no bus packet type''))"

abbreviation is_read :: "BusPacketType \<Rightarrow> bool" where "is_read k \<equiv> k = READ \<or> k = READ_P"
abbreviation is_write :: "BusPacketType \<Rightarrow> bool" where "is_write k \<equiv> k = WRITE \<or> k = WRITE_P"

subsection \<open>Bank states\<close>

datatype CurrentBankState = Idle | RowActive | Precharging | Refreshing | PowerDown

record BankState =
  currentBankState :: CurrentBankState
  openRowAddress :: nat
  nextRead :: nat
  nextWrite :: nat
  nextActivate :: nat
  nextPrecharge :: nat
  nextPowerUp :: nat
  lastCommand :: BusPacketType
  stateChangeCountdown :: nat

definition new_BankState :: BankState where
  "new_BankState =
     \<lparr>currentBankState = Idle, openRowAddress = 0, nextRead = 0, nextWrite = 0, nextActivate = 0, nextPrecharge = 0,
      nextPowerUp = 0, lastCommand = READ, stateChangeCountdown = 0\<rparr>"

type_synonym bank_states = "nat \<Rightarrow> nat \<Rightarrow> BankState"

subsection \<open>Address mapping\<close>

record mapped =
  m_chan :: nat
  m_rank :: nat
  m_bank :: nat
  m_row :: nat
  m_col :: nat

text \<open>The lowest \<open>n\<close> bits, and the address without them: the four statements every field is read by.\<close>

definition low_field :: "nat \<Rightarrow> addr \<Rightarrow> nat \<times> addr" where
  "low_field n physicalAddr =
     (let tempA = physicalAddr; physicalAddr = drop_bit n physicalAddr; tempB = push_bit n physicalAddr in
      (to_unsigned (tempA XOR tempB), physicalAddr))"

definition transactionSize :: "dram_config \<Rightarrow> nat" where
  "transactionSize C = JEDEC_DATA_BUS_BITS C div 8 * BL C"

definition byteOffsetWidth :: "dram_config \<Rightarrow> nat" where
  "byteOffsetWidth C = dramsim_log2 (JEDEC_DATA_BUS_BITS C div 8)"

definition colLowBitWidth :: "dram_config \<Rightarrow> nat" where
  "colLowBitWidth C = dramsim_log2 (transactionSize C) - byteOffsetWidth C"

definition colHighBitWidth :: "dram_config \<Rightarrow> nat" where
  "colHighBitWidth C = dramsim_log2 (NUM_COLS C) - colLowBitWidth C"

text \<open>The fields from the lowest bits up, by scheme.\<close>

definition addressMapping :: "dram_config \<Rightarrow> addr \<Rightarrow> mapped" where
  "addressMapping C physicalAddr =
     (let chan = low_field (dramsim_log2 (NUM_CHANS C)); rank = low_field (dramsim_log2 (NUM_RANKS C));
          bank = low_field (dramsim_log2 (NUM_BANKS C)); row = low_field (dramsim_log2 (NUM_ROWS C));
          col = low_field (colHighBitWidth C);
          a = drop_bit (colLowBitWidth C) (drop_bit (byteOffsetWidth C) physicalAddr) in
      case addressMappingScheme C of
        Scheme1 \<Rightarrow> let (b, a) = bank a; (c, a) = col a; (w, a) = row a; (r, a) = rank a; (n, a) = chan a
                   in \<lparr>m_chan = n, m_rank = r, m_bank = b, m_row = w, m_col = c\<rparr>
      | Scheme2 \<Rightarrow> let (r, a) = rank a; (b, a) = bank a; (c, a) = col a; (w, a) = row a; (n, a) = chan a
                   in \<lparr>m_chan = n, m_rank = r, m_bank = b, m_row = w, m_col = c\<rparr>
      | Scheme3 \<Rightarrow> let (w, a) = row a; (c, a) = col a; (b, a) = bank a; (r, a) = rank a; (n, a) = chan a
                   in \<lparr>m_chan = n, m_rank = r, m_bank = b, m_row = w, m_col = c\<rparr>
      | Scheme4 \<Rightarrow> let (c, a) = col a; (w, a) = row a; (b, a) = bank a; (r, a) = rank a; (n, a) = chan a
                   in \<lparr>m_chan = n, m_rank = r, m_bank = b, m_row = w, m_col = c\<rparr>
      | Scheme5 \<Rightarrow> let (b, a) = bank a; (r, a) = rank a; (c, a) = col a; (w, a) = row a; (n, a) = chan a
                   in \<lparr>m_chan = n, m_rank = r, m_bank = b, m_row = w, m_col = c\<rparr>
      | Scheme6 \<Rightarrow> let (c, a) = col a; (r, a) = rank a; (b, a) = bank a; (w, a) = row a; (n, a) = chan a
                   in \<lparr>m_chan = n, m_rank = r, m_bank = b, m_row = w, m_col = c\<rparr>
      | Scheme7 \<Rightarrow> let (n, a) = chan a; (b, a) = bank a; (r, a) = rank a; (c, a) = col a; (w, a) = row a
                   in \<lparr>m_chan = n, m_rank = r, m_bank = b, m_row = w, m_col = c\<rparr>)"

subsection \<open>The configuration that comes with the platform\<close>

text \<open>
  \<open>gemdroid.ini\<close> and \<open>ini/LPDDR3_micron_32M_8B_x8_sg15.ini\<close>, the defaults of \<open>GemDroid.py\<close>. Reading an \<open>unsigned\<close> stops
  at a decimal point. The number of ranks is what 4096 MB on four channels give.
\<close>

definition LPDDR3_gemdroid :: dram_config where
  "LPDDR3_gemdroid =
     \<lparr>NUM_CHANS = 4, NUM_RANKS = 1, NUM_BANKS = 8, NUM_ROWS = 262144, NUM_COLS = 128, DEVICE_WIDTH = 32, JEDEC_DATA_BUS_BITS = 64,
      REFRESH_PERIOD = 32000, CL = 12, AL = 0, BL = 8, tRAS = 42, tRCD = 12, tRRD = 12, tRC = 60, tRP = 12, tCCD = 4, tRTP = 7,
      tWTR = 7, tWR = 15, tRTRS = 2, tRFC = 130, tFAW = 50, tCKE = 7, tXP = 7, tCMD = 1, IDD0 = 110, IDD2P = 1, IDD2N = 20,
      IDD3N = 32, IDD4W = 320, IDD4R = 300, IDD5 = 300, TRANS_QUEUE_DEPTH = 64, CMD_QUEUE_DEPTH = 24, FRFCFS = True,
      USE_LOW_POWER = True, TOTAL_ROW_ACCESSES = 32, rowBufferPolicy = OpenPage, schedulingPolicy = RankThenBankRoundRobin,
      addressMappingScheme = Scheme7, queuingStructure = PerRankPerBank\<rparr>"

lemma LPDDR3_ranks: "ranks_of LPDDR3_gemdroid (4096 div NUM_CHANS LPDDR3_gemdroid) = NUM_RANKS LPDDR3_gemdroid"
  by (simp add: ranks_of_def megsOfStoragePerRank_def LPDDR3_gemdroid_def)

end
