(* ===== verification/DS_Queue.thy ===== *)
theory DS_Queue
  imports DS_Config
begin

section \<open>DRAMSim2: the command queue\<close>

text \<open>
  Class \<open>CommandQueue\<close> (\<open>CommandQueue.cpp\<close>): the queues of commands per rank or per bank, the choice of the
  next command to issue and the bookkeeping that limits it. The bank states belong to the controller and are an
  argument. An array indexed by rank and bank is a function, with the bounds checked where an index comes from a
  variable.
\<close>

record CommandQueue =
  queues :: "nat \<Rightarrow> nat \<Rightarrow> BusPacket list"
  nextBank :: nat
  nextRank :: nat
  nextBankPRE :: nat
  nextRankPRE :: nat
  cq_refreshRank :: nat
  cq_refreshWaiting :: bool
  tFAWCountdown :: "nat \<Rightarrow> nat list"
  rowAccessCounters :: "nat \<Rightarrow> nat \<Rightarrow> nat"
  sendAct :: bool
  totalRowBufferHitsPerBank :: "nat \<Rightarrow> nat \<Rightarrow> int"
  totalAccessesPerBank :: "nat \<Rightarrow> nat \<Rightarrow> int"
  cq_clock :: nat

definition new_CommandQueue :: "dram_config \<Rightarrow> CommandQueue result" where
  "new_CommandQueue C =
     bindE (assertE ''rowBufferPolicy==OpenPage'' (FRFCFS C \<longrightarrow> rowBufferPolicy C = OpenPage)) (\<lambda>_.
     Inr \<lparr>queues = (\<lambda>_ _. []), nextBank = 0, nextRank = 0, nextBankPRE = 0, nextRankPRE = 0, cq_refreshRank = 0,
          cq_refreshWaiting = False, tFAWCountdown = (\<lambda>_. []), rowAccessCounters = (\<lambda>_ _. 0), sendAct = True,
          totalRowBufferHitsPerBank = (\<lambda>_ _. 0), totalAccessesPerBank = (\<lambda>_ _. 0), cq_clock = 0\<rparr>)"

subsection \<open>Access to the queues\<close>

definition queue_index :: "dram_config \<Rightarrow> nat \<Rightarrow> nat" where
  "queue_index C b = (case queuingStructure C of PerRankPerBank \<Rightarrow> b | PerRank \<Rightarrow> 0)"

definition getCommandQueue :: "dram_config \<Rightarrow> nat \<Rightarrow> nat \<Rightarrow> CommandQueue \<Rightarrow> BusPacket list" where
  "getCommandQueue C r b q = queues q r (queue_index C b)"

definition setCommandQueue :: "dram_config \<Rightarrow> nat \<Rightarrow> nat \<Rightarrow> BusPacket list \<Rightarrow> CommandQueue \<Rightarrow> CommandQueue" where
  "setCommandQueue C r b ps q = q\<lparr>queues := (queues q)(r := (queues q r)(queue_index C b := ps))\<rparr>"

definition cq_enqueue :: "dram_config \<Rightarrow> BusPacket \<Rightarrow> CommandQueue \<Rightarrow> CommandQueue result" where
  "cq_enqueue C p q =
     (let ps = getCommandQueue C (bp_rank p) (bp_bank p) q @ [p] in
      bindE (assertE ''Enqueued more than allowed in command queue'' (length ps \<le> CMD_QUEUE_DEPTH C)) (\<lambda>_.
      Inr (setCommandQueue C (bp_rank p) (bp_bank p) ps q)))"

text \<open>The difference is unsigned: a queue longer than the limit would leave room for everything.\<close>

definition hasRoomFor :: "dram_config \<Rightarrow> nat \<Rightarrow> nat \<Rightarrow> nat \<Rightarrow> CommandQueue \<Rightarrow> bool" where
  "hasRoomFor C n r b q =
     (let k = length (getCommandQueue C r b q) in k > CMD_QUEUE_DEPTH C \<or> CMD_QUEUE_DEPTH C - k \<ge> n)"

definition cq_isEmpty :: "dram_config \<Rightarrow> nat \<Rightarrow> CommandQueue \<Rightarrow> bool" where
  "cq_isEmpty C r q =
     (case queuingStructure C of
        PerRank \<Rightarrow> queues q r 0 = []
      | PerRankPerBank \<Rightarrow> (\<forall>b\<in>set [0..<NUM_BANKS C]. queues q r b = []))"

definition needRefresh :: "nat \<Rightarrow> CommandQueue \<Rightarrow> CommandQueue" where
  "needRefresh r q = q\<lparr>cq_refreshWaiting := True, cq_refreshRank := r\<rparr>"

definition nextRankAndBank :: "dram_config \<Rightarrow> nat \<times> nat \<Rightarrow> nat \<times> nat" where
  "nextRankAndBank C = (\<lambda>(r, b).
     case schedulingPolicy C of
       RankThenBankRoundRobin \<Rightarrow>
         if Suc r = NUM_RANKS C then (0, if Suc b = NUM_BANKS C then 0 else Suc b) else (Suc r, b)
     | BankThenRankRoundRobin \<Rightarrow>
         if Suc b = NUM_BANKS C then (if Suc r = NUM_RANKS C then 0 else Suc r, 0) else (r, Suc b))"

subsection \<open>Which commands may go\<close>

definition isIssuable :: "dram_config \<Rightarrow> bank_states \<Rightarrow> CommandQueue \<Rightarrow> BusPacket \<Rightarrow> bool result" where
  "isIssuable C bs q p =
     (let s = bs (bp_rank p) (bp_bank p) in
      case busPacketType p of
        REFRESH \<Rightarrow> Inr False
      | ACTIVATE \<Rightarrow> Inr ((currentBankState s = Idle \<or> currentBankState s = Refreshing) \<and> cq_clock q \<ge> nextActivate s \<and>
          length (tFAWCountdown q (bp_rank p)) < 4)
      | WRITE \<Rightarrow> Inr (currentBankState s = RowActive \<and> cq_clock q \<ge> nextWrite s \<and> bp_row p = openRowAddress s \<and>
          rowAccessCounters q (bp_rank p) (bp_bank p) < TOTAL_ROW_ACCESSES C)
      | WRITE_P \<Rightarrow> Inr (currentBankState s = RowActive \<and> cq_clock q \<ge> nextWrite s \<and> bp_row p = openRowAddress s \<and>
          rowAccessCounters q (bp_rank p) (bp_bank p) < TOTAL_ROW_ACCESSES C)
      | READ_P \<Rightarrow> Inr (currentBankState s = RowActive \<and> cq_clock q \<ge> nextRead s \<and> bp_row p = openRowAddress s \<and>
          rowAccessCounters q (bp_rank p) (bp_bank p) < TOTAL_ROW_ACCESSES C)
      | READ \<Rightarrow> Inr (currentBankState s = RowActive \<and> cq_clock q \<ge> nextRead s \<and> bp_row p = openRowAddress s \<and>
          rowAccessCounters q (bp_rank p) (bp_bank p) < TOTAL_ROW_ACCESSES C)
      | PRECHARGE \<Rightarrow> Inr (currentBankState s = RowActive \<and> cq_clock q \<ge> nextPrecharge s)
      | DATA \<Rightarrow> Inl (AssertFail ''Trying to issue a crazy bus packet type''))"

text \<open>A column access waits for the earlier ones to its row.\<close>

definition checkDependency :: "BusPacket \<Rightarrow> BusPacket list \<Rightarrow> nat \<Rightarrow> bool" where
  "checkDependency p queue pos \<longleftrightarrow>
     (\<exists>x\<in>set (take pos queue). busPacketType x \<noteq> ACTIVATE \<and> bp_bank x = bp_bank p \<and> bp_row x = bp_row p)"

text \<open>The first index of a queue whose packet passes a test that may fail.\<close>

fun seekE :: "(nat \<Rightarrow> 'a \<Rightarrow> bool result) \<Rightarrow> nat \<Rightarrow> 'a list \<Rightarrow> (nat \<times> 'a) option result" where
  "seekE f i [] = Inr None"
| "seekE f i (x # xs) = bindE (f i x) (\<lambda>b. if b then Inr (Some (i, x)) else seekE f (Suc i) xs)"

definition andE :: "bool result \<Rightarrow> bool \<Rightarrow> bool result" where
  "andE m b = bindE m (\<lambda>a. Inr (a \<and> b))"

text \<open>The first command that can be issued and depends on none before it.\<close>

definition first_issuable :: "dram_config \<Rightarrow> bank_states \<Rightarrow> CommandQueue \<Rightarrow> BusPacket list \<Rightarrow> (nat \<times> BusPacket) option result" where
  "first_issuable C bs q queue = seekE (\<lambda>i p. andE (isIssuable C bs q p) (\<not> checkDependency p queue i)) 0 queue"

subsection \<open>The scheduler of GemDroid\<close>

abbreviation column_access :: "BusPacket \<Rightarrow> bool" where
  "column_access p \<equiv> is_read (busPacketType p) \<or> is_write (busPacketType p)"

definition row_hit :: "bank_states \<Rightarrow> BusPacket \<Rightarrow> bool" where
  "row_hit bs p \<longleftrightarrow> column_access p \<and> bp_row p = openRowAddress (bs (bp_rank p) (bp_bank p))"

text \<open>
  Four searches, each of which moves the index: it is the length of the queue after a search that found
  nothing, and the packet is that of the last search that did.
\<close>

definition run_search ::
  "(nat \<Rightarrow> BusPacket \<Rightarrow> bool result) \<Rightarrow> BusPacket list \<Rightarrow> nat \<times> BusPacket option \<Rightarrow> (bool \<times> nat \<times> BusPacket option) result" where
  "run_search f queue = (\<lambda>(i, pk).
     bindE (seekE f 0 queue) (\<lambda>r. Inr (case r of Some (j, p) \<Rightarrow> (True, j, Some p) | None \<Rightarrow> (False, length queue, pk))))"

definition frfcfs_search :: "dram_config \<Rightarrow> bank_states \<Rightarrow> CommandQueue \<Rightarrow> BusPacket list \<Rightarrow> (nat \<times> BusPacket option) result" where
  "frfcfs_search C bs q queue =
     (let ready = (\<lambda>i p extra. andE (isIssuable C bs q p) (extra \<and> \<not> checkDependency p queue i)) in
      bindE (run_search (\<lambda>i p. ready i p (bp_sender_type p = 0 \<and> row_hit bs p)) queue (0, None)) (\<lambda>(foundCPURBHit, x).
      bindE (if \<not> foundCPURBHit then run_search (\<lambda>i p. ready i p (bp_sender_type p = 0)) queue x else Inr (False, x)) (\<lambda>(foundCPUReq, x).
      bindE (if \<not> foundCPURBHit \<or> \<not> foundCPUReq then run_search (\<lambda>i p. ready i p (row_hit bs p)) queue x else Inr (False, x)) (\<lambda>(foundRBHit, x).
      bindE (if \<not> foundCPURBHit \<or> \<not> foundCPUReq \<or> \<not> foundRBHit then run_search (\<lambda>i p. ready i p True) queue x else Inr (False, x)) (\<lambda>(_, x).
      Inr x)))))"

definition count_row_hits :: "bank_states \<Rightarrow> BusPacket \<Rightarrow> CommandQueue \<Rightarrow> CommandQueue" where
  "count_row_hits bs p q =
     (let r = bp_rank p; b = bp_bank p; hits = totalRowBufferHitsPerBank q; accs = totalAccessesPerBank q in
      if busPacketType p = ACTIVATE \<and> bp_row p \<noteq> openRowAddress (bs r b) \<and> hits r b > 0
      then q\<lparr>totalRowBufferHitsPerBank := hits(r := (hits r)(b := hits r b - 1))\<rparr>
      else if column_access p
      then q\<lparr>totalRowBufferHitsPerBank := hits(r := (hits r)(b := hits r b + 1)),
             totalAccessesPerBank := accs(r := (accs r)(b := accs r b + 1))\<rparr>
      else q)"

text \<open>The command leaves its queue, with the activation before it if there is one.\<close>

definition take_command :: "dram_config \<Rightarrow> nat \<Rightarrow> nat \<Rightarrow> nat \<Rightarrow> BusPacket \<Rightarrow> CommandQueue \<Rightarrow> CommandQueue result" where
  "take_command C r b i p q =
     (let queue = getCommandQueue C r b q in
      bindE (boundsE ''queue'' (i < length queue)) (\<lambda>_.
      Inr (if i > 0 \<and> busPacketType (queue ! (i - 1)) = ACTIVATE then
             let n = rowAccessCounters q in
             setCommandQueue C r b (take (i - 1) queue @ drop (i + 1) queue)
               (q\<lparr>rowAccessCounters := n(bp_rank p := (n (bp_rank p))(bp_bank p := n (bp_rank p) (bp_bank p) + 1))\<rparr>)
           else setCommandQueue C r b (take i queue @ drop (i + 1) queue) q)))"

definition open_step :: "dram_config \<Rightarrow> bank_states \<Rightarrow> CommandQueue \<Rightarrow> nat \<times> nat \<Rightarrow> (BusPacket \<times> CommandQueue) option result" where
  "open_step C bs q = (\<lambda>(r, b).
     bindE (boundsE ''queues'' (r < NUM_RANKS C \<and> b < NUM_BANKS C)) (\<lambda>_.
     let queue = getCommandQueue C r b q in
     if queue \<noteq> [] \<and> \<not> (r = cq_refreshRank q \<and> cq_refreshWaiting q) then
       if FRFCFS C then
         bindE (frfcfs_search C bs q queue) (\<lambda>(i, pk).
         case pk of None \<Rightarrow> Inr None
         | Some p \<Rightarrow> bindE (take_command C r b i p (count_row_hits bs p q)) (\<lambda>q. Inr (Some (p, q))))
       else
         bindE (first_issuable C bs q queue) (\<lambda>x.
         case x of None \<Rightarrow> Inr None
         | Some (i, p) \<Rightarrow> bindE (take_command C r b i p q) (\<lambda>q. Inr (Some (p, q))))
     else Inr None))"

subsection \<open>Closed rows\<close>

text \<open>With one queue per rank a column access waits for its activation; with one per bank only the front can go.\<close>

definition close_step :: "dram_config \<Rightarrow> bank_states \<Rightarrow> CommandQueue \<Rightarrow> nat \<times> nat \<Rightarrow> (BusPacket \<times> CommandQueue) option result" where
  "close_step C bs q = (\<lambda>(r, b).
     bindE (boundsE ''queues'' (r < NUM_RANKS C \<and> b < NUM_BANKS C)) (\<lambda>_.
     let queue = getCommandQueue C r b q in
     if queue \<noteq> [] \<and> \<not> (r = cq_refreshRank q \<and> cq_refreshWaiting q) then
       bindE (if queuingStructure C = PerRank then
                seekE (\<lambda>i p. andE (isIssuable C bs q p)
                  (\<not> (i > 0 \<and> busPacketType (queue ! (i - 1)) = ACTIVATE \<and> physicalAddress (queue ! (i - 1)) = physicalAddress p))) 0 queue
              else bindE (isIssuable C bs q (hd queue)) (\<lambda>ok. Inr (if ok then Some (0, hd queue) else None))) (\<lambda>x.
       Inr (case x of None \<Rightarrow> None | Some (i, p) \<Rightarrow> Some (p, setCommandQueue C r b (take i queue @ drop (i + 1) queue) q)))
     else Inr None))"

subsection \<open>Refresh\<close>

text \<open>What keeps the waiting rank from being refreshed: an open bank, or one that may not be activated yet.\<close>

definition refresh_obstacle :: "dram_config \<Rightarrow> bank_states \<Rightarrow> CommandQueue \<Rightarrow> nat option" where
  "refresh_obstacle C bs q =
     find (\<lambda>b. let s = bs (cq_refreshRank q) b in currentBankState s = RowActive \<or> nextActivate s > cq_clock q) [0..<NUM_BANKS C]"

text \<open>The first command in the queue that goes to the open row of bank \<open>b\<close>.\<close>

definition to_open_row :: "bank_states \<Rightarrow> nat \<Rightarrow> nat \<Rightarrow> BusPacket list \<Rightarrow> (nat \<times> BusPacket) option" where
  "to_open_row bs r b queue =
     (case first_index (\<lambda>p. bp_row p = openRowAddress (bs r b) \<and> bp_bank p = b) queue of
        None \<Rightarrow> None | Some j \<Rightarrow> Some (j, queue ! j))"

definition send_refresh :: "CommandQueue \<Rightarrow> BusPacket \<times> CommandQueue" where
  "send_refresh q =
     (new_BusPacket REFRESH 0 0 0 (cq_refreshRank q) 0, q\<lparr>cq_refreshRank := 2 ^ 32 - 1, cq_refreshWaiting := False\<rparr>)"

definition drop_command :: "dram_config \<Rightarrow> nat \<Rightarrow> nat \<Rightarrow> nat \<Rightarrow> CommandQueue \<Rightarrow> CommandQueue" where
  "drop_command C r b j q = (let queue = getCommandQueue C r b q in setCommandQueue C r b (take j queue @ drop (j + 1) queue) q)"

definition clear_row_accesses :: "nat \<Rightarrow> nat \<Rightarrow> CommandQueue \<Rightarrow> CommandQueue" where
  "clear_row_accesses r b q = (let n = rowAccessCounters q in q\<lparr>rowAccessCounters := n(r := (n r)(b := 0))\<rparr>)"

definition close_refresh :: "dram_config \<Rightarrow> bank_states \<Rightarrow> CommandQueue \<Rightarrow> (BusPacket \<times> CommandQueue) option result" where
  "close_refresh C bs q =
     (if cq_refreshWaiting q then
        let r = cq_refreshRank q in
        bindE (boundsE ''bankStates'' (r < NUM_RANKS C)) (\<lambda>_.
        case refresh_obstacle C bs q of
          None \<Rightarrow> Inr (if currentBankState (bs r 0) \<noteq> PowerDown then Some (send_refresh q) else None)
        | Some b \<Rightarrow>
            if currentBankState (bs r b) = RowActive then
              case to_open_row bs r b (getCommandQueue C r b q) of
                None \<Rightarrow> Inr None
              | Some (j, p) \<Rightarrow>
                  if busPacketType p \<noteq> ACTIVATE then
                    bindE (isIssuable C bs q p) (\<lambda>ok. Inr (if ok then Some (p, drop_command C r b j q) else None))
                  else Inr None
            else Inr None)
      else Inr None)"

text \<open>With open rows the bank is closed when no column access to its row is next.\<close>

definition open_refresh :: "dram_config \<Rightarrow> bank_states \<Rightarrow> CommandQueue \<Rightarrow> (BusPacket \<times> CommandQueue) option result" where
  "open_refresh C bs q =
     (if cq_refreshWaiting q then
        let r = cq_refreshRank q in
        bindE (boundsE ''bankStates'' (r < NUM_RANKS C)) (\<lambda>_.
        case refresh_obstacle C bs q of
          None \<Rightarrow> Inr (if currentBankState (bs r 0) \<noteq> PowerDown then Some (send_refresh q) else None)
        | Some b \<Rightarrow>
            if currentBankState (bs r b) = RowActive then
              let x = to_open_row bs r b (getCommandQueue C r b q);
                  closeRow = (case x of None \<Rightarrow> True | Some (j, p) \<Rightarrow> busPacketType p = ACTIVATE) in
              if closeRow then
                Inr (if cq_clock q \<ge> nextPrecharge (bs r b)
                     then Some (new_BusPacket PRECHARGE 0 0 0 r b, clear_row_accesses r b q) else None)
              else (case x of None \<Rightarrow> Inr None
                    | Some (j, p) \<Rightarrow> bindE (isIssuable C bs q p) (\<lambda>ok. Inr (if ok then Some (p, drop_command C r b j q) else None)))
            else Inr None)
      else Inr None)"

subsection \<open>Taking a command\<close>

text \<open>
  The \<open>do\<close> loops over ranks and banks: \<open>body\<close> at each position from \<open>p\<close> on, until it finds something or the loop is
  back at \<open>start\<close>. There are not more positions than ranks times banks.
\<close>

fun round_robin :: "nat \<Rightarrow> ('p \<Rightarrow> 'p) \<Rightarrow> 'p \<Rightarrow> ('p \<Rightarrow> 'a option result) \<Rightarrow> 'p \<Rightarrow> ('a option \<times> 'p) result" where
  "round_robin 0 nxt start body p = Inl (AssertFail ''round robin'')"
| "round_robin (Suc n) nxt start body p =
     bindE (body p) (\<lambda>x. case x of Some y \<Rightarrow> Inr (Some y, p)
       | None \<Rightarrow> let p = nxt p in if p = start then Inr (None, p) else round_robin n nxt start body p)"

definition next_queue :: "dram_config \<Rightarrow> nat \<times> nat \<Rightarrow> nat \<times> nat" where
  "next_queue C = (\<lambda>(r, b). case queuingStructure C of
     PerRank \<Rightarrow> ((r + 1) mod NUM_RANKS C, b) | PerRankPerBank \<Rightarrow> nextRankAndBank C (r, b))"

abbreviation positions :: "dram_config \<Rightarrow> nat" where "positions C \<equiv> NUM_RANKS C * NUM_BANKS C"

definition over_queues ::
  "dram_config \<Rightarrow> (CommandQueue \<Rightarrow> nat \<times> nat \<Rightarrow> (BusPacket \<times> CommandQueue) option result) \<Rightarrow> CommandQueue \<Rightarrow>
   (BusPacket option \<times> CommandQueue) result" where
  "over_queues C step q =
     (let start = (nextRank q, nextBank q) in
      bindE (round_robin (positions C) (next_queue C) start (step q) start) (\<lambda>(x, (r, b)).
      Inr (case x of Some (p, q) \<Rightarrow> (Some p, q\<lparr>nextRank := r, nextBank := b\<rparr>) | None \<Rightarrow> (None, q\<lparr>nextRank := r, nextBank := b\<rparr>))))"

text \<open>Nothing could be issued: an open bank that no command waits for is closed.\<close>

definition close_bank :: "dram_config \<Rightarrow> bank_states \<Rightarrow> CommandQueue \<Rightarrow> (BusPacket option \<times> CommandQueue) result" where
  "close_bank C bs q =
     (let start = (nextRankPRE q, nextBankPRE q);
          idle = (\<lambda>(r, b).
            bindE (boundsE ''queues'' (r < NUM_RANKS C \<and> b < NUM_BANKS C)) (\<lambda>_.
            let s = bs r b; found = (\<exists>p\<in>set (getCommandQueue C r b q). bp_bank p = b \<and> bp_row p = openRowAddress s) in
            Inr (if currentBankState s = RowActive \<and> (\<not> found \<or> rowAccessCounters q r b = TOTAL_ROW_ACCESSES C) \<and> cq_clock q \<ge> nextPrecharge s
                 then Some (r, b) else None))) in
      bindE (round_robin (positions C) (nextRankAndBank C) start idle start) (\<lambda>(x, (r, b)).
      let q = q\<lparr>nextRankPRE := r, nextBankPRE := b\<rparr> in
      Inr (case x of None \<Rightarrow> (None, q)
           | Some (r, b) \<Rightarrow> (Some (new_BusPacket PRECHARGE 0 0 0 r b), clear_row_accesses r b q))))"

definition tick_tFAW :: "dram_config \<Rightarrow> CommandQueue \<Rightarrow> CommandQueue" where
  "tick_tFAW C q =
     q\<lparr>tFAWCountdown := (\<lambda>r. if r < NUM_RANKS C then
         let ns = map dec32 (tFAWCountdown q r) in (case ns of [] \<Rightarrow> [] | n # ns' \<Rightarrow> if n = 0 then ns' else ns)
       else tFAWCountdown q r)\<rparr>"

definition after_pop :: "dram_config \<Rightarrow> BusPacket \<Rightarrow> CommandQueue \<Rightarrow> CommandQueue" where
  "after_pop C p q =
     (let q = (if AL C > 0 \<and> sendAct q then q\<lparr>sendAct := False\<rparr>
               else let (r, b) = nextRankAndBank C (nextRank q, nextBank q) in q\<lparr>sendAct := True, nextRank := r, nextBank := b\<rparr>) in
      if busPacketType p = ACTIVATE
      then q\<lparr>tFAWCountdown := (tFAWCountdown q)(bp_rank p := tFAWCountdown q (bp_rank p) @ [tFAW C])\<rparr> else q)"

definition cq_pop :: "dram_config \<Rightarrow> bank_states \<Rightarrow> CommandQueue \<Rightarrow> (BusPacket option \<times> CommandQueue) result" where
  "cq_pop C bs q =
     (let q = tick_tFAW C q in
      bindE (case rowBufferPolicy C of
               ClosePage \<Rightarrow>
                 bindE (close_refresh C bs q) (\<lambda>x.
                 case x of Some (p, q) \<Rightarrow> Inr (Some p, q) | None \<Rightarrow> over_queues C (close_step C bs) q)
             | OpenPage \<Rightarrow>
                 bindE (open_refresh C bs q) (\<lambda>x.
                 case x of Some (p, q) \<Rightarrow> Inr (Some p, q)
                 | None \<Rightarrow> bindE (over_queues C (open_step C bs) q) (\<lambda>(pk, q).
                     case pk of Some p \<Rightarrow> Inr (Some p, q) | None \<Rightarrow> close_bank C bs q))) (\<lambda>(pk, q).
      Inr (case pk of None \<Rightarrow> (None, q) | Some p \<Rightarrow> (Some p, after_pop C p q))))"

end
