(* ===== verification/DS_Pop.thy ===== *)
theory DS_Pop
  imports DS_Queue
begin

section \<open>DRAMSim2: what the command queue gives out\<close>

text \<open>
  Whatever the policy, \<open>cq_pop\<close> gives out one of three commands: one that waits in a queue and may be issued, the closing
  of an open bank, or a refresh of a rank all of whose banks are closed (\<open>pops\<close>). It never loses or repeats a column
  access. And the scheduler that GemDroid added chooses as the plain one does.
\<close>

subsection \<open>Searches\<close>

lemma seekE_SomeD:
  assumes "seekE f k xs = Inr (Some (i, x))"
  shows "k \<le> i \<and> i < k + length xs \<and> xs ! (i - k) = x \<and> f i x = Inr True"
  using assms
proof (induction f k xs rule: seekE.induct)
  case (2 f k y ys)
  then obtain b where b: "f k y = Inr b" by auto
  show ?case
  proof (cases b)
    case False
    with 2(2) b have "seekE f (Suc k) ys = Inr (Some (i, x))" by simp
    from 2(1) [OF b False this] show ?thesis by (auto simp: Suc_diff_Suc [symmetric] nth_Cons split: nat.split)
  qed (use 2(2) b in simp)
qed simp

lemma seekE_total:
  assumes "\<And>i x. x \<in> set xs \<Longrightarrow> f i x = Inr (P i x)"
  shows "\<exists>r. seekE f k xs = Inr r \<and> (r = None \<longleftrightarrow> (\<forall>j<length xs. \<not> P (k + j) (xs ! j)))"
  using assms
proof (induction f k xs rule: seekE.induct)
  case (2 f k y ys)
  from 2(2) [of y k] have y: "f k y = Inr (P k y)" by simp
  show ?case
  proof (cases "P k y")
    case False
    from 2(1) [OF y] False 2(2) obtain r where r: "seekE f (Suc k) ys = Inr r" "r = None \<longleftrightarrow> (\<forall>j<length ys. \<not> P (Suc k + j) (ys ! j))" by auto
    have "(\<forall>j<length (y # ys). \<not> P (k + j) ((y # ys) ! j)) \<longleftrightarrow> (\<forall>j<length ys. \<not> P (Suc k + j) (ys ! j))"
      using False by (auto simp: All_less_Suc2)
    then show ?thesis using r y False by simp
  qed (use y in auto)
qed simp

lemma andE_True: "andE m b = Inr True \<longleftrightarrow> m = Inr True \<and> b"
  by (cases m) (auto simp: andE_def)

lemma round_robin_Some:
  assumes "round_robin n nxt start body p = Inr (Some y, p')"
  shows "body p' = Inr (Some y)"
  using assms by (induction n arbitrary: p) (auto simp: Let_def split: option.splits if_splits)

lemma find_None: "find P xs = None \<longleftrightarrow> (\<forall>x\<in>set xs. \<not> P x)"
  by (auto simp: find_None_iff)

subsection \<open>The commands\<close>

inductive pops :: "dram_config \<Rightarrow> bank_states \<Rightarrow> CommandQueue \<Rightarrow> BusPacket \<Rightarrow> (nat \<Rightarrow> nat \<Rightarrow> BusPacket list) \<Rightarrow> bool"
  for C bs q where
  queued: "pops C bs q (ps ! i) ((queues q)(r := (queues q r)(queue_index C b := take k ps @ drop (i + 1) ps)))"
    if "r < NUM_RANKS C" "b < NUM_BANKS C" "ps = getCommandQueue C r b q" "i < length ps"
      "isIssuable C bs q (ps ! i) = Inr True" "k = i \<or> Suc k = i \<and> busPacketType (ps ! k) = ACTIVATE"
| precharge: "pops C bs q (new_BusPacket PRECHARGE 0 0 0 r b) (queues q)"
    if "r < NUM_RANKS C" "b < NUM_BANKS C" "currentBankState (bs r b) = RowActive" "nextPrecharge (bs r b) \<le> cq_clock q"
| refresh: "pops C bs q (new_BusPacket REFRESH 0 0 0 r 0) (queues q)"
    if "r < NUM_RANKS C" "\<And>b. b < NUM_BANKS C \<Longrightarrow> currentBankState (bs r b) \<noteq> RowActive \<and> nextActivate (bs r b) \<le> cq_clock q"
      "currentBankState (bs r 0) \<noteq> PowerDown"

lemma take_command_pops:
  assumes "take_command C r b i p q' = Inr q''" "queues q' = queues q" "r < NUM_RANKS C" "b < NUM_BANKS C"
    and "getCommandQueue C r b q ! i = p" "isIssuable C bs q p = Inr True"
  shows "pops C bs q p (queues q'')" "cq_clock q'' = cq_clock q'"
proof -
  let ?ps = "getCommandQueue C r b q"
  have g: "getCommandQueue C r b q' = ?ps" using assms(2) by (simp add: getCommandQueue_def)
  have i: "i < length ?ps" using assms(1) by (cases "i < length ?ps") (auto simp: take_command_def g Let_def)
  obtain k where k: "k = i \<or> Suc k = i \<and> busPacketType (?ps ! k) = ACTIVATE"
    "queues q'' = (queues q)(r := (queues q r)(queue_index C b := take k ?ps @ drop (i + 1) ?ps))"
    using assms(1,2) i
    by (cases "0 < i \<and> busPacketType (?ps ! (i - 1)) = ACTIVATE")
      (auto simp: take_command_def g Let_def setCommandQueue_def intro: that [of "i - 1"] that [of i])
  from pops.queued [OF assms(3,4) refl i _ k(1), of bs] assms(5,6) show "pops C bs q p (queues q'')" by (simp add: k(2))
  show "cq_clock q'' = cq_clock q'" using assms(1) i by (auto simp: take_command_def g Let_def setCommandQueue_def split: if_splits)
qed

lemma first_issuable_SomeD:
  assumes "first_issuable C bs q ps = Inr (Some (i, p))"
  shows "i < length ps" "ps ! i = p" "isIssuable C bs q p = Inr True"
  using seekE_SomeD [OF assms [unfolded first_issuable_def]] by (auto simp: andE_True)


subsection \<open>The scheduler of GemDroid\<close>

lemma seekE_restrict:
  assumes "seekE f k xs = Inr None" "\<And>i x. f i x = Inr False \<Longrightarrow> g i x = Inr False"
  shows "seekE g k xs = Inr None"
  using assms
proof (induction f k xs rule: seekE.induct)
  case (2 f k x xs)
  from 2(2) have f: "f k x = Inr False" by (cases "f k x") (auto split: if_splits)
  from 2(1) [OF f] 2(2,3) f show ?case by simp
qed simp

text \<open>
  The fourth search always runs: the third flag cannot be set together with the second, which stays unset when the first
  is set. So its result is the one that counts.
\<close>

lemma frfcfs_search_first:
  assumes "frfcfs_search C bs q ps = Inr (i, pk)"
  shows "first_issuable C bs q ps = Inr (map_option (\<lambda>p. (i, p)) pk)" "pk = None \<Longrightarrow> i = length ps"
proof -
  let ?f = "\<lambda>extra i p. andE (isIssuable C bs q p) (extra p \<and> \<not> checkDependency p ps i)"
  let ?F = "?f (\<lambda>_. True)"
  have F: "first_issuable C bs q ps = seekE ?F 0 ps" by (simp add: first_issuable_def)
  have weak: "seekE (?f e) 0 ps = Inr None" if "seekE ?F 0 ps = Inr None" for e
    by (rule seekE_restrict [OF that]) (auto simp: andE_def)
  note weak' = weak [of "\<lambda>p. bp_sender_type p = 0 \<and> row_hit bs p", simplified]
  from assms obtain x b where x: "run_search ?F ps x = Inr (b, i, pk)"
    and pk: "seekE ?F 0 ps = Inr None \<Longrightarrow> snd x = None"
    by (auto simp: frfcfs_search_def Let_def run_search_def weak weak' split: prod.splits if_splits option.splits)
  show "first_issuable C bs q ps = Inr (map_option (\<lambda>p. (i, p)) pk)" "pk = None \<Longrightarrow> i = length ps"
    using x pk by (cases x; auto simp: F run_search_def split: option.splits)+
qed


lemma seekE_returns: "(\<And>i x. x \<in> set xs \<Longrightarrow> \<exists>b. f i x = Inr b) \<Longrightarrow> \<exists>r. seekE f k xs = Inr r"
proof (induction f k xs rule: seekE.induct)
  case (2 f k x xs)
  from 2(2) [of x k] obtain b where b: "f k x = Inr b" by auto
  show ?case
  proof (cases b)
    case False
    from 2(1) [OF b False] 2(2) show ?thesis by (simp add: b False)
  qed (simp add: b)
qed simp

lemma run_search_returns: "\<exists>r. seekE f 0 ps = Inr r \<Longrightarrow> \<exists>y. run_search f ps x = Inr y"
  by (cases x) (auto simp: run_search_def split: option.split)

lemma frfcfs_search_returns:
  assumes "\<And>p. p \<in> set ps \<Longrightarrow> busPacketType p \<noteq> DATA"
  shows "\<exists>i pk. frfcfs_search C bs q ps = Inr (i, pk)"
proof -
  have "\<exists>b. isIssuable C bs q p = Inr b" if "p \<in> set ps" for p
    using assms [OF that] by (cases "busPacketType p") (auto simp: isIssuable_def Let_def)
  then have "\<exists>r. seekE (\<lambda>i p. andE (isIssuable C bs q p) (e i p)) 0 ps = Inr r" for e
    by (intro seekE_returns) (fastforce simp: andE_def)
  then have "\<exists>y. run_search (\<lambda>i p. andE (isIssuable C bs q p) (e i p)) ps x = Inr y" for e x
    by (intro run_search_returns)
  moreover define R where "R = (\<lambda>e x. projr (run_search (\<lambda>i p. andE (isIssuable C bs q p) (e i p)) ps x))"
  ultimately have "run_search (\<lambda>i p. andE (isIssuable C bs q p) (e i p)) ps x = Inr (R e x)" for e x
    by (metis sum.sel(2))
  then show ?thesis by (simp add: frfcfs_search_def Let_def split: prod.split)
qed

abbreviation no_frfcfs :: "dram_config \<Rightarrow> dram_config" where "no_frfcfs C \<equiv> C\<lparr>FRFCFS := False\<rparr>"

definition no_hits :: "CommandQueue \<Rightarrow> CommandQueue" where
  "no_hits q = q\<lparr>totalRowBufferHitsPerBank := (\<lambda>_ _. 0), totalAccessesPerBank := (\<lambda>_ _. 0)\<rparr>"


lemma no_frfcfs_simps [simp]:
  "queue_index (no_frfcfs C) = queue_index C" "getCommandQueue (no_frfcfs C) = getCommandQueue C"
  "isIssuable (no_frfcfs C) = isIssuable C" "first_issuable (no_frfcfs C) = first_issuable C"
  "setCommandQueue (no_frfcfs C) = setCommandQueue C" "take_command (no_frfcfs C) = take_command C"
  "nextRankAndBank (no_frfcfs C) = nextRankAndBank C" "next_queue (no_frfcfs C) = next_queue C"
  "close_bank (no_frfcfs C) = close_bank C" "open_refresh (no_frfcfs C) = open_refresh C"
  "tick_tFAW (no_frfcfs C) = tick_tFAW C" "after_pop (no_frfcfs C) = after_pop C"
proof -
  have f: "TOTAL_ROW_ACCESSES (no_frfcfs C) = TOTAL_ROW_ACCESSES C" "NUM_RANKS (no_frfcfs C) = NUM_RANKS C"
    "NUM_BANKS (no_frfcfs C) = NUM_BANKS C" "AL (no_frfcfs C) = AL C" "tFAW (no_frfcfs C) = tFAW C"
    "schedulingPolicy (no_frfcfs C) = schedulingPolicy C" "queuingStructure (no_frfcfs C) = queuingStructure C"
    by simp_all
  show i: "queue_index (no_frfcfs C) = queue_index C" unfolding queue_index_def fun_eq_iff f by simp
  show g: "getCommandQueue (no_frfcfs C) = getCommandQueue C" unfolding getCommandQueue_def fun_eq_iff i by simp
  show s: "setCommandQueue (no_frfcfs C) = setCommandQueue C" unfolding setCommandQueue_def fun_eq_iff i by simp
  show c: "isIssuable (no_frfcfs C) = isIssuable C" unfolding isIssuable_def fun_eq_iff f by simp
  show "first_issuable (no_frfcfs C) = first_issuable C" unfolding first_issuable_def fun_eq_iff c by simp
  show "take_command (no_frfcfs C) = take_command C" unfolding take_command_def fun_eq_iff g s by simp
  show n: "nextRankAndBank (no_frfcfs C) = nextRankAndBank C" unfolding nextRankAndBank_def f by simp
  show "next_queue (no_frfcfs C) = next_queue C" unfolding next_queue_def n f by simp
  show "close_bank (no_frfcfs C) = close_bank C" unfolding close_bank_def fun_eq_iff g n f by simp
  show "open_refresh (no_frfcfs C) = open_refresh C"
    unfolding open_refresh_def refresh_obstacle_def drop_command_def fun_eq_iff g s c f by simp
  show "tick_tFAW (no_frfcfs C) = tick_tFAW C" unfolding tick_tFAW_def fun_eq_iff f by simp
  show "after_pop (no_frfcfs C) = after_pop C" unfolding after_pop_def fun_eq_iff n f by simp
qed


abbreviation mapE :: "('a \<Rightarrow> 'b) \<Rightarrow> 'a result \<Rightarrow> 'b result" where "mapE f m \<equiv> bindE m (\<lambda>x. Inr (f x))"

lemma round_robin_mapE:
  "mapE (map_prod (map_option h) (\<lambda>p. p)) (round_robin n nxt start body p) =
   round_robin n nxt start (\<lambda>p. mapE (map_option h) (body p)) p"
proof (induction n arbitrary: p)
  case (Suc n)
  show ?case
  proof (cases "body p")
    case (Inr x)
    then show ?thesis using Suc [of "nxt p"] by (cases x) (simp_all add: Let_def)
  qed simp
qed simp

lemma take_command_hits:
  "mapE no_hits (take_command C r b i p (count_row_hits bs p q)) = mapE no_hits (take_command C r b i p q)"
  by (simp add: take_command_def count_row_hits_def getCommandQueue_def setCommandQueue_def no_hits_def Let_def boundsE_def)

lemma open_step_no_frfcfs:
  assumes "\<And>r b p. p \<in> set (queues q r b) \<Longrightarrow> busPacketType p \<noteq> DATA"
  shows "mapE (map_option (map_prod (\<lambda>p. p) no_hits)) (open_step C bs q x) =
         mapE (map_option (map_prod (\<lambda>p. p) no_hits)) (open_step (no_frfcfs C) bs q x)"
proof (cases x)
  case (Pair r b)
  let ?ps = "getCommandQueue C r b q"
  obtain i pk where s: "frfcfs_search C bs q ?ps = Inr (i, pk)"
    using frfcfs_search_returns [of ?ps C bs q] assms by (auto simp: getCommandQueue_def)
  note f = frfcfs_search_first(1) [OF s]
  show ?thesis
    using take_command_hits [of C r b i "the pk" bs q] s f
    by (cases pk) (auto simp: Pair open_step_def Let_def bindE_def split: sum.splits)
qed


lemma no_hits_simps [simp]:
  "queues (no_hits q) = queues q" "cq_clock (no_hits q) = cq_clock q" "rowAccessCounters (no_hits q) = rowAccessCounters q"
  "nextRankPRE (no_hits q) = nextRankPRE q" "nextBankPRE (no_hits q) = nextBankPRE q"
  "no_hits (q\<lparr>nextRank := r, nextBank := b\<rparr>) = (no_hits q)\<lparr>nextRank := r, nextBank := b\<rparr>"
  "no_hits (after_pop C p q) = after_pop C p (no_hits q)"
  by (simp_all add: no_hits_def after_pop_def Let_def split: prod.split)

lemma over_queues_no_frfcfs:
  assumes "\<And>r b p. p \<in> set (queues q r b) \<Longrightarrow> busPacketType p \<noteq> DATA"
  shows "mapE (map_prod (\<lambda>p. p) no_hits) (over_queues C (open_step C bs) q) =
         mapE (map_prod (\<lambda>p. p) no_hits) (over_queues (no_frfcfs C) (open_step (no_frfcfs C) bs) q)"
proof -
  let ?h = "map_prod (\<lambda>p. p) no_hits"
  let ?out = "\<lambda>(x, r, b). case x of Some (p, q) \<Rightarrow> (Some p, q\<lparr>nextRank := r, nextBank := b\<rparr>)
    | None \<Rightarrow> (None, (no_hits q)\<lparr>nextRank := r, nextBank := b\<rparr>)"
  have eq: "mapE ?h (over_queues D step q) =
    mapE ?out (mapE (map_prod (map_option ?h) (\<lambda>p. p))
      (round_robin (positions D) (next_queue D) (nextRank q, nextBank q) (step q) (nextRank q, nextBank q)))" for D step
    by (auto simp: over_queues_def Let_def intro!: bindE_cong split: option.split)
  have "(\<lambda>x. mapE (map_option ?h) (open_step C bs q x)) = (\<lambda>x. mapE (map_option ?h) (open_step (no_frfcfs C) bs q x))"
    by (rule ext) (rule open_step_no_frfcfs [OF assms])
  then show ?thesis by (simp add: eq round_robin_mapE)
qed

lemma close_bank_no_hits: "mapE (map_prod (\<lambda>p. p) no_hits) (close_bank C bs q) = close_bank C bs (no_hits q)"
  by (auto simp: close_bank_def getCommandQueue_def clear_row_accesses_def Let_def no_hits_def intro!: bindE_cong split: option.split)


lemma tick_tFAW_simps [simp]: "queues (tick_tFAW C q) = queues q" "cq_clock (tick_tFAW C q) = cq_clock q"
  by (simp_all add: tick_tFAW_def)

text \<open>C13: the scheduler that GemDroid added (\<open>FRFCFS\<close>: row hits of a CPU first, then its other requests, then row hits) gives out
  the very command that the plain scheduler of DRAMSim2 gives out, in every state, and leaves the same queue behind, but for the
  two counters of row hits: the last of its four searches, which takes the first command that can go, always runs and overrides
  the others.
\<close>

theorem frfcfs_same_as_plain:
  assumes "rowBufferPolicy C = OpenPage" "\<And>r b p. p \<in> set (queues q r b) \<Longrightarrow> busPacketType p \<noteq> DATA"
  shows "mapE (map_prod (\<lambda>p. p) no_hits) (cq_pop C bs q) = mapE (map_prod (\<lambda>p. p) no_hits) (cq_pop (no_frfcfs C) bs q)"
proof -
  let ?h = "map_prod (\<lambda>p. p) no_hits"
  let ?q = "tick_tFAW C q"
  let ?K = "\<lambda>(pk, q). case pk of Some p \<Rightarrow> Inr (Some p, after_pop C p q)
    | None \<Rightarrow> mapE (\<lambda>(pk, q). case pk of None \<Rightarrow> (None, q) | Some p \<Rightarrow> (Some p, after_pop C p q)) (close_bank C bs q)"
  have K: "mapE ?h (?K x) = ?K (?h x)" for x
    by (cases x; cases "fst x") (auto simp: close_bank_no_hits [symmetric] intro!: bindE_cong split: option.split)
  have "mapE ?h (over_queues C (open_step C bs) ?q) = mapE ?h (over_queues (no_frfcfs C) (open_step (no_frfcfs C) bs) ?q)"
    by (rule over_queues_no_frfcfs) (simp add: assms(2))
  then have R: "bindE (over_queues C (open_step C bs) ?q) (\<lambda>x. mapE ?h (?K x)) =
      bindE (over_queues (no_frfcfs C) (open_step (no_frfcfs C) bs) ?q) (\<lambda>x. mapE ?h (?K x))"
    unfolding K by (auto simp: bindE_def split: sum.splits option.splits)
  have pop: "mapE ?h (cq_pop D bs q) = bindE (open_refresh C bs ?q) (\<lambda>x. case x of Some (p, q) \<Rightarrow> Inr (?h (Some p, after_pop C p q))
      | None \<Rightarrow> bindE (over_queues D (open_step D bs) ?q) (\<lambda>x. mapE ?h (?K x)))" if "D = C \<or> D = no_frfcfs C" for D
    using that assms(1) by (auto simp: cq_pop_def Let_def bindE_def split: option.split sum.split)
  show ?thesis unfolding pop [OF disjI1 [OF refl]] pop [OF disjI2 [OF refl]] R ..
qed


text \<open>Two requests of the display wait, and one of a core behind them.\<close>

definition three_requests :: CommandQueue where
  "three_requests = \<lparr>queues = (\<lambda>r b. if r = 0 \<and> b = 0 then
       concat (map (\<lambda>(row, t). map (\<lambda>k. bp_setSender t 0 (new_BusPacket k 64 0 row 0 0)) [ACTIVATE, READ]) [(1, 2), (1, 2), (3, 0)]) else []),
     nextBank = 0, nextRank = 0, nextBankPRE = 0, nextRankPRE = 0, cq_refreshRank = 0, cq_refreshWaiting = False,
     tFAWCountdown = (\<lambda>_. []), rowAccessCounters = (\<lambda>_ _. 0), sendAct = True, totalRowBufferHitsPerBank = (\<lambda>_ _. 0),
     totalAccessesPerBank = (\<lambda>_ _. 0), cq_clock = 100\<rparr>"

theorem frfcfs_same_as_plain_witness:
  "rowBufferPolicy LPDDR3_gemdroid = OpenPage \<and>
   mapE (map_prod (\<lambda>p. p) no_hits) (cq_pop LPDDR3_gemdroid (\<lambda>_ _. new_BankState) three_requests) =
   mapE (map_prod (\<lambda>p. p) no_hits) (cq_pop (no_frfcfs LPDDR3_gemdroid) (\<lambda>_ _. new_BankState) three_requests)"
proof -
  have "rowBufferPolicy LPDDR3_gemdroid = OpenPage" by (simp add: LPDDR3_gemdroid_def)
  moreover have "busPacketType p \<noteq> DATA" if "p \<in> set (queues three_requests r b)" for r b p
    using that by (auto simp: three_requests_def bp_setSender_def new_BusPacket_def split: if_splits)
  ultimately show ?thesis using frfcfs_same_as_plain [of LPDDR3_gemdroid three_requests] by simp
qed


subsection \<open>Every command comes from a queue or closes a bank\<close>

lemma count_row_hits_simps [simp]: "queues (count_row_hits bs p q) = queues q" "cq_clock (count_row_hits bs p q) = cq_clock q"
  by (simp_all add: count_row_hits_def Let_def)

lemma boundsE_Inr [simp]: "boundsE x c = Inr u \<longleftrightarrow> c" by (auto simp: boundsE_def)

lemma open_step_pops:
  assumes "open_step C bs q x = Inr (Some (p, q'))"
  shows "pops C bs q p (queues q') \<and> cq_clock q' = cq_clock q"
proof -
  obtain r b where x: "x = (r, b)" by (cases x)
  let ?ps = "getCommandQueue C r b q"
  from assms have rb: "r < NUM_RANKS C" "b < NUM_BANKS C" by (auto simp: open_step_def x)
  from assms obtain i q1 where t: "take_command C r b i p q1 = Inr q'" "queues q1 = queues q" "cq_clock q1 = cq_clock q"
    and f: "first_issuable C bs q ?ps = Inr (Some (i, p))"
    by (auto simp: open_step_def x Let_def dest!: frfcfs_search_first(1) split: if_splits option.splits)
  show ?thesis using take_command_pops [OF t(1,2) rb, of bs] first_issuable_SomeD [OF f] t(3) by simp
qed

lemma pops_drop:
  assumes "r < NUM_RANKS C" "b < NUM_BANKS C" "i < length (getCommandQueue C r b q)" "getCommandQueue C r b q ! i = p"
    "isIssuable C bs q p = Inr True"
  shows "pops C bs q p (queues (setCommandQueue C r b (take i (getCommandQueue C r b q) @ drop (i + 1) (getCommandQueue C r b q)) q))"
  using pops.queued [OF assms(1,2) refl assms(3), of bs i] assms(4,5) by (simp add: setCommandQueue_def)

lemma setCommandQueue_clock [simp]: "cq_clock (setCommandQueue C r b ps q) = cq_clock q"
  by (simp add: setCommandQueue_def)

lemma close_step_pops:
  assumes "close_step C bs q x = Inr (Some (p, q'))"
  shows "pops C bs q p (queues q') \<and> cq_clock q' = cq_clock q"
proof -
  obtain r b where x: "x = (r, b)" by (cases x)
  let ?ps = "getCommandQueue C r b q"
  from assms have rb: "r < NUM_RANKS C" "b < NUM_BANKS C" by (auto simp: close_step_def x)
  from assms obtain i where i: "q' = setCommandQueue C r b (take i ?ps @ drop (i + 1) ?ps) q" "i < length ?ps" "?ps ! i = p" "isIssuable C bs q p = Inr True"
  proof (cases "queuingStructure C")
    case PerRankPerBank
    from assms show thesis
      by (intro that [of 0]) (auto simp: PerRankPerBank close_step_def x Let_def hd_conv_nth split: if_splits option.splits)
  next
    case PerRank
    from assms obtain f i where "seekE (\<lambda>i p. andE (isIssuable C bs q p) (f i p)) 0 ?ps = Inr (Some (i, p))"
      "q' = setCommandQueue C r b (take i ?ps @ drop (i + 1) ?ps) q"
      by (auto simp: PerRank close_step_def x Let_def split: if_splits option.splits)
    then show thesis by (intro that [of i]) (auto simp: andE_True dest!: seekE_SomeD)
  qed
  then show ?thesis using pops_drop [OF rb] by simp
qed

lemma over_queues_cases:
  assumes "over_queues C step q = Inr (pk, q')"
  obtains "pk = None" "queues q' = queues q" "cq_clock q' = cq_clock q"
  | p x q1 where "pk = Some p" "step q x = Inr (Some (p, q1))" "queues q' = queues q1" "cq_clock q' = cq_clock q1"
  using assms by (auto simp: over_queues_def Let_def dest!: round_robin_Some split: option.splits)


lemma to_open_row_SomeD: "to_open_row bs r b ps = Some (j, p) \<Longrightarrow> j < length ps \<and> ps ! j = p"
  by (auto simp: to_open_row_def first_index_Some_iff split: option.splits)

lemma refresh_obstacle_None:
  "refresh_obstacle C bs q = None \<Longrightarrow> b < NUM_BANKS C \<Longrightarrow>
   currentBankState (bs (cq_refreshRank q) b) \<noteq> RowActive \<and> nextActivate (bs (cq_refreshRank q) b) \<le> cq_clock q"
  by (auto simp: refresh_obstacle_def find_None Let_def not_less)

lemma refresh_obstacle_Some: "refresh_obstacle C bs q = Some b \<Longrightarrow> b < NUM_BANKS C"
  by (auto simp: refresh_obstacle_def find_Some_iff)

lemma send_refresh_pops:
  assumes "(p, q') = send_refresh q" "cq_refreshRank q < NUM_RANKS C" "refresh_obstacle C bs q = None"
    "currentBankState (bs (cq_refreshRank q) 0) \<noteq> PowerDown"
  shows "pops C bs q p (queues q') \<and> cq_clock q' = cq_clock q"
  using pops.refresh [of "cq_refreshRank q" C bs q] refresh_obstacle_None [OF assms(3)] assms by (simp add: send_refresh_def)

lemma close_refresh_pops:
  assumes "close_refresh C bs q = Inr (Some (p, q'))"
  shows "pops C bs q p (queues q') \<and> cq_clock q' = cq_clock q"
proof (cases "refresh_obstacle C bs q")
  case None
  with assms show ?thesis by (intro send_refresh_pops) (auto simp: close_refresh_def Let_def split: if_splits)
next
  case (Some b)
  let ?r = "cq_refreshRank q"
  from assms Some obtain j where j: "to_open_row bs ?r b (getCommandQueue C ?r b q) = Some (j, p)"
    "isIssuable C bs q p = Inr True" "q' = drop_command C ?r b j q" "?r < NUM_RANKS C"
    by (auto simp: close_refresh_def Let_def split: if_splits option.splits)
  then show ?thesis
    using pops_drop [OF j(4) refresh_obstacle_Some [OF Some], of j q p bs] to_open_row_SomeD [OF j(1)]
    by (simp add: drop_command_def Let_def)
qed

lemma open_refresh_pops:
  assumes "open_refresh C bs q = Inr (Some (p, q'))"
  shows "pops C bs q p (queues q') \<and> cq_clock q' = cq_clock q"
proof (cases "refresh_obstacle C bs q")
  case None
  with assms show ?thesis by (intro send_refresh_pops) (auto simp: open_refresh_def Let_def split: if_splits)
next
  case (Some b)
  let ?r = "cq_refreshRank q"
  note b = refresh_obstacle_Some [OF Some]
  from assms Some consider
      (column) j where "to_open_row bs ?r b (getCommandQueue C ?r b q) = Some (j, p)"
        "isIssuable C bs q p = Inr True" "q' = drop_command C ?r b j q" "?r < NUM_RANKS C"
    | (precharge) "p = new_BusPacket PRECHARGE 0 0 0 ?r b" "q' = clear_row_accesses ?r b q" "?r < NUM_RANKS C"
        "currentBankState (bs ?r b) = RowActive" "nextPrecharge (bs ?r b) \<le> cq_clock q"
    by (auto simp: open_refresh_def Let_def split: if_splits option.splits)
  then show ?thesis
  proof cases
    case (column j)
    then show ?thesis
      using pops_drop [OF column(4) b, of j q p bs] to_open_row_SomeD [OF column(1)] by (simp add: drop_command_def Let_def)
  next
    case precharge
    then show ?thesis using pops.precharge [of ?r C b bs q] b by (simp add: clear_row_accesses_def Let_def)
  qed
qed


lemma close_bank_cases:
  assumes "close_bank C bs q = Inr (pk, q')" "queues q0 = queues q" "cq_clock q0 = cq_clock q"
  shows "queues q' = queues q0 \<and> cq_clock q' = cq_clock q0 \<and> (\<forall>p. pk = Some p \<longrightarrow> pops C bs q0 p (queues q'))"
  using assms pops.precharge [of _ C _ bs q0]
  by (auto simp: close_bank_def clear_row_accesses_def Let_def dest!: round_robin_Some split: option.splits if_splits)

lemma after_pop_simps [simp]: "queues (after_pop C p q) = queues q" "cq_clock (after_pop C p q) = cq_clock q"
  by (simp_all add: after_pop_def Let_def split: prod.split)

text \<open>What \<open>cq_pop\<close> gives out, in every state: a command of a queue that may go, or the closing of a bank, or a refresh.\<close>

lemma cq_pop_cases:
  assumes "cq_pop C bs q = Inr (pk, q')"
  shows "cq_clock q' = cq_clock q \<and> (pk = None \<longrightarrow> queues q' = queues q) \<and>
         (\<forall>p. pk = Some p \<longrightarrow> pops C bs (tick_tFAW C q) p (queues q'))"
proof -
  let ?q = "tick_tFAW C q"
  let ?ok = "\<lambda>pk q'. cq_clock q' = cq_clock ?q \<and> (pk = None \<longrightarrow> queues q' = queues ?q) \<and> (\<forall>p. pk = Some p \<longrightarrow> pops C bs ?q p (queues q'))"
  have over: "?ok pk q'" if "over_queues C step ?q = Inr (pk, q')"
    "\<And>x p q'. step ?q x = Inr (Some (p, q')) \<Longrightarrow> pops C bs ?q p (queues q') \<and> cq_clock q' = cq_clock ?q" for step pk q'
    using that(1) by (cases rule: over_queues_cases) (use that(2) in auto)
  have close: "?ok pk q'" if "close_bank C bs q1 = Inr (pk, q')" "?ok None q1" for q1 pk q'
    using close_bank_cases [OF that(1), of ?q] that(2) by auto
  let ?close = "\<lambda>x. case x of Some (p, q) \<Rightarrow> Inr (Some p, q) | None \<Rightarrow> over_queues C (close_step C bs) ?q"
  let ?open = "\<lambda>x. case x of Some (p, q) \<Rightarrow> Inr (Some p, q)
    | None \<Rightarrow> bindE (over_queues C (open_step C bs) ?q) (\<lambda>(pk, q). case pk of Some p \<Rightarrow> Inr (Some p, q) | None \<Rightarrow> close_bank C bs q)"
  have closed: "?ok pk q1" if "close_refresh C bs ?q = Inr x" "?close x = Inr (pk, q1)" for x q1
    using that close_refresh_pops [of C bs ?q] over [OF _ close_step_pops] by (cases x) auto
  have opened: "?ok pk q1" if "open_refresh C bs ?q = Inr x" "?open x = Inr (pk, q1)" for x q1
  proof (cases x)
    case None
    with that(2) obtain pk2 q2 where o: "over_queues C (open_step C bs) ?q = Inr (pk2, q2)"
      "(case pk2 of Some p \<Rightarrow> Inr (Some p, q2) | None \<Rightarrow> close_bank C bs q2) = Inr (pk, q1)" by auto
    from over [OF o(1) open_step_pops] o(2) close [of q2] show ?thesis by (cases pk2) auto
  qed (use that open_refresh_pops [of C bs ?q] in auto)
  obtain q1 where q1: "q' = (case pk of None \<Rightarrow> q1 | Some p \<Rightarrow> after_pop C p q1)"
    "(case rowBufferPolicy C of ClosePage \<Rightarrow> bindE (close_refresh C bs ?q) ?close | OpenPage \<Rightarrow> bindE (open_refresh C bs ?q) ?open) = Inr (pk, q1)"
    using assms unfolding cq_pop_def Let_def by (auto split: option.splits)
  have "?ok pk q1"
  proof (cases "rowBufferPolicy C")
    case OpenPage
    with q1(2) have "bindE (open_refresh C bs ?q) ?open = Inr (pk, q1)" by (simp only: RowBufferPolicy.case)
    then show ?thesis by (rule bindE_InrE) (rule opened)
  next
    case ClosePage
    with q1(2) have "bindE (close_refresh C bs ?q) ?close = Inr (pk, q1)" by (simp only: RowBufferPolicy.case)
    then show ?thesis by (rule bindE_InrE) (rule closed)
  qed
  then show ?thesis using q1(1) by (auto split: option.splits)
qed

end
