(* ===== verification/DS_Rank.thy ===== *)
theory DS_Rank
  imports DS_Config
begin

section \<open>DRAMSim2: a rank\<close>

text \<open>
  Class \<open>Rank\<close> (\<open>Rank.cpp\<close>), built with \<open>NO_STORAGE\<close>: the state of the banks as the devices see it, the checks of
  every command against it, and the data of reads on their way back. A command that is not allowed ends the
  program. \<open>rk_update\<close> gives the packet that has left the bus for the controller.
\<close>

record Rank =
  rk_id :: nat
  incomingWriteBank :: nat
  incomingWriteRow :: nat
  incomingWriteColumn :: nat
  isPowerDown :: bool
  rk_outgoingDataPacket :: "BusPacket option"
  rk_dataCyclesLeft :: nat
  rk_refreshWaiting :: bool
  readReturnPacket :: "BusPacket list"
  readReturnCountdown :: "nat list"
  rk_bankStates :: "nat \<Rightarrow> BankState"
  rk_clock :: nat

definition new_Rank :: "nat \<Rightarrow> Rank" where
  "new_Rank i =
     \<lparr>rk_id = i, incomingWriteBank = 0, incomingWriteRow = 0, incomingWriteColumn = 0, isPowerDown = False,
      rk_outgoingDataPacket = None, rk_dataCyclesLeft = 0, rk_refreshWaiting = False, readReturnPacket = [],
      readReturnCountdown = [], rk_bankStates = (\<lambda>_. new_BankState), rk_clock = 0\<rparr>"

text \<open>A change of every bank of the rank.\<close>

definition all_banks :: "dram_config \<Rightarrow> (nat \<Rightarrow> BankState \<Rightarrow> BankState) \<Rightarrow> (nat \<Rightarrow> BankState) \<Rightarrow> nat \<Rightarrow> BankState" where
  "all_banks C f bs = (\<lambda>b. if b < NUM_BANKS C then f b (bs b) else bs b)"

definition access_allowed :: "nat \<Rightarrow> BusPacket \<Rightarrow> Rank \<Rightarrow> bool" where
  "access_allowed earliest p k \<longleftrightarrow>
     (let s = rk_bankStates k (bp_bank p) in
      currentBankState s = RowActive \<and> rk_clock k \<ge> earliest \<and> bp_row p = openRowAddress s)"

definition return_later :: "dram_config \<Rightarrow> BusPacket \<Rightarrow> Rank \<Rightarrow> Rank" where
  "return_later C p k =
     k\<lparr>readReturnPacket := readReturnPacket k @ [p\<lparr>busPacketType := DATA\<rparr>], readReturnCountdown := readReturnCountdown k @ [RL C]\<rparr>"

definition note_write :: "BusPacket \<Rightarrow> Rank \<Rightarrow> Rank" where
  "note_write p k = k\<lparr>incomingWriteBank := bp_bank p, incomingWriteRow := bp_row p, incomingWriteColumn := bp_column p\<rparr>"

definition after_read :: "dram_config \<Rightarrow> nat \<Rightarrow> (nat \<Rightarrow> BankState) \<Rightarrow> nat \<Rightarrow> BankState" where
  "after_read C now = all_banks C (\<lambda>_ s.
     s\<lparr>nextRead := max (nextRead s) (now + max (tCCD C) (BL C div 2)), nextWrite := max (nextWrite s) (now + READ_TO_WRITE_DELAY C)\<rparr>)"

definition after_write :: "dram_config \<Rightarrow> nat \<Rightarrow> (nat \<Rightarrow> BankState) \<Rightarrow> nat \<Rightarrow> BankState" where
  "after_write C now = all_banks C (\<lambda>_ s.
     s\<lparr>nextRead := max (nextRead s) (now + WRITE_TO_READ_DELAY_B C), nextWrite := max (nextWrite s) (now + max (BL C div 2) (tCCD C))\<rparr>)"

definition rk_receiveFromBus :: "dram_config \<Rightarrow> BusPacket \<Rightarrow> Rank \<Rightarrow> Rank result" where
  "rk_receiveFromBus C p k =
     (let b = bp_bank p; bs = rk_bankStates k; s = bs b; now = rk_clock k in
      case busPacketType p of
        READ \<Rightarrow>
          bindE (assertE ''received a READ when not allowed'' (access_allowed (nextRead s) p k)) (\<lambda>_.
          Inr (return_later C p (k\<lparr>rk_bankStates := after_read C now
            (bs(b := s\<lparr>nextPrecharge := max (nextPrecharge s) (now + READ_TO_PRE_DELAY C)\<rparr>))\<rparr>)))
      | READ_P \<Rightarrow>
          bindE (assertE ''received a READ_P when not allowed'' (access_allowed (nextRead s) p k)) (\<lambda>_.
          Inr (return_later C p (k\<lparr>rk_bankStates := after_read C now
            (bs(b := s\<lparr>currentBankState := Idle, nextActivate := max (nextActivate s) (now + READ_AUTOPRE_DELAY C)\<rparr>))\<rparr>)))
      | WRITE \<Rightarrow>
          bindE (assertE ''received a WRITE when not allowed'' (access_allowed (nextWrite s) p k)) (\<lambda>_.
          Inr (note_write p (k\<lparr>rk_bankStates := after_write C now
            (bs(b := s\<lparr>nextPrecharge := max (nextPrecharge s) (now + WRITE_TO_PRE_DELAY C)\<rparr>))\<rparr>)))
      | WRITE_P \<Rightarrow>
          bindE (assertE ''received a WRITE_P when not allowed'' (access_allowed (nextWrite s) p k)) (\<lambda>_.
          Inr (note_write p (k\<lparr>rk_bankStates := after_write C now
            (bs(b := s\<lparr>currentBankState := Idle, nextActivate := max (nextActivate s) (now + WRITE_AUTOPRE_DELAY C)\<rparr>))\<rparr>)))
      | ACTIVATE \<Rightarrow>
          bindE (assertE ''received an ACT when not allowed'' (currentBankState s = Idle \<and> now \<ge> nextActivate s)) (\<lambda>_.
          Inr (k\<lparr>rk_bankStates := all_banks C (\<lambda>i s. if i \<noteq> b then s\<lparr>nextActivate := max (nextActivate s) (now + tRRD C)\<rparr> else s)
            (bs(b := s\<lparr>currentBankState := RowActive, nextActivate := now + tRC C, openRowAddress := bp_row p,
                       nextWrite := now + ACT_TO_COL_DELAY C, nextRead := now + ACT_TO_COL_DELAY C, nextPrecharge := now + tRAS C\<rparr>))\<rparr>))
      | PRECHARGE \<Rightarrow>
          bindE (assertE ''received a PRE when not allowed'' (currentBankState s = RowActive \<and> now \<ge> nextPrecharge s)) (\<lambda>_.
          Inr (k\<lparr>rk_bankStates := bs(b := s\<lparr>currentBankState := Idle, nextActivate := max (nextActivate s) (now + tRP C)\<rparr>)\<rparr>))
      | REFRESH \<Rightarrow>
          bindE (assertE ''received a REF when not allowed'' (\<forall>i\<in>set [0..<NUM_BANKS C]. currentBankState (bs i) = Idle)) (\<lambda>_.
          Inr (k\<lparr>rk_refreshWaiting := False, rk_bankStates := all_banks C (\<lambda>_ s. s\<lparr>nextActivate := now + tRFC C\<rparr>) bs\<rparr>))
      | DATA \<Rightarrow> Inr k)"

text \<open>A packet that is ready takes the bus, also when another one is still on it.\<close>

definition rk_update :: "dram_config \<Rightarrow> Rank \<Rightarrow> BusPacket option \<times> Rank" where
  "rk_update C k =
     (let (back, k) =
            (case rk_outgoingDataPacket k of
               None \<Rightarrow> (None, k)
             | Some p \<Rightarrow>
                 let k = k\<lparr>rk_dataCyclesLeft := dec32 (rk_dataCyclesLeft k)\<rparr> in
                 if rk_dataCyclesLeft k = 0 then (Some p, k\<lparr>rk_outgoingDataPacket := None\<rparr>) else (None, k));
          k = k\<lparr>readReturnCountdown := map dec32 (readReturnCountdown k)\<rparr> in
      (back,
       if readReturnCountdown k \<noteq> [] \<and> hd (readReturnCountdown k) = 0 then
         k\<lparr>rk_outgoingDataPacket := Some (hd (readReturnPacket k)), rk_dataCyclesLeft := BL C div 2,
           readReturnPacket := tl (readReturnPacket k), readReturnCountdown := tl (readReturnCountdown k)\<rparr>
       else k))"

definition rk_powerDown :: "dram_config \<Rightarrow> Rank \<Rightarrow> Rank result" where
  "rk_powerDown C k =
     bindE (assertE ''Trying to power down while not all banks are idle'' (\<forall>i\<in>set [0..<NUM_BANKS C]. currentBankState (rk_bankStates k i) = Idle)) (\<lambda>_.
     Inr (k\<lparr>isPowerDown := True,
       rk_bankStates := all_banks C (\<lambda>_ s. s\<lparr>nextPowerUp := rk_clock k + tCKE C, currentBankState := PowerDown\<rparr>) (rk_bankStates k)\<rparr>))"

definition rk_powerUp :: "dram_config \<Rightarrow> Rank \<Rightarrow> Rank result" where
  "rk_powerUp C k =
     bindE (assertE ''Trying to power up while it is not already powered down'' (isPowerDown k)) (\<lambda>_.
     bindE (assertE ''Trying to power up before we are allowed to'' (\<forall>i\<in>set [0..<NUM_BANKS C]. nextPowerUp (rk_bankStates k i) \<le> rk_clock k)) (\<lambda>_.
     Inr (k\<lparr>isPowerDown := False,
       rk_bankStates := all_banks C (\<lambda>_ s. s\<lparr>nextActivate := rk_clock k + tXP C, currentBankState := Idle\<rparr>) (rk_bankStates k)\<rparr>)))"

end
