(* ===== verification/DS_Control.thy ===== *)
theory DS_Control
  imports DS_Queue DS_Rank
begin

section \<open>DRAMSim2: controller and channel\<close>

text \<open>
  Classes \<open>MemoryController\<close> and \<open>MemorySystem\<close> (\<open>MemoryController.cpp\<close>, \<open>MemorySystem.cpp\<close>). A channel is the
  controller with its ranks. The clock period and the voltage are global variables that GemDroid changes; they
  are arguments. A call of one of the two callbacks is an element of the list of completions,
  \<open>(isRead, address, sender_type, sender_id)\<close>. Counters that only printing reads are left out.
\<close>

record MemoryController =
  transactionQueue :: "Transaction list"
  bankStates :: bank_states
  commandQueue :: CommandQueue
  refreshCountdown :: "nat \<Rightarrow> nat"
  writeDataToSend :: "BusPacket list"
  writeDataCountdown :: "nat list"
  returnTransaction :: "Transaction list"
  pendingReadTransactions :: "Transaction list"
  powerDown :: "nat \<Rightarrow> bool"
  outgoingCmdPacket :: "BusPacket option"
  cmdCyclesLeft :: nat
  outgoingDataPacket :: "BusPacket option"
  dataCyclesLeft :: nat
  totalTransactions :: nat
  totalReadsPerBank :: "nat \<Rightarrow> nat \<Rightarrow> nat"
  totalWritesPerBank :: "nat \<Rightarrow> nat \<Rightarrow> nat"
  totalEpochLatency :: "nat \<Rightarrow> nat \<Rightarrow> nat"
  refreshRank :: nat
  prevClockCycle :: nat
  m_totalBandwidth :: real
  m_latency :: "real option"
  m_sumEnergy :: real
  m_countPower :: nat
  backgroundEnergy :: "nat \<Rightarrow> nat"
  burstEnergy :: "nat \<Rightarrow> nat"
  actpreEnergy :: "nat \<Rightarrow> nat"
  refreshEnergy :: "nat \<Rightarrow> nat"
  mc_clock :: nat

record MemorySystem =
  mc :: MemoryController
  ranks :: "nat \<Rightarrow> Rank"
  pendingTransactions :: "Transaction list"

type_synonym reply = "bool \<times> addr \<times> int \<times> int"

definition refresh_cycles :: "dram_config \<Rightarrow> real \<Rightarrow> real" where
  "refresh_cycles C tCK = real (REFRESH_PERIOD C) / tCK"

definition new_MemoryController :: "dram_config \<Rightarrow> real \<Rightarrow> MemoryController result" where
  "new_MemoryController C tCK =
     bindE (new_CommandQueue C) (\<lambda>q.
     Inr \<lparr>transactionQueue = [], bankStates = (\<lambda>_ _. new_BankState), commandQueue = q,
          refreshCountdown = (\<lambda>i. u32 (trunc (refresh_cycles C tCK / real (NUM_RANKS C)) * int (i + 1))),
          writeDataToSend = [], writeDataCountdown = [], returnTransaction = [], pendingReadTransactions = [],
          powerDown = (\<lambda>_. False), outgoingCmdPacket = None, cmdCyclesLeft = 0, outgoingDataPacket = None, dataCyclesLeft = 0,
          totalTransactions = 0, totalReadsPerBank = (\<lambda>_ _. 0), totalWritesPerBank = (\<lambda>_ _. 0), totalEpochLatency = (\<lambda>_ _. 0),
          refreshRank = 0, prevClockCycle = 0, m_totalBandwidth = 0, m_latency = None, m_sumEnergy = 0, m_countPower = 0,
          backgroundEnergy = (\<lambda>_. 0), burstEnergy = (\<lambda>_. 0), actpreEnergy = (\<lambda>_. 0), refreshEnergy = (\<lambda>_. 0), mc_clock = 0\<rparr>)"

definition new_MemorySystem :: "dram_config \<Rightarrow> real \<Rightarrow> MemorySystem result" where
  "new_MemorySystem C tCK =
     bindE (new_MemoryController C tCK) (\<lambda>m. Inr \<lparr>mc = m, ranks = new_Rank, pendingTransactions = []\<rparr>)"

subsection \<open>Transactions in and data back\<close>

definition mc_WillAcceptTransaction :: "dram_config \<Rightarrow> MemoryController \<Rightarrow> bool" where
  "mc_WillAcceptTransaction C m \<longleftrightarrow> length (transactionQueue m) < TRANS_QUEUE_DEPTH C"

definition mc_addTransaction :: "dram_config \<Rightarrow> Transaction \<Rightarrow> MemoryController \<Rightarrow> bool \<times> MemoryController" where
  "mc_addTransaction C t m =
     (if mc_WillAcceptTransaction C m
      then (True, m\<lparr>transactionQueue := transactionQueue m @ [t\<lparr>timeAdded := mc_clock m\<rparr>]\<rparr>) else (False, m))"

definition mc_receiveFromBus :: "BusPacket \<Rightarrow> MemoryController \<Rightarrow> MemoryController result" where
  "mc_receiveFromBus p m =
     bindE (assertE ''Memory Controller received a non-DATA bus packet from rank'' (busPacketType p = DATA)) (\<lambda>_.
     let n = totalReadsPerBank m; r = bp_rank p; b = bp_bank p in
     Inr (m\<lparr>returnTransaction := returnTransaction m @
              [\<lparr>transactionType = RETURN_DATA, t_address = physicalAddress p, timeAdded = 0, t_sender_type = 0, t_sender_id = 0\<rparr>],
            totalReadsPerBank := n(r := (n r)(b := n r b + 1))\<rparr>))"

subsection \<open>Bank states\<close>

definition each_bank :: "dram_config \<Rightarrow> (nat \<Rightarrow> nat \<Rightarrow> BankState \<Rightarrow> BankState) \<Rightarrow> bank_states \<Rightarrow> bank_states" where
  "each_bank C f bs = (\<lambda>r b. if r < NUM_RANKS C \<and> b < NUM_BANKS C then f r b (bs r b) else bs r b)"

definition upd_bank :: "nat \<Rightarrow> nat \<Rightarrow> (BankState \<Rightarrow> BankState) \<Rightarrow> bank_states \<Rightarrow> bank_states" where
  "upd_bank r b f bs = bs(r := (bs r)(b := f (bs r b)))"

definition step_bank :: "dram_config \<Rightarrow> BankState \<Rightarrow> BankState" where
  "step_bank C s =
     (if stateChangeCountdown s > 0 then
        let s = s\<lparr>stateChangeCountdown := stateChangeCountdown s - 1\<rparr> in
        if stateChangeCountdown s = 0 then
          case lastCommand s of
            WRITE_P \<Rightarrow> s\<lparr>currentBankState := Precharging, lastCommand := PRECHARGE, stateChangeCountdown := tRP C\<rparr>
          | READ_P \<Rightarrow> s\<lparr>currentBankState := Precharging, lastCommand := PRECHARGE, stateChangeCountdown := tRP C\<rparr>
          | REFRESH \<Rightarrow> s\<lparr>currentBankState := Idle\<rparr>
          | PRECHARGE \<Rightarrow> s\<lparr>currentBankState := Idle\<rparr>
          | _ \<Rightarrow> s
        else s
      else s)"

definition issue_read :: "dram_config \<Rightarrow> nat \<Rightarrow> BusPacket \<Rightarrow> bank_states \<Rightarrow> bank_states" where
  "issue_read C now p bs =
     (let rank = bp_rank p; bank = bp_bank p;
          bs = upd_bank rank bank (\<lambda>s.
            if busPacketType p = READ_P then
              s\<lparr>nextActivate := max (now + READ_AUTOPRE_DELAY C) (nextActivate s), lastCommand := READ_P, stateChangeCountdown := READ_TO_PRE_DELAY C\<rparr>
            else s\<lparr>nextPrecharge := max (now + READ_TO_PRE_DELAY C) (nextPrecharge s), lastCommand := READ\<rparr>) bs;
          bs = each_bank C (\<lambda>r _ s.
            if r \<noteq> rank then
              if currentBankState s = RowActive then
                s\<lparr>nextRead := max (now + BL C div 2 + tRTRS C) (nextRead s), nextWrite := max (now + READ_TO_WRITE_DELAY C) (nextWrite s)\<rparr>
              else s
            else s\<lparr>nextRead := max (now + max (tCCD C) (BL C div 2)) (nextRead s), nextWrite := max (now + READ_TO_WRITE_DELAY C) (nextWrite s)\<rparr>) bs in
      if busPacketType p = READ_P then upd_bank rank bank (\<lambda>s. s\<lparr>nextRead := nextActivate s, nextWrite := nextActivate s\<rparr>) bs else bs)"

definition issue_write :: "dram_config \<Rightarrow> nat \<Rightarrow> BusPacket \<Rightarrow> bank_states \<Rightarrow> bank_states" where
  "issue_write C now p bs =
     (let rank = bp_rank p; bank = bp_bank p;
          bs = upd_bank rank bank (\<lambda>s.
            if busPacketType p = WRITE_P then
              s\<lparr>nextActivate := max (now + WRITE_AUTOPRE_DELAY C) (nextActivate s), lastCommand := WRITE_P, stateChangeCountdown := WRITE_TO_PRE_DELAY C\<rparr>
            else s\<lparr>nextPrecharge := max (now + WRITE_TO_PRE_DELAY C) (nextPrecharge s), lastCommand := WRITE\<rparr>) bs;
          bs = each_bank C (\<lambda>r _ s.
            if r \<noteq> rank then
              if currentBankState s = RowActive then
                s\<lparr>nextWrite := max (now + BL C div 2 + tRTRS C) (nextWrite s), nextRead := max (now + WRITE_TO_READ_DELAY_R C) (nextRead s)\<rparr>
              else s
            else s\<lparr>nextWrite := max (now + max (BL C div 2) (tCCD C)) (nextWrite s), nextRead := max (now + WRITE_TO_READ_DELAY_B C) (nextRead s)\<rparr>) bs in
      if busPacketType p = WRITE_P then upd_bank rank bank (\<lambda>s. s\<lparr>nextRead := nextActivate s, nextWrite := nextActivate s\<rparr>) bs else bs)"

definition issue_activate :: "dram_config \<Rightarrow> nat \<Rightarrow> BusPacket \<Rightarrow> bank_states \<Rightarrow> bank_states" where
  "issue_activate C now p bs =
     (let rank = bp_rank p; bank = bp_bank p;
          bs = upd_bank rank bank (\<lambda>s. s\<lparr>currentBankState := RowActive, lastCommand := ACTIVATE, openRowAddress := bp_row p,
            nextActivate := max (now + tRC C) (nextActivate s), nextPrecharge := max (now + tRAS C) (nextPrecharge s),
            nextRead := max (now + ACT_TO_COL_DELAY C) (nextRead s), nextWrite := max (now + ACT_TO_COL_DELAY C) (nextWrite s)\<rparr>) bs in
      each_bank C (\<lambda>r b s. if r = rank \<and> b \<noteq> bank then s\<lparr>nextActivate := max (now + tRRD C) (nextActivate s)\<rparr> else s) bs)"

definition issue_precharge :: "dram_config \<Rightarrow> nat \<Rightarrow> BusPacket \<Rightarrow> bank_states \<Rightarrow> bank_states" where
  "issue_precharge C now p bs =
     upd_bank (bp_rank p) (bp_bank p) (\<lambda>s. s\<lparr>currentBankState := Precharging, lastCommand := PRECHARGE, stateChangeCountdown := tRP C,
       nextActivate := max (now + tRP C) (nextActivate s)\<rparr>) bs"

definition issue_refresh :: "dram_config \<Rightarrow> nat \<Rightarrow> BusPacket \<Rightarrow> bank_states \<Rightarrow> bank_states" where
  "issue_refresh C now p bs =
     each_bank C (\<lambda>r _ s. if r = bp_rank p then s\<lparr>nextActivate := now + tRFC C, currentBankState := Refreshing, lastCommand := REFRESH,
       stateChangeCountdown := tRFC C\<rparr> else s) bs"

text \<open>The energy of a command, in the unsigned arithmetic of the source.\<close>

definition burst_cost :: "dram_config \<Rightarrow> nat \<Rightarrow> nat" where
  "burst_cost C idd = u32 (int (u32 (int (u32 (int idd - int (IDD3N C))) * int (BL C)) div 2) * int (NUM_DEVICES C))"

definition actpre_cost :: "dram_config \<Rightarrow> nat" where
  "actpre_cost C = u32 ((int (IDD0 C) * int (tRC C) - (int (IDD3N C) * int (tRAS C) + int (IDD2N C) * (int (tRC C) - int (tRAS C)))) * int (NUM_DEVICES C))"

definition refresh_cost :: "dram_config \<Rightarrow> nat" where
  "refresh_cost C = u32 ((int (IDD5 C) - int (IDD3N C)) * int (tRFC C) * int (NUM_DEVICES C))"

subsection \<open>The phases of an update\<close>

definition mc_step_banks :: "dram_config \<Rightarrow> MemoryController \<Rightarrow> MemoryController" where
  "mc_step_banks C m = m\<lparr>bankStates := each_bank C (\<lambda>_ _. step_bank C) (bankStates m)\<rparr>"

definition ms_send_cmd :: "dram_config \<Rightarrow> MemorySystem \<Rightarrow> MemorySystem result" where
  "ms_send_cmd C s =
     (case outgoingCmdPacket (mc s) of
        None \<Rightarrow> Inr s
      | Some p \<Rightarrow>
          let m = (mc s)\<lparr>cmdCyclesLeft := dec32 (cmdCyclesLeft (mc s))\<rparr> in
          if cmdCyclesLeft m = 0 then
            bindE (rk_receiveFromBus C p (ranks s (bp_rank p))) (\<lambda>k.
            Inr (s\<lparr>mc := m\<lparr>outgoingCmdPacket := None\<rparr>, ranks := (ranks s)(bp_rank p := k)\<rparr>))
          else Inr (s\<lparr>mc := m\<rparr>))"

definition ms_send_data :: "dram_config \<Rightarrow> MemorySystem \<Rightarrow> (reply list \<times> MemorySystem) result" where
  "ms_send_data C s =
     (case outgoingDataPacket (mc s) of
        None \<Rightarrow> Inr ([], s)
      | Some p \<Rightarrow>
          let m = (mc s)\<lparr>dataCyclesLeft := dec32 (dataCyclesLeft (mc s))\<rparr> in
          if dataCyclesLeft m = 0 then
            bindE (rk_receiveFromBus C p (ranks s (bp_rank p))) (\<lambda>k.
            Inr ([(False, physicalAddress p, bp_sender_type p, bp_sender_id p)],
                 s\<lparr>mc := m\<lparr>outgoingDataPacket := None\<rparr>, ranks := (ranks s)(bp_rank p := k)\<rparr>))
          else Inr ([], s\<lparr>mc := m\<rparr>))"

definition mc_write_data :: "dram_config \<Rightarrow> MemoryController \<Rightarrow> MemoryController result" where
  "mc_write_data C m =
     (let m = m\<lparr>writeDataCountdown := map dec32 (writeDataCountdown m)\<rparr> in
      case (writeDataCountdown m, writeDataToSend m) of
        (n # ns, p # ps) \<Rightarrow>
          if n = 0 then
            bindE (assertE ''Data Bus Collision'' (outgoingDataPacket m = None)) (\<lambda>_.
            let w = totalWritesPerBank m; r = bp_rank p; b = bp_bank p in
            Inr (m\<lparr>outgoingDataPacket := Some p, dataCyclesLeft := BL C div 2, totalTransactions := totalTransactions m + 1,
                   totalWritesPerBank := w(r := (w r)(b := w r b + 1)), writeDataCountdown := ns, writeDataToSend := ps\<rparr>))
          else Inr m
      | _ \<Rightarrow> Inr m)"

definition ms_refresh :: "dram_config \<Rightarrow> real \<Rightarrow> MemorySystem \<Rightarrow> MemorySystem" where
  "ms_refresh C tCK s =
     (let m = mc s; r = refreshRank m; wait = (ranks s)(r := (ranks s r)\<lparr>rk_refreshWaiting := True\<rparr>) in
      if refreshCountdown m r = 0 then
        s\<lparr>mc := m\<lparr>commandQueue := needRefresh r (commandQueue m), refreshCountdown := (refreshCountdown m)(r := u32 (trunc (refresh_cycles C tCK))),
                   refreshRank := (if r + 1 = NUM_RANKS C then 0 else r + 1)\<rparr>, ranks := wait\<rparr>
      else if powerDown m r \<and> refreshCountdown m r \<le> tXP C then s\<lparr>ranks := wait\<rparr>
      else s)"

definition issue_cmd :: "dram_config \<Rightarrow> BusPacket \<Rightarrow> MemoryController \<Rightarrow> MemoryController result" where
  "issue_cmd C p m =
     (let now = mc_clock m; r = bp_rank p; bs = bankStates m in
      case busPacketType p of
        READ \<Rightarrow> Inr (m\<lparr>burstEnergy := (burstEnergy m)(r := burstEnergy m r + burst_cost C (IDD4R C)), bankStates := issue_read C now p bs\<rparr>)
      | READ_P \<Rightarrow> Inr (m\<lparr>burstEnergy := (burstEnergy m)(r := burstEnergy m r + burst_cost C (IDD4R C)), bankStates := issue_read C now p bs\<rparr>)
      | WRITE \<Rightarrow> Inr (m\<lparr>burstEnergy := (burstEnergy m)(r := burstEnergy m r + burst_cost C (IDD4W C)), bankStates := issue_write C now p bs\<rparr>)
      | WRITE_P \<Rightarrow> Inr (m\<lparr>burstEnergy := (burstEnergy m)(r := burstEnergy m r + burst_cost C (IDD4W C)), bankStates := issue_write C now p bs\<rparr>)
      | ACTIVATE \<Rightarrow> Inr (m\<lparr>actpreEnergy := (actpreEnergy m)(r := actpreEnergy m r + actpre_cost C), bankStates := issue_activate C now p bs\<rparr>)
      | PRECHARGE \<Rightarrow> Inr (m\<lparr>bankStates := issue_precharge C now p bs\<rparr>)
      | REFRESH \<Rightarrow> Inr (m\<lparr>refreshEnergy := (refreshEnergy m)(r := refreshEnergy m r + refresh_cost C), bankStates := issue_refresh C now p bs\<rparr>)
      | DATA \<Rightarrow> Inl (AssertFail ''Popped a command we should not have''))"

definition data_packet :: "BusPacket \<Rightarrow> BusPacket" where
  "data_packet p = bp_setSender (bp_sender_type p) (bp_sender_id p)
     (new_BusPacket DATA (physicalAddress p) (bp_column p) (bp_row p) (bp_rank p) (bp_bank p))"

definition mc_issue :: "dram_config \<Rightarrow> MemoryController \<Rightarrow> MemoryController result" where
  "mc_issue C m =
     bindE (cq_pop C (bankStates m) (commandQueue m)) (\<lambda>(pk, q).
     let m = m\<lparr>commandQueue := q\<rparr> in
     case pk of
       None \<Rightarrow> Inr m
     | Some p \<Rightarrow>
         let m = (if is_write (busPacketType p)
                  then m\<lparr>writeDataToSend := writeDataToSend m @ [data_packet p], writeDataCountdown := writeDataCountdown m @ [WL C]\<rparr> else m) in
         bindE (issue_cmd C p m) (\<lambda>m.
         bindE (assertE ''Command Bus Collision'' (outgoingCmdPacket m = None)) (\<lambda>_.
         Inr (m\<lparr>outgoingCmdPacket := Some p, cmdCyclesLeft := tCMD C\<rparr>))))"

text \<open>The first transaction with room in its queue becomes an activation and a column access.\<close>

definition mc_schedule :: "dram_config \<Rightarrow> MemoryController \<Rightarrow> MemoryController result" where
  "mc_schedule C m =
     bindE (seekE (\<lambda>_ t. let a = addressMapping C (t_address t) in
              bindE (boundsE ''queues'' (m_rank a < NUM_RANKS C \<and> m_bank a < NUM_BANKS C)) (\<lambda>_.
              Inr (hasRoomFor C 2 (m_rank a) (m_bank a) (commandQueue m)))) 0 (transactionQueue m)) (\<lambda>x.
     case x of
       None \<Rightarrow> Inr m
     | Some (i, t) \<Rightarrow>
         let a = addressMapping C (t_address t); packet = (\<lambda>k. bp_setSender (t_sender_type t) (t_sender_id t)
               (new_BusPacket k (t_address t) (m_col a) (m_row a) (m_rank a) (m_bank a))) in
         bindE (getBusPacketType C t) (\<lambda>k.
         bindE (cq_enqueue C (packet ACTIVATE) (commandQueue m)) (\<lambda>q.
         bindE (cq_enqueue C (packet k) q) (\<lambda>q.
         Inr (m\<lparr>transactionQueue := take i (transactionQueue m) @ drop (i + 1) (transactionQueue m), commandQueue := q,
                pendingReadTransactions := (if transactionType t = DATA_READ then pendingReadTransactions m @ [t] else pendingReadTransactions m)\<rparr>)))))"

text \<open>Power-down and background energy of one rank.\<close>

definition set_power :: "dram_config \<Rightarrow> nat \<Rightarrow> bool \<Rightarrow> MemoryController \<Rightarrow> MemoryController" where
  "set_power C r down m =
     m\<lparr>powerDown := (powerDown m)(r := down),
       bankStates := each_bank C (\<lambda>i _ s. if i \<noteq> r then s
         else if down then s\<lparr>currentBankState := PowerDown, nextPowerUp := mc_clock m + tCKE C\<rparr>
         else s\<lparr>currentBankState := Idle, nextActivate := mc_clock m + tXP C\<rparr>) (bankStates m)\<rparr>"

definition background_cost :: "dram_config \<Rightarrow> nat \<Rightarrow> MemoryController \<Rightarrow> nat" where
  "background_cost C r m =
     (if \<exists>b\<in>set [0..<NUM_BANKS C]. currentBankState (bankStates m r b) \<in> {Refreshing, RowActive} then IDD3N C
      else if powerDown m r then IDD2P C else IDD2N C)"

definition ms_power :: "dram_config \<Rightarrow> nat \<Rightarrow> MemorySystem \<Rightarrow> MemorySystem result" where
  "ms_power C r s =
     bindE (if USE_LOW_POWER C then
              if cq_isEmpty C r (commandQueue (mc s)) \<and> \<not> rk_refreshWaiting (ranks s r) then
                if \<forall>b\<in>set [0..<NUM_BANKS C]. currentBankState (bankStates (mc s) r b) = Idle then
                  bindE (rk_powerDown C (ranks s r)) (\<lambda>k. Inr (s\<lparr>mc := set_power C r True (mc s), ranks := (ranks s)(r := k)\<rparr>))
                else Inr s
              else if mc_clock (mc s) \<ge> nextPowerUp (bankStates (mc s) r 0) \<and> powerDown (mc s) r then
                bindE (rk_powerUp C (ranks s r)) (\<lambda>k. Inr (s\<lparr>mc := set_power C r False (mc s), ranks := (ranks s)(r := k)\<rparr>))
              else Inr s
            else Inr s) (\<lambda>s.
     Inr (s\<lparr>mc := (mc s)\<lparr>backgroundEnergy := (backgroundEnergy (mc s))
              (r := backgroundEnergy (mc s) r + u32 (int (background_cost C r (mc s)) * int (NUM_DEVICES C)))\<rparr>\<rparr>))"

text \<open>The data that came back first goes to the first read of its address that waits.\<close>

definition mc_return :: "dram_config \<Rightarrow> MemoryController \<Rightarrow> (reply list \<times> MemoryController) result" where
  "mc_return C m =
     (case returnTransaction m of
        [] \<Rightarrow> Inr ([], m)
      | t # ts \<Rightarrow>
          (case first_index (\<lambda>x. t_address x = t_address t) (pendingReadTransactions m) of
             None \<Rightarrow> Inl (AssertFail ''Cannot find a matching transaction'')
           | Some i \<Rightarrow>
               let x = pendingReadTransactions m ! i; a = addressMapping C (t_address t); r = m_rank a; b = m_bank a; n = totalEpochLatency m in
               Inr ([(True, t_address x, t_sender_type x, t_sender_id x)],
                    m\<lparr>totalTransactions := totalTransactions m + 1,
                      totalEpochLatency := n(r := (n r)(b := n r b + u32 (int (mc_clock m) - int (timeAdded x)))),
                      pendingReadTransactions := take i (pendingReadTransactions m) @ drop (i + 1) (pendingReadTransactions m),
                      returnTransaction := ts\<rparr>)))"

definition mc_end_cycle :: "dram_config \<Rightarrow> MemoryController \<Rightarrow> MemoryController" where
  "mc_end_cycle C m =
     m\<lparr>refreshCountdown := (\<lambda>i. if i < NUM_RANKS C then dec32 (refreshCountdown m i) else refreshCountdown m i),
       commandQueue := (commandQueue m)\<lparr>cq_clock := cq_clock (commandQueue m) + 1\<rparr>\<rparr>"

definition lift_mc :: "(MemoryController \<Rightarrow> MemoryController result) \<Rightarrow> MemorySystem \<Rightarrow> MemorySystem result" where
  "lift_mc f s = bindE (f (mc s)) (\<lambda>m. Inr (s\<lparr>mc := m\<rparr>))"

definition controller_update :: "dram_config \<Rightarrow> real \<Rightarrow> MemorySystem \<Rightarrow> (reply list \<times> MemorySystem) result" where
  "controller_update C tCK s =
     bindE (ms_send_cmd C (s\<lparr>mc := mc_step_banks C (mc s)\<rparr>)) (\<lambda>s.
     bindE (ms_send_data C s) (\<lambda>(ws, s).
     bindE (lift_mc (mc_write_data C) s) (\<lambda>s.
     bindE (lift_mc (mc_issue C) (ms_refresh C tCK s)) (\<lambda>s.
     bindE (lift_mc (mc_schedule C) s) (\<lambda>s.
     bindE (foldE (ms_power C) [0..<NUM_RANKS C] s) (\<lambda>s.
     bindE (mc_return C (mc s)) (\<lambda>(rs, m).
     Inr (ws @ rs, s\<lparr>mc := mc_end_cycle C m\<rparr>))))))))"

subsection \<open>The channel\<close>

definition ms_addTransaction :: "dram_config \<Rightarrow> bool \<Rightarrow> addr \<Rightarrow> int \<Rightarrow> int \<Rightarrow> MemorySystem \<Rightarrow> bool \<times> MemorySystem" where
  "ms_addTransaction C isWrite addr sender_type sender_id s =
     (let trans = \<lparr>transactionType = (if isWrite then DATA_WRITE else DATA_READ), t_address = addr, timeAdded = 0,
                   t_sender_type = sender_type, t_sender_id = sender_id\<rparr> in
      if mc_WillAcceptTransaction C (mc s) then
        let (ok, m) = mc_addTransaction C trans (mc s) in (ok, s\<lparr>mc := m\<rparr>)
      else (True, s\<lparr>pendingTransactions := pendingTransactions s @ [trans]\<rparr>))"

definition ms_update_rank :: "dram_config \<Rightarrow> nat \<Rightarrow> MemorySystem \<Rightarrow> MemorySystem result" where
  "ms_update_rank C r s =
     (let (back, k) = rk_update C (ranks s r); s = s\<lparr>ranks := (ranks s)(r := k)\<rparr> in
      case back of None \<Rightarrow> Inr s | Some p \<Rightarrow> lift_mc (mc_receiveFromBus p) s)"

definition ms_admit :: "dram_config \<Rightarrow> MemorySystem \<Rightarrow> MemorySystem" where
  "ms_admit C s =
     (case pendingTransactions s of
        [] \<Rightarrow> s
      | t # ts \<Rightarrow> if mc_WillAcceptTransaction C (mc s)
                  then s\<lparr>mc := snd (mc_addTransaction C t (mc s)), pendingTransactions := ts\<rparr> else s)"

definition ms_step :: "dram_config \<Rightarrow> MemorySystem \<Rightarrow> MemorySystem" where
  "ms_step C s =
     s\<lparr>ranks := (\<lambda>r. if r < NUM_RANKS C then (ranks s r)\<lparr>rk_clock := rk_clock (ranks s r) + 1\<rparr> else ranks s r),
       mc := (mc s)\<lparr>mc_clock := mc_clock (mc s) + 1\<rparr>\<rparr>"

definition ms_update :: "dram_config \<Rightarrow> real \<Rightarrow> MemorySystem \<Rightarrow> (reply list \<times> MemorySystem) result" where
  "ms_update C tCK s =
     bindE (foldE (ms_update_rank C) [0..<NUM_RANKS C] s) (\<lambda>s.
     bindE (controller_update C tCK (ms_admit C s)) (\<lambda>(cs, s).
     Inr (cs, ms_step C s)))"

subsection \<open>Statistics\<close>

text \<open>What printing the statistics leaves behind: bandwidth, latency and energy of the epoch, and cleared counters.\<close>

definition mc_resetStats :: "dram_config \<Rightarrow> MemoryController \<Rightarrow> MemoryController" where
  "mc_resetStats C m =
     (let clear = (\<lambda>n r b. if r < NUM_RANKS C \<and> b < NUM_BANKS C then 0 else n r b); clear1 = (\<lambda>n r. if r < NUM_RANKS C then 0 else n r) in
      m\<lparr>totalReadsPerBank := clear (totalReadsPerBank m), totalWritesPerBank := clear (totalWritesPerBank m),
        totalEpochLatency := clear (totalEpochLatency m), burstEnergy := clear1 (burstEnergy m), actpreEnergy := clear1 (actpreEnergy m),
        refreshEnergy := clear1 (refreshEnergy m), backgroundEnergy := clear1 (backgroundEnergy m)\<rparr>)"

definition bank_list :: "dram_config \<Rightarrow> (nat \<times> nat) list" where
  "bank_list C = List.product [0..<NUM_RANKS C] [0..<NUM_BANKS C]"

definition epoch_bandwidth :: "dram_config \<Rightarrow> real \<Rightarrow> MemoryController \<Rightarrow> real" where
  "epoch_bandwidth C tCK m =
     (let secondsThisEpoch = real (mc_clock m - prevClockCycle m) * tCK / 10 ^ 9; bytesPerTransaction = JEDEC_DATA_BUS_BITS C * BL C div 8 in
      sum_list (map (\<lambda>(r, b). real (totalReadsPerBank m r b + totalWritesPerBank m r b) * real bytesPerTransaction / (1024 * 1024 * 1024) / secondsThisEpoch)
        (bank_list C)))"

definition epoch_latency :: "dram_config \<Rightarrow> real \<Rightarrow> MemoryController \<Rightarrow> real option" where
  "epoch_latency C tCK m =
     (let valid = filter (\<lambda>(r, b). totalReadsPerBank m r b \<noteq> 0) (bank_list C) in
      if valid = [] then None
      else Some (sum_list (map (\<lambda>(r, b). real (totalEpochLatency m r b) / real (totalReadsPerBank m r b) * tCK) valid) / real (length valid)))"

definition epoch_energy :: "dram_config \<Rightarrow> real \<Rightarrow> MemoryController \<Rightarrow> real" where
  "epoch_energy C Vdd m =
     sum_list (map (\<lambda>r. real (backgroundEnergy m r + burstEnergy m r + refreshEnergy m r + actpreEnergy m r) * Vdd / 10 ^ 9) [0..<NUM_RANKS C])"

definition mc_printStats :: "dram_config \<Rightarrow> real \<Rightarrow> real \<Rightarrow> MemoryController \<Rightarrow> MemoryController" where
  "mc_printStats C tCK Vdd m =
     mc_resetStats C (m\<lparr>prevClockCycle := mc_clock m, m_totalBandwidth := epoch_bandwidth C tCK m, m_latency := epoch_latency C tCK m,
       m_countPower := m_countPower m + 1, m_sumEnergy := m_sumEnergy m + epoch_energy C Vdd m\<rparr>)"

definition mc_getPower :: "MemoryController \<Rightarrow> real option \<times> MemoryController" where
  "mc_getPower m =
     (if m_countPower m = 0 then None else Some (m_sumEnergy m / real (m_countPower m)), m\<lparr>m_sumEnergy := 0, m_countPower := 0\<rparr>)"

end
