(* ===== verification/DS_Banks.thy ===== *)
theory DS_Banks
  imports DS_Pop DS_Control
begin

section \<open>DRAMSim2: the controller's view of the banks\<close>

text \<open>
  The controller keeps the state of every bank and issues only what that state allows; the rank keeps its own and checks what it
  receives. A command is one cycle on the bus. With open rows and a command bus of one cycle the two agree: the rank's bank is in the same phase,
  with the same row, and ready at most one cycle after the controller's (\<open>bank_sync\<close>). Whatever the controller issues, the rank
  accepts a cycle later, and they agree again.
\<close>

subsection \<open>What the controller may issue and what a rank accepts\<close>

definition may_issue :: "dram_config \<Rightarrow> bank_states \<Rightarrow> nat \<Rightarrow> BusPacket \<Rightarrow> bool" where
  "may_issue C bs now p \<longleftrightarrow>
     (let s = bs (bp_rank p) (bp_bank p) in
      bp_rank p < NUM_RANKS C \<and> bp_bank p < NUM_BANKS C \<and>
      (case busPacketType p of
         READ \<Rightarrow> currentBankState s = RowActive \<and> nextRead s \<le> now \<and> bp_row p = openRowAddress s
       | WRITE \<Rightarrow> currentBankState s = RowActive \<and> nextWrite s \<le> now \<and> bp_row p = openRowAddress s
       | ACTIVATE \<Rightarrow> (currentBankState s = Idle \<or> currentBankState s = Refreshing) \<and> nextActivate s \<le> now
       | PRECHARGE \<Rightarrow> currentBankState s = RowActive \<and> nextPrecharge s \<le> now
       | REFRESH \<Rightarrow> (\<forall>b<NUM_BANKS C. currentBankState (bs (bp_rank p) b) \<noteq> RowActive) \<and> currentBankState (bs (bp_rank p) 0) \<noteq> PowerDown
       | _ \<Rightarrow> False))"

text \<open>The checks of \<open>rk_receiveFromBus\<close> and the banks after it.\<close>

definition rk_allows :: "dram_config \<Rightarrow> BusPacket \<Rightarrow> nat \<Rightarrow> (nat \<Rightarrow> BankState) \<Rightarrow> bool" where
  "rk_allows C p now ks \<longleftrightarrow>
     (let s = ks (bp_bank p) in
      case busPacketType p of
        READ \<Rightarrow> currentBankState s = RowActive \<and> nextRead s \<le> now \<and> bp_row p = openRowAddress s
      | WRITE \<Rightarrow> currentBankState s = RowActive \<and> nextWrite s \<le> now \<and> bp_row p = openRowAddress s
      | ACTIVATE \<Rightarrow> currentBankState s = Idle \<and> nextActivate s \<le> now
      | PRECHARGE \<Rightarrow> currentBankState s = RowActive \<and> nextPrecharge s \<le> now
      | REFRESH \<Rightarrow> (\<forall>b<NUM_BANKS C. currentBankState (ks b) = Idle)
      | _ \<Rightarrow> False)"

definition rk_banks :: "dram_config \<Rightarrow> BusPacket \<Rightarrow> nat \<Rightarrow> (nat \<Rightarrow> BankState) \<Rightarrow> nat \<Rightarrow> BankState" where
  "rk_banks C p now ks =
     (let b = bp_bank p; s = ks b in
      case busPacketType p of
        READ \<Rightarrow> after_read C now (ks(b := s\<lparr>nextPrecharge := max (nextPrecharge s) (now + READ_TO_PRE_DELAY C)\<rparr>))
      | WRITE \<Rightarrow> after_write C now (ks(b := s\<lparr>nextPrecharge := max (nextPrecharge s) (now + WRITE_TO_PRE_DELAY C)\<rparr>))
      | ACTIVATE \<Rightarrow> all_banks C (\<lambda>i s. if i \<noteq> b then s\<lparr>nextActivate := max (nextActivate s) (now + tRRD C)\<rparr> else s)
            (ks(b := s\<lparr>currentBankState := RowActive, nextActivate := now + tRC C, openRowAddress := bp_row p,
                       nextWrite := now + ACT_TO_COL_DELAY C, nextRead := now + ACT_TO_COL_DELAY C, nextPrecharge := now + tRAS C\<rparr>))
      | PRECHARGE \<Rightarrow> ks(b := s\<lparr>currentBankState := Idle, nextActivate := max (nextActivate s) (now + tRP C)\<rparr>)
      | REFRESH \<Rightarrow> all_banks C (\<lambda>_ s. s\<lparr>nextActivate := now + tRFC C\<rparr>) ks
      | _ \<Rightarrow> ks)"

lemma rk_receiveFromBus_returns:
  assumes "rk_allows C p (rk_clock k) (rk_bankStates k)"
  shows "\<exists>k'. rk_receiveFromBus C p k = Inr k' \<and> rk_bankStates k' = rk_banks C p (rk_clock k) (rk_bankStates k) \<and>
    rk_clock k' = rk_clock k \<and> isPowerDown k' = isPowerDown k \<and> rk_outgoingDataPacket k' = rk_outgoingDataPacket k \<and>
    readReturnPacket k' = readReturnPacket k @ (if busPacketType p = READ then [p\<lparr>busPacketType := DATA\<rparr>] else []) \<and>
    length (readReturnCountdown k') = length (readReturnCountdown k) + (if busPacketType p = READ then 1 else 0)"
  using assms
  by (cases "busPacketType p")
    (auto simp: rk_receiveFromBus_def rk_allows_def rk_banks_def access_allowed_def return_later_def note_write_def Let_def)

text \<open>The banks of the controller after a command.\<close>

definition issued :: "dram_config \<Rightarrow> nat \<Rightarrow> BusPacket \<Rightarrow> bank_states \<Rightarrow> bank_states" where
  "issued C now p bs =
     (case busPacketType p of
        READ \<Rightarrow> issue_read C now p bs
      | WRITE \<Rightarrow> issue_write C now p bs
      | ACTIVATE \<Rightarrow> issue_activate C now p bs
      | PRECHARGE \<Rightarrow> issue_precharge C now p bs
      | REFRESH \<Rightarrow> issue_refresh C now p bs
      | _ \<Rightarrow> bs)"

subsection \<open>Agreement\<close>

definition phase :: "CurrentBankState \<Rightarrow> CurrentBankState" where
  "phase x = (case x of RowActive \<Rightarrow> RowActive | PowerDown \<Rightarrow> PowerDown | _ \<Rightarrow> Idle)"

definition bank_sync :: "BankState \<Rightarrow> BankState \<Rightarrow> bool" where
  "bank_sync s k \<longleftrightarrow>
     currentBankState k = phase (currentBankState s) \<and> (currentBankState s = RowActive \<longrightarrow> openRowAddress k = openRowAddress s) \<and>
     nextRead k \<le> nextRead s + 1 \<and> nextWrite k \<le> nextWrite s + 1 \<and> nextActivate k \<le> nextActivate s + 1 \<and> nextPrecharge k \<le> nextPrecharge s + 1"

definition sync :: "dram_config \<Rightarrow> (nat \<Rightarrow> BankState) \<Rightarrow> (nat \<Rightarrow> BankState) \<Rightarrow> bool" where
  "sync C ss ks \<longleftrightarrow> (\<forall>b<NUM_BANKS C. bank_sync (ss b) (ks b))"

lemma phase_simps [simp]:
  "phase Idle = Idle" "phase Precharging = Idle" "phase Refreshing = Idle" "phase RowActive = RowActive" "phase PowerDown = PowerDown"
  "phase x = RowActive \<longleftrightarrow> x = RowActive" "phase x = PowerDown \<longleftrightarrow> x = PowerDown"
  by (simp_all add: phase_def split: CurrentBankState.split)

lemma phase_Idle: "phase x = Idle \<longleftrightarrow> x \<noteq> RowActive \<and> x \<noteq> PowerDown"
  by (cases x) simp_all

text \<open>The other ranks only see their accesses delayed.\<close>

lemma issued_other:
  assumes "may_issue C bs now p" "r \<noteq> bp_rank p" "sync C (bs r) ks"
  shows "sync C (issued C now p bs r) ks"
  using assms
  by (cases "busPacketType p")
    (auto simp: may_issue_def issued_def issue_read_def issue_write_def issue_activate_def issue_precharge_def issue_refresh_def
      upd_bank_def each_bank_def sync_def bank_sync_def Let_def)

lemma refresh_idle:
  assumes "may_issue C bs now p" "busPacketType p = REFRESH" "\<forall>b<NUM_BANKS C. currentBankState (bs (bp_rank p) b) = PowerDown \<longleftrightarrow> pd"
  shows "\<forall>b<NUM_BANKS C. phase (currentBankState (bs (bp_rank p) b)) = Idle"
  using assms by (fastforce simp: may_issue_def phase_Idle Let_def)

lemma rank_accepts:
  assumes "may_issue C bs now p" "sync C (bs (bp_rank p)) ks" "\<forall>b<NUM_BANKS C. currentBankState (bs (bp_rank p) b) = PowerDown \<longleftrightarrow> pd"
  shows "rk_allows C p (now + 1) ks"
proof (cases "busPacketType p = REFRESH")
  case True
  with refresh_idle [OF assms(1) True assms(3)] assms(2) show ?thesis by (simp add: rk_allows_def sync_def bank_sync_def)
next
  case False
  then show ?thesis using assms(1,2)
    by (cases "busPacketType p") (force simp: may_issue_def rk_allows_def sync_def bank_sync_def Let_def)+
qed

lemma rank_agrees:
  assumes "may_issue C bs now p" "sync C (bs (bp_rank p)) ks" "\<forall>b<NUM_BANKS C. currentBankState (bs (bp_rank p) b) = PowerDown \<longleftrightarrow> pd"
  shows "sync C (issued C now p bs (bp_rank p)) (rk_banks C p (now + 1) ks)"
  using assms(1,2) refresh_idle [OF assms(1) _ assms(3)]
  by (cases "busPacketType p")
    (auto simp: may_issue_def issued_def issue_read_def issue_write_def issue_activate_def issue_precharge_def issue_refresh_def
      rk_banks_def after_read_def after_write_def all_banks_def upd_bank_def each_bank_def sync_def bank_sync_def Let_def)

subsection \<open>The controller's banks\<close>

text \<open>A countdown only runs while a bank closes or is refreshed, and a rank is powered down as a whole.\<close>

definition bank_ok :: "BankState \<Rightarrow> bool" where
  "bank_ok s \<longleftrightarrow>
     lastCommand s \<noteq> READ_P \<and> lastCommand s \<noteq> WRITE_P \<and> (currentBankState s \<in> {Idle, PowerDown} \<longrightarrow> stateChangeCountdown s = 0) \<and>
     (currentBankState s = RowActive \<longrightarrow> lastCommand s \<noteq> PRECHARGE \<and> lastCommand s \<noteq> REFRESH)"

definition banks_ok :: "dram_config \<Rightarrow> bank_states \<Rightarrow> (nat \<Rightarrow> bool) \<Rightarrow> bool" where
  "banks_ok C bs pd \<longleftrightarrow> (\<forall>r<NUM_RANKS C. \<forall>b<NUM_BANKS C. bank_ok (bs r b) \<and> (currentBankState (bs r b) = PowerDown \<longleftrightarrow> pd r))"

lemma step_bank_ok:
  assumes "bank_ok s"
  shows "bank_ok (step_bank C s)" "phase (currentBankState (step_bank C s)) = phase (currentBankState s)"
    "currentBankState (step_bank C s) = RowActive \<longleftrightarrow> currentBankState s = RowActive"
    "currentBankState (step_bank C s) = PowerDown \<longleftrightarrow> currentBankState s = PowerDown"
  using assms by (cases "currentBankState s"; auto simp: bank_ok_def step_bank_def Let_def split: BusPacketType.split)+

lemma step_bank_times [simp]:
  "openRowAddress (step_bank C s) = openRowAddress s" "nextRead (step_bank C s) = nextRead s" "nextWrite (step_bank C s) = nextWrite s"
  "nextActivate (step_bank C s) = nextActivate s" "nextPrecharge (step_bank C s) = nextPrecharge s" "nextPowerUp (step_bank C s) = nextPowerUp s"
  by (simp_all add: step_bank_def Let_def split: BusPacketType.split)

lemma step_bank_sync: "bank_ok s \<Longrightarrow> bank_sync (step_bank C s) k \<longleftrightarrow> bank_sync s k"
  by (simp add: bank_sync_def step_bank_ok)

lemma issued_ok:
  assumes "may_issue C bs now p" "banks_ok C bs pd"
  shows "banks_ok C (issued C now p bs) pd"
  using assms
  by (cases "busPacketType p")
    (auto simp: may_issue_def issued_def issue_read_def issue_write_def issue_activate_def issue_precharge_def issue_refresh_def
      upd_bank_def each_bank_def banks_ok_def bank_ok_def Let_def)

text \<open>The packets in the queues.\<close>

definition wf_queues :: "dram_config \<Rightarrow> (nat \<Rightarrow> nat \<Rightarrow> BusPacket list) \<Rightarrow> bool" where
  "wf_queues C qs \<longleftrightarrow> (\<forall>r<NUM_RANKS C. \<forall>b<NUM_BANKS C. length (qs r b) \<le> CMD_QUEUE_DEPTH C \<and>
     (\<forall>p\<in>set (qs r b). bp_rank p < NUM_RANKS C \<and> bp_bank p < NUM_BANKS C \<and> busPacketType p \<in> {ACTIVATE, READ, WRITE}))"

lemma pops_may_issue:
  assumes "pops C bs q p qs" "wf_queues C (queues q)" "0 < NUM_BANKS C"
  shows "may_issue C bs (cq_clock q) p"
  using assms(1)
proof cases
  case (queued r b ps i k)
  then have "p \<in> set (queues q r (queue_index C b))" by (simp add: getCommandQueue_def)
  moreover have "queue_index C b < NUM_BANKS C" using queued(4) by (simp add: queue_index_def split: QueuingStructure.split)
  ultimately have "bp_rank p < NUM_RANKS C" "bp_bank p < NUM_BANKS C" "busPacketType p \<in> {ACTIVATE, READ, WRITE}"
    using assms(2) queued(3) unfolding wf_queues_def by blast+
  then show ?thesis using queued(1,7) by (auto simp: may_issue_def isIssuable_def Let_def)
qed (use assms(3) in \<open>auto simp: may_issue_def new_BusPacket_def Let_def\<close>)

lemma pops_wf_queues:
  assumes "pops C bs q p qs" "wf_queues C (queues q)"
  shows "wf_queues C qs"
  using assms(1)
proof cases
  case (queued r b ps i k)
  have "k \<le> i" using queued(8) by auto
  then have "length (take k ps @ drop (i + 1) ps) \<le> length ps" using queued(6) by simp
  moreover have "set (take k ps @ drop (i + 1) ps) \<subseteq> set ps" by (auto dest: in_set_takeD in_set_dropD)
  moreover have "ps = queues q r (queue_index C b)" using queued(5) by (simp add: getCommandQueue_def)
  ultimately show ?thesis using assms(2) unfolding queued(2) by (fastforce simp: wf_queues_def)
qed (use assms(2) in auto)

end
