(* ===== verification/DS_Turn.thy ===== *)
theory DS_Turn
  imports DS_Banks
begin

section \<open>DRAMSim2: taking a command always ends\<close>

text \<open>
  The loops of \<open>CommandQueue::pop\<close> go round the ranks and banks and end where they started: the positions are numbered in the
  order the scheduling policy visits them. With queues of commands only and its indices in range, \<open>cq_pop\<close> returns and keeps
  them in range.
\<close>

lemma round_robin_returns:
  assumes code: "\<And>p. V p \<Longrightarrow> V (nxt p) \<and> code p < N \<and> code (nxt p) = (code p + 1) mod N"
    and start: "V start" "\<And>p. V p \<Longrightarrow> code p = code start \<Longrightarrow> p = start"
    and body: "\<And>p. V p \<Longrightarrow> \<exists>x. body p = Inr x"
  shows "V p \<Longrightarrow> (if code p < code start then code start - code p else N + code start - code p) \<le> n \<Longrightarrow>
    \<exists>x p'. round_robin n nxt start body p = Inr (x, p') \<and> V p'"
proof (induction n arbitrary: p)
  case 0
  then show ?case using code [OF 0(1)] by (auto split: if_splits)
next
  case (Suc n)
  note p = code [OF Suc(2)] and s = code [OF start(1)]
  obtain x where x: "body p = Inr x" using body [OF Suc(2)] by blast
  have "\<exists>x p'. round_robin n nxt start body (nxt p) = Inr (x, p') \<and> V p'" if "nxt p \<noteq> start"
  proof (rule Suc(1))
    have "code (nxt p) \<noteq> code start" using that start(2) p by blast
    with p s Suc(3) show "(if code (nxt p) < code start then code start - code (nxt p) else N + code start - code (nxt p)) \<le> n"
      by (cases "code p + 1 = N") (auto split: if_splits)
  qed (use p in blast)
  then show ?case using x Suc(2) start(1) by (cases x) (auto simp: Let_def)
qed

definition in_range :: "dram_config \<Rightarrow> nat \<times> nat \<Rightarrow> bool" where
  "in_range C x \<longleftrightarrow> fst x < NUM_RANKS C \<and> snd x < NUM_BANKS C"

definition turn :: "dram_config \<Rightarrow> nat \<times> nat \<Rightarrow> nat" where
  "turn C = (\<lambda>(r, b). case schedulingPolicy C of
     RankThenBankRoundRobin \<Rightarrow> b * NUM_RANKS C + r | BankThenRankRoundRobin \<Rightarrow> r * NUM_BANKS C + b)"

lemma digits_less: "r < m \<Longrightarrow> b < n \<Longrightarrow> b * m + r < m * (n::nat)"
proof -
  assume "r < m" "b < n"
  then have "b * m + r < Suc b * m" "Suc b * m \<le> n * m" by (simp, intro mult_le_mono1) simp
  then show ?thesis by (simp add: mult.commute)
qed

lemma turn_less: "in_range C x \<Longrightarrow> turn C x < positions C"
  using digits_less [of "fst x" "NUM_RANKS C" "snd x" "NUM_BANKS C"] digits_less [of "snd x" "NUM_BANKS C" "fst x" "NUM_RANKS C"]
  by (cases x) (simp add: turn_def in_range_def mult.commute split: SchedulingPolicy.split)

lemma digits_inj: "r < m \<Longrightarrow> r' < m \<Longrightarrow> b * m + r = b' * m + r' \<Longrightarrow> r = r' \<and> b = (b'::nat)"
  by (metis add.commute div_mult_self3 div_less mod_less mod_mult_self1 less_nat_zero_code add_0 neq0_conv)

lemma turn_inj: "in_range C x \<Longrightarrow> in_range C y \<Longrightarrow> turn C x = turn C y \<Longrightarrow> x = y"
  using digits_inj [of "fst x" "NUM_RANKS C" "fst y" "snd x" "snd y"] digits_inj [of "snd x" "NUM_BANKS C" "snd y" "fst x" "fst y"]
  by (cases x; cases y) (simp add: turn_def in_range_def split: SchedulingPolicy.splits)

lemma turn_next:
  assumes "in_range C x"
  shows "in_range C (nextRankAndBank C x)" "turn C (nextRankAndBank C x) = (turn C x + 1) mod positions C"
proof -
  show "in_range C (nextRankAndBank C x)"
    using assms by (cases x) (auto simp: in_range_def nextRankAndBank_def split: SchedulingPolicy.split)
  obtain r b where x: "x = (r, b)" "r < NUM_RANKS C" "b < NUM_BANKS C" using assms by (cases x) (simp add: in_range_def)
  show "turn C (nextRankAndBank C x) = (turn C x + 1) mod positions C"
  proof (cases "turn C x + 1 = positions C")
    case True
    have "turn C (NUM_RANKS C - 1, NUM_BANKS C - 1) + 1 = positions C"
      using x by (cases "NUM_RANKS C"; cases "NUM_BANKS C") (simp_all add: turn_def split: SchedulingPolicy.split)
    then have "x = (NUM_RANKS C - 1, NUM_BANKS C - 1)"
      using True x by (intro turn_inj [OF assms]) (auto simp: in_range_def)
    then show ?thesis using True x by (auto simp: nextRankAndBank_def turn_def split: SchedulingPolicy.splits)
  next
    case False
    then have "(turn C x + 1) mod positions C = turn C x + 1" using turn_less [OF assms] by simp
    moreover have "turn C (nextRankAndBank C x) = turn C x + 1"
      using False x
      by (cases "NUM_RANKS C"; cases "NUM_BANKS C")
        (auto simp: turn_def nextRankAndBank_def split: SchedulingPolicy.splits)
    ultimately show ?thesis by simp
  qed
qed


lemma bank_loop_returns:
  assumes "in_range C start" "\<And>x. in_range C x \<Longrightarrow> \<exists>y. body x = Inr y"
  shows "\<exists>y x. round_robin (positions C) (nextRankAndBank C) start body start = Inr (y, x) \<and> in_range C x"
  by (rule round_robin_returns [where V = "in_range C" and code = "turn C" and N = "positions C"])
    (use assms turn_next turn_less turn_inj in auto)

lemma queue_loop_returns:
  assumes "in_range C start" "\<And>x. in_range C x \<Longrightarrow> \<exists>y. body x = Inr y"
  shows "\<exists>y x. round_robin (positions C) (next_queue C) start body start = Inr (y, x) \<and> in_range C x"
proof (cases "queuingStructure C")
  case PerRankPerBank
  then have "next_queue C = nextRankAndBank C" by (simp add: next_queue_def fun_eq_iff)
  with bank_loop_returns [OF assms] show ?thesis by simp
next
  case PerRank
  let ?V = "\<lambda>x. fst x < NUM_RANKS C \<and> snd x = snd start"
  have "NUM_RANKS C * 1 \<le> positions C" using assms(1) by (intro mult_le_mono2) (auto simp: in_range_def)
  have "\<exists>y x. round_robin (positions C) (next_queue C) start body start = Inr (y, x) \<and> ?V x"
  proof (rule round_robin_returns [where V = ?V and code = fst and N = "NUM_RANKS C"])
    fix x :: "nat \<times> nat" assume x: "?V x"
    then show "?V (next_queue C x) \<and> fst x < NUM_RANKS C \<and> fst (next_queue C x) = (fst x + 1) mod NUM_RANKS C"
      by (cases x) (auto simp: next_queue_def PerRank)
    show "\<exists>y. body x = Inr y" using assms x by (simp add: in_range_def)
  next
    fix x :: "nat \<times> nat" assume "?V x" "fst x = fst start"
    then show "x = start" by (simp add: prod_eq_iff)
  qed (use assms(1) \<open>NUM_RANKS C * 1 \<le> positions C\<close> in \<open>auto simp: in_range_def\<close>)
  then show ?thesis using assms(1) by (auto simp: in_range_def)
qed

subsection \<open>The steps\<close>

definition cq_ok :: "dram_config \<Rightarrow> CommandQueue \<Rightarrow> bool" where
  "cq_ok C q \<longleftrightarrow> in_range C (nextRank q, nextBank q) \<and> in_range C (nextRankPRE q, nextBankPRE q) \<and>
     (cq_refreshWaiting q \<longrightarrow> cq_refreshRank q < NUM_RANKS C)"

lemma wf_queues_packet:
  assumes "wf_queues C (queues q)" "r < NUM_RANKS C" "b < NUM_BANKS C" "p \<in> set (getCommandQueue C r b q)"
  shows "busPacketType p \<in> {ACTIVATE, READ, WRITE}" "\<exists>v. isIssuable C bs q' p = Inr v"
proof -
  have "queue_index C b < NUM_BANKS C" using assms(3) by (simp add: queue_index_def split: QueuingStructure.split)
  with assms show k: "busPacketType p \<in> {ACTIVATE, READ, WRITE}" unfolding wf_queues_def getCommandQueue_def by blast
  then show "\<exists>v. isIssuable C bs q' p = Inr v" by (auto simp: isIssuable_def Let_def)
qed

lemma take_command_returns: "i < length (getCommandQueue C r b q) \<Longrightarrow> \<exists>q'. take_command C r b i p q = Inr q'"
  by (simp add: take_command_def Let_def boundsE_def)

lemma open_step_returns:
  assumes "wf_queues C (queues q)" "in_range C x"
  shows "\<exists>y. open_step C bs q x = Inr y"
proof -
  obtain r b where x: "x = (r, b)" "r < NUM_RANKS C" "b < NUM_BANKS C" using assms(2) by (cases x) (simp add: in_range_def)
  let ?ps = "getCommandQueue C r b q"
  note wf = wf_queues_packet [OF assms(1) x(2,3)]
  have "busPacketType p \<noteq> DATA" if "p \<in> set ?ps" for p using wf(1) [OF that] by auto
  then obtain i pk where f: "frfcfs_search C bs q ?ps = Inr (i, pk)" using frfcfs_search_returns [of ?ps C bs q] by blast
  note fi = frfcfs_search_first(1) [OF f]
  have t: "\<exists>q'. take_command C r b i p (q1 :: CommandQueue) = Inr q'" if "pk = Some p" "queues q1 = queues q" for p q1
  proof (rule take_command_returns)
    have "i < length ?ps" using first_issuable_SomeD(1) [of C bs q ?ps i p] fi that(1) by simp
    then show "i < length (getCommandQueue C r b q1)" by (simp add: getCommandQueue_def that(2))
  qed
  show ?thesis
  proof (cases pk)
    case None
    with f fi x show ?thesis by (simp add: open_step_def boundsE_def Let_def)
  next
    case (Some p)
    obtain q1 q2 where "take_command C r b i p q = Inr q1" "take_command C r b i p (count_row_hits bs p q) = Inr q2"
      using t [OF Some, of q] t [OF Some, of "count_row_hits bs p q"] by auto
    with f fi Some x show ?thesis by (simp add: open_step_def boundsE_def Let_def)
  qed
qed

lemma open_refresh_returns:
  assumes "wf_queues C (queues q)" "cq_ok C q"
  shows "\<exists>y. open_refresh C bs q = Inr y"
proof (cases "cq_refreshWaiting q")
  case True
  let ?r = "cq_refreshRank q"
  have r: "?r < NUM_RANKS C" using assms(2) True by (simp add: cq_ok_def)
  show ?thesis
  proof (cases "refresh_obstacle C bs q")
    case None
    with True r show ?thesis by (simp add: open_refresh_def boundsE_def Let_def)
  next
    case (Some b)
    note b = refresh_obstacle_Some [OF Some]
    have "\<exists>v. isIssuable C bs q p = Inr v" if "to_open_row bs ?r b (getCommandQueue C ?r b q) = Some (j, p)" for j p
      using wf_queues_packet(2) [OF assms(1) r b] to_open_row_SomeD [OF that] by (metis nth_mem)
    then show ?thesis using True r Some
      by (cases "to_open_row bs ?r b (getCommandQueue C ?r b q)") (fastforce simp: open_refresh_def boundsE_def Let_def)+
  qed
qed (simp add: open_refresh_def)


text \<open>The indices of the queue, whatever is given out.\<close>

abbreviation indices :: "CommandQueue \<Rightarrow> nat \<times> nat \<times> bool \<times> nat" where
  "indices q \<equiv> (nextRankPRE q, nextBankPRE q, cq_refreshWaiting q, cq_refreshRank q)"

lemma take_command_indices: "take_command C r b i p q = Inr q' \<Longrightarrow> indices q' = indices q"
  by (cases "0 < i \<and> busPacketType (getCommandQueue C r b q ! (i - 1)) = ACTIVATE") (auto simp: take_command_def setCommandQueue_def Let_def)

lemma count_row_hits_indices: "indices (count_row_hits bs p q) = indices q"
  by (simp add: count_row_hits_def Let_def)

lemma open_step_indices:
  assumes "open_step C bs q x = Inr (Some (p, q'))"
  shows "indices q' = indices q"
proof -
  obtain r b where x: "x = (r, b)" by (cases x)
  from assms obtain i q1 where "take_command C r b i p q1 = Inr q'" "indices q1 = indices q"
    using count_row_hits_indices [of bs p q] by (auto simp: open_step_def x Let_def split: if_split_asm option.splits)
  then show ?thesis by (auto dest: take_command_indices)
qed

lemma over_queues_returns:
  assumes "wf_queues C (queues q)" "cq_ok C q"
  shows "\<exists>pk q'. over_queues C (open_step C bs) q = Inr (pk, q') \<and> cq_ok C q'"
proof -
  obtain y x where x: "round_robin (positions C) (next_queue C) (nextRank q, nextBank q) (open_step C bs q) (nextRank q, nextBank q) = Inr (y, x)"
    "in_range C x"
    using queue_loop_returns [of C "(nextRank q, nextBank q)" "open_step C bs q"] open_step_returns [OF assms(1)] assms(2) by (auto simp: cq_ok_def)
  show ?thesis
  proof (cases y)
    case None
    with x assms(2) show ?thesis by (cases x) (simp add: over_queues_def cq_ok_def)
  next
    case (Some z)
    obtain p q1 where z: "y = Some (p, q1)" using Some by (cases z) simp
    from open_step_indices [OF round_robin_Some [OF x(1) [unfolded z]]] x assms(2) show ?thesis
      by (cases x) (simp add: over_queues_def cq_ok_def z)
  qed
qed

lemma close_bank_returns:
  assumes "cq_ok C q"
  shows "\<exists>pk q'. close_bank C bs q = Inr (pk, q') \<and> cq_ok C q'"
proof -
  let ?idle = "\<lambda>(r, b).
    bindE (boundsE ''queues'' (r < NUM_RANKS C \<and> b < NUM_BANKS C)) (\<lambda>_.
    let s = bs r b; found = (\<exists>p\<in>set (getCommandQueue C r b q). bp_bank p = b \<and> bp_row p = openRowAddress s) in
    Inr (if currentBankState s = RowActive \<and> (\<not> found \<or> rowAccessCounters q r b = TOTAL_ROW_ACCESSES C) \<and> cq_clock q \<ge> nextPrecharge s
         then Some (r, b) else None))"
  let ?start = "(nextRankPRE q, nextBankPRE q)"
  obtain y x where x: "round_robin (positions C) (nextRankAndBank C) ?start ?idle ?start = Inr (y, x)" "in_range C x"
    using bank_loop_returns [of C ?start ?idle] assms by (auto simp: cq_ok_def in_range_def Let_def)
  then show ?thesis using assms
    by (cases x) (auto simp: close_bank_def cq_ok_def clear_row_accesses_def Let_def split: option.split)
qed

lemma open_refresh_ok:
  assumes "open_refresh C bs q = Inr (Some (p, q'))" "cq_ok C q"
  shows "cq_ok C q'"
  using assms
  by (auto simp: open_refresh_def cq_ok_def send_refresh_def drop_command_def setCommandQueue_def clear_row_accesses_def Let_def
      split: if_splits option.splits)

lemma cq_ok_simps [simp]: "cq_ok C (tick_tFAW C q) = cq_ok C q" "cq_ok C q \<Longrightarrow> cq_ok C (after_pop C p q)"
  using turn_next(1) [of C "(nextRank q, nextBank q)"]
  by (auto simp: cq_ok_def tick_tFAW_def after_pop_def Let_def split: prod.split)

lemma cq_pop_returns:
  assumes "rowBufferPolicy C = OpenPage" "wf_queues C (queues q)" "cq_ok C q"
  shows "\<exists>pk q'. cq_pop C bs q = Inr (pk, q') \<and> cq_ok C q'"
proof -
  let ?q = "tick_tFAW C q"
  have q: "wf_queues C (queues ?q)" "cq_ok C ?q" using assms(2,3) by simp_all
  obtain y where y: "open_refresh C bs ?q = Inr y" using open_refresh_returns [OF q] by blast
  obtain pk2 q2 where o: "over_queues C (open_step C bs) ?q = Inr (pk2, q2)" "cq_ok C q2" using over_queues_returns [OF q] by blast
  obtain pk3 q3 where c: "close_bank C bs q2 = Inr (pk3, q3)" "cq_ok C q3" using close_bank_returns [OF o(2)] by blast
  show ?thesis
  proof (cases y)
    case None
    with y o c assms(1) show ?thesis by (cases pk2; cases pk3) (simp_all add: cq_pop_def)
  next
    case (Some z)
    then obtain p q1 where z: "y = Some (p, q1)" by (cases z) simp
    from open_refresh_ok [OF y [unfolded z] q(2)] y z assms(1) show ?thesis by (simp add: cq_pop_def)
  qed
qed

end
