(* ===== verification/DS_Bus.thy ===== *)
theory DS_Bus
  imports DS_Banks
begin

section \<open>DRAMSim2: the data bus of the writes\<close>

text \<open>
  The data of a write goes out \<open>WL\<close> cycles after its command and takes the bus for \<open>BL / 2\<close>. The controller keeps the cycles left for
  each (\<open>writeDataCountdown\<close>) and stops if two meet. They do not: \<open>spaced\<close> says that the bus is free again before the data that is next,
  and \<open>busy\<close> when it is free after all of them; no open bank takes a write whose data would come earlier.
\<close>

fun spaced :: "nat \<Rightarrow> nat \<Rightarrow> nat list \<Rightarrow> bool" where
  "spaced g d [] = True"
| "spaced g d (c # cs) = (d \<le> c \<and> spaced g (c + g) cs)"

fun busy :: "nat \<Rightarrow> nat \<Rightarrow> nat list \<Rightarrow> nat" where
  "busy g d [] = d"
| "busy g d (c # cs) = busy g (c + g) cs"

lemma spaced_append: "spaced g d (cs @ [w]) \<longleftrightarrow> spaced g d cs \<and> busy g d cs \<le> w"
  by (induction g d cs rule: spaced.induct) auto

lemma busy_append: "busy g d (cs @ [w]) = w + g"
  by (induction g d cs rule: busy.induct) auto

lemma spaced_dec:
  "spaced g d cs \<Longrightarrow> 0 < d \<Longrightarrow> spaced g (d - 1) (map dec32 cs) \<and> busy g d cs = Suc (busy g (d - 1) (map dec32 cs))"
proof (induction g d cs rule: spaced.induct)
  case (2 g d c cs)
  then have c: "0 < c" "d \<le> c" by auto
  then have "c + g - 1 = dec32 c + g" by simp
  with 2 c show ?case by auto
qed simp

text \<open>What is left of the packet on the bus; a bus without one is free in the next cycle.\<close>

definition bus_left :: "MemoryController \<Rightarrow> nat" where
  "bus_left m = (case outgoingDataPacket m of None \<Rightarrow> 1 | Some p \<Rightarrow> dataCyclesLeft m)"

lemma bus_left_upd [simp]:
  "bus_left (m\<lparr>bankStates := bs\<rparr>) = bus_left m" "bus_left (m\<lparr>writeDataToSend := ps\<rparr>) = bus_left m"
  "bus_left (m\<lparr>writeDataCountdown := cs\<rparr>) = bus_left m"
  by (simp_all add: bus_left_def split: option.split)

abbreviation bus_busy :: "dram_config \<Rightarrow> MemoryController \<Rightarrow> nat" where
  "bus_busy C m \<equiv> busy (BL C div 2) (bus_left m) (writeDataCountdown m)"

text \<open>\<open>e\<close> is 1 between two updates, when the countdowns of the next cycle have not been taken yet, and 0 within one.\<close>

definition bus_inv :: "dram_config \<Rightarrow> nat \<Rightarrow> MemoryController \<Rightarrow> bool" where
  "bus_inv C e m \<longleftrightarrow>
     0 < bus_left m \<and> spaced (BL C div 2) (bus_left m) (writeDataCountdown m) \<and> length (writeDataToSend m) = length (writeDataCountdown m) \<and>
     (\<forall>p\<in>set (writeDataToSend m) \<union> set_option (outgoingDataPacket m). busPacketType p = DATA) \<and>
     bus_busy C m \<le> WL C + BL C div 2 \<and>
     (\<forall>r<NUM_RANKS C. \<forall>b<NUM_BANKS C. currentBankState (bankStates m r b) = RowActive \<longrightarrow>
        mc_clock m + bus_busy C m \<le> max (mc_clock m) (nextWrite (bankStates m r b)) + WL C + e)"

lemma ms_send_data_bus:
  assumes "bus_inv C 1 (mc s)"
  shows "\<exists>ws s'. ms_send_data C s = Inr (ws, s') \<and> ranks s' = ranks s \<and> pendingTransactions s' = pendingTransactions s \<and>
    (\<exists>d pk. mc s' = (mc s)\<lparr>dataCyclesLeft := d, outgoingDataPacket := pk\<rparr> \<and>
      bus_left (mc s) - 1 = (case pk of None \<Rightarrow> 0 | Some p \<Rightarrow> d) \<and> (\<forall>p. pk = Some p \<longrightarrow> 0 < d \<and> busPacketType p = DATA))"
proof (cases "outgoingDataPacket (mc s)")
  case None
  then show ?thesis
    by (auto simp: ms_send_data_def bus_left_def intro!: exI [of _ "dataCyclesLeft (mc s)"] exI [of _ None])
next
  case (Some p)
  from assms Some have p: "busPacketType p = DATA" "0 < dataCyclesLeft (mc s)" by (auto simp: bus_inv_def bus_left_def)
  let ?d = "dataCyclesLeft (mc s) - 1"
  show ?thesis
  proof (cases "?d = 0")
    case True
    with Some p show ?thesis
      by (auto simp: ms_send_data_def bus_left_def rk_receiveFromBus_def Let_def intro!: exI [of _ 0] exI [of _ None])
  next
    case False
    with Some p show ?thesis
      by (auto simp: ms_send_data_def bus_left_def Let_def intro!: exI [of _ ?d] exI [of _ "Some p"])
  qed
qed


lemma mc_write_data_bus:
  assumes inv: "bus_inv C 1 m" and C: "1 \<le> WL C" "2 \<le> BL C"
    and d: "bus_left m - 1 = (case pk of None \<Rightarrow> 0 | Some p \<Rightarrow> d)" "\<forall>p. pk = Some p \<longrightarrow> 0 < d \<and> busPacketType p = DATA"
  shows "\<exists>d' pk' cs ps n w. mc_write_data C (m\<lparr>dataCyclesLeft := d, outgoingDataPacket := pk\<rparr>) =
      Inr (m\<lparr>dataCyclesLeft := d', outgoingDataPacket := pk', writeDataCountdown := cs, writeDataToSend := ps, totalTransactions := n, totalWritesPerBank := w\<rparr>) \<and>
    bus_inv C 0 (m\<lparr>dataCyclesLeft := d', outgoingDataPacket := pk', writeDataCountdown := cs, writeDataToSend := ps\<rparr>) \<and>
    bus_busy C (m\<lparr>dataCyclesLeft := d', outgoingDataPacket := pk', writeDataCountdown := cs\<rparr>) < WL C + BL C div 2"
proof -
  let ?g = "BL C div 2" and ?l = "bus_left m - 1" and ?cs = "map dec32 (writeDataCountdown m)"
  let ?m = "m\<lparr>dataCyclesLeft := d, outgoingDataPacket := pk\<rparr>"
  have g: "1 \<le> ?g" using C(2) by simp
  have dec: "spaced ?g ?l ?cs" "bus_busy C m = Suc (busy ?g ?l ?cs)"
    using inv spaced_dec [of ?g "bus_left m" "writeDataCountdown m"] by (auto simp: bus_inv_def)
  have len: "length (writeDataToSend m) = length ?cs" using inv by (simp add: bus_inv_def)
  have data: "\<forall>p\<in>set (writeDataToSend m). busPacketType p = DATA" using inv by (auto simp: bus_inv_def)
  have old: "busy ?g ?l ?cs < WL C + ?g" "\<And>r b. r < NUM_RANKS C \<Longrightarrow> b < NUM_BANKS C \<Longrightarrow> currentBankState (bankStates m r b) = RowActive \<Longrightarrow>
      mc_clock m + busy ?g ?l ?cs \<le> max (mc_clock m) (nextWrite (bankStates m r b)) + WL C"
    using inv dec(2) by (auto simp: bus_inv_def)
  show ?thesis
  proof (cases "\<exists>ns. ?cs = 0 # ns")
    case True
    then obtain ns where ns: "?cs = 0 # ns" ..
    with len obtain p ps where ps: "writeDataToSend m = p # ps" by (cases "writeDataToSend m") auto
    have "?l = 0" using dec(1) ns by simp
    with d have pk: "pk = None" by (auto split: option.splits)
    let ?m' = "m\<lparr>dataCyclesLeft := ?g, outgoingDataPacket := Some p, writeDataCountdown := ns, writeDataToSend := ps\<rparr>"
    have "bus_inv C 0 ?m'" "bus_busy C ?m' < WL C + ?g"
      using g dec(1) old len data unfolding bus_inv_def by (auto simp: ns ps bus_left_def)
    then show ?thesis using ns ps pk
      by - (rule exI [of _ ?g], rule exI [of _ "Some p"], rule exI [of _ ns], rule exI [of _ ps], rule exI [of _ "totalTransactions m + 1"],
        rule exI [of _ "let w = totalWritesPerBank m; r = bp_rank p; b = bp_bank p in w(r := (w r)(b := w r b + 1))"],
        auto simp: mc_write_data_def bus_left_def Let_def)
  next
    case False
    let ?l' = "if ?l = 0 then 1 else ?l"
    have b: "busy ?g ?l' ?cs \<le> max 1 (busy ?g ?l ?cs)" "spaced ?g ?l' ?cs"
      using False dec(1) by (cases ?cs; auto)+
    let ?m' = "m\<lparr>dataCyclesLeft := d, outgoingDataPacket := pk, writeDataCountdown := ?cs, writeDataToSend := writeDataToSend m\<rparr>"
    have wc: "writeDataCountdown ?m' = ?cs" by simp
    have left: "bus_left ?m' = ?l'" using d by (auto simp: bus_left_def split: option.splits)
    have "bus_inv C 0 ?m'" unfolding bus_inv_def left using b len data old d C(1) g by (fastforce simp: max_def split: if_splits)
    moreover have "busy ?g ?l' ?cs < WL C + ?g" using b(1) [unfolded le_max_iff_disj] old(1) C(1) g by linarith
    then have "bus_busy C ?m' < WL C + ?g" unfolding left wc .
    moreover have "mc_write_data C ?m = Inr ?m'"
      using False len by (cases ?cs) (auto simp: mc_write_data_def Let_def split: list.split)
    ultimately show ?thesis
      by - (rule exI [of _ d], rule exI [of _ pk], rule exI [of _ ?cs], rule exI [of _ "writeDataToSend m"], rule exI [of _ "totalTransactions m"],
        rule exI [of _ "totalWritesPerBank m"], auto simp: bus_left_def)
  qed
qed


lemma issued_active:
  assumes "may_issue C bs now p" "r < NUM_RANKS C" "b < NUM_BANKS C" "currentBankState (issued C now p bs r b) = RowActive"
  shows "currentBankState (bs r b) = RowActive \<and> nextWrite (bs r b) \<le> nextWrite (issued C now p bs r b) \<or>
      busPacketType p = ACTIVATE \<and> now + ACT_TO_COL_DELAY C \<le> nextWrite (issued C now p bs r b)"
    and "busPacketType p = WRITE \<Longrightarrow> now + BL C div 2 \<le> nextWrite (issued C now p bs r b)"
  using assms
  by (cases "busPacketType p";
      auto simp: may_issue_def issued_def issue_read_def issue_write_def issue_activate_def issue_precharge_def issue_refresh_def
        upd_bank_def each_bank_def Let_def split: if_splits)+

lemma issued_bus:
  assumes inv: "bus_inv C 0 m" "bus_busy C m < WL C + BL C div 2" "may_issue C (bankStates m) (mc_clock m) p"
    and C: "BL C div 2 \<le> ACT_TO_COL_DELAY C + 1"
  shows "bus_inv C 0 ((if busPacketType p = WRITE
      then m\<lparr>writeDataToSend := writeDataToSend m @ [data_packet p], writeDataCountdown := writeDataCountdown m @ [WL C]\<rparr> else m)
      \<lparr>bankStates := issued C (mc_clock m) p (bankStates m)\<rparr>)"
proof -
  let ?bs = "issued C (mc_clock m) p (bankStates m)"
  note act = issued_active [OF inv(3)]
  have old: "mc_clock m + bus_busy C m \<le> max (mc_clock m) (nextWrite (bankStates m r b)) + WL C"
    if "r < NUM_RANKS C" "b < NUM_BANKS C" "currentBankState (bankStates m r b) = RowActive" for r b
    using inv(1) that by (simp add: bus_inv_def)
  show ?thesis
  proof (cases "busPacketType p = WRITE")
    case True
    have "r < NUM_RANKS C \<and> b < NUM_BANKS C \<and> currentBankState (bankStates m r b) = RowActive \<and> nextWrite (bankStates m r b) \<le> mc_clock m"
      if "r = bp_rank p" "b = bp_bank p" for r b using inv(3) True that by (simp add: may_issue_def Let_def)
    with old have "bus_busy C m \<le> WL C" by fastforce
    moreover have "mc_clock m + (WL C + BL C div 2) \<le> max (mc_clock m) (nextWrite (?bs r b)) + WL C"
      if "r < NUM_RANKS C" "b < NUM_BANKS C" "currentBankState (?bs r b) = RowActive" for r b
      using act(2) [OF that True] by simp
    ultimately show ?thesis
      using inv(1) by (auto simp: bus_inv_def True spaced_append busy_append data_packet_def bp_setSender_def new_BusPacket_def)
  next
    case False
    have "mc_clock m + bus_busy C m \<le> max (mc_clock m) (nextWrite (?bs r b)) + WL C"
      if "r < NUM_RANKS C" "b < NUM_BANKS C" "currentBankState (?bs r b) = RowActive" for r b
      using act(1) [OF that] old [OF that(1,2)] inv(2) C by auto
    then show ?thesis using inv(1) False by (auto simp: bus_inv_def)
  qed
qed

end
