(* ===== verification/DS_System.thy ===== *)
theory DS_System
  imports DS_Control
begin

section \<open>DRAMSim2: channels and clock\<close>

text \<open>
  Class \<open>MultiChannelMemorySystem\<close> (\<open>MultiChannelMemorySystem.cpp\<close>) with its clock domain crosser
  (\<open>ClockDomain.cpp\<close>), and the wrapper the platform calls (\<open>dramsim2_wrapper.cc\<close>). The clock period \<open>tCK\<close> and the
  voltage \<open>Vdd\<close> are global variables of the simulator and part of its state here.
\<close>

subsection \<open>Clock domains\<close>

record ClockDomainCrosser =
  clock1 :: nat
  clock2 :: nat
  counter1 :: nat
  counter2 :: nat

text \<open>How often the callback is called. With a second clock of 0 the loop does not end.\<close>

function crosser_loop :: "nat \<Rightarrow> nat \<Rightarrow> nat \<Rightarrow> (nat \<times> nat) result" where
  "crosser_loop step c1 c2 =
     (if c2 < c1 then
        if step = 0 then Inl (AssertFail ''the loop does not end'')
        else bindE (crosser_loop step c1 (c2 + step)) (\<lambda>(n, c). Inr (n + 1, c))
      else Inr (0, c2))"
  by pat_completeness auto
termination by (relation "measure (\<lambda>(step, c1, c2). c1 - c2)") auto

declare crosser_loop.simps [simp del]

definition crosser_update :: "ClockDomainCrosser \<Rightarrow> (nat \<times> ClockDomainCrosser) result" where
  "crosser_update x =
     (if clock1 x = clock2 x then Inr (1, x)
      else
        let c1 = counter1 x + clock1 x in
        bindE (crosser_loop (clock2 x) c1 (counter2 x)) (\<lambda>(n, c2).
        Inr (n, if c1 = c2 then x\<lparr>counter1 := 0, counter2 := 0\<rparr> else x\<lparr>counter1 := c1, counter2 := c2\<rparr>)))"

subsection \<open>The memory system\<close>

record MultiChannelMemorySystem =
  channels :: "nat \<Rightarrow> MemorySystem"
  clockDomainCrosser :: ClockDomainCrosser
  tCK :: real
  Vdd :: real

definition setCPUClockSpeed :: "nat \<Rightarrow> MultiChannelMemorySystem \<Rightarrow> MultiChannelMemorySystem" where
  "setCPUClockSpeed cpuClkFreqHz s =
     (let dramsimClkFreqHz = nat (trunc (1 / (tCK s / 10 ^ 9))) in
      s\<lparr>clockDomainCrosser := (clockDomainCrosser s)\<lparr>clock1 := dramsimClkFreqHz,
          clock2 := (if cpuClkFreqHz = 0 then dramsimClkFreqHz else cpuClkFreqHz)\<rparr>\<rparr>)"

text \<open>
  The constructor also sets the number of ranks, a global variable; \<open>C\<close> is what the ini files say and the
  result what the simulator runs with.
\<close>

definition new_MultiChannelMemorySystem ::
  "dram_config \<Rightarrow> real \<Rightarrow> real \<Rightarrow> nat \<Rightarrow> (dram_config \<times> MultiChannelMemorySystem) result" where
  "new_MultiChannelMemorySystem C period voltage megsOfMemory =
     bindE (assertE ''Please specify a power of 2 memory size'' (isPowerOfTwo megsOfMemory)) (\<lambda>_.
     bindE (assertE ''Zero channels'' (NUM_CHANS C \<noteq> 0)) (\<lambda>_.
     bindE (assertE ''division by zero'' (megsOfStoragePerRank C \<noteq> 0)) (\<lambda>_.
     let C = C\<lparr>NUM_RANKS := ranks_of C (megsOfMemory div NUM_CHANS C)\<rparr> in
     bindE (new_MemorySystem C period) (\<lambda>ch.
     Inr (C, \<lparr>channels = (\<lambda>_. ch), clockDomainCrosser = \<lparr>clock1 = 1, clock2 = 1, counter1 = 0, counter2 = 0\<rparr>, tCK = period, Vdd = voltage\<rparr>)))))"

definition update_channel :: "dram_config \<Rightarrow> nat \<Rightarrow> reply list \<times> MultiChannelMemorySystem \<Rightarrow> (reply list \<times> MultiChannelMemorySystem) result" where
  "update_channel C i = (\<lambda>(cs, s).
     bindE (ms_update C (tCK s) (channels s i)) (\<lambda>(ds, ch).
     Inr (cs @ ds, s\<lparr>channels := (channels s)(i := ch)\<rparr>)))"

definition actual_update :: "dram_config \<Rightarrow> reply list \<times> MultiChannelMemorySystem \<Rightarrow> (reply list \<times> MultiChannelMemorySystem) result" where
  "actual_update C = foldE (update_channel C) [0..<NUM_CHANS C]"

definition sys_update :: "dram_config \<Rightarrow> MultiChannelMemorySystem \<Rightarrow> (reply list \<times> MultiChannelMemorySystem) result" where
  "sys_update C s =
     bindE (crosser_update (clockDomainCrosser s)) (\<lambda>(n, x).
     bindE (foldE (\<lambda>_. actual_update C) [0..<n] ([], s)) (\<lambda>(cs, s).
     Inr (cs, s\<lparr>clockDomainCrosser := x\<rparr>)))"

definition findChannelNumber :: "dram_config \<Rightarrow> addr \<Rightarrow> nat result" where
  "findChannelNumber C a =
     (if NUM_CHANS C = 1 then Inr 0
      else
        bindE (assertE ''We can only support power of two # of channels'' (isPowerOfTwo (NUM_CHANS C))) (\<lambda>_.
        let channelNumber = m_chan (addressMapping C a) in
        bindE (assertE ''Got channel index'' (channelNumber < NUM_CHANS C)) (\<lambda>_. Inr channelNumber)))"

definition sys_addTransaction :: "dram_config \<Rightarrow> bool \<Rightarrow> addr \<Rightarrow> int \<Rightarrow> int \<Rightarrow> MultiChannelMemorySystem \<Rightarrow> (bool \<times> MultiChannelMemorySystem) result" where
  "sys_addTransaction C isWrite a type i s =
     bindE (findChannelNumber C a) (\<lambda>n.
     let (ok, ch) = ms_addTransaction C isWrite a type i (channels s n) in
     Inr (ok, s\<lparr>channels := (channels s)(n := ch)\<rparr>))"

definition willAcceptTransaction :: "dram_config \<Rightarrow> MultiChannelMemorySystem \<Rightarrow> bool" where
  "willAcceptTransaction C s \<longleftrightarrow> (\<forall>c\<in>set [0..<NUM_CHANS C]. mc_WillAcceptTransaction C (mc (channels s c)))"

text \<open>The voltage follows the frequency in steps of 100 MHz; for any other frequency it stays.\<close>

definition sys_updateFreq :: "real \<Rightarrow> MultiChannelMemorySystem \<Rightarrow> MultiChannelMemorySystem" where
  "sys_updateFreq freq s =
     (let freqM = trunc (freq * 1000) in
      s\<lparr>tCK := 1 / freq,
        Vdd := (if freqM = 300 then 95 / 100 else if freqM = 400 then 1 else if freqM = 500 then 105 / 100 else if freqM = 600 then 110 / 100
                else if freqM = 700 then 115 / 100 else if freqM = 800 then 12 / 10 else if freqM = 900 then 125 / 100
                else if freqM = 1000 then 13 / 10 else Vdd s)\<rparr>)"

definition each_channel :: "dram_config \<Rightarrow> (MemoryController \<Rightarrow> MemoryController) \<Rightarrow> MultiChannelMemorySystem \<Rightarrow> MultiChannelMemorySystem" where
  "each_channel C f s =
     s\<lparr>channels := (\<lambda>i. if i < NUM_CHANS C then (channels s i)\<lparr>mc := f (mc (channels s i))\<rparr> else channels s i)\<rparr>"

definition sys_printStats :: "dram_config \<Rightarrow> MultiChannelMemorySystem \<Rightarrow> MultiChannelMemorySystem" where
  "sys_printStats C s = each_channel C (mc_printStats C (tCK s) (Vdd s)) s"

text \<open>A sum with a value that is not a number is not a number.\<close>

fun sum_opt :: "real option list \<Rightarrow> real option" where
  "sum_opt [] = Some 0"
| "sum_opt (x # xs) = (case (x, sum_opt xs) of (Some a, Some b) \<Rightarrow> Some (a + b) | _ \<Rightarrow> None)"

definition sys_getPower :: "dram_config \<Rightarrow> MultiChannelMemorySystem \<Rightarrow> real option \<times> MultiChannelMemorySystem" where
  "sys_getPower C s =
     (sum_opt (map (\<lambda>i. fst (mc_getPower (mc (channels s i)))) [0..<NUM_CHANS C]), each_channel C (\<lambda>m. snd (mc_getPower m)) s)"

definition sys_getBandwidth :: "dram_config \<Rightarrow> MultiChannelMemorySystem \<Rightarrow> real" where
  "sys_getBandwidth C s = sum_list (map (\<lambda>i. m_totalBandwidth (mc (channels s i))) [0..<NUM_CHANS C])"

definition sys_getLatency :: "dram_config \<Rightarrow> MultiChannelMemorySystem \<Rightarrow> real option" where
  "sys_getLatency C s = map_option (\<lambda>x. x / real (NUM_CHANS C)) (sum_opt (map (\<lambda>i. m_latency (mc (channels s i))) [0..<NUM_CHANS C]))"

end
