(* ===== verification/DS_Conserve.thy ===== *)
theory DS_Conserve
  imports DS_Pop DS_System
begin

section \<open>DRAMSim2: every request is answered once\<close>

text \<open>
  The requests a channel holds are the transactions that wait, the reads whose data is not back, and the writes on their way
  through the command queue and the data bus. A cycle of the simulator reports exactly the requests that leave it.
\<close>

subsection \<open>What is pending\<close>

definition trans_key :: "Transaction \<Rightarrow> reply" where
  "trans_key t = (transactionType t \<noteq> DATA_WRITE, t_address t, t_sender_type t, t_sender_id t)"

definition read_key :: "Transaction \<Rightarrow> reply" where
  "read_key t = (True, t_address t, t_sender_type t, t_sender_id t)"

definition write_key :: "BusPacket \<Rightarrow> reply" where
  "write_key p = (False, physicalAddress p, bp_sender_type p, bp_sender_id p)"

text \<open>What the packets of the kinds \<open>P\<close> stand for, in a list and in the queues of all ranks and banks.\<close>

definition packets :: "(BusPacketType \<Rightarrow> bool) \<Rightarrow> (BusPacket \<Rightarrow> 'k) \<Rightarrow> BusPacket list \<Rightarrow> 'k multiset" where
  "packets P key ps = image_mset key (mset (filter (\<lambda>p. P (busPacketType p)) ps))"

definition queue_packets :: "dram_config \<Rightarrow> (BusPacketType \<Rightarrow> bool) \<Rightarrow> (BusPacket \<Rightarrow> 'k) \<Rightarrow> (nat \<Rightarrow> nat \<Rightarrow> BusPacket list) \<Rightarrow> 'k multiset" where
  "queue_packets C P key qs = (\<Sum>(r, b) \<in> {..<NUM_RANKS C} \<times> {..<NUM_BANKS C}. packets P key (qs r b))"

abbreviation write_keys :: "BusPacket list \<Rightarrow> reply multiset" where "write_keys \<equiv> packets (\<lambda>k. is_write k) write_key"

abbreviation queue_writes :: "dram_config \<Rightarrow> (nat \<Rightarrow> nat \<Rightarrow> BusPacket list) \<Rightarrow> reply multiset" where
  "queue_writes C \<equiv> queue_packets C (\<lambda>k. is_write k) write_key"

definition mc_pending :: "dram_config \<Rightarrow> MemoryController \<Rightarrow> reply multiset" where
  "mc_pending C m =
     image_mset trans_key (mset (transactionQueue m)) + image_mset read_key (mset (pendingReadTransactions m)) +
     queue_writes C (queues (commandQueue m)) + image_mset write_key (mset (writeDataToSend m)) +
     image_mset write_key (mset_set (set_option (outgoingDataPacket m)))"

definition ms_pending :: "dram_config \<Rightarrow> MemorySystem \<Rightarrow> reply multiset" where
  "ms_pending C s = mc_pending C (mc s) + image_mset trans_key (mset (pendingTransactions s))"

definition sys_pending :: "dram_config \<Rightarrow> MultiChannelMemorySystem \<Rightarrow> reply multiset" where
  "sys_pending C s = (\<Sum>i<NUM_CHANS C. ms_pending C (channels s i))"

subsection \<open>Queues\<close>

lemma packets_simps [simp]:
  "packets P key [] = {#}" "packets P key (xs @ ys) = packets P key xs + packets P key ys"
  "packets P key (p # ps) = (if P (busPacketType p) then {#key p#} else {#}) + packets P key ps"
  by (simp_all add: packets_def)

lemma queue_packets_upd:
  assumes "r < NUM_RANKS C" "b < NUM_BANKS C" "packets P key (qs r b) + X = packets P key ps + Y"
  shows "queue_packets C P key qs + X = queue_packets C P key (qs(r := (qs r)(b := ps))) + Y"
proof -
  let ?A = "{..<NUM_RANKS C} \<times> {..<NUM_BANKS C}"
  let ?f = "packets P key"
  have split: "queue_packets C P key qs = ?f (qs r b) + (\<Sum>(x, y) \<in> ?A - {(r, b)}. ?f (qs x y))" for qs
    using sum.remove [of ?A "(r, b)" "\<lambda>(r, b). ?f (qs r b)"] assms(1,2) by (simp add: queue_packets_def)
  have "(\<Sum>(x, y) \<in> ?A - {(r, b)}. ?f ((qs(r := (qs r)(b := ps))) x y)) = (\<Sum>(x, y) \<in> ?A - {(r, b)}. ?f (qs x y))"
    by (intro sum.cong) (auto simp: fun_upd_def split: if_splits)
  then show ?thesis using assms(3) by (simp add: split [of qs] split [of "qs(r := (qs r)(b := ps))"] ac_simps)
qed

lemma queue_index_less: "b < NUM_BANKS C \<Longrightarrow> queue_index C b < NUM_BANKS C"
  by (simp add: queue_index_def split: QueuingStructure.split)

lemma pops_packets:
  assumes "pops C bs q p qs" "\<not> P ACTIVATE" "\<not> P PRECHARGE" "\<not> P REFRESH"
  shows "queue_packets C P key (queues q) = queue_packets C P key qs + packets P key [p]"
  using assms(1)
proof cases
  case (queued r b ps i k)
  let ?f = "packets P key"
  have ps: "ps = queues q r (queue_index C b)" using queued by (simp add: getCommandQueue_def)
  have "take i ps = take k ps @ drop k (take i ps)"
    using append_take_drop_id [of k "take i ps"] queued(8) by (auto simp: min_def)
  moreover have "?f (drop k (take i ps)) = {#}"
    using queued(6,8) assms(2) by (auto simp: take_Suc_conv_app_nth)
  ultimately have "?f (take i ps) = ?f (take k ps)"
    by (metis add.right_neutral packets_simps(2))
  then have "?f ps = ?f (take k ps @ drop (i + 1) ps) + ?f [ps ! i]"
    by (subst id_take_nth_drop [OF queued(6)]) (simp add: ac_simps)
  then show ?thesis
    using queue_packets_upd [OF queued(3) queue_index_less [OF queued(4)], of P key "queues q" "{#}" "take k ps @ drop (i + 1) ps" "?f [p]"]
    by (simp add: queued(1,2) ps)
qed (use assms in \<open>auto simp: new_BusPacket_def\<close>)

lemma cq_pop_packets:
  assumes "cq_pop C bs q = Inr (pk, q')" "\<not> P ACTIVATE" "\<not> P PRECHARGE" "\<not> P REFRESH"
  shows "queue_packets C P key (queues q) = queue_packets C P key (queues q') + (case pk of None \<Rightarrow> {#} | Some p \<Rightarrow> packets P key [p])"
  using cq_pop_cases [OF assms(1)] pops_packets [of C bs "tick_tFAW C q", OF _ assms(2-4)] by (cases pk) (auto simp del: packets_simps)

lemma cq_enqueue_packets:
  assumes "cq_enqueue C p q = Inr q'" "bp_rank p < NUM_RANKS C" "bp_bank p < NUM_BANKS C"
  shows "queue_packets C P key (queues q') = queue_packets C P key (queues q) + packets P key [p]"
proof -
  have q': "queues q' = (queues q)(bp_rank p := (queues q (bp_rank p))(queue_index C (bp_bank p) := getCommandQueue C (bp_rank p) (bp_bank p) q @ [p]))"
    using assms(1) by (auto simp: cq_enqueue_def setCommandQueue_def Let_def)
  show ?thesis
    using queue_packets_upd [OF assms(2) queue_index_less [OF assms(3)], of P key "queues q" "packets P key [p]" _ "{#}"]
    unfolding q' getCommandQueue_def by (metis (no_types) add.right_neutral packets_simps(2))
qed

lemma mset_take_drop: "i < length xs \<Longrightarrow> mset xs = add_mset (xs ! i) (mset (take i xs @ drop (Suc i) xs))"
  by (subst id_take_nth_drop [of i xs]) simp_all

subsection \<open>The controller\<close>

lemma mc_step_banks_pending [simp]: "mc_pending C (mc_step_banks C m) = mc_pending C m"
  by (simp add: mc_step_banks_def mc_pending_def)

lemma ms_send_cmd_pending: "ms_send_cmd C s = Inr s' \<Longrightarrow> ms_pending C s' = ms_pending C s"
  by (auto simp: ms_send_cmd_def ms_pending_def mc_pending_def Let_def split: option.splits if_splits)

lemma ms_send_data_pending: "ms_send_data C s = Inr (ws, s') \<Longrightarrow> ms_pending C s = mset ws + ms_pending C s'"
  by (auto simp: ms_send_data_def ms_pending_def mc_pending_def write_key_def Let_def split: option.splits if_splits)

lemma mc_write_data_pending: "mc_write_data C m = Inr m' \<Longrightarrow> mc_pending C m' = mc_pending C m"
  by (auto simp: mc_write_data_def mc_pending_def Let_def split: list.splits if_splits)

lemma ms_refresh_pending [simp]: "ms_pending C (ms_refresh C period s) = ms_pending C s"
  by (simp add: ms_refresh_def ms_pending_def mc_pending_def needRefresh_def Let_def)

lemma issue_cmd_pending: "issue_cmd C p m = Inr m' \<Longrightarrow> mc_pending C m' = mc_pending C m"
  by (auto simp: issue_cmd_def mc_pending_def Let_def split: BusPacketType.splits)

lemma mc_issue_pending:
  assumes "mc_issue C m = Inr m'"
  shows "mc_pending C m' = mc_pending C m"
proof -
  from assms obtain pk q where q: "cq_pop C (bankStates m) (commandQueue m) = Inr (pk, q)" by (auto simp: mc_issue_def)
  note w = cq_pop_packets [OF q, of "\<lambda>k. is_write k" write_key, simplified]
  show ?thesis
  proof (cases pk)
    case None
    with assms q w show ?thesis by (auto simp: mc_issue_def mc_pending_def)
  next
    case (Some p)
    let ?m = "m\<lparr>commandQueue := q\<rparr>"
    let ?m1 = "if is_write (busPacketType p)
      then ?m\<lparr>writeDataToSend := writeDataToSend ?m @ [data_packet p], writeDataCountdown := writeDataCountdown ?m @ [WL C]\<rparr> else ?m"
    from assms q Some obtain m2 where m2: "issue_cmd C p ?m1 = Inr m2" "m' = m2\<lparr>outgoingCmdPacket := Some p, cmdCyclesLeft := tCMD C\<rparr>"
      by (auto simp: mc_issue_def Let_def)
    have k: "write_key (data_packet p) = write_key p" by (simp add: data_packet_def write_key_def bp_setSender_def new_BusPacket_def)
    have "mc_pending C m' = mc_pending C m2" by (simp add: m2(2) mc_pending_def)
    also have "\<dots> = mc_pending C ?m1" by (rule issue_cmd_pending [OF m2(1)])
    also have "\<dots> = mc_pending C m" using w Some by (simp add: mc_pending_def k)
    finally show ?thesis .
  qed
qed

lemma mc_schedule_pending:
  assumes "mc_schedule C m = Inr m'"
  shows "mc_pending C m' = mc_pending C m"
proof -
  let ?ok = "\<lambda>_ t. let a = addressMapping C (t_address t) in
    bindE (boundsE ''queues'' (m_rank a < NUM_RANKS C \<and> m_bank a < NUM_BANKS C)) (\<lambda>_. Inr (hasRoomFor C 2 (m_rank a) (m_bank a) (commandQueue m)))"
  from assms obtain x where x: "seekE ?ok 0 (transactionQueue m) = Inr x" by (auto simp: mc_schedule_def)
  show ?thesis
  proof (cases x)
    case None
    with assms x show ?thesis by (auto simp: mc_schedule_def)
  next
    case (Some y)
    obtain i t where y: "x = Some (i, t)" using Some by (cases y) simp
    let ?a = "addressMapping C (t_address t)"
    let ?p = "\<lambda>k. bp_setSender (t_sender_type t) (t_sender_id t) (new_BusPacket k (t_address t) (m_col ?a) (m_row ?a) (m_rank ?a) (m_bank ?a))"
    from seekE_SomeD [OF x [unfolded y]] have i: "i < length (transactionQueue m)" "transactionQueue m ! i = t"
      and r: "m_rank ?a < NUM_RANKS C" "m_bank ?a < NUM_BANKS C" by (auto simp: Let_def)
    from assms x y obtain k q1 q2 where k: "getBusPacketType C t = Inr k"
      and q: "cq_enqueue C (?p ACTIVATE) (commandQueue m) = Inr q1" "cq_enqueue C (?p k) q1 = Inr q2"
      and m': "m' = m\<lparr>transactionQueue := take i (transactionQueue m) @ drop (i + 1) (transactionQueue m), commandQueue := q2,
          pendingReadTransactions := (if transactionType t = DATA_READ then pendingReadTransactions m @ [t] else pendingReadTransactions m)\<rparr>"
      by (auto simp: mc_schedule_def Let_def)
    have fields: "bp_rank (?p k) = m_rank ?a" "bp_bank (?p k) = m_bank ?a" "busPacketType (?p k) = k"
      "write_key (?p k) = (False, t_address t, t_sender_type t, t_sender_id t)" for k
      by (simp_all add: bp_setSender_def new_BusPacket_def write_key_def)
    have "queue_writes C (queues q2) = queue_writes C (queues (commandQueue m)) + write_keys [?p k]"
      using cq_enqueue_packets [OF q(1), of "\<lambda>k. is_write k" write_key] cq_enqueue_packets [OF q(2), of "\<lambda>k. is_write k" write_key] r
      by (simp add: fields)
    moreover have "trans_key t = read_key t \<and> write_keys [?p k] = {#}" if "transactionType t = DATA_READ"
      using k that by (auto simp: getBusPacketType_def trans_key_def read_key_def fields split: if_splits)
    moreover have "transactionType t = DATA_WRITE \<and> write_keys [?p k] = {#trans_key t#}" if "transactionType t \<noteq> DATA_READ"
      using k that by (cases "transactionType t") (auto simp: getBusPacketType_def trans_key_def fields split: if_splits)
    ultimately show ?thesis
      unfolding m' using mset_take_drop [OF i(1)] i(2)
      by (cases "transactionType t = DATA_READ") (simp_all add: mc_pending_def)
  qed
qed


lemma ms_power_pending: "ms_power C r s = Inr s' \<Longrightarrow> ms_pending C s' = ms_pending C s"
  by (auto simp: ms_power_def ms_pending_def mc_pending_def set_power_def split: if_splits)

lemma mc_return_pending: "mc_return C m = Inr (rs, m') \<Longrightarrow> mc_pending C m = mset rs + mc_pending C m'"
  by (auto simp: mc_return_def mc_pending_def read_key_def Let_def first_index_Some_iff
      dest: mset_take_drop split: list.splits option.splits)

lemma mc_end_cycle_pending [simp]: "mc_pending C (mc_end_cycle C m) = mc_pending C m"
  by (simp add: mc_end_cycle_def mc_pending_def)

lemma lift_mc_pending:
  "lift_mc f s = Inr s' \<Longrightarrow> (\<And>m m'. f m = Inr m' \<Longrightarrow> mc_pending C m' = mc_pending C m) \<Longrightarrow> ms_pending C s' = ms_pending C s"
  by (auto simp: lift_mc_def ms_pending_def)

lemma controller_update_pending:
  assumes "controller_update C period s = Inr (cs, s')"
  shows "ms_pending C s = mset cs + ms_pending C s'"
proof -
  from assms obtain s1 ws s2 s3 s4 s5 s6 rs m where
    s: "ms_send_cmd C (s\<lparr>mc := mc_step_banks C (mc s)\<rparr>) = Inr s1" "ms_send_data C s1 = Inr (ws, s2)"
      "lift_mc (mc_write_data C) s2 = Inr s3" "lift_mc (mc_issue C) (ms_refresh C period s3) = Inr s4" "lift_mc (mc_schedule C) s4 = Inr s5"
      "foldE (ms_power C) [0..<NUM_RANKS C] s5 = Inr s6" "mc_return C (mc s6) = Inr (rs, m)"
      "cs = ws @ rs" "s' = s6\<lparr>mc := mc_end_cycle C m\<rparr>"
    by (auto simp: controller_update_def)
  have "ms_pending C s = ms_pending C (s\<lparr>mc := mc_step_banks C (mc s)\<rparr>)" by (simp add: ms_pending_def)
  also have "\<dots> = mset ws + ms_pending C s2" using ms_send_cmd_pending [OF s(1)] ms_send_data_pending [OF s(2)] by simp
  also have "ms_pending C s2 = ms_pending C s3" using lift_mc_pending [OF s(3) mc_write_data_pending] by simp
  also have "\<dots> = ms_pending C s5"
    using lift_mc_pending [OF s(4) mc_issue_pending] lift_mc_pending [OF s(5) mc_schedule_pending] by simp
  also have "\<dots> = ms_pending C s6"
    using foldE_inv [OF _ s(6), of "\<lambda>t. ms_pending C t = ms_pending C s5"] ms_power_pending by auto
  also have "\<dots> = mset rs + ms_pending C s'" using mc_return_pending [OF s(7)] by (simp add: s(9) ms_pending_def)
  finally show ?thesis by (simp add: s(8) ac_simps)
qed

subsection \<open>Channels and system\<close>

lemma ms_update_rank_pending: "ms_update_rank C r s = Inr s' \<Longrightarrow> ms_pending C s' = ms_pending C s"
  by (auto simp: ms_update_rank_def lift_mc_def mc_receiveFromBus_def ms_pending_def mc_pending_def Let_def split: prod.splits option.splits)

lemma mc_addTransaction_pending:
  "mc_addTransaction C t m = (ok, m') \<Longrightarrow> mc_pending C m' = (if ok then {#trans_key t#} else {#}) + mc_pending C m"
  by (auto simp: mc_addTransaction_def mc_pending_def trans_key_def split: if_splits)

lemma ms_admit_pending [simp]: "ms_pending C (ms_admit C s) = ms_pending C s"
  by (auto simp: ms_admit_def ms_pending_def mc_addTransaction_def mc_pending_def trans_key_def split: list.split)

lemma ms_step_pending [simp]: "ms_pending C (ms_step C s) = ms_pending C s"
  by (simp add: ms_step_def ms_pending_def mc_pending_def)

lemma ms_update_pending:
  assumes "ms_update C period s = Inr (cs, s')"
  shows "ms_pending C s = mset cs + ms_pending C s'"
proof -
  from assms obtain s1 s2 where s: "foldE (ms_update_rank C) [0..<NUM_RANKS C] s = Inr s1"
    "controller_update C period (ms_admit C s1) = Inr (cs, s2)" "s' = ms_step C s2" by (auto simp: ms_update_def)
  have "ms_pending C s1 = ms_pending C s"
    using foldE_inv [OF _ s(1), of "\<lambda>t. ms_pending C t = ms_pending C s"] ms_update_rank_pending by auto
  then show ?thesis using controller_update_pending [OF s(2)] by (simp add: s(3))
qed


lemma sys_pending_upd:
  assumes "i < NUM_CHANS C" "ms_pending C (channels s i) + X = Y + ms_pending C ch"
  shows "sys_pending C s + X = Y + sys_pending C (s\<lparr>channels := (channels s)(i := ch)\<rparr>)"
proof -
  have split: "sys_pending C s = ms_pending C (channels s i) + (\<Sum>j \<in> {..<NUM_CHANS C} - {i}. ms_pending C (channels s j))" for s :: MultiChannelMemorySystem
    using sum.remove [of "{..<NUM_CHANS C}" i "\<lambda>j. ms_pending C (channels s j)"] assms(1) by (simp add: sys_pending_def)
  show ?thesis using assms(2) by (simp add: split [of s] split [of "s\<lparr>channels := (channels s)(i := ch)\<rparr>"] ac_simps)
qed

lemma update_channel_pending:
  assumes "update_channel C i (cs, s) = Inr (cs', s')" "i < NUM_CHANS C"
  shows "mset cs + sys_pending C s = mset cs' + sys_pending C s'"
proof -
  from assms(1) obtain ds ch where u: "ms_update C (tCK s) (channels s i) = Inr (ds, ch)" "cs' = cs @ ds" "s' = s\<lparr>channels := (channels s)(i := ch)\<rparr>"
    by (auto simp: update_channel_def)
  show ?thesis using sys_pending_upd [OF assms(2), of s "{#}" "mset ds" ch] ms_update_pending [OF u(1)] by (simp add: u(2,3))
qed

lemma actual_update_pending:
  assumes "actual_update C (cs, s) = Inr (cs', s')"
  shows "mset cs + sys_pending C s = mset cs' + sys_pending C s'"
proof -
  let ?P = "\<lambda>(ds, t). mset ds + sys_pending C t = mset cs + sys_pending C s"
  have "?P (cs', s')"
    by (rule foldE_inv [OF _ assms [unfolded actual_update_def], of ?P]) (auto dest!: update_channel_pending split: prod.splits)
  then show ?thesis by simp
qed

lemma sys_update_pending:
  assumes "sys_update C s = Inr (cs, s')"
  shows "sys_pending C s = mset cs + sys_pending C s'"
proof -
  from assms obtain n x s1 where s1: "foldE (\<lambda>_. actual_update C) [0..<n] ([], s) = Inr (cs, s1)" "s' = s1\<lparr>clockDomainCrosser := x\<rparr>"
    by (auto simp: sys_update_def)
  let ?P = "\<lambda>(ds, t). mset ds + sys_pending C t = sys_pending C s"
  have "?P (cs, s1)"
    by (rule foldE_inv [OF _ s1(1), of ?P]) (auto dest!: actual_update_pending split: prod.splits)
  then show ?thesis by (simp add: s1(2) sys_pending_def)
qed

lemma sys_statistics_pending [simp]:
  "sys_pending C (sys_updateFreq f s) = sys_pending C s" "sys_pending C (sys_printStats C s) = sys_pending C s"
  "sys_pending C (snd (sys_getPower C s)) = sys_pending C s"
  by (simp_all add: sys_updateFreq_def sys_printStats_def sys_getPower_def each_channel_def sys_pending_def ms_pending_def mc_pending_def
      mc_printStats_def mc_resetStats_def mc_getPower_def Let_def)

lemma sys_addTransaction_pending:
  assumes "sys_addTransaction C w a t i s = Inr (ok, s')" "willAcceptTransaction C s" "0 < NUM_CHANS C"
  shows "ok \<and> sys_pending C s' = add_mset (\<not> w, a, t, i) (sys_pending C s)"
proof -
  from assms(1) obtain n ch where n: "findChannelNumber C a = Inr n" "ms_addTransaction C w a t i (channels s n) = (ok, ch)"
    "s' = s\<lparr>channels := (channels s)(n := ch)\<rparr>" by (auto simp: sys_addTransaction_def split: prod.splits)
  from n(1) assms(3) have r: "n < NUM_CHANS C" by (auto simp: findChannelNumber_def Let_def split: if_splits)
  with assms(2) have "mc_WillAcceptTransaction C (mc (channels s n))" by (simp add: willAcceptTransaction_def)
  with n(2) have "ok" "ms_pending C ch = add_mset (\<not> w, a, t, i) (ms_pending C (channels s n))"
    by (auto simp: ms_addTransaction_def mc_addTransaction_def ms_pending_def mc_pending_def trans_key_def Let_def)
  then show ?thesis using sys_pending_upd [OF r, of s "{#(\<not> w, a, t, i)#}" "{#}" ch] by (simp add: n(3))
qed

end
