(* ===== verification/DS_Address.thy ===== *)
theory DS_Address
  imports DS_Config
begin

section \<open>DRAMSim2: the address mapping\<close>

text \<open>
  The seven schemes of \<open>addressMapping\<close> cut an address into the same five fields in different orders. Every field is in the
  range the configuration gives it, and the fields in the order of the scheme, with the bits below and above them, are the
  address again: two requests of one channel, rank, bank, row and column are in the same burst.
\<close>

unbundle bit_operations_syntax

subsection \<open>One field\<close>

lemma low_field_bits: "low_field n a = (take_bit 32 (take_bit n (unat a)), drop_bit n a)"
proof -
  have "a XOR push_bit n (drop_bit n a) = take_bit n a" by (rule bit_word_eqI) (auto simp: bit_simps)
  then show ?thesis by (simp add: low_field_def Let_def to_unsigned_def unsigned_ucast_eq unsigned_take_bit_eq)
qed

lemma low_field_less: "fst (low_field n a) < 2 ^ n"
proof -
  have "take_bit 32 (take_bit n (unat a)) \<le> take_bit n (unat a)" by (simp add: take_bit_eq_mod)
  then show ?thesis unfolding low_field_bits by (simp add: le_less_trans take_bit_nat_less_exp)
qed

lemma low_field_split: "n \<le> 32 \<Longrightarrow> fst (low_field n a) + 2 ^ n * unat (snd (low_field n a)) = unat a"
  using bits_ident [of n "unat a"] by (simp add: low_field_bits unat_drop_bit_eq min_def push_bit_eq_mult ac_simps)

subsection \<open>A row of fields\<close>

text \<open>The fields of the widths \<open>ns\<close>, from the lowest bits up, and what is left above them.\<close>

fun read_fields :: "nat list \<Rightarrow> addr \<Rightarrow> nat list \<times> addr" where
  "read_fields [] a = ([], a)"
| "read_fields (n # ns) a = (let (v, a) = low_field n a; (vs, a) = read_fields ns a in (v # vs, a))"

fun assemble :: "(nat \<times> nat) list \<Rightarrow> nat \<Rightarrow> nat" where
  "assemble [] high = high"
| "assemble ((n, v) # fs) high = v + 2 ^ n * assemble fs high"

lemma assemble_read_fields:
  "(\<forall>n\<in>set ns. n \<le> 32) \<Longrightarrow> read_fields ns a = (vs, high) \<Longrightarrow> assemble (zip ns vs) (unat high) = unat a"
proof (induction ns arbitrary: a vs)
  case (Cons n ns)
  then show ?case using low_field_split [of n a] by (auto simp: Let_def split: prod.splits)
qed simp

definition scheme_fields :: "dram_config \<Rightarrow> mapped \<Rightarrow> (nat \<times> nat) list" where
  "scheme_fields C m =
     (let chan = (dramsim_log2 (NUM_CHANS C), m_chan m); rank = (dramsim_log2 (NUM_RANKS C), m_rank m);
          bank = (dramsim_log2 (NUM_BANKS C), m_bank m); row = (dramsim_log2 (NUM_ROWS C), m_row m);
          col = (colHighBitWidth C, m_col m) in
      case addressMappingScheme C of
        Scheme1 \<Rightarrow> [bank, col, row, rank, chan]
      | Scheme2 \<Rightarrow> [rank, bank, col, row, chan]
      | Scheme3 \<Rightarrow> [row, col, bank, rank, chan]
      | Scheme4 \<Rightarrow> [col, row, bank, rank, chan]
      | Scheme5 \<Rightarrow> [bank, rank, col, row, chan]
      | Scheme6 \<Rightarrow> [col, rank, bank, row, chan]
      | Scheme7 \<Rightarrow> [chan, bank, rank, col, row])"

abbreviation low_bits :: "dram_config \<Rightarrow> nat" where "low_bits C \<equiv> byteOffsetWidth C + colLowBitWidth C"

lemma addressMapping_fields:
  "read_fields (map fst (scheme_fields C m)) (drop_bit (low_bits C) a) =
   (map snd (scheme_fields C (addressMapping C a)), drop_bit (low_bits C + sum_list (map fst (scheme_fields C m))) a)"
  by (cases "addressMappingScheme C")
    (simp_all add: addressMapping_def scheme_fields_def low_field_bits Let_def drop_bit_drop_bit ac_simps)

lemma scheme_widths: "map fst (scheme_fields C m) = map fst (scheme_fields C m')"
  by (cases "addressMappingScheme C") (simp_all add: scheme_fields_def)


subsection \<open>Ranges\<close>

lemma addressMapping_less:
  "m_chan (addressMapping C a) < 2 ^ dramsim_log2 (NUM_CHANS C)" "m_rank (addressMapping C a) < 2 ^ dramsim_log2 (NUM_RANKS C)"
  "m_bank (addressMapping C a) < 2 ^ dramsim_log2 (NUM_BANKS C)" "m_row (addressMapping C a) < 2 ^ dramsim_log2 (NUM_ROWS C)"
  "m_col (addressMapping C a) < 2 ^ colHighBitWidth C"
  using low_field_less by (cases "addressMappingScheme C"; simp add: addressMapping_def Let_def low_field_bits)+

text \<open>The shift in \<open>dramsim_log2\<close> starts from half the value, so that it is the logarithm of a power of two.\<close>

lemma shift_count_power: "shift_count (2 ^ n) = Suc n"
  by (induction n) (simp_all add: shift_count.simps)

lemma dramsim_log2_power [simp]: "dramsim_log2 (2 ^ n) = n"
  by (cases n) (simp_all add: dramsim_log2_def Let_def shift_count_power shift_count.simps [of 0])

lemma isPowerOfTwo_iff: "isPowerOfTwo x \<longleftrightarrow> (\<exists>n. x = 2 ^ n)"
  by (auto simp: isPowerOfTwo_def intro: sym)

text \<open>C14: the address mapping loses nothing and leaves no range. For every scheme, when every field is at most 32 bits wide, the fields of an
  address in the order of the scheme, between the bits below them and those above, are the address again; and where the numbers
  of channels, ranks and banks are powers of two, the fields are indices of them.
\<close>

theorem address_mapping_roundtrip:
  assumes "\<forall>f\<in>set (scheme_fields C (addressMapping C a)). fst f \<le> 32"
  shows "take_bit (low_bits C) (unat a) + 2 ^ low_bits C * assemble (scheme_fields C (addressMapping C a))
           (drop_bit (low_bits C + sum_list (map fst (scheme_fields C (addressMapping C a)))) (unat a)) = unat a \<and>
         (isPowerOfTwo (NUM_CHANS C) \<longrightarrow> m_chan (addressMapping C a) < NUM_CHANS C) \<and>
         (isPowerOfTwo (NUM_RANKS C) \<longrightarrow> m_rank (addressMapping C a) < NUM_RANKS C) \<and>
         (isPowerOfTwo (NUM_BANKS C) \<longrightarrow> m_bank (addressMapping C a) < NUM_BANKS C)"
proof -
  let ?fs = "scheme_fields C (addressMapping C a)"
  have "assemble (zip (map fst ?fs) (map snd ?fs)) (unat (drop_bit (low_bits C + sum_list (map fst ?fs)) a)) = unat (drop_bit (low_bits C) a)"
    by (rule assemble_read_fields) (use assms addressMapping_fields in auto)
  then have "assemble ?fs (drop_bit (low_bits C + sum_list (map fst ?fs)) (unat a)) = drop_bit (low_bits C) (unat a)"
    by (simp add: unat_drop_bit_eq zip_map_fst_snd)
  then have "take_bit (low_bits C) (unat a) + 2 ^ low_bits C * assemble ?fs (drop_bit (low_bits C + sum_list (map fst ?fs)) (unat a)) = unat a"
    using bits_ident [of "low_bits C" "unat a"] by (simp add: push_bit_eq_mult ac_simps)
  then show ?thesis using addressMapping_less [of C a] by (auto simp: isPowerOfTwo_def)
qed


lemma LPDDR3_widths:
  "dramsim_log2 (NUM_CHANS LPDDR3_gemdroid) = 2" "dramsim_log2 (NUM_RANKS LPDDR3_gemdroid) = 0" "dramsim_log2 (NUM_BANKS LPDDR3_gemdroid) = 3"
  "dramsim_log2 (NUM_ROWS LPDDR3_gemdroid) = 18" "colHighBitWidth LPDDR3_gemdroid = 4" "low_bits LPDDR3_gemdroid = 6"
  using dramsim_log2_power [of 2] dramsim_log2_power [of 0] dramsim_log2_power [of 3] dramsim_log2_power [of 18]
    dramsim_log2_power [of 7] dramsim_log2_power [of 6]
  by (simp_all add: colHighBitWidth_def colLowBitWidth_def byteOffsetWidth_def transactionSize_def LPDDR3_gemdroid_def)

theorem address_mapping_roundtrip_witness:
  "m_chan (addressMapping LPDDR3_gemdroid 305419896) < NUM_CHANS LPDDR3_gemdroid"
proof -
  have "isPowerOfTwo (NUM_CHANS LPDDR3_gemdroid)" by (simp add: isPowerOfTwo_def LPDDR3_widths) (simp add: LPDDR3_gemdroid_def)
  moreover have "\<forall>f\<in>set (scheme_fields LPDDR3_gemdroid m). fst f \<le> 32" for m
    by (cases "addressMappingScheme LPDDR3_gemdroid") (simp_all add: scheme_fields_def LPDDR3_widths)
  ultimately show ?thesis using address_mapping_roundtrip [of LPDDR3_gemdroid 305419896] by blast
qed

end
