(* ===== verification/DS_Safe.thy ===== *)
theory DS_Safe
  imports DS_Turn DS_Bus DS_Conserve DS_Address
begin

section \<open>DRAMSim2: the controller keeps the protocol\<close>

text \<open>
  DRAMSim2 checks itself while it runs: a rank ends the program when it receives a command its banks do not allow, the controller when
  two packets meet on a bus, when a queue overflows or when data comes back that nobody waits for. With open rows, under conditions on
  the parameters that the shipped configuration meets (\<open>safe_config\<close>), none of these checks ever fails: \<open>channel_inv\<close> holds from the
  start and every operation of a channel returns and keeps it.
\<close>

definition safe_config :: "dram_config \<Rightarrow> bool" where
  "safe_config C \<longleftrightarrow>
     rowBufferPolicy C = OpenPage \<and> tCMD C = 1 \<and> 2 \<le> BL C \<and> 1 \<le> WL C \<and> BL C div 2 \<le> ACT_TO_COL_DELAY C + 1 \<and>
     isPowerOfTwo (NUM_RANKS C) \<and> isPowerOfTwo (NUM_BANKS C)"

lemma safe_config_pos: "safe_config C \<Longrightarrow> 0 < NUM_RANKS C \<and> 0 < NUM_BANKS C"
  by (auto simp: safe_config_def isPowerOfTwo_iff)

subsection \<open>Invariants\<close>

definition queue_inv :: "dram_config \<Rightarrow> MemoryController \<Rightarrow> bool" where
  "queue_inv C m \<longleftrightarrow> wf_queues C (queues (commandQueue m)) \<and> cq_ok C (commandQueue m) \<and> cq_clock (commandQueue m) = mc_clock m \<and>
     refreshRank m < NUM_RANKS C \<and> (\<forall>t\<in>set (transactionQueue m). transactionType t \<noteq> RETURN_DATA)"

definition rank_inv :: "dram_config \<Rightarrow> MemoryController \<Rightarrow> nat \<Rightarrow> Rank \<Rightarrow> bool" where
  "rank_inv C m r k \<longleftrightarrow>
     rk_clock k = mc_clock m \<and> isPowerDown k = powerDown m r \<and>
     (powerDown m r \<longrightarrow> (\<forall>b<NUM_BANKS C. nextPowerUp (rk_bankStates k b) \<le> nextPowerUp (bankStates m r 0))) \<and>
     (\<forall>p\<in>set (readReturnPacket k) \<union> set_option (rk_outgoingDataPacket k). busPacketType p = DATA) \<and>
     length (readReturnCountdown k) = length (readReturnPacket k)"

text \<open>The command on the bus arrives at time \<open>t\<close>, and brings the rank back in agreement.\<close>

definition cmd_inv :: "dram_config \<Rightarrow> nat \<Rightarrow> MemorySystem \<Rightarrow> bool" where
  "cmd_inv C t s \<longleftrightarrow>
     (case outgoingCmdPacket (mc s) of
        None \<Rightarrow> \<forall>r<NUM_RANKS C. sync C (bankStates (mc s) r) (rk_bankStates (ranks s r))
      | Some p \<Rightarrow> cmdCyclesLeft (mc s) = 1 \<and> bp_rank p < NUM_RANKS C \<and> rk_allows C p t (rk_bankStates (ranks s (bp_rank p))) \<and>
          sync C (bankStates (mc s) (bp_rank p)) (rk_banks C p t (rk_bankStates (ranks s (bp_rank p)))) \<and>
          (\<forall>r<NUM_RANKS C. r \<noteq> bp_rank p \<longrightarrow> sync C (bankStates (mc s) r) (rk_bankStates (ranks s r))))"

text \<open>The addresses of the reads whose data has not been handed over: all of them are waited for.\<close>

definition rank_reads :: "Rank \<Rightarrow> addr multiset" where
  "rank_reads k = image_mset physicalAddress (mset (readReturnPacket k)) + image_mset physicalAddress (mset_set (set_option (rk_outgoingDataPacket k)))"

definition reads_under_way :: "dram_config \<Rightarrow> MemorySystem \<Rightarrow> addr multiset" where
  "reads_under_way C s =
     image_mset t_address (mset (returnTransaction (mc s))) + (\<Sum>r<NUM_RANKS C. rank_reads (ranks s r)) +
     queue_packets C (\<lambda>k. k = READ) physicalAddress (queues (commandQueue (mc s))) +
     packets (\<lambda>k. k = READ) physicalAddress (case outgoingCmdPacket (mc s) of None \<Rightarrow> [] | Some p \<Rightarrow> [p])"

definition reads_inv :: "dram_config \<Rightarrow> MemorySystem \<Rightarrow> bool" where
  "reads_inv C s \<longleftrightarrow> reads_under_way C s \<subseteq># image_mset t_address (mset (pendingReadTransactions (mc s)))"

definition mid_inv :: "dram_config \<Rightarrow> nat \<Rightarrow> nat \<Rightarrow> MemorySystem \<Rightarrow> bool" where
  "mid_inv C e t s \<longleftrightarrow>
     queue_inv C (mc s) \<and> banks_ok C (bankStates (mc s)) (powerDown (mc s)) \<and> (\<forall>r<NUM_RANKS C. rank_inv C (mc s) r (ranks s r)) \<and>
     cmd_inv C t s \<and> bus_inv C e (mc s) \<and> reads_inv C s \<and> (\<forall>t\<in>set (pendingTransactions s). transactionType t \<noteq> RETURN_DATA)"

abbreviation channel_inv :: "dram_config \<Rightarrow> MemorySystem \<Rightarrow> bool" where
  "channel_inv C s \<equiv> mid_inv C 1 (mc_clock (mc s)) s"

text \<open>What the invariant reads of the controller.\<close>

definition same_mc :: "MemoryController \<Rightarrow> MemoryController \<Rightarrow> bool" where
  "same_mc m' m \<longleftrightarrow>
     commandQueue m' = commandQueue m \<and> mc_clock m' = mc_clock m \<and> refreshRank m' = refreshRank m \<and> transactionQueue m' = transactionQueue m \<and>
     bankStates m' = bankStates m \<and> powerDown m' = powerDown m \<and> outgoingCmdPacket m' = outgoingCmdPacket m \<and> cmdCyclesLeft m' = cmdCyclesLeft m \<and>
     outgoingDataPacket m' = outgoingDataPacket m \<and> dataCyclesLeft m' = dataCyclesLeft m \<and> writeDataCountdown m' = writeDataCountdown m \<and>
     writeDataToSend m' = writeDataToSend m"

lemma mid_inv_same:
  assumes "mid_inv C e t s" "same_mc m' (mc s)" "reads_inv C (s\<lparr>mc := m'\<rparr>)"
  shows "mid_inv C e t (s\<lparr>mc := m'\<rparr>)"
  using assms by (simp add: mid_inv_def same_mc_def queue_inv_def rank_inv_def cmd_inv_def bus_inv_def bus_left_def cong: option.case_cong)

subsection \<open>Data from the ranks\<close>

lemma sum_ranks_upd:
  fixes f :: "'b \<Rightarrow> 'a multiset" and g :: "nat \<Rightarrow> 'b"
  assumes "r < n" "f k + X \<subseteq># f (g r) + Y"
  shows "(\<Sum>i<n. f ((g(r := k)) i)) + X \<subseteq># (\<Sum>i<n. f (g i)) + Y"
proof -
  have split: "(\<Sum>i<n. f (h i)) = f (h r) + (\<Sum>i\<in>{..<n} - {r}. f (h i))" for h :: "nat \<Rightarrow> 'b"
    using sum.remove [of "{..<n}" r "\<lambda>i. f (h i)"] assms(1) by simp
  have "(\<Sum>i\<in>{..<n} - {r}. f ((g(r := k)) i)) = (\<Sum>i\<in>{..<n} - {r}. f (g i))" by (intro sum.cong) auto
  then have "(\<Sum>i<n. f ((g(r := k)) i)) = f k + (\<Sum>i\<in>{..<n} - {r}. f (g i))" using split [of "g(r := k)"] by simp
  then show ?thesis using subset_mset.add_right_mono [OF assms(2), of "\<Sum>i\<in>{..<n} - {r}. f (g i)"]
    by (simp only: split [of g]) (simp add: ac_simps)
qed

lemma rk_update_frame:
  assumes "rk_update C k = (ret, k')"
  shows "rk_bankStates k' = rk_bankStates k" "rk_clock k' = rk_clock k" "isPowerDown k' = isPowerDown k"
  using assms by (auto simp: rk_update_def Let_def split: option.splits if_splits)

lemma rk_update_reads:
  assumes "rk_update C k = (ret, k')" "length (readReturnCountdown k) = length (readReturnPacket k)"
  shows "rank_reads k' + image_mset physicalAddress (mset_set (set_option ret)) \<subseteq># rank_reads k \<and>
    length (readReturnCountdown k') = length (readReturnPacket k') \<and>
    set (readReturnPacket k') \<union> set_option (rk_outgoingDataPacket k') \<union> set_option ret \<subseteq> set (readReturnPacket k) \<union> set_option (rk_outgoingDataPacket k)"
proof -
  have r: "ret = fst (rk_update C k)" "k' = snd (rk_update C k)" using assms(1) by simp_all
  show ?thesis
    unfolding r using assms(2)
    by (cases "rk_outgoingDataPacket k"; cases "readReturnPacket k"; cases "readReturnCountdown k") (auto simp: rk_update_def rank_reads_def Let_def)
qed

lemma ms_update_rank_inv:
  assumes "mid_inv C e t s" "r < NUM_RANKS C"
  shows "\<exists>s'. ms_update_rank C r s = Inr s' \<and> mid_inv C e t s' \<and> mc_clock (mc s') = mc_clock (mc s)"
proof -
  obtain ret k where u: "rk_update C (ranks s r) = (ret, k)" by (cases "rk_update C (ranks s r)")
  note f = rk_update_frame [OF u]
  have inv: "rank_inv C (mc s) r (ranks s r)" using assms by (simp add: mid_inv_def)
  then have "length (readReturnCountdown (ranks s r)) = length (readReturnPacket (ranks s r))" by (simp add: rank_inv_def)
  note d = rk_update_reads [OF u this]
  have k: "rank_inv C (mc s) r k" "\<And>p. ret = Some p \<Longrightarrow> busPacketType p = DATA"
    using inv d f by (auto simp: rank_inv_def)
  let ?s = "s\<lparr>ranks := (ranks s)(r := k)\<rparr>"
  let ?b = "image_mset physicalAddress (mset_set (set_option ret))"
  have reads: "reads_under_way C ?s + ?b \<subseteq># image_mset t_address (mset (pendingReadTransactions (mc s)))"
  proof (rule subset_mset.order_trans)
    have "(\<Sum>i<NUM_RANKS C. rank_reads (((ranks s)(r := k)) i)) + ?b \<subseteq># (\<Sum>i<NUM_RANKS C. rank_reads (ranks s i)) + {#}"
      using d by (intro sum_ranks_upd [OF assms(2)]) simp
    then show "reads_under_way C ?s + ?b \<subseteq># reads_under_way C s" by (simp add: reads_under_way_def ac_simps)
    show "reads_under_way C s \<subseteq># image_mset t_address (mset (pendingReadTransactions (mc s)))" using assms(1) by (simp add: mid_inv_def reads_inv_def)
  qed
  have cmd: "cmd_inv C t ?s" using assms(1) f(1) by (auto simp: mid_inv_def cmd_inv_def split: option.splits)
  have "mid_inv C e t ?s"
    using assms(1) k(1) cmd subset_mset.order_trans [OF mset_subset_eq_add_left reads] by (auto simp: mid_inv_def reads_inv_def)
  note inv' = mid_inv_same [OF this]
  show ?thesis
  proof (cases ret)
    case None
    then show ?thesis using u \<open>mid_inv C e t ?s\<close> by (simp add: ms_update_rank_def)
  next
    case (Some p)
    let ?m = "(mc s)\<lparr>returnTransaction := returnTransaction (mc s) @
              [\<lparr>transactionType = RETURN_DATA, t_address = physicalAddress p, timeAdded = 0, t_sender_type = 0, t_sender_id = 0\<rparr>],
            totalReadsPerBank := (totalReadsPerBank (mc s))(bp_rank p := (totalReadsPerBank (mc s) (bp_rank p))(bp_bank p := totalReadsPerBank (mc s) (bp_rank p) (bp_bank p) + 1))\<rparr>"
    have "ms_update_rank C r s = Inr (?s\<lparr>mc := ?m\<rparr>)"
      using u Some k(2) by (simp add: ms_update_rank_def lift_mc_def mc_receiveFromBus_def Let_def)
    moreover have "reads_inv C (?s\<lparr>mc := ?m\<rparr>)" using reads Some by (simp add: reads_inv_def reads_under_way_def ac_simps)
    then have "mid_inv C e t (?s\<lparr>mc := ?m\<rparr>)" by (rule inv' [rotated]) (simp add: same_mc_def)
    ultimately show ?thesis by simp
  qed
qed

subsection \<open>Before a command is chosen\<close>

lemma ms_admit_inv:
  assumes "mid_inv C e t s"
  shows "mid_inv C e t (ms_admit C s)" "mc_clock (mc (ms_admit C s)) = mc_clock (mc s)"
  using assms
  by (auto simp: ms_admit_def mc_addTransaction_def mid_inv_def queue_inv_def rank_inv_def cmd_inv_def bus_inv_def bus_left_def
      reads_inv_def reads_under_way_def split: list.split cong: option.case_cong)

lemma mc_step_banks_inv:
  assumes "mid_inv C e t s"
  shows "mid_inv C e t (s\<lparr>mc := mc_step_banks C (mc s)\<rparr>)"
proof -
  let ?bs = "bankStates (mc s)" and ?bs' = "bankStates (mc_step_banks C (mc s))"
  have ok: "bank_ok (?bs r b)" if "r < NUM_RANKS C" "b < NUM_BANKS C" for r b
    using assms that by (simp add: mid_inv_def banks_ok_def)
  have step: "?bs' r b = step_bank C (?bs r b)" if "r < NUM_RANKS C" "b < NUM_BANKS C" for r b
    using that by (simp add: mc_step_banks_def each_bank_def)
  have sync: "sync C (?bs' r) ks \<longleftrightarrow> sync C (?bs r) ks" if "r < NUM_RANKS C" for r ks
    using that by (simp add: sync_def step step_bank_sync ok)
  have bank0: "nextPowerUp (?bs' r b) = nextPowerUp (?bs r b)" for r b
    by (simp add: mc_step_banks_def each_bank_def)
  have active: "currentBankState (?bs' r b) = RowActive \<longleftrightarrow> currentBankState (?bs r b) = RowActive" "nextWrite (?bs' r b) = nextWrite (?bs r b)"
    if "r < NUM_RANKS C" "b < NUM_BANKS C" for r b
    using that step_bank_ok(3) [OF ok [OF that]] by (simp_all add: step)
  have "banks_ok C ?bs' (powerDown (mc s))"
    using assms by (auto simp: mid_inv_def banks_ok_def step step_bank_ok)
  moreover have "cmd_inv C t (s\<lparr>mc := mc_step_banks C (mc s)\<rparr>)"
    using assms sync by (auto simp: mid_inv_def cmd_inv_def mc_step_banks_def split: option.splits)
  moreover have "bus_inv C e (mc_step_banks C (mc s))"
    using assms active by (simp add: mid_inv_def bus_inv_def) (simp add: mc_step_banks_def)
  moreover have "rank_inv C (mc_step_banks C (mc s)) r k \<longleftrightarrow> rank_inv C (mc s) r k" for r k
    using bank0 by (simp add: rank_inv_def) (simp add: mc_step_banks_def)
  ultimately show ?thesis
    using assms by (simp add: mid_inv_def) (simp add: mc_step_banks_def queue_inv_def reads_inv_def reads_under_way_def)
qed


lemma rk_banks_nextPowerUp [simp]: "nextPowerUp (rk_banks C p now ks b) = nextPowerUp (ks b)"
  by (cases "busPacketType p") (simp_all add: rk_banks_def after_read_def after_write_def all_banks_def Let_def)

lemma ms_send_cmd_inv:
  assumes "mid_inv C e (mc_clock (mc s)) s"
  shows "\<exists>s'. ms_send_cmd C s = Inr s' \<and> mid_inv C e (mc_clock (mc s)) s' \<and> mc_clock (mc s') = mc_clock (mc s) \<and> outgoingCmdPacket (mc s') = None"
proof (cases "outgoingCmdPacket (mc s)")
  case None
  then show ?thesis using assms by (simp add: ms_send_cmd_def)
next
  case (Some p)
  let ?r = "bp_rank p" and ?t = "mc_clock (mc s)"
  let ?k = "ranks s ?r"
  from assms Some have c: "cmdCyclesLeft (mc s) = 1" "?r < NUM_RANKS C" "rk_allows C p ?t (rk_bankStates ?k)"
      "sync C (bankStates (mc s) ?r) (rk_banks C p ?t (rk_bankStates ?k))"
      "\<And>r. r < NUM_RANKS C \<Longrightarrow> r \<noteq> ?r \<Longrightarrow> sync C (bankStates (mc s) r) (rk_bankStates (ranks s r))"
    and inv: "rank_inv C (mc s) ?r ?k"
    by (auto simp: mid_inv_def cmd_inv_def)
  have clk: "rk_clock ?k = ?t" using inv by (simp add: rank_inv_def)
  obtain k where k: "rk_receiveFromBus C p ?k = Inr k" "rk_bankStates k = rk_banks C p ?t (rk_bankStates ?k)"
      "rk_clock k = ?t" "isPowerDown k = isPowerDown ?k" "rk_outgoingDataPacket k = rk_outgoingDataPacket ?k"
      "readReturnPacket k = readReturnPacket ?k @ (if busPacketType p = READ then [p\<lparr>busPacketType := DATA\<rparr>] else [])"
      "length (readReturnCountdown k) = length (readReturnCountdown ?k) + (if busPacketType p = READ then 1 else 0)"
    using rk_receiveFromBus_returns [of C p ?k] c(3) clk by auto
  let ?s = "s\<lparr>mc := (mc s)\<lparr>cmdCyclesLeft := 0, outgoingCmdPacket := None\<rparr>, ranks := (ranks s)(?r := k)\<rparr>"
  have "ms_send_cmd C s = Inr ?s" using Some c(1) k(1) by (simp add: ms_send_cmd_def Let_def)
  moreover have "rank_inv C (mc s) ?r k" using inv k by (auto simp: rank_inv_def)
  moreover have "cmd_inv C ?t ?s" using c k(2) by (simp add: cmd_inv_def)
  moreover have "reads_inv C ?s"
  proof -
    let ?a = "packets (\<lambda>k. k = READ) physicalAddress [p]"
    have "rank_reads k = rank_reads ?k + ?a" using k(5,6) by (simp add: rank_reads_def)
    then have "(\<Sum>i<NUM_RANKS C. rank_reads (((ranks s)(?r := k)) i)) + {#} \<subseteq># (\<Sum>i<NUM_RANKS C. rank_reads (ranks s i)) + ?a"
      by (intro sum_ranks_upd [OF c(2)]) simp
    from subset_mset.add_left_mono [OF this, of "image_mset t_address (mset (returnTransaction (mc s))) +
        queue_packets C (\<lambda>k. k = READ) physicalAddress (queues (commandQueue (mc s)))"]
    have "reads_under_way C ?s \<subseteq># reads_under_way C s" by (simp add: reads_under_way_def Some ac_simps del: packets_simps(3))
    also have "\<dots> \<subseteq># image_mset t_address (mset (pendingReadTransactions (mc s)))"
      using assms by (simp add: mid_inv_def reads_inv_def)
    finally show ?thesis by (simp add: reads_inv_def)
  qed
  ultimately show ?thesis
    using assms by (auto simp: mid_inv_def queue_inv_def rank_inv_def bus_inv_def bus_left_def cong: option.case_cong)
qed


lemma ms_data_inv:
  assumes "mid_inv C 1 t s" "safe_config C"
  shows "\<exists>ws s1 s2. ms_send_data C s = Inr (ws, s1) \<and> lift_mc (mc_write_data C) s1 = Inr s2 \<and> mid_inv C 0 t s2 \<and>
    mc_clock (mc s2) = mc_clock (mc s) \<and> outgoingCmdPacket (mc s2) = outgoingCmdPacket (mc s) \<and> bus_busy C (mc s2) < WL C + BL C div 2"
proof -
  have bus: "bus_inv C 1 (mc s)" using assms(1) by (simp add: mid_inv_def)
  have C: "1 \<le> WL C" "2 \<le> BL C" using assms(2) by (simp_all add: safe_config_def)
  from ms_send_data_bus [OF bus] obtain ws s1 d pk where s1: "ms_send_data C s = Inr (ws, s1)" "ranks s1 = ranks s" "pendingTransactions s1 = pendingTransactions s"
    "mc s1 = (mc s)\<lparr>dataCyclesLeft := d, outgoingDataPacket := pk\<rparr>"
    and d: "bus_left (mc s) - 1 = (case pk of None \<Rightarrow> 0 | Some p \<Rightarrow> d)" "\<forall>p. pk = Some p \<longrightarrow> 0 < d \<and> busPacketType p = DATA" by blast
  from mc_write_data_bus [OF bus C d] obtain d' pk' cs ps n w where m:
    "mc_write_data C (mc s1) = Inr ((mc s)\<lparr>dataCyclesLeft := d', outgoingDataPacket := pk', writeDataCountdown := cs, writeDataToSend := ps, totalTransactions := n, totalWritesPerBank := w\<rparr>)"
    (is "_ = Inr ?m")
    and b: "bus_inv C 0 ((mc s)\<lparr>dataCyclesLeft := d', outgoingDataPacket := pk', writeDataCountdown := cs, writeDataToSend := ps\<rparr>)"
      "bus_busy C ((mc s)\<lparr>dataCyclesLeft := d', outgoingDataPacket := pk', writeDataCountdown := cs\<rparr>) < WL C + BL C div 2"
    unfolding s1(4) by blast
  have "lift_mc (mc_write_data C) s1 = Inr (s1\<lparr>mc := ?m\<rparr>)" by (simp add: lift_mc_def m)
  moreover have "s1\<lparr>mc := ?m\<rparr> = s\<lparr>mc := ?m\<rparr>" using s1(2,3) by (intro MemorySystem.equality) simp_all
  moreover have "bus_left ?m = bus_left ((mc s)\<lparr>dataCyclesLeft := d', outgoingDataPacket := pk', writeDataCountdown := cs, writeDataToSend := ps\<rparr>)"
    by (simp add: bus_left_def cong: option.case_cong)
  then have "bus_inv C 0 ?m" "bus_busy C ?m < WL C + BL C div 2" using b by (simp_all add: bus_inv_def)
  ultimately show ?thesis using s1(1) assms(1)
    by (auto simp: mid_inv_def queue_inv_def rank_inv_def cmd_inv_def reads_inv_def reads_under_way_def cong: option.case_cong)
qed

lemma ms_refresh_inv:
  assumes "mid_inv C e t s"
  shows "mid_inv C e t (ms_refresh C period s)" "mc_clock (mc (ms_refresh C period s)) = mc_clock (mc s)"
    "outgoingCmdPacket (mc (ms_refresh C period s)) = outgoingCmdPacket (mc s)" "bus_busy C (mc (ms_refresh C period s)) = bus_busy C (mc s)"
proof -
  let ?r = "refreshRank (mc s)"
  have r: "?r < NUM_RANKS C" using assms by (simp add: mid_inv_def queue_inv_def)
  have reads: "(\<Sum>i<NUM_RANKS C. rank_reads (((ranks s)(?r := (ranks s ?r)\<lparr>rk_refreshWaiting := True\<rparr>)) i)) = (\<Sum>i<NUM_RANKS C. rank_reads (ranks s i))"
    by (intro sum.cong) (simp_all add: rank_reads_def)
  show "mid_inv C e t (ms_refresh C period s)" "mc_clock (mc (ms_refresh C period s)) = mc_clock (mc s)"
    "outgoingCmdPacket (mc (ms_refresh C period s)) = outgoingCmdPacket (mc s)" "bus_busy C (mc (ms_refresh C period s)) = bus_busy C (mc s)"
    using assms r reads
    by (auto simp: ms_refresh_def needRefresh_def mid_inv_def queue_inv_def cq_ok_def rank_inv_def cmd_inv_def bus_inv_def bus_left_def
        reads_inv_def reads_under_way_def Let_def cong: option.case_cong split: option.splits)
qed


subsection \<open>The command of a cycle\<close>

text \<open>A rank with a command under way is neither idle nor powered down.\<close>

definition awake :: "dram_config \<Rightarrow> MemoryController \<Rightarrow> bool" where
  "awake C m \<longleftrightarrow> (\<forall>p. outgoingCmdPacket m = Some p \<longrightarrow> (\<exists>b<NUM_BANKS C. currentBankState (bankStates m (bp_rank p) b) \<notin> {Idle, PowerDown}))"

lemma issued_awake:
  assumes "may_issue C bs now p"
  shows "currentBankState (issued C now p bs (bp_rank p) (bp_bank p)) \<notin> {Idle, PowerDown}"
  using assms
  by (cases "busPacketType p")
    (auto simp: may_issue_def issued_def issue_read_def issue_write_def issue_activate_def issue_precharge_def issue_refresh_def
      upd_bank_def each_bank_def Let_def)

lemma issued_nextPowerUp [simp]: "nextPowerUp (issued C now p bs r b) = nextPowerUp (bs r b)"
  by (cases "busPacketType p")
    (simp_all add: issued_def issue_read_def issue_write_def issue_activate_def issue_precharge_def issue_refresh_def upd_bank_def each_bank_def Let_def)

lemma issue_cmd_returns:
  assumes "may_issue C (bankStates m) (mc_clock m) p"
  shows "\<exists>m'. issue_cmd C p m = Inr m' \<and> same_mc m' (m\<lparr>bankStates := issued C (mc_clock m) p (bankStates m)\<rparr>) \<and>
    returnTransaction m' = returnTransaction m \<and> pendingReadTransactions m' = pendingReadTransactions m"
  using assms by (cases "busPacketType p") (auto simp: may_issue_def issue_cmd_def issued_def same_mc_def Let_def)

lemma mc_issue_inv:
  assumes inv: "mid_inv C 0 t s" and none: "outgoingCmdPacket (mc s) = None" and busy: "bus_busy C (mc s) < WL C + BL C div 2" and C: "safe_config C"
  shows "\<exists>s'. lift_mc (mc_issue C) s = Inr s' \<and> mid_inv C 0 (mc_clock (mc s) + 1) s' \<and> mc_clock (mc s') = mc_clock (mc s) \<and> awake C (mc s')"
proof -
  let ?m = "mc s" and ?now = "mc_clock (mc s)"
  have qi: "wf_queues C (queues (commandQueue ?m))" "cq_ok C (commandQueue ?m)" "cq_clock (commandQueue ?m) = ?now"
    and bo: "banks_ok C (bankStates ?m) (powerDown ?m)" and bus: "bus_inv C 0 ?m"
    and sy: "\<And>r. r < NUM_RANKS C \<Longrightarrow> sync C (bankStates ?m r) (rk_bankStates (ranks s r))"
    and ri: "reads_inv C s"
    using inv none by (simp_all add: mid_inv_def queue_inv_def cmd_inv_def)
  obtain pk q where q: "cq_pop C (bankStates ?m) (commandQueue ?m) = Inr (pk, q)" "cq_ok C q"
    using cq_pop_returns [OF _ qi(1,2), of "bankStates ?m"] C by (auto simp: safe_config_def)
  note cases = cq_pop_cases [OF q(1)] and pkts = cq_pop_packets [OF q(1), of "\<lambda>k. k = READ" physicalAddress, simplified]
  show ?thesis
  proof (cases pk)
    case None
    let ?s = "s\<lparr>mc := ?m\<lparr>commandQueue := q\<rparr>\<rparr>"
    have "lift_mc (mc_issue C) s = Inr ?s" using q(1) None by (simp add: lift_mc_def mc_issue_def)
    moreover have "mid_inv C 0 (?now + 1) ?s"
      using inv none cases None q(2) qi
      by (simp add: mid_inv_def queue_inv_def rank_inv_def cmd_inv_def bus_inv_def bus_left_def reads_inv_def reads_under_way_def cong: option.case_cong)
    ultimately show ?thesis using none by (simp add: awake_def)
  next
    case (Some p)
    have pop: "pops C (bankStates ?m) (tick_tFAW C (commandQueue ?m)) p (queues q)" "cq_clock q = ?now" using cases Some qi(3) by auto
    have wf: "wf_queues C (queues q)" using pops_wf_queues [OF pop(1)] qi(1) by simp
    have may: "may_issue C (bankStates ?m) ?now p" using pops_may_issue [OF pop(1)] qi(1,3) safe_config_pos [OF C] by simp
    then have rank: "bp_rank p < NUM_RANKS C" by (simp add: may_issue_def Let_def)
    have w: "is_write (busPacketType p) \<longleftrightarrow> busPacketType p = WRITE" using may by (auto simp: may_issue_def Let_def split: BusPacketType.splits)
    let ?bs = "issued C ?now p (bankStates ?m)"
    define m0 where "m0 = (if busPacketType p = WRITE
      then ?m\<lparr>writeDataToSend := writeDataToSend ?m @ [data_packet p], writeDataCountdown := writeDataCountdown ?m @ [WL C]\<rparr> else ?m)"
    let ?m1 = "m0\<lparr>commandQueue := q\<rparr>"
    let ?M = "?m1\<lparr>bankStates := ?bs, outgoingCmdPacket := Some p, cmdCyclesLeft := 1\<rparr>"
    let ?s = "s\<lparr>mc := ?M\<rparr>"
    have m0: "bankStates m0 = bankStates ?m" "mc_clock m0 = ?now" "outgoingCmdPacket m0 = None" "returnTransaction m0 = returnTransaction ?m"
      "pendingReadTransactions m0 = pendingReadTransactions ?m" "powerDown m0 = powerDown ?m" "refreshRank m0 = refreshRank ?m"
      "transactionQueue m0 = transactionQueue ?m" using none by (simp_all add: m0_def)
    obtain m2 where m2: "issue_cmd C p ?m1 = Inr m2" "same_mc m2 (?m1\<lparr>bankStates := ?bs\<rparr>)"
      "returnTransaction m2 = returnTransaction ?m" "pendingReadTransactions m2 = pendingReadTransactions ?m"
      using issue_cmd_returns [of C ?m1 p] may m0 by auto
    let ?m' = "m2\<lparr>outgoingCmdPacket := Some p, cmdCyclesLeft := tCMD C\<rparr>"
    have "(if is_write (busPacketType p) then (?m\<lparr>commandQueue := q\<rparr>)\<lparr>writeDataToSend := writeDataToSend (?m\<lparr>commandQueue := q\<rparr>) @ [data_packet p],
        writeDataCountdown := writeDataCountdown (?m\<lparr>commandQueue := q\<rparr>) @ [WL C]\<rparr> else ?m\<lparr>commandQueue := q\<rparr>) = ?m1"
      by (simp add: w m0_def)
    moreover have "outgoingCmdPacket m2 = None" using m2(2) m0(3) by (simp add: same_mc_def)
    ultimately have run: "lift_mc (mc_issue C) s = Inr (s\<lparr>mc := ?m'\<rparr>)"
      unfolding lift_mc_def mc_issue_def q(1) bindE_simps Some Let_def prod.case option.case using m2(1) by (simp only: bindE_simps assertE_def if_True simp_thms)
    have pd: "\<forall>b<NUM_BANKS C. currentBankState (bankStates ?m (bp_rank p) b) = PowerDown \<longleftrightarrow> powerDown ?m (bp_rank p)"
      using bo rank by (simp add: banks_ok_def)
    have "bus_inv C 0 (m0\<lparr>bankStates := ?bs\<rparr>)" using issued_bus [OF bus busy may] C by (simp add: safe_config_def m0_def)
    then have "bus_inv C 0 ?M" by (simp add: bus_inv_def bus_left_def cong: option.case_cong)
    moreover have "cmd_inv C (?now + 1) ?s"
      using rank_accepts [OF may sy [OF rank] pd] rank_agrees [OF may sy [OF rank] pd] issued_other [OF may _ sy] rank by (simp add: cmd_inv_def)
    moreover have "banks_ok C ?bs (powerDown ?m)" by (rule issued_ok [OF may bo])
    moreover have "reads_inv C ?s" using ri pkts Some none by (simp add: reads_inv_def reads_under_way_def m0 ac_simps)
    ultimately have "mid_inv C 0 (?now + 1) ?s" using inv wf q(2) pop(2) by (simp add: mid_inv_def queue_inv_def rank_inv_def m0)
    moreover have "same_mc ?m' ?M" using m2(2) C by (simp add: same_mc_def safe_config_def)
    moreover have "reads_inv C (s\<lparr>mc := ?m'\<rparr>)"
      using \<open>reads_inv C ?s\<close> m2 by (simp add: reads_inv_def reads_under_way_def same_mc_def m0)
    ultimately have "mid_inv C 0 (?now + 1) (s\<lparr>mc := ?m'\<rparr>)" using mid_inv_same [of C 0 "?now + 1" ?s ?m'] by simp
    moreover have "awake C ?m'" "mc_clock ?m' = ?now"
      using issued_awake [OF may] may m2(2) by (auto simp: awake_def same_mc_def may_issue_def m0 Let_def)
    ultimately show ?thesis using run by simp
  qed
qed


subsection \<open>After the command\<close>

lemma cq_enqueue_returns:
  assumes "wf_queues C (queues q)" "bp_rank p < NUM_RANKS C" "bp_bank p < NUM_BANKS C" "busPacketType p \<in> {ACTIVATE, READ, WRITE}"
    "length (getCommandQueue C (bp_rank p) (bp_bank p) q) < CMD_QUEUE_DEPTH C"
  shows "\<exists>q'. cq_enqueue C p q = Inr q' \<and> wf_queues C (queues q') \<and> q' = setCommandQueue C (bp_rank p) (bp_bank p) (getCommandQueue C (bp_rank p) (bp_bank p) q @ [p]) q"
proof -
  have "wf_queues C (queues (setCommandQueue C (bp_rank p) (bp_bank p) (getCommandQueue C (bp_rank p) (bp_bank p) q @ [p]) q))"
    using assms queue_index_less [OF assms(3)] by (auto simp: wf_queues_def setCommandQueue_def getCommandQueue_def)
  then show ?thesis using assms(5) by (simp add: cq_enqueue_def assertE_def Let_def)
qed

lemma setCommandQueue_ok [simp]: "cq_ok C (setCommandQueue C r b ps q) = cq_ok C q"
  by (simp add: cq_ok_def setCommandQueue_def)

lemma mc_schedule_inv:
  assumes inv: "mid_inv C e t s" and C: "safe_config C"
  shows "\<exists>s'. lift_mc (mc_schedule C) s = Inr s' \<and> mid_inv C e t s' \<and> mc_clock (mc s') = mc_clock (mc s) \<and>
    (awake C (mc s) \<longrightarrow> awake C (mc s'))"
proof -
  let ?m = "mc s" and ?a = "\<lambda>t. addressMapping C (t_address t)"
  have range: "m_rank (?a t) < NUM_RANKS C" "m_bank (?a t) < NUM_BANKS C" for t
    using C addressMapping_less(2,3) [of C "t_address t"] by (simp_all add: safe_config_def isPowerOfTwo_def)
  let ?f = "\<lambda>_ t. let a = addressMapping C (t_address t) in
    bindE (boundsE ''queues'' (m_rank a < NUM_RANKS C \<and> m_bank a < NUM_BANKS C)) (\<lambda>_. Inr (hasRoomFor C 2 (m_rank a) (m_bank a) (commandQueue ?m)))"
  have "\<exists>b. ?f i t = Inr b" for i :: nat and t using range [of t] by (simp add: boundsE_def Let_def)
  then obtain x where x: "seekE ?f 0 (transactionQueue ?m) = Inr x" using seekE_returns [of "transactionQueue ?m" ?f 0] by blast
  show ?thesis
  proof (cases x)
    case None
    then show ?thesis using x inv by (intro exI [of _ s]) (simp add: lift_mc_def mc_schedule_def)
  next
    case (Some y)
    obtain i t1 where y: "x = Some (i, t1)" using Some by (cases y) simp
    let ?p = "\<lambda>k. bp_setSender (t_sender_type t1) (t_sender_id t1) (new_BusPacket k (t_address t1) (m_col (?a t1)) (m_row (?a t1)) (m_rank (?a t1)) (m_bank (?a t1)))"
    have i: "i < length (transactionQueue ?m)" "transactionQueue ?m ! i = t1" "hasRoomFor C 2 (m_rank (?a t1)) (m_bank (?a t1)) (commandQueue ?m)"
      using seekE_SomeD [OF x [unfolded y]] range by (auto simp: Let_def boundsE_def)
    have p: "bp_rank (?p k) = m_rank (?a t1)" "bp_bank (?p k) = m_bank (?a t1)" "busPacketType (?p k) = k" "physicalAddress (?p k) = t_address t1" for k
      by (simp_all add: bp_setSender_def new_BusPacket_def)
    have qi: "wf_queues C (queues (commandQueue ?m))" "cq_ok C (commandQueue ?m)" "cq_clock (commandQueue ?m) = mc_clock ?m"
      "\<forall>t\<in>set (transactionQueue ?m). transactionType t \<noteq> RETURN_DATA"
      using inv by (simp_all add: mid_inv_def queue_inv_def)
    from qi(4) i have "transactionType t1 \<noteq> RETURN_DATA" by (metis nth_mem)
    then obtain k where k: "getBusPacketType C t1 = Inr k" "k = (if transactionType t1 = DATA_READ then READ else WRITE)"
      using C by (cases "transactionType t1") (simp_all add: getBusPacketType_def safe_config_def)
    have len: "length (getCommandQueue C (m_rank (?a t1)) (m_bank (?a t1)) (commandQueue ?m)) + 2 \<le> CMD_QUEUE_DEPTH C"
    proof -
      have "length (getCommandQueue C (m_rank (?a t1)) (m_bank (?a t1)) (commandQueue ?m)) \<le> CMD_QUEUE_DEPTH C"
        using qi(1) range(1) [of t1] queue_index_less [OF range(2) [of t1]] unfolding wf_queues_def getCommandQueue_def by blast
      then show ?thesis using i(3) by (simp add: hasRoomFor_def Let_def)
    qed
    obtain q1 where q1: "cq_enqueue C (?p ACTIVATE) (commandQueue ?m) = Inr q1" "wf_queues C (queues q1)"
      "q1 = setCommandQueue C (m_rank (?a t1)) (m_bank (?a t1)) (getCommandQueue C (m_rank (?a t1)) (m_bank (?a t1)) (commandQueue ?m) @ [?p ACTIVATE]) (commandQueue ?m)"
      using cq_enqueue_returns [OF qi(1), of "?p ACTIVATE"] range len by (auto simp: p)
    have "length (getCommandQueue C (m_rank (?a t1)) (m_bank (?a t1)) q1) < CMD_QUEUE_DEPTH C"
      using len by (simp add: q1(3) getCommandQueue_def setCommandQueue_def)
    then obtain q2 where q2: "cq_enqueue C (?p k) q1 = Inr q2" "wf_queues C (queues q2)"
      "q2 = setCommandQueue C (m_rank (?a t1)) (m_bank (?a t1)) (getCommandQueue C (m_rank (?a t1)) (m_bank (?a t1)) q1 @ [?p k]) q1"
      using cq_enqueue_returns [OF q1(2), of "?p k"] range [of t1] k(2) by (auto simp: p split: if_splits)
    have q: "cq_ok C q2" "cq_clock q2 = mc_clock ?m" using qi by (simp_all add: q2(3) q1(3))
    let ?m' = "?m\<lparr>transactionQueue := take i (transactionQueue ?m) @ drop (i + 1) (transactionQueue ?m), commandQueue := q2,
      pendingReadTransactions := (if transactionType t1 = DATA_READ then pendingReadTransactions ?m @ [t1] else pendingReadTransactions ?m)\<rparr>"
    have "lift_mc (mc_schedule C) s = Inr (s\<lparr>mc := ?m'\<rparr>)"
      using x y k(1) q1(1) q2(1) by (simp add: lift_mc_def mc_schedule_def Let_def)
    moreover have "set (take i (transactionQueue ?m) @ drop (i + 1) (transactionQueue ?m)) \<subseteq> set (transactionQueue ?m)"
      by (auto dest: in_set_takeD in_set_dropD)
    then have "queue_inv C ?m'" using inv q q2(2) qi(4) by (auto simp: mid_inv_def queue_inv_def)
    moreover have "queue_packets C (\<lambda>k. k = READ) physicalAddress (queues q2) =
        queue_packets C (\<lambda>k. k = READ) physicalAddress (queues (commandQueue ?m)) + (if transactionType t1 = DATA_READ then {#t_address t1#} else {#})"
      using cq_enqueue_packets [OF q1(1), of "\<lambda>k. k = READ" physicalAddress] cq_enqueue_packets [OF q2(1), of "\<lambda>k. k = READ" physicalAddress] range [of t1] k(2)
      by (cases "transactionType t1 = DATA_READ") (simp_all add: p)
    then have "reads_inv C (s\<lparr>mc := ?m'\<rparr>)" using inv by (simp add: mid_inv_def reads_inv_def reads_under_way_def ac_simps)
    ultimately show ?thesis using inv
      by (intro exI [of _ "s\<lparr>mc := ?m'\<rparr>"])
        (simp add: mid_inv_def rank_inv_def cmd_inv_def bus_inv_def bus_left_def awake_def cong: option.case_cong)
  qed
qed


text \<open>Power: a rank goes down only when all its banks are idle, and up only when its time has come.\<close>

lemma set_power_inv:
  assumes inv: "mid_inv C 0 t s" and r: "r < NUM_RANKS C" and up: "\<And>p. outgoingCmdPacket (mc s) = Some p \<Longrightarrow> bp_rank p \<noteq> r"
    and k: "rk_clock k = rk_clock (ranks s r)" "isPowerDown k = down" "readReturnPacket k = readReturnPacket (ranks s r)"
      "readReturnCountdown k = readReturnCountdown (ranks s r)" "rk_outgoingDataPacket k = rk_outgoingDataPacket (ranks s r)"
      "rk_bankStates k = all_banks C (\<lambda>_ x. if down then x\<lparr>nextPowerUp := rk_clock (ranks s r) + tCKE C, currentBankState := PowerDown\<rparr>
         else x\<lparr>nextActivate := rk_clock (ranks s r) + tXP C, currentBankState := Idle\<rparr>) (rk_bankStates (ranks s r))"
    and b: "\<And>b. b < NUM_BANKS C \<Longrightarrow> currentBankState (bankStates (mc s) r b) \<in> {Idle, PowerDown}"
    and C: "0 < NUM_BANKS C"
  shows "mid_inv C 0 t (s\<lparr>mc := set_power C r down (mc s), ranks := (ranks s)(r := k)\<rparr>)"
proof -
  let ?s = "s\<lparr>mc := set_power C r down (mc s), ranks := (ranks s)(r := k)\<rparr>"
  let ?bs = "bankStates (mc s)" and ?bs' = "bankStates (set_power C r down (mc s))"
  have clk: "rk_clock (ranks s r) = mc_clock (mc s)" using inv r by (simp add: mid_inv_def rank_inv_def)
  have other: "?bs' i = ?bs i" if "i \<noteq> r" for i using that by (simp add: set_power_def each_bank_def fun_eq_iff)
  have here: "?bs' r b = (if down then (?bs r b)\<lparr>currentBankState := PowerDown, nextPowerUp := mc_clock (mc s) + tCKE C\<rparr>
      else (?bs r b)\<lparr>currentBankState := Idle, nextActivate := mc_clock (mc s) + tXP C\<rparr>)" if "b < NUM_BANKS C" for b
    using that r by (simp add: set_power_def each_bank_def)
  have sync_r: "sync C (?bs' r) (rk_bankStates k)" if "sync C (?bs r) (rk_bankStates (ranks s r))"
    using that k(6) by (simp add: sync_def here bank_sync_def all_banks_def clk)
  have cmd: "cmd_inv C t ?s"
    using inv up other sync_r r by (auto simp: mid_inv_def cmd_inv_def set_power_def split: option.splits)
  have "banks_ok C ?bs' ((powerDown (mc s))(r := down))"
    using inv b r by (auto simp: mid_inv_def banks_ok_def bank_ok_def here other)
  moreover have "rank_inv C (set_power C r down (mc s)) i (((ranks s)(r := k)) i)" if "i < NUM_RANKS C" for i
  proof (cases "i = r")
    case True
    then show ?thesis using inv r k C here clk by (auto simp: mid_inv_def rank_inv_def all_banks_def) (auto simp: set_power_def)
  next
    case False
    then show ?thesis using inv that by (simp add: mid_inv_def rank_inv_def other) (simp add: set_power_def)
  qed
  moreover have "currentBankState (?bs' i b) = RowActive \<Longrightarrow> currentBankState (?bs i b) = RowActive \<and> nextWrite (?bs' i b) = nextWrite (?bs i b)"
    if "b < NUM_BANKS C" for i b using that here other by (cases "i = r") (auto split: if_splits)
  then have "bus_inv C 0 (set_power C r down (mc s))"
    using inv by (auto simp: mid_inv_def bus_inv_def) (auto simp: set_power_def bus_left_def cong: option.case_cong)
  moreover have "(\<Sum>i<NUM_RANKS C. rank_reads (((ranks s)(r := k)) i)) = (\<Sum>i<NUM_RANKS C. rank_reads (ranks s i))"
    using k(3,5) by (intro sum.cong) (simp_all add: rank_reads_def)
  then have "reads_inv C ?s" using inv by (simp add: mid_inv_def reads_inv_def reads_under_way_def) (simp add: set_power_def)
  ultimately show ?thesis using inv cmd by (simp add: mid_inv_def) (simp add: set_power_def queue_inv_def)
qed


lemma set_power_awake:
  assumes "awake C m" "\<And>p. outgoingCmdPacket m = Some p \<Longrightarrow> bp_rank p \<noteq> r"
  shows "awake C (set_power C r down m)"
  using assms by (auto simp: awake_def set_power_def each_bank_def)

lemma ms_power_inv:
  assumes inv: "mid_inv C 0 t s" and aw: "awake C (mc s)" and r: "r < NUM_RANKS C" and C: "0 < NUM_BANKS C"
  shows "\<exists>s'. ms_power C r s = Inr s' \<and> mid_inv C 0 t s' \<and> awake C (mc s') \<and> mc_clock (mc s') = mc_clock (mc s)"
proof -
  let ?m = "mc s" and ?k = "ranks s r"
  have ri: "rank_inv C ?m r ?k" and bo: "banks_ok C (bankStates ?m) (powerDown ?m)" using inv r by (simp_all add: mid_inv_def)
  have sync: "sync C (bankStates ?m r) (rk_bankStates ?k)" if "\<And>p. outgoingCmdPacket ?m = Some p \<Longrightarrow> bp_rank p \<noteq> r"
    using inv r that by (auto simp: mid_inv_def cmd_inv_def split: option.splits)
  define fine where "fine = (\<lambda>s'. mid_inv C 0 t s' \<and> awake C (mc s') \<and> mc_clock (mc s') = mc_clock ?m)"
  have down: "\<exists>k. rk_powerDown C ?k = Inr k \<and> fine (s\<lparr>mc := set_power C r True ?m, ranks := (ranks s)(r := k)\<rparr>)"
    if idle: "\<forall>b\<in>set [0..<NUM_BANKS C]. currentBankState (bankStates ?m r b) = Idle"
  proof -
    have up: "bp_rank p \<noteq> r" if "outgoingCmdPacket ?m = Some p" for p using aw idle that by (auto simp: awake_def)
    have "\<forall>b<NUM_BANKS C. currentBankState (rk_bankStates ?k b) = Idle" using sync up idle by (simp add: sync_def bank_sync_def)
    then obtain k where k: "rk_powerDown C ?k = Inr k" by (simp add: rk_powerDown_def assertE_def)
    have "mid_inv C 0 t (s\<lparr>mc := set_power C r True ?m, ranks := (ranks s)(r := k)\<rparr>)"
      by (rule set_power_inv [OF inv r up]) (use k idle C in \<open>auto simp: rk_powerDown_def\<close>)
    then show ?thesis using k set_power_awake [OF aw up] by (simp add: fine_def) (simp add: set_power_def)
  qed
  have up: "\<exists>k. rk_powerUp C ?k = Inr k \<and> fine (s\<lparr>mc := set_power C r False ?m, ranks := (ranks s)(r := k)\<rparr>)"
    if pd: "powerDown ?m r" and now: "nextPowerUp (bankStates ?m r 0) \<le> mc_clock ?m"
  proof -
    have b: "currentBankState (bankStates ?m r b) = PowerDown" if "b < NUM_BANKS C" for b using bo r pd that by (simp add: banks_ok_def)
    have up: "bp_rank p \<noteq> r" if "outgoingCmdPacket ?m = Some p" for p using aw b that by (auto simp: awake_def)
    have "isPowerDown ?k" "\<forall>b<NUM_BANKS C. nextPowerUp (rk_bankStates ?k b) \<le> rk_clock ?k" using ri pd now by (fastforce simp: rank_inv_def)+
    then obtain k where k: "rk_powerUp C ?k = Inr k" by (simp add: rk_powerUp_def assertE_def)
    have "mid_inv C 0 t (s\<lparr>mc := set_power C r False ?m, ranks := (ranks s)(r := k)\<rparr>)"
      by (rule set_power_inv [OF inv r up]) (use k b C in \<open>auto simp: rk_powerUp_def\<close>)
    then show ?thesis using k set_power_awake [OF aw up] by (simp add: fine_def) (simp add: set_power_def)
  qed
  have stay: "fine s" using inv aw by (simp add: fine_def)
  have energy: "fine (s'\<lparr>mc := (mc s')\<lparr>backgroundEnergy := x\<rparr>\<rparr>)" if "fine s'" for s' x
    using that mid_inv_same [of C 0 t s' "(mc s')\<lparr>backgroundEnergy := x\<rparr>"]
    by (simp add: fine_def mid_inv_def same_mc_def reads_inv_def reads_under_way_def awake_def)
  let ?act = "if USE_LOW_POWER C then
      if cq_isEmpty C r (commandQueue ?m) \<and> \<not> rk_refreshWaiting ?k then
        if \<forall>b\<in>set [0..<NUM_BANKS C]. currentBankState (bankStates ?m r b) = Idle then
          bindE (rk_powerDown C ?k) (\<lambda>k. Inr (s\<lparr>mc := set_power C r True ?m, ranks := (ranks s)(r := k)\<rparr>))
        else Inr s
      else if mc_clock ?m \<ge> nextPowerUp (bankStates ?m r 0) \<and> powerDown ?m r then
        bindE (rk_powerUp C ?k) (\<lambda>k. Inr (s\<lparr>mc := set_power C r False ?m, ranks := (ranks s)(r := k)\<rparr>))
      else Inr s
    else Inr s"
  have "\<exists>s'. ?act = Inr s' \<and> fine s'"
    using stay down up by (cases "USE_LOW_POWER C"; cases "cq_isEmpty C r (commandQueue ?m) \<and> \<not> rk_refreshWaiting ?k") (auto simp del: set_upt)
  then obtain s' where "?act = Inr s'" "fine s'" by blast
  then show ?thesis using energy [of s'] unfolding ms_power_def by (simp add: fine_def)
qed


lemma mc_return_inv:
  assumes inv: "mid_inv C e t s"
  shows "\<exists>rs m'. mc_return C (mc s) = Inr (rs, m') \<and> mid_inv C e t (s\<lparr>mc := m'\<rparr>) \<and> mc_clock m' = mc_clock (mc s)"
proof (cases "returnTransaction (mc s)")
  case Nil
  then show ?thesis using inv by (simp add: mc_return_def)
next
  case (Cons u us)
  let ?ps = "pendingReadTransactions (mc s)"
  have sub: "reads_under_way C s \<subseteq># image_mset t_address (mset ?ps)" using inv by (simp add: mid_inv_def reads_inv_def)
  have "t_address u \<in># reads_under_way C s" using Cons by (simp add: reads_under_way_def)
  then have "t_address u \<in># image_mset t_address (mset ?ps)" using mset_subset_eqD [OF sub] by blast
  then have "first_index (\<lambda>x. t_address x = t_address u) ?ps \<noteq> None" by (auto simp: first_index_None_iff)
  then obtain i where i: "first_index (\<lambda>x. t_address x = t_address u) ?ps = Some i" by blast
  then have len: "i < length ?ps" "t_address (?ps ! i) = t_address u" by (auto simp: first_index_Some_iff)
  obtain rs m' where m': "mc_return C (mc s) = Inr (rs, m')" "same_mc m' (mc s)" "returnTransaction m' = us"
    "pendingReadTransactions m' = take i ?ps @ drop (i + 1) ?ps"
    using Cons i by (simp add: mc_return_def same_mc_def Let_def)
  have "reads_under_way C s = add_mset (t_address u) (reads_under_way C (s\<lparr>mc := m'\<rparr>))"
    using m'(2,3) Cons by (simp add: reads_under_way_def same_mc_def)
  moreover have "image_mset t_address (mset ?ps) = add_mset (t_address u) (image_mset t_address (mset (take i ?ps @ drop (i + 1) ?ps)))"
    using mset_take_drop [OF len(1)] len(2) by simp
  ultimately have "reads_inv C (s\<lparr>mc := m'\<rparr>)" using sub by (simp add: reads_inv_def m'(4))
  with mid_inv_same [OF inv m'(2)] m' show ?thesis by (auto simp: same_mc_def)
qed

lemma ms_step_inv:
  assumes "mid_inv C 0 (mc_clock (mc s) + 1) s"
  shows "channel_inv C (ms_step C (s\<lparr>mc := mc_end_cycle C (mc s)\<rparr>))"
proof -
  let ?s = "ms_step C (s\<lparr>mc := mc_end_cycle C (mc s)\<rparr>)"
  have m: "mc ?s = (mc s)\<lparr>refreshCountdown := refreshCountdown (mc ?s), commandQueue := (commandQueue (mc s))\<lparr>cq_clock := cq_clock (commandQueue (mc s)) + 1\<rparr>, mc_clock := mc_clock (mc s) + 1\<rparr>"
    by (simp add: ms_step_def mc_end_cycle_def)
  have k: "rk_bankStates (ranks ?s r) = rk_bankStates (ranks s r)" "rank_reads (ranks ?s r) = rank_reads (ranks s r)" for r
    by (simp_all add: ms_step_def rank_reads_def)
  have "rank_inv C (mc ?s) r (ranks ?s r)" if "r < NUM_RANKS C" for r
    using assms that by (auto simp: mid_inv_def rank_inv_def ms_step_def mc_end_cycle_def)
  moreover have "queue_inv C (mc ?s)"
    using assms by (simp add: mid_inv_def queue_inv_def cq_ok_def ms_step_def mc_end_cycle_def)
  moreover have "bus_inv C 1 (mc ?s)"
  proof -
    have "bus_left (mc ?s) = bus_left (mc s)" by (simp add: ms_step_def mc_end_cycle_def bus_left_def cong: option.case_cong)
    moreover have "max x y + w + 1 \<ge> x + 1 + b \<Longrightarrow> max (x + 1) y + w + 1 \<ge> x + 1 + b" for x y w b :: nat by simp
    ultimately show ?thesis using assms
      by (simp add: mid_inv_def bus_inv_def) (fastforce simp: ms_step_def mc_end_cycle_def)
  qed
  moreover have "cmd_inv C (mc_clock (mc ?s)) ?s"
    using assms k(1) by (auto simp: mid_inv_def cmd_inv_def ms_step_def mc_end_cycle_def split: option.splits)
  moreover have "reads_inv C ?s"
    using assms k(2) by (simp add: mid_inv_def reads_inv_def reads_under_way_def) (simp add: ms_step_def mc_end_cycle_def)
  ultimately show ?thesis using assms by (simp add: mid_inv_def) (simp add: ms_step_def mc_end_cycle_def)
qed

subsection \<open>A cycle\<close>

lemma ms_update_inv:
  assumes inv: "channel_inv C s" and C: "safe_config C"
  shows "\<exists>cs s'. ms_update C period s = Inr (cs, s') \<and> channel_inv C s'"
proof -
  let ?t = "mc_clock (mc s)"
  note pos = safe_config_pos [OF C]
  let ?P = "\<lambda>e u x. mid_inv C e u x \<and> mc_clock (mc x) = ?t"
  have "\<exists>s1. foldE (ms_update_rank C) [0..<NUM_RANKS C] s = Inr s1 \<and> ?P 1 ?t s1"
  proof (rule foldE_returns)
    show "\<exists>x'. ms_update_rank C r x = Inr x' \<and> ?P 1 ?t x'" if "r \<in> set [0..<NUM_RANKS C]" "?P 1 ?t x" for r x
      using ms_update_rank_inv [of C 1 ?t x r] that by auto
  qed (use inv in simp)
  then obtain s1 where s1: "foldE (ms_update_rank C) [0..<NUM_RANKS C] s = Inr s1" "?P 1 ?t s1" by blast
  let ?s2 = "(ms_admit C s1)\<lparr>mc := mc_step_banks C (mc (ms_admit C s1))\<rparr>"
  have "?P 1 ?t (ms_admit C s1)" using ms_admit_inv [of C 1 ?t s1] s1(2) by simp
  then have "?P 1 ?t ?s2" using mc_step_banks_inv [of C 1 ?t "ms_admit C s1"] by (simp add: mc_step_banks_def)
  then obtain s3 where s3: "ms_send_cmd C ?s2 = Inr s3" "?P 1 ?t s3" "outgoingCmdPacket (mc s3) = None"
    using ms_send_cmd_inv [of C 1 ?s2] by auto
  then obtain ws s4 s5 where s5: "ms_send_data C s3 = Inr (ws, s4)" "lift_mc (mc_write_data C) s4 = Inr s5" "?P 0 ?t s5"
      "outgoingCmdPacket (mc s5) = None" "bus_busy C (mc s5) < WL C + BL C div 2"
    using ms_data_inv [OF _ C, of ?t s3] by auto
  let ?s6 = "ms_refresh C period s5"
  have s6: "?P 0 ?t ?s6" "outgoingCmdPacket (mc ?s6) = None" "bus_busy C (mc ?s6) < WL C + BL C div 2"
    using ms_refresh_inv [of C 0 ?t s5 period] s5(3-) by simp_all
  then obtain s7 where s7: "lift_mc (mc_issue C) ?s6 = Inr s7" "?P 0 (?t + 1) s7" "awake C (mc s7)"
    using mc_issue_inv [OF _ s6(2,3) C] by auto
  then obtain s8 where s8: "lift_mc (mc_schedule C) s7 = Inr s8" "?P 0 (?t + 1) s8" "awake C (mc s8)"
    using mc_schedule_inv [OF _ C, of 0 "?t + 1" s7] by auto
  have "\<exists>s9. foldE (ms_power C) [0..<NUM_RANKS C] s8 = Inr s9 \<and> ?P 0 (?t + 1) s9 \<and> awake C (mc s9)"
  proof (rule foldE_returns)
    show "\<exists>x'. ms_power C r x = Inr x' \<and> ?P 0 (?t + 1) x' \<and> awake C (mc x')"
      if "r \<in> set [0..<NUM_RANKS C]" "?P 0 (?t + 1) x \<and> awake C (mc x)" for r x
      using ms_power_inv [of C "?t + 1" x r] that pos by auto
  qed (use s8 in simp)
  then obtain s9 where s9: "foldE (ms_power C) [0..<NUM_RANKS C] s8 = Inr s9" "?P 0 (?t + 1) s9" by blast
  then obtain rs m where m: "mc_return C (mc s9) = Inr (rs, m)" "?P 0 (?t + 1) (s9\<lparr>mc := m\<rparr>)"
    using mc_return_inv [of C 0 "?t + 1" s9] by auto
  have "ms_update C period s = Inr (ws @ rs, ms_step C (s9\<lparr>mc := mc_end_cycle C m\<rparr>))"
    by (simp add: ms_update_def controller_update_def s1(1) s3(1) s5(1,2) s7(1) s8(1) s9(1) m(1))
  then show ?thesis using ms_step_inv [of C "s9\<lparr>mc := m\<rparr>"] m(2) by simp
qed


subsection \<open>The other operations of a channel\<close>

lemma new_MemorySystem_inv:
  assumes "safe_config C"
  shows "\<exists>s. new_MemorySystem C period = Inr s \<and> channel_inv C s"
proof -
  obtain m where m: "new_MemoryController C period = Inr m"
    using assms by (simp add: new_MemoryController_def new_CommandQueue_def safe_config_def)
  let ?s = "\<lparr>mc = m, ranks = new_Rank, pendingTransactions = []\<rparr>"
  have f: "queues (commandQueue m) = (\<lambda>_ _. [])" "cq_ok C (commandQueue m)" "cq_clock (commandQueue m) = 0" "mc_clock m = 0" "refreshRank m = 0"
      "transactionQueue m = []" "bankStates m = (\<lambda>_ _. new_BankState)" "powerDown m = (\<lambda>_. False)" "outgoingCmdPacket m = None"
      "outgoingDataPacket m = None" "writeDataToSend m = []" "writeDataCountdown m = []" "returnTransaction m = []" "pendingReadTransactions m = []"
    using m safe_config_pos [OF assms] by (auto simp: new_MemoryController_def new_CommandQueue_def cq_ok_def in_range_def)
  have "channel_inv C ?s"
    using f safe_config_pos [OF assms] assms
    by (simp add: mid_inv_def queue_inv_def wf_queues_def banks_ok_def bank_ok_def rank_inv_def cmd_inv_def sync_def bank_sync_def bus_inv_def bus_left_def
        reads_inv_def reads_under_way_def rank_reads_def queue_packets_def new_Rank_def new_BankState_def safe_config_def)
  then show ?thesis using m by (simp add: new_MemorySystem_def)
qed

lemma ms_addTransaction_inv:
  assumes "channel_inv C s" "ms_addTransaction C w a t i s = (ok, s')"
  shows "channel_inv C s'"
  using assms
  by (auto simp: ms_addTransaction_def mc_addTransaction_def mid_inv_def queue_inv_def rank_inv_def cmd_inv_def bus_inv_def bus_left_def
      reads_inv_def reads_under_way_def Let_def split: if_splits cong: option.case_cong)

lemma channel_inv_statistics:
  assumes "channel_inv C s"
  shows "channel_inv C (s\<lparr>mc := mc_printStats C period voltage (mc s)\<rparr>)" "channel_inv C (s\<lparr>mc := snd (mc_getPower (mc s))\<rparr>)"
proof -
  have same: "channel_inv C (s\<lparr>mc := m\<rparr>)"
    if "same_mc m (mc s)" "returnTransaction m = returnTransaction (mc s)" "pendingReadTransactions m = pendingReadTransactions (mc s)" for m
    using mid_inv_same [OF assms that(1)] assms that by (simp add: mid_inv_def reads_inv_def reads_under_way_def same_mc_def)
  show "channel_inv C (s\<lparr>mc := mc_printStats C period voltage (mc s)\<rparr>)" "channel_inv C (s\<lparr>mc := snd (mc_getPower (mc s))\<rparr>)"
    by (rule same; simp add: same_mc_def mc_printStats_def mc_resetStats_def mc_getPower_def Let_def)+
qed

subsection \<open>The memory system\<close>

definition sys_inv :: "dram_config \<Rightarrow> MultiChannelMemorySystem \<Rightarrow> bool" where
  "sys_inv C s \<longleftrightarrow> (\<forall>i<NUM_CHANS C. channel_inv C (channels s i)) \<and> clock1 (clockDomainCrosser s) = clock2 (clockDomainCrosser s)"

lemma actual_update_inv:
  assumes "sys_inv C s" "safe_config C"
  shows "\<exists>cs' s'. actual_update C (cs, s) = Inr (cs', s') \<and> sys_inv C s'"
proof -
  let ?P = "\<lambda>(cs, s). sys_inv C s"
  have "\<exists>y. actual_update C (cs, s) = Inr y \<and> ?P y"
    unfolding actual_update_def
  proof (rule foldE_returns)
    show "\<exists>y. update_channel C i x = Inr y \<and> ?P y" if "i \<in> set [0..<NUM_CHANS C]" "?P x" for i x
    proof -
      obtain ds u where x: "x = (ds, u)" by (cases x)
      have "channel_inv C (channels u i)" using that by (simp add: x sys_inv_def)
      from ms_update_inv [OF this assms(2), of "tCK u"] that(2) show ?thesis
        by (auto simp: x update_channel_def sys_inv_def)
    qed
  qed (use assms in simp)
  then show ?thesis by auto
qed

lemma sys_update_inv:
  assumes "sys_inv C s" "safe_config C"
  shows "\<exists>cs s'. sys_update C s = Inr (cs, s') \<and> sys_inv C s'"
proof -
  have x: "crosser_update (clockDomainCrosser s) = Inr (1, clockDomainCrosser s)" using assms(1) by (simp add: sys_inv_def crosser_update_def)
  obtain cs s' where "actual_update C ([], s) = Inr (cs, s')" "sys_inv C s'" using actual_update_inv [OF assms] by blast
  then show ?thesis using assms(1) by (simp add: sys_update_def x sys_inv_def)
qed

lemma sys_addTransaction_inv:
  assumes "sys_inv C s" "sys_addTransaction C w a t i s = Inr (ok, s')"
  shows "sys_inv C s'"
  using assms ms_addTransaction_inv by (fastforce simp: sys_addTransaction_def sys_inv_def Let_def split: prod.splits)

lemma sys_statistics_inv:
  assumes "sys_inv C s"
  shows "sys_inv C (sys_updateFreq f s)" "sys_inv C (sys_printStats C s)" "sys_inv C (snd (sys_getPower C s))"
  using assms channel_inv_statistics
  by (simp_all add: sys_inv_def sys_updateFreq_def sys_printStats_def sys_getPower_def each_channel_def Let_def)

end
