(* ===== verification/DS_Link.thy ===== *)
theory DS_Link
  imports GD_Start DS_Safe
begin

section \<open>The platform on its DRAM simulator\<close>

text \<open>
  The wrapper through which the platform calls DRAMSim2 (\<open>dramsim2_wrapper.cc\<close>), as the parameter of the platform's model. A
  check that fails in the simulator ends the program; here the simulator stops and keeps the error, and nothing more is accepted
  or answered. The simulator meets what the platform relies on, so the contract of the platform holds on it.
\<close>

record dram =
  dramsim :: MultiChannelMemorySystem
  stopped :: "fault option"

text \<open>Senders are integers in DRAMSim2; the platform passes the codes of its IP types.\<close>

definition sender_of :: "int \<Rightarrow> IP_TYPE" where
  "sender_of t = (if 0 \<le> t \<and> t < 17 then IP_TYPES ! nat t else IP_TYPE_END)"

definition to_completion :: "reply \<Rightarrow> completion" where
  "to_completion = (\<lambda>(isRead, a, t, i). (isRead, a, sender_of t, i))"

definition running :: "dram \<Rightarrow> (MultiChannelMemorySystem \<Rightarrow> ('a \<times> MultiChannelMemorySystem) result) \<Rightarrow> 'a \<Rightarrow> 'a \<times> dram" where
  "running d f x =
     (if stopped d = None then
        case f (dramsim d) of Inr (y, s) \<Rightarrow> (y, d\<lparr>dramsim := s\<rparr>) | Inl e \<Rightarrow> (x, d\<lparr>stopped := Some e\<rparr>)
      else (x, d))"

definition wrapper_enqueue :: "dram_config \<Rightarrow> bool \<Rightarrow> addr \<Rightarrow> IP_TYPE \<Rightarrow> int \<Rightarrow> dram \<Rightarrow> dram" where
  "wrapper_enqueue C w a t i d =
     snd (running d (\<lambda>s. bindE (sys_addTransaction C w a (int (ip_code t)) i s) (\<lambda>(success, s).
       bindE (assertE ''success'' success) (\<lambda>_. Inr ((), s)))) ())"

definition wrapper_tick :: "dram_config \<Rightarrow> dram \<Rightarrow> completion list \<times> dram" where
  "wrapper_tick C d = (let (cs, d) = running d (sys_update C) [] in (map to_completion cs, d))"

definition DRAMSim2 :: "dram_config \<Rightarrow> dram DRAMSim2Wrapper" where
  "DRAMSim2 C =
     \<lparr>canAccept = (\<lambda>d. stopped d = None \<and> willAcceptTransaction C (dramsim d)), dram_enqueue = wrapper_enqueue C, dram_tick = wrapper_tick C,
      updateFreq = (\<lambda>f d. d\<lparr>dramsim := sys_updateFreq f (dramsim d)\<rparr>),
      getPower = (\<lambda>d. let (p, s) = sys_getPower C (dramsim d) in (p, d\<lparr>dramsim := s\<rparr>)),
      dram_printStats = (\<lambda>d. d\<lparr>dramsim := sys_printStats C (dramsim d)\<rparr>),
      dram_bandwidth = (\<lambda>d. sys_getBandwidth C (dramsim d)), dram_latency = (\<lambda>d. sys_getLatency C (dramsim d)), getNumChannels = NUM_CHANS C\<rparr>"

definition new_DRAMSim2Wrapper :: "dram_config \<Rightarrow> real \<Rightarrow> real \<Rightarrow> nat \<Rightarrow> (dram_config \<times> dram) result" where
  "new_DRAMSim2Wrapper C period voltage memory_size_mb =
     bindE (new_MultiChannelMemorySystem C period voltage memory_size_mb) (\<lambda>(C, s).
     bindE (assertE ''DRAMSim2 wrapper failed to get clock'' (period \<noteq> 0)) (\<lambda>_.
     bindE (assertE ''DRAMSim2 wrapper failed to get queue size'' (TRANS_QUEUE_DEPTH C \<noteq> 0)) (\<lambda>_.
     bindE (assertE ''DRAMSim22 wrapper failed to get burst size'' (JEDEC_DATA_BUS_BITS C \<noteq> 0 \<and> BL C \<noteq> 0)) (\<lambda>_.
     Inr (C, \<lparr>dramsim = setCPUClockSpeed 0 s, stopped = None\<rparr>)))))"

definition dram_pending :: "dram_config \<Rightarrow> dram \<Rightarrow> completion multiset" where
  "dram_pending C d = image_mset to_completion (sys_pending C (dramsim d))"

lemma sender_of_code [simp]: "sender_of (int (ip_code t)) = t"
  by (cases t) (simp_all add: sender_of_def IP_TYPES_def)

lemma findChannelNumber_returns:
  "isPowerOfTwo (NUM_CHANS C) \<Longrightarrow> \<exists>n. findChannelNumber C a = Inr n"
  using addressMapping_less(1) [of C a] by (simp add: findChannelNumber_def isPowerOfTwo_def Let_def)

lemma sys_addTransaction_returns:
  "isPowerOfTwo (NUM_CHANS C) \<Longrightarrow> \<exists>ok s'. sys_addTransaction C w a t i s = Inr (ok, s')"
  using findChannelNumber_returns [of C a] by (auto simp: sys_addTransaction_def split: prod.split)

lemma DRAMSim2_conserves:
  assumes "isPowerOfTwo (NUM_CHANS C)"
  shows "dram_conserves (DRAMSim2 C) (dram_pending C)"
proof -
  have chans: "0 < NUM_CHANS C" using assms by (auto simp: isPowerOfTwo_iff)
  have enq: "dram_pending C (wrapper_enqueue C w a t i d) = add_mset (\<not> w, a, t, i) (dram_pending C d)"
    if acc: "stopped d = None" "willAcceptTransaction C (dramsim d)" for w a t i d
  proof -
    obtain ok s where s: "sys_addTransaction C w a (int (ip_code t)) i (dramsim d) = Inr (ok, s)"
      using sys_addTransaction_returns [OF assms] by blast
    from sys_addTransaction_pending [OF s acc(2) chans] acc(1) show ?thesis
      by (simp add: wrapper_enqueue_def running_def s dram_pending_def to_completion_def)
  qed
  have tick: "dram_pending C d = mset cs + dram_pending C d'" if "wrapper_tick C d = (cs, d')" for d cs d'
    using that sys_update_pending [of C "dramsim d"]
    by (auto simp: wrapper_tick_def running_def dram_pending_def split: if_splits sum.splits)
  show ?thesis using enq tick by (auto simp: dram_conserves_def DRAMSim2_def dram_pending_def Let_def split: prod.split) (metis snd_conv sys_statistics_pending(3))
qed


subsection \<open>The simulator as it is built\<close>

lemma new_MemorySystem_pending:
  "new_MemorySystem C period = Inr ch \<Longrightarrow> ms_pending C' ch = {#}"
  by (auto simp: new_MemorySystem_def new_MemoryController_def new_CommandQueue_def ms_pending_def mc_pending_def queue_packets_def)

lemma new_DRAMSim2Wrapper_fresh:
  assumes "new_DRAMSim2Wrapper C period voltage megs = Inr (C', d)"
  shows "dram_pending C' d = {#}" "NUM_CHANS C' = NUM_CHANS C" "stopped d = None"
proof -
  from assms obtain ch where ch: "new_MemorySystem C' period = Inr ch" "\<And>i. channels (dramsim d) i = ch"
    and r: "NUM_CHANS C' = NUM_CHANS C" "stopped d = None"
    by (auto simp: new_DRAMSim2Wrapper_def new_MultiChannelMemorySystem_def setCPUClockSpeed_def Let_def)
  show "dram_pending C' d = {#}" by (simp add: dram_pending_def sys_pending_def ch(2) new_MemorySystem_pending [OF ch(1)])
qed (use assms in \<open>auto simp: new_DRAMSim2Wrapper_def new_MultiChannelMemorySystem_def Let_def\<close>)


lemma new_DRAMSim2Wrapper_inv:
  assumes "new_DRAMSim2Wrapper C period voltage megs = Inr (C', d)" "safe_config C'"
  shows "sys_inv C' (dramsim d)"
proof -
  from assms(1) obtain ch where ch: "new_MemorySystem C' period = Inr ch" "\<And>i. channels (dramsim d) i = ch"
    and clk: "clock1 (clockDomainCrosser (dramsim d)) = clock2 (clockDomainCrosser (dramsim d))"
    by (auto simp: new_DRAMSim2Wrapper_def new_MultiChannelMemorySystem_def setCPUClockSpeed_def Let_def)
  from new_MemorySystem_inv [OF assms(2), of period] ch clk show ?thesis by (simp add: sys_inv_def)
qed

subsection \<open>Runs of the simulator\<close>

text \<open>
  What the platform does with the simulator: it builds it, passes requests while they are accepted, ticks it, and reads
  or changes its parameters, in any order.
\<close>

inductive dram_run :: "dram_config \<Rightarrow> dram \<Rightarrow> bool" for C where
  start: "new_DRAMSim2Wrapper C0 period voltage megs = Inr (C, d) \<Longrightarrow> dram_run C d"
| enqueue: "dram_run C d \<Longrightarrow> canAccept (DRAMSim2 C) d \<Longrightarrow> dram_run C (dram_enqueue (DRAMSim2 C) w a t i d)"
| tick: "dram_run C d \<Longrightarrow> dram_run C (snd (dram_tick (DRAMSim2 C) d))"
| freq: "dram_run C d \<Longrightarrow> dram_run C (updateFreq (DRAMSim2 C) f d)"
| stats: "dram_run C d \<Longrightarrow> dram_run C (dram_printStats (DRAMSim2 C) d)"
| power: "dram_run C d \<Longrightarrow> dram_run C (snd (getPower (DRAMSim2 C) d))"

lemma dram_run_inv:
  assumes "dram_run C d" "safe_config C" "isPowerOfTwo (NUM_CHANS C)"
  shows "stopped d = None \<and> sys_inv C (dramsim d)"
  using assms(1)
proof induction
  case (start C0 period voltage megs d)
  then show ?case using new_DRAMSim2Wrapper_inv [OF start assms(2)] new_DRAMSim2Wrapper_fresh(3) [OF start] by simp
next
  case (enqueue d w a t i)
  obtain ok s where s: "sys_addTransaction C w a (int (ip_code t)) i (dramsim d) = Inr (ok, s)"
    using sys_addTransaction_returns [OF assms(3)] by blast
  have "0 < NUM_CHANS C" using assms(3) by (auto simp: isPowerOfTwo_iff)
  with sys_addTransaction_pending [OF s] sys_addTransaction_inv [OF _ s] enqueue show ?case
    by (simp add: DRAMSim2_def wrapper_enqueue_def running_def s assertE_def)
next
  case (tick d)
  then obtain cs s where "sys_update C (dramsim d) = Inr (cs, s)" "sys_inv C s" using sys_update_inv [OF _ assms(2)] by blast
  with tick show ?case by (simp add: DRAMSim2_def wrapper_tick_def running_def)
next
  case (power d)
  then show ?case using sys_statistics_inv(3) [of C "dramsim d"] by (cases "sys_getPower C (dramsim d)") (simp add: DRAMSim2_def)
qed (use sys_statistics_inv in \<open>auto simp: DRAMSim2_def\<close>)

subsection \<open>The shipped configuration\<close>

lemma LPDDR3_safe: "safe_config LPDDR3_gemdroid" "isPowerOfTwo (NUM_CHANS LPDDR3_gemdroid)"
proof -
  have "isPowerOfTwo (NUM_CHANS LPDDR3_gemdroid)" "isPowerOfTwo (NUM_RANKS LPDDR3_gemdroid)" "isPowerOfTwo (NUM_BANKS LPDDR3_gemdroid)"
    unfolding isPowerOfTwo_def LPDDR3_widths by (simp_all add: LPDDR3_gemdroid_def)
  then show "safe_config LPDDR3_gemdroid" "isPowerOfTwo (NUM_CHANS LPDDR3_gemdroid)"
    by (simp_all add: safe_config_def) (simp_all add: LPDDR3_gemdroid_def WL_def RL_def ACT_TO_COL_DELAY_def u32_def)
qed

lemma LPDDR3_new: "\<exists>d. new_DRAMSim2Wrapper LPDDR3_gemdroid (333 / 100) (11 / 10) 4096 = Inr (LPDDR3_gemdroid, d)"
proof -
  have c: "LPDDR3_gemdroid\<lparr>NUM_RANKS := ranks_of LPDDR3_gemdroid (4096 div NUM_CHANS LPDDR3_gemdroid)\<rparr> = LPDDR3_gemdroid"
    unfolding LPDDR3_ranks by simp
  have "isPowerOfTwo 4096" using isPowerOfTwo_iff [of 4096] by (auto intro: exI [of _ 12])
  moreover have "NUM_CHANS LPDDR3_gemdroid \<noteq> 0" "megsOfStoragePerRank LPDDR3_gemdroid \<noteq> 0" "TRANS_QUEUE_DEPTH LPDDR3_gemdroid \<noteq> 0"
      "JEDEC_DATA_BUS_BITS LPDDR3_gemdroid \<noteq> 0" "BL LPDDR3_gemdroid \<noteq> 0"
    by (simp_all add: LPDDR3_gemdroid_def megsOfStoragePerRank_def)
  moreover obtain ch where "new_MemorySystem LPDDR3_gemdroid (333 / 100) = Inr ch" using new_MemorySystem_inv [OF LPDDR3_safe(1)] by blast
  ultimately show ?thesis by (simp add: new_DRAMSim2Wrapper_def new_MultiChannelMemorySystem_def assertE_def Let_def c del: One_nat_def)
qed

subsection \<open>Sequences of operations\<close>

text \<open>
  The interface between the platform and its memory: a sequence of calls, with the requests that were accepted and the completions that
  were reported. Any memory with the law of \<open>dram_conserves\<close> reports of such a sequence exactly what it does not hold any more.
\<close>

datatype dram_call = Request bool addr IP_TYPE int | Tick | SetFreq real | ReadPower | PrintStats

fun dram_exec :: "'d DRAMSim2Wrapper \<Rightarrow> dram_call list \<Rightarrow> 'd \<Rightarrow> completion multiset \<times> completion multiset \<times> 'd" where
  "dram_exec D [] d = ({#}, {#}, d)"
| "dram_exec D (Request w a t i # xs) d =
     (if canAccept D d then
        let (accepted, answered, d) = dram_exec D xs (dram_enqueue D w a t i d) in (add_mset (\<not> w, a, t, i) accepted, answered, d)
      else dram_exec D xs d)"
| "dram_exec D (Tick # xs) d =
     (let (cs, d) = dram_tick D d; (accepted, answered, d) = dram_exec D xs d in (accepted, mset cs + answered, d))"
| "dram_exec D (SetFreq f # xs) d = dram_exec D xs (updateFreq D f d)"
| "dram_exec D (ReadPower # xs) d = dram_exec D xs (snd (getPower D d))"
| "dram_exec D (PrintStats # xs) d = dram_exec D xs (dram_printStats D d)"

locale request_store =
  fixes D :: "'d DRAMSim2Wrapper" and pending :: "'d \<Rightarrow> completion multiset"
  assumes conserves: "dram_conserves D pending"
begin

lemma law:
  "canAccept D d \<Longrightarrow> pending (dram_enqueue D w a t i d) = add_mset (\<not> w, a, t, i) (pending d)"
  "dram_tick D d = (cs, d') \<Longrightarrow> pending d = mset cs + pending d'"
  "pending (updateFreq D f d) = pending d" "pending (snd (getPower D d)) = pending d" "pending (dram_printStats D d) = pending d"
  using conserves by (simp_all add: dram_conserves_def)

lemma exec_conserves: "dram_exec D xs d = (accepted, answered, d') \<Longrightarrow> pending d + accepted = answered + pending d'"
proof (induction xs arbitrary: d accepted answered d')
  case (Cons x xs)
  show ?case
  proof (cases x)
    case (Request w a t i)
    show ?thesis
    proof (cases "canAccept D d")
      case True
      obtain as bs e where r: "dram_exec D xs (dram_enqueue D w a t i d) = (as, bs, e)" by (cases "dram_exec D xs (dram_enqueue D w a t i d)")
      show ?thesis using Cons.IH [OF r] Cons.prems r True law(1) [OF True] by (auto simp: Request)
    qed (use Cons Request in simp)
  next
    case Tick
    obtain cs e where e: "dram_tick D d = (cs, e)" by (cases "dram_tick D d")
    obtain as bs f where r: "dram_exec D xs e = (as, bs, f)" by (cases "dram_exec D xs e")
    show ?thesis using Cons.IH [OF r] Cons.prems r e law(2) [OF e] by (simp add: Tick add.assoc)
  qed (use Cons law(3-5) in \<open>fastforce+\<close>)
qed simp

end

interpretation shipped: request_store "DRAMSim2 LPDDR3_gemdroid" "dram_pending LPDDR3_gemdroid"
  by unfold_locales (rule DRAMSim2_conserves [OF LPDDR3_safe(2)])

interpretation reference: request_store fifo_dram mset
  by unfold_locales (rule dram_conserves_fifo)

subsection \<open>Properties\<close>

text \<open>C3: the simulator never ends the program. However the platform builds it, passes requests, ticks it and changes its frequency, no check
  of DRAMSim2 fails, with open rows and parameters as in \<open>safe_config\<close>: every command a rank receives is one its banks allow, no two packets meet
  on a bus, no queue overflows, all data that comes back is waited for, and the next cycle returns as well.
\<close>

theorem dramsim2_never_stops:
  assumes "dram_run C d" "safe_config C" "isPowerOfTwo (NUM_CHANS C)"
  shows "stopped d = None \<and> (\<exists>cs s. sys_update C (dramsim d) = Inr (cs, s))"
  using dram_run_inv [OF assms] sys_update_inv [OF _ assms(2)] by blast

theorem dramsim2_never_stops_witness:
  "\<exists>d. dram_run LPDDR3_gemdroid d \<and> stopped (snd (dram_tick (DRAMSim2 LPDDR3_gemdroid) d)) = None"
proof -
  obtain d where d: "dram_run LPDDR3_gemdroid d" using LPDDR3_new dram_run.start by blast
  with dramsim2_never_stops [OF dram_run.tick [OF d] LPDDR3_safe] show ?thesis by blast
qed





text \<open>C5: the simulator meets what the platform relies on. With a power of two of channels, in every state, DRAMSim2 reports every request it
  accepted exactly once and no other, with the address and the sender it came with; changing the frequency and reading the statistics
  lose nothing.
\<close>

theorem dramsim2_meets_contract:
  assumes "isPowerOfTwo (NUM_CHANS C)"
  shows "dram_conserves (DRAMSim2 C) (dram_pending C)"
  using assms by (rule DRAMSim2_conserves)

theorem dramsim2_meets_contract_witness: "dram_conserves (DRAMSim2 LPDDR3_gemdroid) (dram_pending LPDDR3_gemdroid)"
  by (rule dramsim2_meets_contract [OF LPDDR3_safe(2)])

text \<open>C12: every request is answered once. From the start of the simulator on, after any sequence of calls, the requests it accepted are the
  ones it has reported and the ones it still holds, each exactly once.
\<close>

theorem dramsim2_answers_once:
  assumes "new_DRAMSim2Wrapper C period voltage megs = Inr (C', d)" "isPowerOfTwo (NUM_CHANS C')"
    and "dram_exec (DRAMSim2 C') calls d = (accepted, answered, d')"
  shows "accepted = answered + dram_pending C' d' \<and> answered \<subseteq># accepted"
  using request_store.exec_conserves [OF request_store.intro [OF DRAMSim2_conserves [OF assms(2)]] assms(3)]
    new_DRAMSim2Wrapper_fresh(1) [OF assms(1)] by simp

theorem dramsim2_answers_once_witness:
  "\<exists>d accepted answered d'. new_DRAMSim2Wrapper LPDDR3_gemdroid (333 / 100) (11 / 10) 4096 = Inr (LPDDR3_gemdroid, d) \<and>
     dram_exec (DRAMSim2 LPDDR3_gemdroid) [Request False 4096 IP_TYPE_CPU 0, Tick, Tick] d = (accepted, answered, d') \<and>
     accepted = answered + dram_pending LPDDR3_gemdroid d'"
proof -
  obtain d where d: "new_DRAMSim2Wrapper LPDDR3_gemdroid (333 / 100) (11 / 10) 4096 = Inr (LPDDR3_gemdroid, d)" using LPDDR3_new by blast
  obtain as bs e where r: "dram_exec (DRAMSim2 LPDDR3_gemdroid) [Request False 4096 IP_TYPE_CPU 0, Tick, Tick] d = (as, bs, e)"
    by (cases "dram_exec (DRAMSim2 LPDDR3_gemdroid) [Request False 4096 IP_TYPE_CPU 0, Tick, Tick] d") blast
  show ?thesis using dramsim2_answers_once [OF d LPDDR3_safe(2) r] d r by blast
qed



definition s_on :: "'d \<Rightarrow> 'd sched" where
  "s_on d = (let s = s_demo; w = wd s; u = un w; m = mem u in
     \<lparr>wd = \<lparr>un = \<lparr>gd = gd u, sa = sa u, mem = \<lparr>dramWrapper = d, mem_ticks = mem_ticks m, mem_perfectMemory = mem_perfectMemory m,
          perfectMemLatency = perfectMemLatency m, mem_cyclesToStall = mem_cyclesToStall m, m_freq = m_freq m, m_optMemFreq = m_optMemFreq m,
          m_power = m_power m, m_memCPUReqs = m_memCPUReqs m, m_memIPReqs = m_memIPReqs m, mem_rejected = mem_rejected m\<rparr>\<rparr>,
        gemdroid_core = gemdroid_core w, gemdroid_ip_dc = gemdroid_ip_dc w, gemdroid_ip_nw = gemdroid_ip_nw w, gemdroid_ip_snd = gemdroid_ip_snd w,
        gemdroid_ip_mic = gemdroid_ip_mic w, gemdroid_ip_cam = gemdroid_ip_cam w, gemdroid_ip_mmc_in = gemdroid_ip_mmc_in w,
        gemdroid_ip_mmc_out = gemdroid_ip_mmc_out w, gemdroid_ip_vd = gemdroid_ip_vd w, gemdroid_ip_ve = gemdroid_ip_ve w,
        gemdroid_ip_ad = gemdroid_ip_ad w, gemdroid_ip_ae = gemdroid_ip_ae w, gemdroid_ip_img = gemdroid_ip_img w, gemdroid_ip_gpu = gemdroid_ip_gpu w\<rparr>,
      gv = gv s, isPrintPeriodicStats = isPrintPeriodicStats s, isPrintPeriodicStatsPower = isPrintPeriodicStatsPower s, powerCalcLastTick = 0,
      periodicStatsLastTick = 0, slackLastTick = 0, dvfsLastTick = 0, memLastTick = 0, cpuLastTick = (\<lambda>_. 0), ipLastTick = (\<lambda>_ _. 0),
      memFreqMultiplier = 2, cpuFreqMultipliers = (\<lambda>_. 3), ipFreqMultipliers = (\<lambda>_ _. 3), framesMissed = 0, framesToBeShown = 0,
      m_totalCoreEnergy = (\<lambda>_. 0), m_totalIPEnergy = (\<lambda>_. 0), m_totalMemEnergy = 0, m_totalPlatformEnergy = 0, m_totalMilliSecs = 0\<rparr>)"


end
