(* ===== verification/Spec2Isabelle.thy ===== *)
theory Spec2Isabelle
  imports DS_Link
begin

section \<open>A verification library for GemDroid\<close>

text \<open>
  GemDroid (\<open>src/gemdroid.src/gemdroid\<close>) extends the gem5 simulator by a model of a mobile platform:
  cores that replay traces, devices and accelerators (the IPs), a GPU, a system agent that carries
  messages between them, a memory, and governors that choose frequencies. Its memory is simulated by DRAMSim2
  (\<open>src/gemdroid.needed/gemdroid.dramsim2/DRAMSim2\<close>), which GemDroid changed. This library models that
  code and proves what it promises.

  \<^bold>\<open>The program.\<close> The class \<open>GemDroid\<close> owns all components. Its \<open>tick\<close> runs each component at its own
  rate. A core reads its trace, keeps a reorder buffer, sends memory accesses and calls IPs through
  the system agent. An IP takes a request, reads and writes cache lines through the system agent and
  the memory and answers when its frame is done; the agent then calls the next IPs of the flow. The
  memory hands requests to the DRAM simulator and returns its completions. At the end of an epoch a
  governor changes the frequencies of cores, IPs and memory. Inside the DRAM simulator a request goes to the
  channel its address names, is broken up into commands that wait in queues per bank, and is reported when its
  data has passed the bus; the controller keeps the state of every bank to know which command may go, and the
  ranks check every command they receive.

  \<^bold>\<open>Theories and sources.\<close> In the order of their imports:

  \<^item> \<open>GD_Prelude\<close>: results with errors as values (\<open>fault\<close>, \<open>bindE\<close>, \<open>assertE\<close>, \<open>boundsE\<close>), C arithmetic
    (truncation, 32-bit wrap-around, quotient and remainder) and lemmas the components share.
  \<^item> \<open>GD_Defines\<close> (\<open>gemdroid_defines.hh\<close>): enumerations, their codes and order, names.
  \<^item> \<open>GD_Request\<close> (\<open>gemdroid_request.hh\<close>): the three kinds of messages.
  \<^item> \<open>GD_Flows\<close> (\<open>gemdroid.cc\<close>): the flow table, its loading and its queries.
  \<^item> \<open>GD_Platform\<close> (\<open>gemdroid.cc\<close>, \<open>gemdroid.hh\<close>): the data the components share, start and end of frames.
  \<^item> \<open>GD_SA\<close> (\<open>gemdroid_sa.cc\<close>): the queues of the system agent, their guards, calls to the next IPs.
  \<^item> \<open>GD_Mem\<close> (\<open>gemdroid_mem.cc\<close>): requests, completions, frequency; agent and memory together.
  \<^item> \<open>GD_Scale\<close>: the tables of voltages and frequencies, and the search for a frequency that fits the slack.
  \<^item> \<open>GD_IP\<close> (\<open>gemdroid_ip.cc\<close>): devices, with power states and estimates.
  \<^item> \<open>GD_Coder\<close> (\<open>gemdroid_ip_decoder.cc\<close>, \<open>_encoder.cc\<close>, \<open>_nocoder.cc\<close>, \<open>_dma.cc\<close>): accelerators.
  \<^item> \<open>GD_Core\<close> (\<open>gemdroid_core.cc\<close>, \<open>gemdroid_core_util.hh\<close>): cores.
  \<^item> \<open>GD_GPU\<close> (\<open>gemdroid_ip_gpu.cc\<close>): the GPU.
  \<^item> \<open>GD_System\<close> (\<open>gemdroid.cc\<close>, \<open>gemdroid_sa.cc\<close>): the record \<open>world\<close> of all components, and the dispatch
    of requests, answers and ticks to instances.
  \<^item> \<open>GD_Contract\<close>: the contract of the platform over every interleaving of its parts (\<open>plat_run\<close>).
  \<^item> \<open>GD_Governors\<close> (\<open>gemdroid_dvfs.cc\<close>): every governor \<open>updateDVFS\<close> runs.
  \<^item> \<open>GD_Choice\<close>: what the governors choose. \<open>GD_Tuning\<close>: that they do nothing else.
  \<^item> \<open>GD_Sched\<close> (\<open>gemdroid.cc\<close>, \<open>GemDroid.py\<close>): construction, the tick, accounting of power.
  \<^item> \<open>GD_Clock\<close>: what the steps of the tick leave alone. \<open>GD_Run\<close>: the scheduler stays within the contract,
    and how it divides the clock.
  \<^item> \<open>GD_Boot\<close>: what the constructor builds satisfies the contract. \<open>GD_Start\<close>: the constructor returns.
  \<^item> \<open>DS_Config\<close> (\<open>SystemConfiguration.h\<close>, \<open>AddressMapping.cpp\<close>, \<open>Transaction.h\<close>, \<open>BusPacket.h\<close>, \<open>BankState.h\<close>): parameters,
    delays, packets, bank states, the map from addresses to places, the shipped configuration.
  \<^item> \<open>DS_Queue\<close> (\<open>CommandQueue.cpp\<close>): the command queues and the choice of the next command.
  \<^item> \<open>DS_Rank\<close> (\<open>Rank.cpp\<close>): the ranks and their checks.
  \<^item> \<open>DS_Control\<close> (\<open>MemoryController.cpp\<close>, \<open>MemorySystem.cpp\<close>): a cycle of a channel, in the order of the code.
  \<^item> \<open>DS_System\<close> (\<open>MultiChannelMemorySystem.cpp\<close>, \<open>ClockDomain.cpp\<close>): the channels together.
  \<^item> \<open>DS_Pop\<close>: what the command queue gives out. \<open>DS_Conserve\<close>: no request is lost or invented.
    \<open>DS_Address\<close>: the address map. \<open>DS_Banks\<close>: ranks and controller agree on the banks. \<open>DS_Turn\<close>: the rounds
    over the queues end. \<open>DS_Bus\<close>: no two packets meet on the data bus. \<open>DS_Safe\<close>: the invariant of a channel.
  \<^item> \<open>DS_Link\<close> (\<open>dramsim2_wrapper.cc\<close>): the wrapper, and the platform on the simulator.

  \<^bold>\<open>State and operations.\<close> A C++ class is a record with the names of its members (with a prefix where
  a name is taken); a subclass extends the record of its base. A method is a function from the object
  and what it reaches of the platform to the changed ones. An assertion, an index outside an array and
  an impossible lookup end in \<open>Inl\<close> of a \<open>fault\<close>; a return value comes back beside the state. Arrays
  of components are functions from the index with the bounds written out. Machine integers are \<open>int\<close>
  where no value comes near the limits, and wrap where the code narrows (\<open>to_int32\<close>); frequencies,
  times and energies are reals. Memory that C++ leaves uninitialised is an argument of the constructor.

  \<^bold>\<open>Results.\<close> Per component an invariant, that every operation keeps it, and the exact behaviour of the
  operations whose result matters (waking up, frame pacing, flow lookup, frequency choice). Interfaces
  are locales, interpreted on the model: the buffer contract of the coders, its extension to the life of
  a coder and to its place on the platform (\<open>codec\<close>, \<open>coder_class\<close>, \<open>platform_coder\<close>, for the three coder
  classes), the table of frequencies (\<open>dvfs_table\<close>, for cores and IPs) and the writer of lines
  (\<open>line_writer\<close>, for the GPU). Across
  components: each memory request is delivered once, each accelerator waits for as many lines as are
  under way for it, requests are handed out exactly when a receiver is free, and none of this can fault,
  in any interleaving (\<open>plat_run\<close>); governors only tune, and every tick of the scheduler is such an
  interleaving, from the state the constructor leaves on. The results on the constructor are about one
  instance of every IP (the default). Of the DRAM simulator: every request is answered once, with its own address
  and sender; with open rows and parameters as in \<open>safe_config\<close>, which the shipped configuration meets, none of its
  checks ever fails, since controller and ranks keep the same state of every bank; the address map can be inverted;
  and the scheduling GemDroid added chooses as the plain one does. So the simulator provides what the platform assumes of
  it (locale \<open>request_store\<close>, interpreted on DRAMSim2 and on the queue that serves as a reference), and the
  contract of the platform holds with DRAMSim2 in place of the parameter.

  \<^bold>\<open>Bounds and fuel.\<close> The search for a frequency (\<open>slack_scan\<close>) has two rounds more than the table has
  states, and it returns within them. The loops of the CoScale governor have \<open>COSCALE_FUEL\<close> = 32
  rounds; it is shown that they end within them. The loop that lowers the memory frequency, the greedy
  knapsack and the selection of consumers terminate by a measure. The rounds of \<open>CommandQueue::pop\<close> over ranks and
  banks have as many steps as there are pairs of them; \<open>DS_Turn\<close> shows that each round is back where it started
  by then. The loop that crosses clock domains terminates by a measure and fails for a clock of zero, where the
  source would not return.

  \<^bold>\<open>Not modelled.\<close> Of DRAMSim2: the reading of ini files (the parameters are an argument; the
  shipped ones are written out), the stored data (the build leaves it out), log files and printing with the counters
  only they read, and the stand-alone tool. The safety of DRAMSim2 is about open rows; with closed rows the model
  is complete and its conservation of requests is proved, the checks of the ranks are not. Rounding of floating point
  numbers: arithmetic is exact, and a division by zero is 0 except where the model writes out the
  infinity. Printing, with the copies of counters only it reads (\<open>regStats\<close>, the periodic statistics,
  \<open>flowIdToString\<close>, \<open>printArray\<close>), and the functions nothing calls (\<open>dvfsCoScale\<close>, \<open>dvfsCoScaleNew\<close>,
  \<open>leewayAvailable\<close>). The class \<open>GemDroidPower\<close> is empty. The rest of gem5 is the simulator GemDroid is
  loaded into: of it, GemDroid uses the event queue that calls \<open>tick\<close>.
\<close>

end
